(* ===== verification/Prelude.thy ===== *)
theory Prelude
  imports Main "HOL-Library.AList" "HOL-Library.Monad_Syntax"
begin

text \<open>
  Shared vocabulary of the development: the values a column or a JSON field holds,
  Python dictionaries as association lists, the exceptions the code raises, the
  sequencing of fallible steps, and the generic list lemmas the component theories use.
\<close>

named_theorems row_simps \<open>reading and writing dictionary rows\<close>
named_theorems sql_simps \<open>the effect of the SQL primitives on the fields of the store\<close>
named_theorems frame_simps \<open>fields an operation leaves alone\<close>

section \<open>Values, truthiness, equality\<close>

text \<open>
  The values found in a database row or in a JSON row: \<open>VTime\<close> is a naive
  \<open>datetime\<close>, in microseconds since 1970-01-01 on its own wall clock.
\<close>

datatype val = VNull | VBool bool | VInt int | VStr string | VTime int

fun truthy :: "val \<Rightarrow> bool" where
  "truthy VNull = False"
| "truthy (VBool b) = b"
| "truthy (VInt i) = (i \<noteq> 0)"
| "truthy (VStr s) = (s \<noteq> [])"
| "truthy (VTime t) = True"

text \<open>Python's \<open>==\<close> on these values: a bool equals the integer it stands for.\<close>

fun py_eq :: "val \<Rightarrow> val \<Rightarrow> bool" where
  "py_eq (VBool b) (VInt i) = (i = (if b then 1 else 0))"
| "py_eq (VInt i) (VBool b) = (i = (if b then 1 else 0))"
| "py_eq v w = (v = w)"

lemma py_eq_refl [simp]: "py_eq v v"
  by (cases v) auto

lemma py_eq_sym: "py_eq v w = py_eq w v"
  by (cases v; cases w) auto

text \<open>\<open>x or y\<close> on optional strings: the empty string counts as missing.\<close>

definition blank :: "string option \<Rightarrow> bool" where
  "blank x = (case x of None \<Rightarrow> True | Some s \<Rightarrow> s = [])"

definition str_or :: "string option \<Rightarrow> string \<Rightarrow> string" where
  "str_or x d = (if blank x then d else the x)"

lemma blank_simps [simp]: "blank None" "blank (Some s) = (s = [])"
  by (simp_all add: blank_def)

lemma str_or_simps [simp]:
  "str_or None d = d" "s \<noteq> [] \<Longrightarrow> str_or (Some s) d = s" "str_or (Some []) d = d"
  by (simp_all add: str_or_def)

section \<open>Dictionaries\<close>

type_synonym row = "(string \<times> val) list"

text \<open>\<open>d.get(c)\<close>, \<open>c in d\<close> and \<open>d[c] = v\<close>; the list keeps Python's insertion order.\<close>

definition row_get :: "row \<Rightarrow> string \<Rightarrow> val" where
  "row_get r c = (case map_of r c of None \<Rightarrow> VNull | Some v \<Rightarrow> v)"

definition has_col :: "row \<Rightarrow> string \<Rightarrow> bool" where
  "has_col r c = (map_of r c \<noteq> None)"

definition row_set :: "row \<Rightarrow> string \<Rightarrow> val \<Rightarrow> row" where
  "row_set r c v = AList.update c v r"

fun row_update :: "row \<Rightarrow> row \<Rightarrow> row" where
  "row_update r [] = r"
| "row_update r ((c, v) # asg) = row_update (row_set r c v) asg"

lemma row_get_Nil [row_simps, simp]: "row_get [] c = VNull"
  by (simp add: row_get_def)

lemma row_get_Cons [row_simps]:
  "row_get ((c, v) # r) c' = (if c = c' then v else row_get r c')"
  by (simp add: row_get_def)

lemma row_get_set [row_simps, simp]:
  "row_get (row_set r c v) c' = (if c' = c then v else row_get r c')"
  by (simp add: row_get_def row_set_def update_conv)

lemma has_col_Nil [row_simps, simp]: "\<not> has_col [] c"
  by (simp add: has_col_def)

lemma has_col_Cons [row_simps]: "has_col ((c, v) # r) c' = (c = c' \<or> has_col r c')"
  by (simp add: has_col_def)

lemma has_col_set [row_simps, simp]: "has_col (row_set r c v) c' = (c' = c \<or> has_col r c')"
  by (simp add: has_col_def row_set_def update_conv)

lemma has_col_keys: "has_col r c \<longleftrightarrow> c \<in> fst ` set r"
  by (simp add: has_col_def map_of_eq_None_iff)

lemma row_get_map [row_simps]:
  "row_get (map (\<lambda>c. (c, f c)) cs) c = (if c \<in> set cs then f c else VNull)"
  by (induction cs) (auto simp: row_get_Cons)

text \<open>
  Assigning a list of columns: a column that is assigned takes the last value given
  for it, every other column keeps its value.
\<close>

lemma row_get_update:
  "row_get (row_update r asg) c =
     (if c \<in> fst ` set asg then row_get (rev asg) c else row_get r c)"
proof (induction asg arbitrary: r)
  case Nil
  then show ?case by simp
next
  case (Cons a asg)
  obtain k v where a: "a = (k, v)" by (cases a)
  have app: "row_get (xs @ [(k, v)]) c =
      (if has_col xs c then row_get xs c else if k = c then v else VNull)" for xs
    by (simp add: row_get_def has_col_def map_add_def split: option.splits)
  show ?case
    using Cons.IH [of "row_set r k v"]
    by (auto simp: a app has_col_keys)
qed

lemma row_get_update_notin [row_simps]:
  "c \<notin> fst ` set asg \<Longrightarrow> row_get (row_update r asg) c = row_get r c"
  by (simp add: row_get_update)

lemma map_of_rev_distinct: "distinct (map fst xs) \<Longrightarrow> map_of (rev xs) = map_of xs"
proof
  fix c assume d: "distinct (map fst xs)"
  then have d': "distinct (map fst (rev xs))" by (simp add: rev_map [symmetric])
  have "map_of (rev xs) c = Some v \<longleftrightarrow> map_of xs c = Some v" for v
    using map_of_eq_Some_iff [OF d] map_of_eq_Some_iff [OF d'] by simp
  then show "map_of (rev xs) c = map_of xs c"
    by (metis not_None_eq)
qed

lemma row_get_update_in [row_simps]:
  assumes "c \<in> fst ` set asg" "distinct (map fst asg)"
  shows "row_get (row_update r asg) c = row_get asg c"
proof -
  have "map_of (rev asg) c = map_of asg c"
    using assms(2) by (simp add: map_of_rev_distinct)
  then have "row_get (rev asg) c = row_get asg c" by (simp add: row_get_def)
  with assms(1) show ?thesis by (simp add: row_get_update)
qed

lemma row_get_no_col: "\<not> has_col r c \<Longrightarrow> row_get r c = VNull"
  by (simp add: row_get_def has_col_def)

section \<open>Exceptions and fallible steps\<close>

text \<open>
  The exceptions of the source, one constructor per class the code distinguishes.
  \<open>HttpError\<close> and \<open>MergeError\<close> carry the status code and the detail's \<open>code\<close>, or its
  English text; where the source's text is Korean a tag names it.
\<close>

datatype exn =
    ValueError string
  | AttributeError string
  | JWTError string
  | OverflowError
  | DbError string
  | ReceiptPayloadMismatch int
  | HttpError int string
  | MergeErr int string

text \<open>\<open>str(exc)\<close>\<close>

fun exn_str :: "exn \<Rightarrow> string" where
  "exn_str (ValueError m) = m"
| "exn_str (AttributeError m) = m"
| "exn_str (JWTError m) = m"
| "exn_str OverflowError = ''date value out of range''"
| "exn_str (DbError m) = m"
| "exn_str (ReceiptPayloadMismatch n) = ''receipt payload mismatch''"
| "exn_str (HttpError c m) = m"
| "exn_str (MergeErr c m) = m"

text \<open>Running one fallible step after another: the first exception ends the run.\<close>

fun sbind :: "'e + 'a \<Rightarrow> ('a \<Rightarrow> 'e + 'b) \<Rightarrow> 'e + 'b" where
  "sbind (Inl x) f = Inl x"
| "sbind (Inr a) f = f a"

lemma sbind_Inr [simp]: "sbind m f = Inr b \<longleftrightarrow> (\<exists>a. m = Inr a \<and> f a = Inr b)"
  by (cases m) auto

lemma sbind_Inl: "sbind m f = Inl x \<longleftrightarrow> m = Inl x \<or> (\<exists>a. m = Inr a \<and> f a = Inl x)"
  by (cases m) auto

lemma sbind_assoc: "sbind (sbind m f) g = sbind m (\<lambda>a. sbind (f a) g)"
  by (cases m) auto

lemma sbind_return [simp]: "sbind m Inr = m"
  by (cases m) auto

text \<open>A \<open>for\<close> loop whose body may raise, threading a state.\<close>

fun sfold :: "('a \<Rightarrow> 's \<Rightarrow> 'e + 's) \<Rightarrow> 'a list \<Rightarrow> 's \<Rightarrow> 'e + 's" where
  "sfold f [] s = Inr s"
| "sfold f (x # xs) s = sbind (f x s) (sfold f xs)"

lemma sfold_append: "sfold f (xs @ ys) s = sbind (sfold f xs s) (sfold f ys)"
proof (induction xs arbitrary: s)
  case Nil
  then show ?case by simp
next
  case (Cons x xs)
  have eq: "sfold f (xs @ ys) = (\<lambda>a. sbind (sfold f xs a) (sfold f ys))"
    using Cons.IH by (rule ext)
  show ?case by (simp add: sbind_assoc eq)
qed

text \<open>The loop rule: what every pass keeps, the whole loop keeps.\<close>

lemma sfold_invariant:
  assumes "sfold f xs s = Inr s'" and "P s"
    and "\<And>x s s'. x \<in> set xs \<Longrightarrow> P s \<Longrightarrow> f x s = Inr s' \<Longrightarrow> P s'"
  shows "P s'"
  using assms
proof (induction xs arbitrary: s)
  case Nil
  then show ?case by simp
next
  case (Cons x xs)
  then obtain t where "f x s = Inr t" "sfold f xs t = Inr s'" by auto
  with Cons show ?case by (meson list.set_intros(1,2))
qed

section \<open>Strings\<close>

text \<open>
  Strings are UTF-8 byte strings. \<open>cp_take n s\<close> is Python's \<open>s[:n]\<close>: it keeps the first
  \<open>n\<close> code points, a code point being a byte that is no continuation byte together with
  the continuation bytes after it.
\<close>

definition cont_byte :: "char \<Rightarrow> bool" where
  "cont_byte c = (of_char c div 64 = (2 :: nat))"

definition cp_count :: "string \<Rightarrow> nat" where
  "cp_count s = length (filter (\<lambda>c. \<not> cont_byte c) s)"

fun cp_take :: "nat \<Rightarrow> string \<Rightarrow> string" where
  "cp_take n [] = []"
| "cp_take n (c # s) =
     (if cont_byte c then c # cp_take n s
      else case n of 0 \<Rightarrow> [] | Suc m \<Rightarrow> c # cp_take m s)"

lemma cp_count_take: "cp_count (cp_take n s) \<le> n"
  by (induction n s rule: cp_take.induct) (auto simp: cp_count_def split: nat.splits)

lemma cp_take_short: "cp_count s \<le> n \<Longrightarrow> cp_take n s = s"
  by (induction n s rule: cp_take.induct)
    (auto simp: cp_count_def split: nat.splits if_splits)

text \<open>\<open>str.strip()\<close> on the ASCII whitespace characters.\<close>

definition ws_char :: "char \<Rightarrow> bool" where
  "ws_char c = (of_char c \<in> {9, 10, 11, 12, 13, 28, 29, 30, 31, 32 :: nat})"

definition strip :: "string \<Rightarrow> string" where
  "strip s = rev (dropWhile ws_char (rev (dropWhile ws_char s)))"

lemma strip_no_ws:
  assumes "s \<noteq> []" "\<not> ws_char (hd s)" "\<not> ws_char (last s)"
  shows "strip s = s"
proof -
  have "dropWhile ws_char s = s" using assms by (cases s) auto
  moreover have "dropWhile ws_char (rev s) = rev s"
    using assms by (cases "rev s") (auto simp: hd_rev [symmetric])
  ultimately show ?thesis by (simp add: strip_def)
qed

lemma ws_digit [simp]: "\<not> ws_char (CHR ''Z'')" by (simp add: ws_char_def)

section \<open>Lists\<close>

text \<open>\<open>max(..., default=d)\<close>: the SQL \<open>COALESCE(MAX(x), d)\<close> over non-negative columns.\<close>

definition max_or :: "int \<Rightarrow> int list \<Rightarrow> int" where
  "max_or d xs = (case xs of [] \<Rightarrow> d | x # ys \<Rightarrow> foldl max x ys)"

lemma foldl_max_ge: "x \<le> foldl max x ys" for x :: int
proof (induction ys arbitrary: x)
  case (Cons y ys)
  show ?case using Cons.IH [of "max x y"] by simp
qed simp

lemma foldl_max_ge_mem: "y \<in> set ys \<Longrightarrow> y \<le> foldl max x ys" for x :: int
proof (induction ys arbitrary: x)
  case (Cons z zs)
  then show ?case using foldl_max_ge [of "max x z" zs] by auto
qed simp

lemma foldl_max_mem: "foldl max x ys \<in> insert x (set ys)" for x :: int
proof (induction ys arbitrary: x)
  case (Cons z zs)
  show ?case using Cons.IH [of "max x z"] by (auto simp: max_def split: if_splits)
qed simp

lemma max_or_ge: "x \<in> set xs \<Longrightarrow> x \<le> max_or d xs"
  by (cases xs) (auto simp: max_or_def foldl_max_ge foldl_max_ge_mem)

lemma max_or_mem: "xs \<noteq> [] \<Longrightarrow> max_or d xs \<in> set xs"
  using foldl_max_mem by (cases xs) (auto simp: max_or_def)

lemma max_or_Nil [simp]: "max_or d [] = d"
  by (simp add: max_or_def)

lemma find_map_cong:
  "(\<And>x. x \<in> set xs \<Longrightarrow> P (f x) = P x) \<Longrightarrow> find P (map f xs) = map_option f (find P xs)"
  by (induction xs) auto

lemma find_append:
  "find P (xs @ ys) = (case find P xs of None \<Rightarrow> find P ys | Some x \<Rightarrow> Some x)"
  by (induction xs) auto

lemma find_SomeD: "find P xs = Some x \<Longrightarrow> x \<in> set xs \<and> P x"
  by (auto simp: find_Some_iff)

lemma find_None: "find P xs = None \<longleftrightarrow> (\<forall>x \<in> set xs. \<not> P x)"
  by (auto simp: find_None_iff)

lemma set_map_filter: "set (List.map_filter f xs) = {y. \<exists>x \<in> set xs. f x = Some y}"
  by (induction xs) (auto simp: map_filter_simps split: option.splits)

end
