(* ===== verification/Timeutil.thy ===== *)
theory Timeutil
  imports Prelude
begin

text \<open>
  \<^verbatim>\<open>src/timeutil.py\<close>: instants, their ISO-8601 wire form and the Asia/Seoul label.

  A \<open>datetime\<close> is its wall clock, in microseconds since 1970-01-01T00:00:00 on that
  clock, and the UTC offset in seconds when it is aware. The part of the standard
  library the file uses is written out: the proleptic Gregorian calendar, \<open>isoformat\<close>,
  \<open>astimezone\<close> with its range check, and \<open>fromisoformat\<close> on the extended calendar
  format (\<open>YYYY-MM-DD\<close>, any separator, \<open>HH:MM[:SS[.f+]]\<close>, \<open>Z\<close> or \<open>+HH:MM[:SS]\<close>). The
  basic and the week-date formats of \<open>fromisoformat\<close> are read as a \<open>ValueError\<close>.
  The main result is that writing an instant and reading it back gives the instant.
\<close>

section \<open>The calendar of the standard library\<close>

definition leap :: "int \<Rightarrow> bool" where
  "leap y = (y mod 4 = 0 \<and> (y mod 100 \<noteq> 0 \<or> y mod 400 = 0))"

definition days_in_month :: "int \<Rightarrow> int \<Rightarrow> int" where
  "days_in_month y m =
     (if m = 2 then (if leap y then 29 else 28)
      else if m \<in> {4, 6, 9, 11} then 30 else 31)"

definition days_before_month :: "int \<Rightarrow> int \<Rightarrow> int" where
  "days_before_month y m =
     (let l = (if leap y then 1 else 0)
      in if m = 1 then 0 else if m = 2 then 31 else if m = 3 then 59 + l
      else if m = 4 then 90 + l else if m = 5 then 120 + l else if m = 6 then 151 + l
      else if m = 7 then 181 + l else if m = 8 then 212 + l else if m = 9 then 243 + l
      else if m = 10 then 273 + l else if m = 11 then 304 + l else 334 + l)"

definition days_before_year :: "int \<Rightarrow> int" where
  "days_before_year y =
     (y - 1) * 365 + (y - 1) div 4 - (y - 1) div 100 + (y - 1) div 400"

definition ymd2ord :: "int \<Rightarrow> int \<Rightarrow> int \<Rightarrow> int" where
  "ymd2ord y m d = days_before_year y + days_before_month y m + d"

text \<open>The month and day of the \<open>r\<close>-th day (from 0) of year \<open>y\<close>.\<close>

definition month_day :: "int \<Rightarrow> int \<Rightarrow> int \<times> int" where
  "month_day y r =
     (let l = (if leap y then 1 else 0) in
      if r < 31 then (1, r + 1) else if r < 59 + l then (2, r - 30)
      else if r < 90 + l then (3, r - 58 - l) else if r < 120 + l then (4, r - 89 - l)
      else if r < 151 + l then (5, r - 119 - l) else if r < 181 + l then (6, r - 150 - l)
      else if r < 212 + l then (7, r - 180 - l) else if r < 243 + l then (8, r - 211 - l)
      else if r < 273 + l then (9, r - 242 - l) else if r < 304 + l then (10, r - 272 - l)
      else if r < 334 + l then (11, r - 303 - l) else (12, r - 333 - l))"

text \<open>Days are split into 400-, 100-, 4- and 1-year cycles, as \<open>date.fromordinal\<close> does.\<close>

definition ord2ymd :: "int \<Rightarrow> int \<times> int \<times> int" where
  "ord2ymd n =
     (let n0 = n - 1; a = n0 div 146097; r1 = n0 mod 146097;
          b = r1 div 36524; r2 = r1 mod 36524;
          c = r2 div 1461; r3 = r2 mod 1461;
          d = r3 div 365; r4 = r3 mod 365;
          y = a * 400 + b * 100 + c * 4 + d + 1
      in if d = 4 \<or> b = 4 then (y - 1, 12, 31) else (y, month_day y r4))"

lemma month_day_valid:
  assumes "0 \<le> r" "r < 365 + (if leap y then 1 else 0)" "month_day y r = (m, d)"
  shows "1 \<le> m" "m \<le> 12" "1 \<le> d" "d \<le> days_in_month y m"
    "days_before_month y m + d = r + 1"
  using assms
  by (auto simp: month_day_def days_in_month_def days_before_month_def Let_def
      split: if_splits)

lemma cycle_year:
  fixes a b c d :: int
  assumes "0 \<le> b" "b \<le> 3" "0 \<le> c" "c \<le> 24" "0 \<le> d" "d \<le> 3"
  shows "days_before_year (a * 400 + b * 100 + c * 4 + d + 1)
           = 146097 * a + 36524 * b + 1461 * c + 365 * d"
    and "leap (a * 400 + b * 100 + c * 4 + d + 1) \<longleftrightarrow> d = 3 \<and> (c \<noteq> 24 \<or> b = 3)"
proof -
  let ?y = "a * 400 + b * 100 + c * 4 + d"
  have q4: "?y div 4 = a * 100 + b * 25 + c"
    using assms by (auto intro: int_div_pos_eq [where r = d])
  have q100: "?y div 100 = a * 4 + b"
    by (rule int_div_pos_eq [where r = "c * 4 + d"]) (use assms in auto)
  have q400: "?y div 400 = a"
    by (rule int_div_pos_eq [where r = "b * 100 + c * 4 + d"]) (use assms in auto)
  show "days_before_year (?y + 1) = 146097 * a + 36524 * b + 1461 * c + 365 * d"
    using q4 q100 q400 by (simp add: days_before_year_def)
  show "leap (?y + 1) \<longleftrightarrow> d = 3 \<and> (c \<noteq> 24 \<or> b = 3)"
  proof (cases "d = 3")
    case False
    then have "(?y + 1) mod 4 = d + 1"
      using assms by (intro int_mod_pos_eq [where q = "a * 100 + b * 25 + c"]) auto
    with False assms show ?thesis by (simp add: leap_def)
  next
    case True
    have m4: "(?y + 1) mod 4 = 0" using True by presburger
    have m100: "(?y + 1) mod 100 = (if c = 24 then 0 else c * 4 + 4)"
      using True assms
      by (auto intro!: int_mod_pos_eq [where q = "if c = 24 then a * 4 + b + 1 else a * 4 + b"])
    have m400: "(?y + 1) mod 400 = (if c = 24 \<and> b = 3 then 0 else b * 100 + c * 4 + 4)"
      using True assms
      by (auto intro!: int_mod_pos_eq [where q = "if c = 24 \<and> b = 3 then a + 1 else a"])
    show ?thesis unfolding leap_def m4 m100 m400 using True assms by auto
  qed
qed

lemma ymd2ord_ord2ymd:
  assumes "ord2ymd n = (y, m, d)"
  shows "ymd2ord y m d = n \<and> 1 \<le> m \<and> m \<le> 12 \<and> 1 \<le> d \<and> d \<le> days_in_month y m"
proof -
  define n0 a r1 b r2 c r3 e r4 where
    "n0 = n - 1" "a = n0 div 146097" "r1 = n0 mod 146097"
    "b = r1 div 36524" "r2 = r1 mod 36524" "c = r2 div 1461" "r3 = r2 mod 1461"
    "e = r3 div 365" "r4 = r3 mod 365"
  note defs = this
  define yy where "yy = a * 400 + b * 100 + c * 4 + e + 1"
  have eqs: "n0 = 146097 * a + r1" "r1 = 36524 * b + r2" "r2 = 1461 * c + r3"
    "r3 = 365 * e + r4"
    by (simp_all add: defs)
  have r: "0 \<le> r1" "r1 < 146097" "0 \<le> r2" "r2 < 36524" "0 \<le> r3" "r3 < 1461" "0 \<le> r4" "r4 < 365"
    by (simp_all add: defs)
  have nn: "0 \<le> b" "0 \<le> c" "0 \<le> e"
    using r(1,3,5) unfolding defs(4,6,8) by (simp_all only: pos_imp_zdiv_nonneg_iff zero_less_numeral)
  have b4: "b \<le> 4" and c24: "c \<le> 24" and e4: "e \<le> 4" using eqs r nn by linarith+
  have val: "(if e = 4 \<or> b = 4 then (yy - 1, 12, 31) else (yy, month_day yy r4)) = (y, m, d)"
    using assms by (simp only: ord2ymd_def Let_def defs yy_def)
  show ?thesis
  proof (cases "e = 4 \<or> b = 4")
    case False
    then have lim: "b \<le> 3" "e \<le> 3" using b4 e4 by auto
    note cy = cycle_year [of b c e a, OF nn(1) lim(1) nn(2) c24 nn(3) lim(2), folded yy_def]
    from False val have y: "y = yy" and md: "month_day yy r4 = (m, d)" by auto
    have "r4 < 365 + (if leap yy then 1 else 0)" using r by auto
    from month_day_valid [OF r(7) this md] show ?thesis
      using cy(1) eqs y by (auto simp: ymd2ord_def defs(1))
  next
    case True
    with val have v: "y = yy - 1" "m = 12" "d = 31" by auto
    show ?thesis
    proof (cases "b = 4")
      case True
      then have "c = 0" "e = 0" "r4 = 0" using eqs r nn by linarith+
      then have "y = a * 400 + 3 * 100 + 24 * 4 + 3 + 1" using v True by (simp add: yy_def)
      moreover have "n = 146097 * a + 36524 * 3 + 1461 * 24 + 365 * 3 + 366"
        using eqs True \<open>c = 0\<close> \<open>e = 0\<close> \<open>r4 = 0\<close> by (simp add: defs(1))
      ultimately show ?thesis
        using cycle_year [of 3 24 3 a] v
        by (simp add: ymd2ord_def days_before_month_def days_in_month_def)
    next
      case False
      with True have "e = 4" by simp
      then have "r4 = 0" using eqs r by linarith
      have lim: "b \<le> 3" using b4 False by simp
      have y3: "y = a * 400 + b * 100 + c * 4 + 3 + 1" using v \<open>e = 4\<close> by (simp add: yy_def)
      have lp: "c \<noteq> 24 \<or> b = 3"
        using eqs r \<open>e = 4\<close> \<open>r4 = 0\<close> lim nn by linarith
      have "n = 146097 * a + 36524 * b + 1461 * c + 365 * 3 + 366"
        using eqs \<open>e = 4\<close> \<open>r4 = 0\<close> by (simp add: defs(1))
      then show ?thesis
        using cycle_year [of b c 3 a] nn lim c24 v y3 lp
        by (simp add: ymd2ord_def days_before_month_def days_in_month_def)
    qed
  qed
qed


section \<open>Instants\<close>

record datetime =
  wall :: int
  tzoff :: "int option"

definition us_day :: int where "us_day = 86400000000"

abbreviation naive :: "int \<Rightarrow> datetime" where
  "naive w \<equiv> \<lparr>wall = w, tzoff = None\<rparr>"

text \<open>Seconds of the offset of \<open>Asia/Seoul\<close>.\<close>

definition KST :: int where "KST = 9 * 3600"

text \<open>Years 1 to 9999: what a \<open>datetime\<close> can hold.\<close>

definition in_range :: "int \<Rightarrow> bool" where
  "in_range w = (- 719162 * us_day \<le> w \<and> w < 2932897 * us_day)"

definition microsecond :: "int \<Rightarrow> int" where
  "microsecond w = w mod 1000000"

definition truncate_ms :: "int \<Rightarrow> int" where
  "truncate_ms w = w - microsecond w + (microsecond w div 1000) * 1000"

text \<open>\<open>utcnow_naive()\<close> and \<open>localnow_naive()\<close> at a reading of the clock (UTC microseconds).\<close>

definition utcnow_naive :: "int \<Rightarrow> int" where
  "utcnow_naive reading = truncate_ms reading"

definition localnow_naive :: "int \<Rightarrow> int" where
  "localnow_naive reading = truncate_ms (reading + KST * 1000000)"

text \<open>\<open>astimezone\<close> of an aware value: the same object when the offset is already the one asked.\<close>

definition astimezone :: "int \<Rightarrow> int \<Rightarrow> int \<Rightarrow> exn + int" where
  "astimezone w off new =
     (if off = new then Inr w
      else let u = w - off * 1000000; v = u + new * 1000000
           in if in_range u \<and> in_range v then Inr v else Inl OverflowError)"

definition as_utc_naive :: "datetime option \<Rightarrow> int \<Rightarrow> exn + int option" where
  "as_utc_naive value assume_off =
     (case value of None \<Rightarrow> Inr None
      | Some d \<Rightarrow>
          let off = (case tzoff d of None \<Rightarrow> assume_off | Some z \<Rightarrow> z)
          in sbind (astimezone (wall d) off 0) (\<lambda>w. Inr (Some (truncate_ms w))))"

lemma truncate_ms_alt: "truncate_ms w = w - w mod 1000"
proof -
  have "w mod 1000000 mod 1000 = w mod (1000 :: int)"
    by (simp add: mod_mod_cancel)
  then show ?thesis
    using div_mult_mod_eq [of "w mod 1000000" 1000]
    by (simp add: truncate_ms_def microsecond_def)
qed

lemma truncate_ms_mult: "truncate_ms w = w div 1000 * 1000"
  by (simp add: truncate_ms_alt minus_mod_eq_div_mult)

lemma truncate_ms_dvd [simp]: "1000 dvd truncate_ms w"
  by (simp add: truncate_ms_mult)

lemma truncate_ms_id: "1000 dvd w \<Longrightarrow> truncate_ms w = w"
  by (simp add: truncate_ms_mult)

lemma truncate_ms_idem [simp]: "truncate_ms (truncate_ms w) = truncate_ms w"
  by (simp add: truncate_ms_id)

lemma truncate_ms_le: "truncate_ms w \<le> w"
  by (simp add: truncate_ms_alt)

lemma truncate_ms_mono: "v \<le> w \<Longrightarrow> truncate_ms v \<le> truncate_ms w"
  by (simp add: truncate_ms_mult zdiv_mono1)

section \<open>Writing: isoformat\<close>

definition digit_char :: "int \<Rightarrow> char" where
  "digit_char k = char_of (48 + nat k)"

fun digs :: "nat \<Rightarrow> int \<Rightarrow> string" where
  "digs 0 k = []"
| "digs (Suc n) k = digs n (k div 10) @ [digit_char (k mod 10)]"

text \<open>The calendar date and the time of day of a wall clock.\<close>

definition date_of :: "int \<Rightarrow> int \<times> int \<times> int" where
  "date_of w = ord2ymd (w div us_day + 719163)"

definition hour_of :: "int \<Rightarrow> int" where "hour_of w = w mod us_day div 3600000000"
definition minute_of :: "int \<Rightarrow> int" where "minute_of w = w mod us_day div 60000000 mod 60"
definition second_of :: "int \<Rightarrow> int" where "second_of w = w mod us_day div 1000000 mod 60"
definition milli_of :: "int \<Rightarrow> int" where "milli_of w = w mod 1000000 div 1000"

definition isoformat_ms :: "int \<Rightarrow> string" where
  "isoformat_ms w =
     (case date_of w of (y, m, d) \<Rightarrow>
        digs 4 y @ ''-'' @ digs 2 m @ ''-'' @ digs 2 d @ ''T'' @
        digs 2 (hour_of w) @ '':'' @ digs 2 (minute_of w) @ '':'' @
        digs 2 (second_of w) @ ''.'' @ digs 3 (milli_of w))"

definition iso_utc :: "datetime option \<Rightarrow> exn + string option" where
  "iso_utc value =
     (case value of None \<Rightarrow> Inr None
      | Some d \<Rightarrow>
          sbind (case tzoff d of None \<Rightarrow> Inr (wall d) | Some z \<Rightarrow> astimezone (wall d) z 0)
            (\<lambda>w. Inr (Some (isoformat_ms (truncate_ms w) @ ''Z''))))"

text \<open>A value read from the database is naive: \<open>iso_utc\<close> cannot raise on it.\<close>

definition iso_db :: "int \<Rightarrow> string" where
  "iso_db w = isoformat_ms (truncate_ms w) @ ''Z''"

lemma iso_utc_naive [simp]: "iso_utc (Some (naive w)) = Inr (Some (iso_db w))"
  by (simp add: iso_utc_def iso_db_def)

lemma iso_db_nonempty [simp]: "iso_db w \<noteq> []"
  by (simp add: iso_db_def)

section \<open>Reading: fromisoformat\<close>

definition digit_val :: "char \<Rightarrow> int option" where
  "digit_val c = (let n = of_char c :: nat in
     if 48 \<le> n \<and> n \<le> 57 then Some (int (n - 48)) else None)"

fun read_num :: "nat \<Rightarrow> int \<Rightarrow> string \<Rightarrow> (int \<times> string) option" where
  "read_num 0 acc s = Some (acc, s)"
| "read_num (Suc n) acc [] = None"
| "read_num (Suc n) acc (c # s) =
     (case digit_val c of None \<Rightarrow> None | Some v \<Rightarrow> read_num n (10 * acc + v) s)"

fun expect :: "char \<Rightarrow> string \<Rightarrow> string option" where
  "expect k [] = None"
| "expect k (c # s) = (if c = k then Some s else None)"

definition read_date :: "string \<Rightarrow> (int \<times> string) option" where
  "read_date s = do {
     (y, s1) \<leftarrow> read_num 4 0 s; s2 \<leftarrow> expect (CHR ''-'') s1;
     (m, s3) \<leftarrow> read_num 2 0 s2; s4 \<leftarrow> expect (CHR ''-'') s3;
     (d, s5) \<leftarrow> read_num 2 0 s4;
     if 1 \<le> y \<and> 1 \<le> m \<and> m \<le> 12 \<and> 1 \<le> d \<and> d \<le> days_in_month y m
     then Some ((ymd2ord y m d - 719163) * us_day, s5) else None }"

text \<open>A fraction has at least one digit; digits after the sixth are dropped.\<close>

fun read_frac :: "nat \<Rightarrow> int \<Rightarrow> string \<Rightarrow> int \<times> string" where
  "read_frac n acc [] = (acc * 10 ^ n, [])"
| "read_frac n acc (c # s) =
     (case digit_val c of None \<Rightarrow> (acc * 10 ^ n, c # s)
      | Some v \<Rightarrow> (case n of 0 \<Rightarrow> read_frac 0 acc s | Suc k \<Rightarrow> read_frac k (10 * acc + v) s))"

definition read_seconds :: "string \<Rightarrow> (int \<times> string) option" where
  "read_seconds s =
     (case s of
        c # t \<Rightarrow> (if c \<noteq> CHR '':'' then Some (0, s) else do {
            (sec, t1) \<leftarrow> read_num 2 0 t;
            if 59 < sec then None else
            (case t1 of
               f # t2 \<Rightarrow>
                 if f \<noteq> CHR ''.'' \<and> f \<noteq> CHR '','' then Some (sec * 1000000, t1)
                 else (case t2 of [] \<Rightarrow> None
                   | g # _ \<Rightarrow> (if digit_val g = None then None
                       else case read_frac 6 0 t2 of (us, t3) \<Rightarrow> Some (sec * 1000000 + us, t3)))
             | [] \<Rightarrow> Some (sec * 1000000, [])) })
      | [] \<Rightarrow> Some (0, []))"

definition read_clock :: "string \<Rightarrow> (int \<times> string) option" where
  "read_clock s = do {
     (h, s1) \<leftarrow> read_num 2 0 s; s2 \<leftarrow> expect (CHR '':'') s1;
     (m, s3) \<leftarrow> read_num 2 0 s2;
     (us, s4) \<leftarrow> read_seconds s3;
     if h \<le> 23 \<and> m \<le> 59 then Some ((h * 60 + m) * 60000000 + us, s4) else None }"

definition read_offset :: "string \<Rightarrow> int option option" where
  "read_offset s =
     (case s of [] \<Rightarrow> Some None
      | c # t \<Rightarrow>
          if c = CHR ''Z'' then (if t = [] then Some (Some 0) else None)
          else if c = CHR ''+'' \<or> c = CHR ''-'' then do {
            (us, t1) \<leftarrow> read_clock t;
            if t1 = [] \<and> us mod 1000000 = 0
            then Some (Some ((if c = CHR ''-'' then -1 else 1) * (us div 1000000))) else None }
          else None)"

definition fromisoformat :: "string \<Rightarrow> datetime option" where
  "fromisoformat s = do {
     (day, s1) \<leftarrow> read_date s;
     (case s1 of [] \<Rightarrow> Some (naive day)
      | _ # s2 \<Rightarrow> do {
          (us, s3) \<leftarrow> read_clock s2;
          z \<leftarrow> read_offset s3;
          Some \<lparr>wall = day + us, tzoff = z\<rparr> }) }"

definition parse_iso_utc :: "string option \<Rightarrow> exn + int option" where
  "parse_iso_utc raw =
     (case raw of None \<Rightarrow> Inr None
      | Some r \<Rightarrow>
          let text = strip r in
          if text = [] then Inr None
          else let text' = (if last text \<in> {CHR ''Z'', CHR ''z''}
                            then butlast text @ ''+00:00'' else text)
               in (case fromisoformat text' of
                     None \<Rightarrow> Inl (ValueError (''Invalid ISO-8601 datetime: '' @ r))
                   | Some d \<Rightarrow> as_utc_naive (Some d) 0))"

text \<open>\<open>kst_label\<close>: month, day, hour and minute on the Asia/Seoul clock.\<close>

definition kst_label :: "datetime option \<Rightarrow> exn + string" where
  "kst_label value =
     (case value of None \<Rightarrow> Inr ''-''
      | Some d \<Rightarrow>
          sbind (astimezone (wall d) (case tzoff d of None \<Rightarrow> 0 | Some z \<Rightarrow> z) KST)
            (\<lambda>w. case date_of w of (_, m, dd) \<Rightarrow>
               Inr (digs 2 m @ ''-'' @ digs 2 dd @ '' '' @ digs 2 (hour_of w) @ '':'' @
                    digs 2 (minute_of w))))"


section \<open>Writing and reading back\<close>

lemma digit_val_char [simp]:
  assumes "0 \<le> k" "k < 10"
  shows "digit_val (digit_char k) = Some k"
proof -
  have "nat k < 10" using assms by simp
  then have "(of_char (char_of (48 + nat k)) :: nat) = 48 + nat k"
    by (simp add: of_char_of)
  with assms show ?thesis by (simp add: digit_val_def digit_char_def Let_def)
qed

lemma length_digs [simp]: "length (digs n k) = n"
  by (induction n arbitrary: k) auto

lemma read_num_append:
  "read_num (m + n) acc s = do { (a, t) \<leftarrow> read_num m acc s; read_num n a t }"
proof (induction m arbitrary: acc s)
  case (Suc m)
  then show ?case by (cases s) (auto split: option.splits)
qed simp

lemma read_num_digs:
  assumes "0 \<le> k" "k < 10 ^ n"
  shows "read_num n acc (digs n k @ rest) = Some (acc * 10 ^ n + k, rest)"
  using assms
proof (induction n arbitrary: k rest)
  case (Suc n)
  have k: "0 \<le> k div 10" "k div 10 < 10 ^ n" using Suc.prems by auto
  have m: "0 \<le> k mod 10" "k mod 10 < 10" by auto
  have "read_num (n + 1) acc (digs n (k div 10) @ digit_char (k mod 10) # rest)
      = Some ((acc * 10 ^ n + k div 10) * 10 + k mod 10, rest)"
    unfolding read_num_append using Suc.IH [OF k] m by simp
  then show ?case by (simp add: algebra_simps)
qed simp

lemmas read_num_digs0 = read_num_digs [where acc = 0, simplified]

lemma us_day_pos [simp]: "0 < us_day" by (simp add: us_day_def)

lemma clock_bounds:
  "0 \<le> hour_of w" "hour_of w < 24" "0 \<le> minute_of w" "minute_of w < 60"
  "0 \<le> second_of w" "second_of w < 60" "0 \<le> milli_of w" "milli_of w < 1000"
proof -
  have r: "0 \<le> w mod us_day" "w mod us_day < 86400000000" by (auto simp: us_day_def)
  then show "0 \<le> hour_of w" "hour_of w < 24"
    by (auto simp: hour_of_def pos_imp_zdiv_nonneg_iff)
  show "0 \<le> milli_of w" "milli_of w < 1000" by (auto simp: milli_of_def pos_imp_zdiv_nonneg_iff)
qed (auto simp: minute_of_def second_of_def)

lemma clock_split:
  "(hour_of w * 60 + minute_of w) * 60000000 + second_of w * 1000000 + milli_of w * 1000
     = truncate_ms w - w div us_day * us_day"
proof -
  define r where "r = w mod us_day"
  have h: "hour_of w = r div 60000000 div 60"
    by (simp add: hour_of_def r_def zdiv_zmult2_eq [symmetric])
  have hm: "hour_of w * 60 + minute_of w = r div 60000000"
    by (simp add: h minute_of_def r_def)
  have "r div 60000000 = r div 1000000 div 60" by (simp add: zdiv_zmult2_eq [symmetric])
  then have hms: "(hour_of w * 60 + minute_of w) * 60 + second_of w = r div 1000000"
    by (simp add: hm second_of_def r_def)
  have mm: "w mod 1000000 = r mod 1000000"
    by (simp add: r_def us_day_def mod_mod_cancel)
  have "r div 1000000 * 1000000 + milli_of w * 1000 = truncate_ms r"
    by (simp add: milli_of_def mm truncate_ms_def microsecond_def minus_mod_eq_div_mult)
  moreover have "truncate_ms w = truncate_ms r + w div us_day * us_day"
  proof -
    have "w mod 1000 = r mod 1000" by (simp add: r_def us_day_def mod_mod_cancel)
    then show ?thesis using div_mult_mod_eq [of w us_day] by (simp add: truncate_ms_alt r_def)
  qed
  ultimately show ?thesis using hms by (simp add: algebra_simps)
qed

lemma days_before_year_mono:
  assumes "y \<le> z"
  shows "days_before_year y \<le> days_before_year z"
proof -
  define a b where "a = y - 1" "b = z - 1"
  have ab: "a \<le> b" using assms by (simp add: a_b_def)
  have "b div 100 \<le> a div 100 + (b - a)" using ab by linarith
  moreover have "a div 4 \<le> b div 4" "a div 400 \<le> b div 400" using ab by (simp_all add: zdiv_mono1)
  ultimately show ?thesis using ab by (simp add: days_before_year_def a_b_def)
qed

lemma date_of_valid:
  assumes "in_range w" "date_of w = (y, m, d)"
  shows "1 \<le> y" "y \<le> 9999" "1 \<le> m" "m \<le> 12" "1 \<le> d" "d \<le> days_in_month y m"
    "(ymd2ord y m d - 719163) * us_day = w div us_day * us_day"
proof -
  define n where "n = w div us_day + 719163"
  have n: "1 \<le> n" "n \<le> 3652059"
    using assms(1) unfolding in_range_def n_def
    by (auto simp: us_day_def)
  have v: "ymd2ord y m d = n" "1 \<le> m" "m \<le> 12" "1 \<le> d" "d \<le> days_in_month y m"
    using ymd2ord_ord2ymd [of n y m d] assms(2) by (auto simp: date_of_def n_def)
  then show "1 \<le> m" "m \<le> 12" "1 \<le> d" "d \<le> days_in_month y m" by auto
  show "(ymd2ord y m d - 719163) * us_day = w div us_day * us_day"
    by (simp add: v(1) n_def)
  have dm: "days_before_month y m + d \<le> 366"
    using v(2-5) by (auto simp: days_before_month_def days_in_month_def Let_def split: if_splits)
  have dp: "1 \<le> days_before_month y m + d"
    using v(4) by (auto simp: days_before_month_def Let_def)
  show "1 \<le> y"
  proof (rule ccontr)
    assume "\<not> 1 \<le> y"
    then have "days_before_year y \<le> days_before_year 0" by (intro days_before_year_mono) auto
    with v(1) dm n show False by (simp add: ymd2ord_def days_before_year_def)
  qed
  show "y \<le> 9999"
  proof (rule ccontr)
    assume "\<not> y \<le> 9999"
    then have "days_before_year 10000 \<le> days_before_year y"
      by (intro days_before_year_mono) auto
    with v(1) dp n show False by (simp add: ymd2ord_def days_before_year_def)
  qed
qed

text \<open>
  Reading a written instant, with the \<open>Z\<close> replaced by \<open>+00:00\<close> as \<open>parse_iso_utc\<close> does,
  gives the instant cut to the millisecond.
\<close>

lemma read_frac_digits:
  assumes "0 \<le> a" "a < 10" "0 \<le> b" "b < 10" "0 \<le> c" "c < 10" "rest = [] \<or> digit_val (hd rest) = None"
  shows "read_frac 6 0 (digit_char a # digit_char b # digit_char c # rest) = (((a * 10 + b) * 10 + c) * 1000, rest)"
proof -
  have d: "digit_val (digit_char a) = Some a" "digit_val (digit_char b) = Some b" "digit_val (digit_char c) = Some c"
    using assms by simp_all
  have "read_frac 3 n rest = (n * 10 ^ 3, rest)" for n
    using assms(7) by (cases rest) auto
  then show ?thesis by (simp add: d eval_nat_numeral)
qed

lemma read_frac_milli_gen:
  assumes "0 \<le> k" "k < 1000" "rest = [] \<or> digit_val (hd rest) = None"
  shows "read_frac 6 0 (digs 3 k @ rest) = (k * 1000, rest)"
proof -
  have k: "0 \<le> k div 10 div 10" "k div 10 div 10 < 10" using assms by auto
  have "((k div 10 div 10) mod 10 * 10 + k div 10 mod 10) * 10 + k mod 10 = k"
    by (simp only: mod_pos_pos_trivial [OF k(1,2)] div_mult_mod_eq)
  moreover have "digs 3 k @ rest = digit_char (k div 10 div 10 mod 10) # digit_char (k div 10 mod 10) #
      digit_char (k mod 10) # rest"
    by (simp add: numeral_3_eq_3)
  ultimately show ?thesis
    using read_frac_digits [of "k div 10 div 10 mod 10" "k div 10 mod 10" "k mod 10" rest, OF _ _ _ _ _ _ assms(3)]
    by (simp only: pos_mod_bound pos_mod_sign zero_less_numeral simp_thms)
qed

lemma read_frac_milli:
  "0 \<le> k \<Longrightarrow> k < 1000 \<Longrightarrow> digit_val c = None \<Longrightarrow>
     read_frac 6 0 (digs 3 k @ c # rest) = (k * 1000, c # rest)"
  using read_frac_milli_gen [of k "c # rest"] by simp

lemma read_frac_milli_end:
  "0 \<le> k \<Longrightarrow> k < 1000 \<Longrightarrow> read_frac 6 0 (digs 3 k) = (k * 1000, [])"
  using read_frac_milli_gen [of k "[]"] by simp

lemma digit_val_punct [simp]:
  "digit_val (CHR ''+'') = None" "digit_val (CHR '':'') = None" "digit_val (CHR ''.'') = None"
  by (simp_all add: digit_val_def Let_def)

lemma fromisoformat_isoformat:
  assumes "in_range w"
  shows "fromisoformat (isoformat_ms w @ ''+00:00'') =
           Some \<lparr>wall = truncate_ms w, tzoff = Some 0\<rparr>"
proof -
  obtain y m d where dt: "date_of w = (y, m, d)" by (cases "date_of w")
  note v = date_of_valid [OF assms dt]
  have dim: "d < 100" using v(6) by (auto simp: days_in_month_def split: if_splits)
  note b = clock_bounds [of w]
  have off: "read_offset ''+00:00'' = Some (Some 0)"
    by (simp add: read_offset_def read_clock_def read_seconds_def numeral_eq_Suc digit_val_def)
  obtain g t where gt: "digs 3 (milli_of w) = g # t" "digit_val g \<noteq> None"
    using b by (simp add: numeral_eq_Suc)
  have "read_frac 6 0 (digs 3 (milli_of w) @ ''+00:00'') = (milli_of w * 1000, ''+00:00'')"
    using b by (simp add: read_frac_milli)
  note frac = this [unfolded gt(1) append_Cons]
  have secs: "read_seconds ('':'' @ digs 2 (second_of w) @ ''.'' @ digs 3 (milli_of w) @ ''+00:00'')
      = Some (second_of w * 1000000 + milli_of w * 1000, ''+00:00'')"
    using b gt frac
    by (auto simp: read_seconds_def read_num_digs0 simp del: read_frac.simps)
  have clock: "read_clock (digs 2 (hour_of w) @ '':'' @ digs 2 (minute_of w) @ '':'' @
        digs 2 (second_of w) @ ''.'' @ digs 3 (milli_of w) @ ''+00:00'')
      = Some ((hour_of w * 60 + minute_of w) * 60000000 +
          (second_of w * 1000000 + milli_of w * 1000), ''+00:00'')"
    using b secs by (simp add: read_clock_def read_num_digs0)
  have date: "read_date (digs 4 y @ ''-'' @ digs 2 m @ ''-'' @ digs 2 d @ rest)
      = Some (w div us_day * us_day, rest)" for rest
    using v dim by (simp add: read_date_def read_num_digs0)
  show ?thesis
    using clock off clock_split [of w]
    by (simp add: fromisoformat_def isoformat_ms_def dt date [simplified])
qed

lemma not_ws_digit: "0 \<le> k \<Longrightarrow> k < 10 \<Longrightarrow> \<not> ws_char (digit_char k)"
proof -
  assume k: "0 \<le> k" "k < 10"
  then have "(of_char (digit_char k) :: nat) = 48 + nat k"
    by (simp add: digit_char_def of_char_of)
  with k show ?thesis by (auto simp: ws_char_def)
qed

lemma isoformat_shape: "\<exists>c t. isoformat_ms w = c # t \<and> \<not> ws_char c"
proof -
  obtain y m d where dt: "date_of w = (y, m, d)" by (cases "date_of w")
  show ?thesis
    using not_ws_digit [of "y div 10 div 10 div 10 mod 10"]
    by (simp add: isoformat_ms_def dt numeral_eq_Suc)
qed

lemma parse_iso_db:
  assumes "in_range w"
  shows "parse_iso_utc (Some (iso_db w)) = Inr (Some (truncate_ms w))"
proof -
  have r: "in_range (truncate_ms w)"
  proof -
    have "-719162 * us_day = truncate_ms (-719162 * us_day)"
      by (simp add: us_day_def truncate_ms_id)
    then have "-719162 * us_day \<le> truncate_ms w"
      using assms truncate_ms_mono unfolding in_range_def by metis
    with assms show ?thesis using truncate_ms_le [of w] by (auto simp: in_range_def)
  qed
  obtain c t where ct: "isoformat_ms (truncate_ms w) = c # t" "\<not> ws_char c"
    using isoformat_shape by blast
  have st: "strip (iso_db w) = iso_db w"
    by (rule strip_no_ws) (simp_all add: iso_db_def ct)
  have ne: "iso_db w \<noteq> []" by (simp add: iso_db_def)
  have l: "last (iso_db w) = CHR ''Z''" "butlast (iso_db w) = isoformat_ms (truncate_ms w)"
    by (simp_all add: iso_db_def)
  show ?thesis
    using fromisoformat_isoformat [OF r] st ne l
    by (simp add: parse_iso_utc_def Let_def as_utc_naive_def astimezone_def)
qed

end
