(* ===== verification/Sync_Schema.thy ===== *)
theory Sync_Schema
  imports Prelude
begin

text \<open>
  \<^verbatim>\<open>src/sync_schema.py\<close>: the four synchronised tables, their column whitelists, foreign-key
  parents and duplicate axes, the schema version, and the column negotiation of a schema
  drift. A table of \<open>SYNC_TABLES\<close> is a constructor of \<open>tbl\<close>; a name from the wire is a
  string and \<open>tbl_of\<close> says whether it is one of them. Unicode NFC is a parameter.
\<close>

datatype tbl = Projects | Memos | Memo_versions | Project_members

definition SCHEMA_VERSION :: int where "SCHEMA_VERSION = 2"

definition SYNC_TABLE_ORDER :: "tbl list" where
  "SYNC_TABLE_ORDER = [Projects, Memos, Memo_versions, Project_members]"

fun tbl_name :: "tbl \<Rightarrow> string" where
  "tbl_name Projects = ''projects''"
| "tbl_name Memos = ''memos''"
| "tbl_name Memo_versions = ''memo_versions''"
| "tbl_name Project_members = ''project_members''"

definition tbl_of :: "string \<Rightarrow> tbl option" where
  "tbl_of n = find (\<lambda>t. tbl_name t = n) SYNC_TABLE_ORDER"

definition is_sync_table :: "string \<Rightarrow> bool" where
  "is_sync_table n = (tbl_of n \<noteq> None)"

fun table_columns :: "tbl \<Rightarrow> string list" where
  "table_columns Projects =
     [''id'', ''owner_id'', ''name'', ''icon'', ''status'', ''is_secret'', ''created_at'',
      ''updated_at'', ''updated_at_utc'', ''deleted_at'']"
| "table_columns Memos =
     [''id'', ''project_id'', ''created_by'', ''title'', ''content'', ''status'',
      ''created_at'', ''updated_at'', ''updated_at_utc'', ''deleted_at'']"
| "table_columns Memo_versions =
     [''id'', ''memo_id'', ''content'', ''version'', ''note'', ''created_at'',
      ''updated_at_utc'']"
| "table_columns Project_members =
     [''id'', ''project_id'', ''user_id'', ''username'', ''display_name'', ''email'',
      ''role'', ''invited_at'', ''updated_at_utc'', ''deleted_at'']"

definition table_pk :: "tbl \<Rightarrow> string" where "table_pk t = ''id''"

fun table_parents :: "tbl \<Rightarrow> (string \<times> tbl) list" where
  "table_parents Projects = []"
| "table_parents Memos = [(''project_id'', Projects)]"
| "table_parents Memo_versions = [(''memo_id'', Memos)]"
| "table_parents Project_members = [(''project_id'', Projects)]"

text \<open>Scope column, label column and issue kind of the duplicate detection.\<close>

fun duplicate_axis :: "tbl \<Rightarrow> (string option \<times> string \<times> string) option" where
  "duplicate_axis Projects = Some (None, ''name'', ''duplicate_project'')"
| "duplicate_axis Memos = Some (Some ''project_id'', ''title'', ''duplicate_memo'')"
| "duplicate_axis Memo_versions = None"
| "duplicate_axis Project_members = None"

definition CLOCK_COLUMN :: string where "CLOCK_COLUMN = ''updated_at_utc''"

definition UTC_COLUMNS :: "string list" where
  "UTC_COLUMNS = [''updated_at_utc'', ''deleted_at'']"

definition WALL_CLOCK_COLUMNS :: "string list" where
  "WALL_CLOCK_COLUMNS = [''created_at'', ''updated_at'', ''invited_at'']"

definition soft_delete_table :: "tbl \<Rightarrow> bool" where
  "soft_delete_table t = (''deleted_at'' \<in> set (table_columns t))"

fun content_column :: "tbl \<Rightarrow> string option" where
  "content_column Memos = Some ''content''"
| "content_column t = None"

definition filter_row :: "tbl \<Rightarrow> row \<Rightarrow> string list option \<Rightarrow> row" where
  "filter_row t r allowed =
     (let cols = (case allowed of None \<Rightarrow> table_columns t | Some cs \<Rightarrow> cs)
      in filter (\<lambda>(k, v). k \<in> set cols) r)"

definition declared_tables :: "(string \<times> string list) list" where
  "declared_tables = map (\<lambda>t. (tbl_name t, table_columns t)) SYNC_TABLE_ORDER"

definition intersect_columns :: "tbl \<Rightarrow> string list option \<Rightarrow> exn + string list" where
  "intersect_columns t peer =
     (case peer of None \<Rightarrow> Inr (table_columns t)
      | Some pc \<Rightarrow>
          if pc = [] then Inr (table_columns t)
          else if table_pk t \<notin> set pc \<or> CLOCK_COLUMN \<notin> set pc
          then Inl (ValueError (''missing required columns: '' @ tbl_name t))
          else Inr (filter (\<lambda>c. c \<in> set pc) (table_columns t)))"

text \<open>\<open>normalize_name\<close>: a value that is no string has no \<open>strip\<close>.\<close>

definition normalize_name :: "(string \<Rightarrow> string) \<Rightarrow> val \<Rightarrow> exn + string" where
  "normalize_name nfc v =
     (case v of VNull \<Rightarrow> Inr [] | VStr s \<Rightarrow> Inr (nfc (strip s))
      | _ \<Rightarrow> Inl (AttributeError ''object has no attribute strip''))"

section \<open>The order of the tables\<close>

text \<open>
  The dependency order is a linear order on the tables: a table's parents come before it.
\<close>

fun tbl_rank :: "tbl \<Rightarrow> nat" where
  "tbl_rank Projects = 0"
| "tbl_rank Memos = 1"
| "tbl_rank Memo_versions = 2"
| "tbl_rank Project_members = 3"

instantiation tbl :: linorder
begin

definition less_eq_tbl :: "tbl \<Rightarrow> tbl \<Rightarrow> bool" where
  "less_eq_tbl a b = (tbl_rank a \<le> tbl_rank b)"

definition less_tbl :: "tbl \<Rightarrow> tbl \<Rightarrow> bool" where
  "less_tbl a b = (tbl_rank a < tbl_rank b)"

instance
proof
  fix x y z :: tbl
  show "(x < y) = (x \<le> y \<and> \<not> y \<le> x)" by (auto simp: less_eq_tbl_def less_tbl_def)
  show "x \<le> x" by (simp add: less_eq_tbl_def)
  show "x \<le> y \<Longrightarrow> y \<le> z \<Longrightarrow> x \<le> z" by (simp add: less_eq_tbl_def)
  show "x \<le> y \<Longrightarrow> y \<le> x \<Longrightarrow> x = y" by (cases x; cases y) (auto simp: less_eq_tbl_def)
  show "x \<le> y \<or> y \<le> x" by (auto simp: less_eq_tbl_def)
qed

end

lemma set_SYNC_TABLE_ORDER [simp]: "set SYNC_TABLE_ORDER = UNIV"
  by (auto simp: SYNC_TABLE_ORDER_def intro: tbl.exhaust)

instantiation tbl :: enum
begin

definition enum_tbl :: "tbl list" where
  "enum_tbl = [Projects, Memos, Memo_versions, Project_members]"

definition enum_all_tbl :: "(tbl \<Rightarrow> bool) \<Rightarrow> bool" where
  "enum_all_tbl P = (P Projects \<and> P Memos \<and> P Memo_versions \<and> P Project_members)"

definition enum_ex_tbl :: "(tbl \<Rightarrow> bool) \<Rightarrow> bool" where
  "enum_ex_tbl P = (P Projects \<or> P Memos \<or> P Memo_versions \<or> P Project_members)"

instance
proof
  show U: "UNIV = set (enum_class.enum :: tbl list)"
    by (auto simp: enum_tbl_def intro: tbl.exhaust)
  show "distinct (enum_class.enum :: tbl list)" by (simp add: enum_tbl_def)
  show "enum_class.enum_all P = Ball UNIV P" for P :: "tbl \<Rightarrow> bool"
    by (auto simp: enum_all_tbl_def) (metis tbl.exhaust)
  show "enum_class.enum_ex P = Bex UNIV P" for P :: "tbl \<Rightarrow> bool"
    by (auto simp: enum_ex_tbl_def) (metis tbl.exhaust)
qed

end

lemma distinct_SYNC_TABLE_ORDER [simp]: "distinct SYNC_TABLE_ORDER"
  by (simp add: SYNC_TABLE_ORDER_def)

lemma sorted_SYNC_TABLE_ORDER: "sorted SYNC_TABLE_ORDER"
  by (simp add: SYNC_TABLE_ORDER_def less_eq_tbl_def)

lemma parent_before_child: "(c, p) \<in> set (table_parents t) \<Longrightarrow> p < t"
  by (cases t) (auto simp: less_tbl_def)

lemma tbl_name_inj: "tbl_name a = tbl_name b \<longleftrightarrow> a = b"
  by (cases a; cases b) auto

lemma tbl_of_name [simp]: "tbl_of (tbl_name t) = Some t"
  by (cases t) (simp_all add: tbl_of_def SYNC_TABLE_ORDER_def)

lemma tbl_of_Some: "tbl_of n = Some t \<longleftrightarrow> n = tbl_name t"
proof
  assume "tbl_of n = Some t"
  then show "n = tbl_name t" by (auto simp: tbl_of_def dest: find_SomeD)
next
  assume "n = tbl_name t"
  then show "tbl_of n = Some t" by simp
qed

lemma is_sync_table_iff: "is_sync_table n \<longleftrightarrow> n \<in> range tbl_name"
  by (auto simp: is_sync_table_def tbl_of_Some)

lemma distinct_table_columns [simp]: "distinct (table_columns t)"
  by (cases t) simp_all

lemma pk_column [simp]: "''id'' \<in> set (table_columns t)"
  by (cases t) simp_all

lemma clock_column [simp]: "''updated_at_utc'' \<in> set (table_columns t)"
  by (cases t) simp_all

lemma soft_delete_table_iff: "soft_delete_table t \<longleftrightarrow> t \<noteq> Memo_versions"
  by (cases t) (simp_all add: soft_delete_table_def)

text \<open>
  A negotiated column list keeps the key and the clock, is a sublist of the node's own
  columns and of the peer's.
\<close>

lemma intersect_columns_ok:
  assumes "intersect_columns t peer = Inr cs"
  shows "''id'' \<in> set cs \<and> ''updated_at_utc'' \<in> set cs \<and> set cs \<subseteq> set (table_columns t)
    \<and> distinct cs"
  using assms
  by (auto simp: intersect_columns_def table_pk_def CLOCK_COLUMN_def split: option.splits if_splits)

end
