(* ===== verification/Store.thy ===== *)
theory Store
  imports Timeutil Sync_Schema
begin

text \<open>
  The data the program keeps: the wire messages, the rows of its MariaDB tables
  (\<^verbatim>\<open>src/connectors/__init__.py\<close>), and the SQL statements the source issues on them.

  A \<open>store\<close> is what one database connection sees. The four synchronised tables hold
  dictionary rows, since the code reads and writes them column by column; the tables of
  node-local bookkeeping hold typed records. The environment \<open>env\<close> has the parts that are
  not under \<^verbatim>\<open>src/\<close>: the clock readings, the generated UUIDs, the engine's clock, the
  collation key of the column collation (\<open>utf8mb4_unicode_ci\<close>), Unicode NFC, SHA-256 of the
  canonical JSON of a change, and the refusals of the engine (a constraint violation or any
  other error of an INSERT or an UPDATE on a synchronised table).
\<close>

section \<open>Wire messages\<close>

text \<open>A change as \<open>/api/sync/push\<close> and \<open>/api/sync/changes\<close> carry it.\<close>

record change =
  ch_seq :: "int option"
  ch_table :: string
  ch_rowId :: "string option"
  ch_op :: string
  ch_row :: "row option"
  ch_base :: "string option"
  ch_basePeerSeq :: "int option"

datatype side = Client | Server

record ref_entry =
  re_seq :: "int option"
  re_table :: string
  re_rowId :: "string option"
  re_reason :: string

record conflict =
  cf_table :: string
  cf_rowId :: string
  cf_incoming_won :: bool
  cf_winnerSide :: side
  cf_loserSide :: side
  cf_base :: "string option"
  cf_incomingUtc :: "string option"
  cf_existingUtc :: "string option"
  cf_preserved :: "int option"

record duplicate =
  du_kind :: string
  du_table :: string
  du_rowId :: string
  du_peer :: string
  du_name :: string

datatype status = Applied | Skipped | Deferred | Rejected

record row_result =
  rr_seq :: "int option"
  rr_table :: string
  rr_rowId :: "string option"
  rr_status :: status
  rr_reason :: "string option"
  rr_conflict :: bool
  rr_effective :: "string option"

record outcome =
  oc_applied :: nat
  oc_skipped :: nat
  oc_deferred :: "ref_entry list"
  oc_rejected :: "ref_entry list"
  oc_conflicts :: "conflict list"
  oc_duplicates :: "duplicate list"
  oc_issue_ids :: "string list"
  oc_applied_refs :: "(tbl \<times> string) list"
  oc_results :: "row_result list"

definition empty_outcome :: outcome where
  "empty_outcome = \<lparr>oc_applied = 0, oc_skipped = 0, oc_deferred = [], oc_rejected = [],
     oc_conflicts = [], oc_duplicates = [], oc_issue_ids = [], oc_applied_refs = [],
     oc_results = []\<rparr>"

section \<open>Tables\<close>

datatype op = Insert | Update | Delete

fun op_name :: "op \<Rightarrow> string" where
  "op_name Insert = ''insert''"
| "op_name Update = ''update''"
| "op_name Delete = ''delete''"

record log_entry =
  le_seq :: int
  le_table :: string
  le_row :: string
  le_op :: op
  le_at :: int

text \<open>What a blocked cycle measured: versions, clock skew and limit, owner ids.\<close>

datatype gate =
    SchemaGate int int
  | ClockGate int int
  | IdentityGate "string option" "string list" "string list" "string list"

datatype issue_detail =
    NoDetail
  | ConflictDetail conflict
  | DuplicateDetail duplicate
  | PeerConflict conflict
  | PeerDuplicate duplicate
  | DeadLetter string int "string option"
  | GateDetail string gate
  | TextDetail string

record issue =
  is_id :: string
  is_kind :: string
  is_table :: "string option"
  is_ref :: "string option"
  is_peer :: "string option"
  is_detail :: issue_detail
  is_detected :: int
  is_resolved :: "int option"

record receipt =
  rc_account :: string
  rc_client :: string
  rc_seq :: int
  rc_hash :: string
  rc_outcome :: outcome
  rc_created :: int

record retry =
  rq_peer :: string
  rq_direction :: string
  rq_seq :: int
  rq_table :: string
  rq_rowId :: "string option"
  rq_change :: change
  rq_hash :: string
  rq_reason :: string
  rq_attempts :: nat
  rq_first :: int
  rq_last :: int

record row_state =
  rs_peer :: string
  rs_table :: string
  rs_row :: string
  rs_clock :: "int option"
  rs_peer_seq :: int

record peer_state =
  ps_peer :: string
  ps_pushed :: int
  ps_pulled :: int
  ps_ok_at :: "int option"
  ps_error :: "string option"
  ps_paused :: bool
  ps_epoch :: "string option"
  ps_updated :: int

record identity =
  id_account :: string
  id_login :: "string option"
  id_display :: "string option"
  id_email :: "string option"
  id_permission :: string
  id_issuer :: "string option"
  id_verified :: int
  id_updated :: int

record store =
  tabs :: "tbl \<Rightarrow> row list"
  articles :: "row list"
  change_log :: "log_entry list"
  issues :: "issue list"
  receipts :: "receipt list"
  retries :: "retry list"
  row_states :: "row_state list"
  peers :: "peer_state list"
  identities :: "identity list"
  applying :: bool
  auto_seq :: int
  ticks :: nat
  ids :: nat

record env =
  clock :: "nat \<Rightarrow> int"
  uuid :: "nat \<Rightarrow> string"
  sql_now :: "nat \<Rightarrow> int"
  collate :: "string \<Rightarrow> string"
  nfc :: "string \<Rightarrow> string"
  change_hash :: "change \<Rightarrow> string"
  refuse_ins :: "store \<Rightarrow> tbl \<Rightarrow> row \<Rightarrow> string option"
  refuse_upd :: "store \<Rightarrow> tbl \<Rightarrow> row \<Rightarrow> row \<Rightarrow> string option"

section \<open>Clock and identifiers\<close>

definition now_utc :: "env \<Rightarrow> store \<Rightarrow> int \<times> store" where
  "now_utc e s = (utcnow_naive (clock e (ticks s)), s\<lparr>ticks := Suc (ticks s)\<rparr>)"

definition now_local :: "env \<Rightarrow> store \<Rightarrow> int \<times> store" where
  "now_local e s = (localnow_naive (clock e (ticks s)), s\<lparr>ticks := Suc (ticks s)\<rparr>)"

definition generate_id :: "env \<Rightarrow> store \<Rightarrow> string \<times> store" where
  "generate_id e s = (uuid e (ids s), s\<lparr>ids := Suc (ids s)\<rparr>)"

section \<open>Comparison in SQL\<close>

text \<open>
  \<open>=\<close> of SQL: never true of NULL, and on strings an equality of collation keys. Every
  table of the source is declared \<open>COLLATE utf8mb4_unicode_ci\<close>.
\<close>

definition same_str :: "env \<Rightarrow> string \<Rightarrow> string \<Rightarrow> bool" where
  "same_str e a b = (collate e a = collate e b)"

fun sql_eq :: "env \<Rightarrow> val \<Rightarrow> val \<Rightarrow> bool" where
  "sql_eq e (VStr a) (VStr b) = same_str e a b"
| "sql_eq e (VInt i) (VInt j) = (i = j)"
| "sql_eq e (VTime t) (VTime u) = (t = u)"
| "sql_eq e (VBool b) (VBool c) = (b = c)"
| "sql_eq e v w = False"

text \<open>The null-safe \<open><=>\<close> on nullable strings.\<close>

definition null_safe_eq :: "env \<Rightarrow> string option \<Rightarrow> string option \<Rightarrow> bool" where
  "null_safe_eq e a b = (case (a, b) of (None, None) \<Rightarrow> True
     | (Some x, Some y) \<Rightarrow> same_str e x y | _ \<Rightarrow> False)"

lemma same_str_refl [simp]: "same_str e a a"
  by (simp add: same_str_def)

lemma same_str_sym: "same_str e a b \<Longrightarrow> same_str e b a"
  by (simp add: same_str_def)

lemma same_str_trans: "same_str e a b \<Longrightarrow> same_str e b c \<Longrightarrow> same_str e a c"
  by (simp add: same_str_def)

lemma null_safe_eq_refl [simp]: "null_safe_eq e a a"
  by (simp add: null_safe_eq_def split: option.splits)

lemma null_safe_eq_sym: "null_safe_eq e a b = null_safe_eq e b a"
  by (auto simp: null_safe_eq_def same_str_def split: option.splits)

lemma null_safe_eq_trans:
  "null_safe_eq e a b \<Longrightarrow> null_safe_eq e b c \<Longrightarrow> null_safe_eq e a c"
  by (auto simp: null_safe_eq_def same_str_def split: option.splits)

definition row_str :: "row \<Rightarrow> string \<Rightarrow> string option" where
  "row_str r c = (case row_get r c of VStr s \<Rightarrow> Some s | _ \<Rightarrow> None)"

definition row_id :: "row \<Rightarrow> string" where
  "row_id r = (case row_get r ''id'' of VStr s \<Rightarrow> s | _ \<Rightarrow> [])"

definition row_clock :: "row \<Rightarrow> int option" where
  "row_clock r = (case row_get r ''updated_at_utc'' of VTime t \<Rightarrow> Some t | _ \<Rightarrow> None)"

abbreviation live :: "row \<Rightarrow> bool" where
  "live r \<equiv> row_get r ''deleted_at'' = VNull"

definition col_is :: "env \<Rightarrow> string \<Rightarrow> string \<Rightarrow> row \<Rightarrow> bool" where
  "col_is e c v r = sql_eq e (row_get r c) (VStr v)"

abbreviation id_is :: "env \<Rightarrow> string \<Rightarrow> row \<Rightarrow> bool" where
  "id_is e i r \<equiv> col_is e ''id'' i r"

lemma col_is_iff: "col_is e c v r \<longleftrightarrow> (\<exists>w. row_get r c = VStr w \<and> same_str e w v)"
  by (cases "row_get r c") (auto simp: col_is_def)

lemma id_is_row_id: "row_get r ''id'' = VStr i \<Longrightarrow> row_id r = i"
  by (simp add: row_id_def)

section \<open>Statements on the synchronised tables\<close>

text \<open>\<open>SELECT * FROM t WHERE id = i\<close>, then \<open>fetchone()\<close>.\<close>

definition fetch_id :: "env \<Rightarrow> tbl \<Rightarrow> string \<Rightarrow> store \<Rightarrow> row option" where
  "fetch_id e t i s = find (id_is e i) (tabs s t)"

definition select :: "tbl \<Rightarrow> (row \<Rightarrow> bool) \<Rightarrow> store \<Rightarrow> row list" where
  "select t P s = filter P (tabs s t)"

text \<open>The AFTER triggers: one \<open>change_log\<close> row unless \<open>@sync_applying\<close> is set.\<close>

definition log_change :: "env \<Rightarrow> tbl \<Rightarrow> op \<Rightarrow> string \<Rightarrow> store \<Rightarrow> store" where
  "log_change e t o' i s =
     (if applying s then s
      else s\<lparr>change_log := change_log s @ [\<lparr>le_seq = auto_seq s + 1, le_table = tbl_name t,
               le_row = i, le_op = o', le_at = sql_now e (ticks s)\<rparr>],
             auto_seq := auto_seq s + 1\<rparr>)"

fun log_changes :: "env \<Rightarrow> tbl \<Rightarrow> op \<Rightarrow> string list \<Rightarrow> store \<Rightarrow> store" where
  "log_changes e t o' [] s = s"
| "log_changes e t o' (i # is) s = log_changes e t o' is (log_change e t o' i s)"

text \<open>The DEFAULT clauses of the CREATE TABLE statements; \<open>password\<close> is not synchronised.\<close>

definition all_columns :: "tbl \<Rightarrow> string list" where
  "all_columns t = table_columns t @ (if t = Projects then [''password''] else [])"

definition column_default :: "int \<Rightarrow> tbl \<Rightarrow> string \<Rightarrow> val" where
  "column_default now t c =
     (if c = ''status'' then VInt 0 else if c = ''is_secret'' then VInt 0
      else if c = ''role'' then VStr ''viewer''
      else if c \<in> set WALL_CLOCK_COLUMNS then VTime now else VNull)"

definition complete_row :: "int \<Rightarrow> tbl \<Rightarrow> row \<Rightarrow> row" where
  "complete_row now t r =
     map (\<lambda>c. (c, if has_col r c then row_get r c else column_default now t c)) (all_columns t)"

definition db_insert :: "env \<Rightarrow> tbl \<Rightarrow> row \<Rightarrow> store \<Rightarrow> exn + store" where
  "db_insert e t r s =
     (let r' = complete_row (sql_now e (ticks s)) t r
      in case refuse_ins e s t r' of
           Some m \<Rightarrow> Inl (DbError m)
         | None \<Rightarrow> Inr (log_change e t Insert (row_id r')
                          (s\<lparr>tabs := (tabs s)(t := tabs s t @ [r'])\<rparr>)))"

text \<open>\<open>updated_at\<close> of \<open>projects\<close> and \<open>memos\<close> is \<open>ON UPDATE CURRENT_TIMESTAMP\<close>.\<close>

definition touch :: "int \<Rightarrow> tbl \<Rightarrow> row \<Rightarrow> row" where
  "touch now t asg =
     (if t \<in> {Projects, Memos} \<and> ''updated_at'' \<notin> fst ` set asg
      then asg @ [(''updated_at'', VTime now)] else asg)"

definition db_update ::
  "env \<Rightarrow> tbl \<Rightarrow> (row \<Rightarrow> bool) \<Rightarrow> row \<Rightarrow> store \<Rightarrow> exn + nat \<times> store" where
  "db_update e t P asg s =
     (let upd = (\<lambda>r. row_update r (touch (sql_now e (ticks s)) t asg));
          hit = filter P (tabs s t)
      in case find (\<lambda>r. refuse_upd e s t r (upd r) \<noteq> None) hit of
           Some r \<Rightarrow> Inl (DbError (the (refuse_upd e s t r (upd r))))
         | None \<Rightarrow> Inr (length hit,
             log_changes e t Update (map row_id hit)
               (s\<lparr>tabs := (tabs s)(t := map (\<lambda>r. if P r then upd r else r) (tabs s t))\<rparr>)))"

definition db_delete :: "env \<Rightarrow> tbl \<Rightarrow> (row \<Rightarrow> bool) \<Rightarrow> store \<Rightarrow> store" where
  "db_delete e t P s =
     log_changes e t Delete (map row_id (filter P (tabs s t)))
       (s\<lparr>tabs := (tabs s)(t := filter (\<lambda>r. \<not> P r) (tabs s t))\<rparr>)"

text \<open>An UPDATE whose row count the caller does not read.\<close>

definition db_set :: "env \<Rightarrow> tbl \<Rightarrow> (row \<Rightarrow> bool) \<Rightarrow> row \<Rightarrow> store \<Rightarrow> exn + store" where
  "db_set e t P asg s = sbind (db_update e t P asg s) (\<lambda>(n, s'). Inr s')"

section \<open>Connections\<close>

text \<open>
  \<open>get_db_connection(sync_applying)\<close>: the body runs in a transaction of its own, with
  \<open>@sync_applying\<close> set as asked; an exception rolls everything back.
\<close>

definition with_connection ::
  "bool \<Rightarrow> (store \<Rightarrow> exn + 'a \<times> store) \<Rightarrow> store \<Rightarrow> (exn + 'a) \<times> store" where
  "with_connection flag body s =
     (case body (s\<lparr>applying := flag\<rparr>) of
        Inl x \<Rightarrow> (Inl x, s)
      | Inr (v, s') \<Rightarrow> (Inr v, s'\<lparr>applying := applying s\<rparr>))"

text \<open>\<open>change_log_enabled\<close>: the writes of the body are logged, then the flag is put back.\<close>

definition change_log_enabled :: "(store \<Rightarrow> exn + store) \<Rightarrow> store \<Rightarrow> exn + store" where
  "change_log_enabled body s =
     sbind (body (s\<lparr>applying := False\<rparr>)) (\<lambda>s'. Inr (s'\<lparr>applying := applying s\<rparr>))"

section \<open>What the statements leave alone\<close>

lemma log_change_fields [frame_simps, simp]:
  "tabs (log_change e t o' i s) = tabs s" "articles (log_change e t o' i s) = articles s"
  "issues (log_change e t o' i s) = issues s" "receipts (log_change e t o' i s) = receipts s"
  "retries (log_change e t o' i s) = retries s"
  "row_states (log_change e t o' i s) = row_states s"
  "peers (log_change e t o' i s) = peers s"
  "identities (log_change e t o' i s) = identities s"
  "applying (log_change e t o' i s) = applying s" "ticks (log_change e t o' i s) = ticks s"
  "ids (log_change e t o' i s) = ids s"
  by (simp_all add: log_change_def)

lemma log_changes_fields [frame_simps, simp]:
  "tabs (log_changes e t o' is s) = tabs s" "articles (log_changes e t o' is s) = articles s"
  "issues (log_changes e t o' is s) = issues s"
  "receipts (log_changes e t o' is s) = receipts s"
  "retries (log_changes e t o' is s) = retries s"
  "row_states (log_changes e t o' is s) = row_states s"
  "peers (log_changes e t o' is s) = peers s"
  "identities (log_changes e t o' is s) = identities s"
  "applying (log_changes e t o' is s) = applying s"
  "ticks (log_changes e t o' is s) = ticks s" "ids (log_changes e t o' is s) = ids s"
  by (induction "is" arbitrary: s) auto

lemma log_changes_applying: "applying s \<Longrightarrow> log_changes e t o' is s = s"
  by (induction "is") (auto simp: log_change_def)

text \<open>Fields outside the synchronised tables and the log.\<close>

definition same_books :: "store \<Rightarrow> store \<Rightarrow> bool" where
  "same_books s s' =
     (articles s' = articles s \<and> issues s' = issues s \<and> receipts s' = receipts s \<and>
      retries s' = retries s \<and> row_states s' = row_states s \<and> peers s' = peers s \<and>
      identities s' = identities s \<and> applying s' = applying s)"

lemma same_books_refl [simp]: "same_books s s"
  by (simp add: same_books_def)

lemma same_books_trans: "same_books a b \<Longrightarrow> same_books b c \<Longrightarrow> same_books a c"
  by (simp add: same_books_def)

lemma db_insert_books: "db_insert e t r s = Inr s' \<Longrightarrow> same_books s s' \<and> ticks s' = ticks s \<and> ids s' = ids s"
  by (auto simp: db_insert_def same_books_def Let_def split: option.splits)

lemma db_insert_tabs:
  "db_insert e t r s = Inr s' \<Longrightarrow>
     tabs s' = (tabs s)(t := tabs s t @ [complete_row (sql_now e (ticks s)) t r])"
  by (auto simp: db_insert_def Let_def split: option.splits)

lemma db_update_books:
  "db_update e t P asg s = Inr (n, s') \<Longrightarrow> same_books s s' \<and> ticks s' = ticks s \<and> ids s' = ids s"
  by (auto simp: db_update_def same_books_def Let_def split: option.splits)

lemma db_update_tabs:
  "db_update e t P asg s = Inr (n, s') \<Longrightarrow>
     tabs s' = (tabs s)(t := map (\<lambda>r. if P r then row_update r (touch (sql_now e (ticks s)) t asg)
                                       else r) (tabs s t))
     \<and> n = length (filter P (tabs s t))"
  by (auto simp: db_update_def Let_def split: option.splits)

lemma db_set_books:
  "db_set e t P asg s = Inr s' \<Longrightarrow> same_books s s' \<and> ticks s' = ticks s \<and> ids s' = ids s"
  by (auto simp: db_set_def dest: db_update_books)

lemma db_set_tabs:
  "db_set e t P asg s = Inr s' \<Longrightarrow>
     tabs s' = (tabs s)(t := map (\<lambda>r. if P r then row_update r (touch (sql_now e (ticks s)) t asg)
                                       else r) (tabs s t))"
  by (auto simp: db_set_def dest: db_update_tabs)

lemma db_delete_books: "same_books s (db_delete e t P s)"
  by (simp add: db_delete_def same_books_def)

lemma db_delete_tabs [sql_simps, simp]:
  "tabs (db_delete e t P s) = (tabs s)(t := filter (\<lambda>r. \<not> P r) (tabs s t))"
  by (simp add: db_delete_def)

lemma row_get_complete:
  "row_get (complete_row now t r) c =
     (if c \<in> set (all_columns t)
      then if has_col r c then row_get r c else column_default now t c else VNull)"
  by (simp add: complete_row_def row_get_map)

lemma row_get_touch:
  "c \<noteq> ''updated_at'' \<Longrightarrow> row_get (row_update r (touch now t asg)) c = row_get (row_update r asg) c"
proof -
  have "row_update r (xs @ ys) = row_update (row_update r xs) ys" for xs ys
    by (induction xs arbitrary: r) auto
  then show "c \<noteq> ''updated_at'' \<Longrightarrow> ?thesis" by (simp add: touch_def)
qed

lemma with_connection_error:
  "with_connection flag body s = (Inl x, s') \<Longrightarrow> s' = s"
  by (auto simp: with_connection_def split: sum.splits prod.splits)

end
