(* ===== verification/Wire.thy ===== *)
theory Wire
  imports Store
begin

text \<open>
  The row codec of \<^verbatim>\<open>src/services/sync_store.py\<close>: a database row becomes the JSON row
  of a change and back. Every column class (UTC instants, wall-clock display times, the
  \<open>is_secret\<close> flag, everything else) has an encoder and a decoder that satisfy one law,
  the locale \<open>column_codec\<close>; the round trip of a whole row follows from the laws of its
  columns.
\<close>

definition serialize_value :: "string \<Rightarrow> val \<Rightarrow> val" where
  "serialize_value c v =
     (case v of VTime w \<Rightarrow> VStr (if c \<in> set UTC_COLUMNS then iso_db w else isoformat_ms w)
      | _ \<Rightarrow> if c = ''is_secret'' then VBool (truthy v) else v)"

fun serialize_row :: "string list \<Rightarrow> row \<Rightarrow> row" where
  "serialize_row [] r = []"
| "serialize_row (c # cs) r =
     (if has_col r c then (c, serialize_value c (row_get r c)) # serialize_row cs r
      else serialize_row cs r)"

text \<open>\<open>_parse_naive\<close>: the wall clock as written, the offset (if any) dropped.\<close>

definition parse_naive :: "val \<Rightarrow> exn + val" where
  "parse_naive v =
     (case v of VNull \<Rightarrow> Inr VNull
      | VTime w \<Rightarrow> Inr (VTime w)
      | VStr s \<Rightarrow>
          if s = [] then Inr VNull
          else let t = strip s;
                   t' = (if t \<noteq> [] \<and> last t \<in> {CHR ''Z'', CHR ''z''} then butlast t else t)
               in (case fromisoformat t' of
                     None \<Rightarrow> Inl (ValueError (''Invalid isoformat string: '' @ t'))
                   | Some d \<Rightarrow> Inr (VTime (wall d)))
      | _ \<Rightarrow> Inl (ValueError ''Invalid isoformat string''))"

text \<open>\<open>parse_iso_utc(value) if value else None\<close> on a JSON value.\<close>

definition parse_utc :: "val \<Rightarrow> exn + val" where
  "parse_utc v =
     (if \<not> truthy v then Inr VNull
      else case v of
          VStr s \<Rightarrow> sbind (parse_iso_utc (Some s))
            (\<lambda>w. Inr (case w of None \<Rightarrow> VNull | Some t \<Rightarrow> VTime t))
        | VTime w \<Rightarrow> Inr (VTime (truncate_ms w))
        | _ \<Rightarrow> Inl (AttributeError ''object has no attribute strip''))"

definition deserialize_value :: "string \<Rightarrow> val \<Rightarrow> exn + val" where
  "deserialize_value c v =
     (if c \<in> set UTC_COLUMNS then parse_utc v
      else if c \<in> set WALL_CLOCK_COLUMNS then parse_naive v
      else if c = ''is_secret'' then Inr (VInt (if truthy v then 1 else 0))
      else Inr v)"

fun deserialize_row :: "string list \<Rightarrow> row \<Rightarrow> exn + row" where
  "deserialize_row [] p = Inr []"
| "deserialize_row (c # cs) p =
     (if has_col p c
      then sbind (deserialize_value c (row_get p c))
             (\<lambda>v. sbind (deserialize_row cs p) (\<lambda>r. Inr ((c, v) # r)))
      else deserialize_row cs p)"

section \<open>The law of a column's codec\<close>

locale column_codec =
  fixes enc :: "val \<Rightarrow> val"
    and dec :: "val \<Rightarrow> exn + val"
    and ok :: "val \<Rightarrow> bool"
  assumes dec_enc: "ok v \<Longrightarrow> dec (enc v) = Inr v"
begin

lemma enc_inj: "ok v \<Longrightarrow> ok w \<Longrightarrow> enc v = enc w \<Longrightarrow> v = w"
  by (metis dec_enc sum.inject(2))

lemma dec_enc_total: "ok v \<Longrightarrow> \<exists>w. dec (enc v) = Inr w \<and> ok w"
  using dec_enc by auto

end

text \<open>What a column of each class holds in the database.\<close>

definition utc_ok :: "val \<Rightarrow> bool" where
  "utc_ok v = (case v of VNull \<Rightarrow> True | VTime w \<Rightarrow> in_range w \<and> 1000 dvd w | _ \<Rightarrow> False)"

definition flag_ok :: "val \<Rightarrow> bool" where
  "flag_ok v = (v = VInt 0 \<or> v = VInt 1)"

definition plain_ok :: "val \<Rightarrow> bool" where
  "plain_ok v = (case v of VTime w \<Rightarrow> False | VBool b \<Rightarrow> False | _ \<Rightarrow> True)"

definition value_ok :: "string \<Rightarrow> val \<Rightarrow> bool" where
  "value_ok c v =
     (if c \<in> set UTC_COLUMNS \<or> c \<in> set WALL_CLOCK_COLUMNS then utc_ok v
      else if c = ''is_secret'' then flag_ok v else plain_ok v)"

lemma utc_not_flag [simp]:
  "c \<in> set UTC_COLUMNS \<Longrightarrow> c \<noteq> ''is_secret''" "c \<in> set WALL_CLOCK_COLUMNS \<Longrightarrow> c \<noteq> ''is_secret''"
  "c \<in> set UTC_COLUMNS \<Longrightarrow> c \<notin> set WALL_CLOCK_COLUMNS"
  by (auto simp: UTC_COLUMNS_def WALL_CLOCK_COLUMNS_def)

text \<open>The wall clock: an instant written without \<open>Z\<close> is read back as it stands.\<close>

lemma isoformat_last: "\<exists>u k. isoformat_ms w = u @ [digit_char k] \<and> 0 \<le> k \<and> k < 10"
proof -
  obtain y m d where "date_of w = (y, m, d)" by (cases "date_of w")
  moreover have "digs 3 k = digs 2 (k div 10) @ [digit_char (k mod 10)]" for k
    by (simp add: numeral_3_eq_3 numeral_2_eq_2)
  ultimately have "\<exists>u. isoformat_ms w = u @ [digit_char (milli_of w mod 10)]"
    by (simp add: isoformat_ms_def)
  moreover have "0 \<le> milli_of w mod 10" "milli_of w mod 10 < 10" by auto
  ultimately show ?thesis by blast
qed

lemma fromisoformat_naive:
  assumes "in_range w"
  shows "fromisoformat (isoformat_ms w) = Some (naive (truncate_ms w))"
proof -
  obtain y m d where dt: "date_of w = (y, m, d)" by (cases "date_of w")
  note v = date_of_valid [OF assms dt]
  have dim: "d < 100" using v(6) by (auto simp: days_in_month_def split: if_splits)
  note b = clock_bounds [of w]
  obtain g t where gt: "digs 3 (milli_of w) = g # t" "digit_val g \<noteq> None"
    using b by (simp add: numeral_eq_Suc)
  have "read_frac 6 0 (digs 3 (milli_of w)) = (milli_of w * 1000, [])"
    using b by (simp add: read_frac_milli_end)
  note frac = this [unfolded gt(1)]
  have secs: "read_seconds ('':'' @ digs 2 (second_of w) @ ''.'' @ digs 3 (milli_of w))
      = Some (second_of w * 1000000 + milli_of w * 1000, [])"
    using b gt frac
    by (auto simp: read_seconds_def read_num_digs0 simp del: read_frac.simps)
  have clock: "read_clock (digs 2 (hour_of w) @ '':'' @ digs 2 (minute_of w) @ '':'' @
        digs 2 (second_of w) @ ''.'' @ digs 3 (milli_of w))
      = Some ((hour_of w * 60 + minute_of w) * 60000000 +
          (second_of w * 1000000 + milli_of w * 1000), [])"
    using b secs by (simp add: read_clock_def read_num_digs0)
  have date: "read_date (digs 4 y @ ''-'' @ digs 2 m @ ''-'' @ digs 2 d @ rest)
      = Some (w div us_day * us_day, rest)" for rest
    using v dim by (simp add: read_date_def read_num_digs0)
  show ?thesis
    using clock clock_split [of w]
    by (simp add: fromisoformat_def isoformat_ms_def dt date [simplified] read_offset_def)
qed

lemma digit_not_Z: "0 \<le> k \<Longrightarrow> k < 10 \<Longrightarrow> digit_char k \<noteq> CHR ''Z'' \<and> digit_char k \<noteq> CHR ''z''"
proof -
  assume k: "0 \<le> k" "k < 10"
  then have "(of_char (digit_char k) :: nat) = 48 + nat k"
    by (simp add: digit_char_def of_char_of)
  with k have n: "(of_char (digit_char k) :: nat) \<noteq> 90" "(of_char (digit_char k) :: nat) \<noteq> 122"
    by auto
  have "(of_char (CHR ''Z'') :: nat) = 90" "(of_char (CHR ''z'') :: nat) = 122" by simp_all
  with n show ?thesis by metis
qed

lemma parse_naive_isoformat:
  assumes "in_range w"
  shows "parse_naive (VStr (isoformat_ms w)) = Inr (VTime (truncate_ms w))"
proof -
  obtain c t where ct: "isoformat_ms w = c # t" "\<not> ws_char c" using isoformat_shape by blast
  obtain u k where uk: "isoformat_ms w = u @ [digit_char k]" "0 \<le> k" "k < 10"
    using isoformat_last by blast
  have "strip (isoformat_ms w) = isoformat_ms w"
  proof (rule strip_no_ws)
    show "isoformat_ms w \<noteq> []" "\<not> ws_char (hd (isoformat_ms w))" using ct by simp_all
    show "\<not> ws_char (last (isoformat_ms w))" using uk not_ws_digit by simp
  qed
  moreover have "last (isoformat_ms w) \<notin> {CHR ''Z'', CHR ''z''}"
    using uk digit_not_Z by simp
  ultimately show ?thesis
    using fromisoformat_naive [OF assms] ct by (simp add: parse_naive_def Let_def)
qed

text \<open>The codec of every column satisfies the law.\<close>

interpretation utc: column_codec "serialize_value ''updated_at_utc''" parse_utc utc_ok
proof
  fix v assume "utc_ok v"
  then show "parse_utc (serialize_value ''updated_at_utc'' v) = Inr v"
    by (cases v)
      (auto simp: utc_ok_def parse_utc_def serialize_value_def UTC_COLUMNS_def parse_iso_db
        truncate_ms_id iso_db_nonempty)
qed

interpretation wall: column_codec "serialize_value ''created_at''" parse_naive utc_ok
proof
  fix v assume "utc_ok v"
  then show "parse_naive (serialize_value ''created_at'' v) = Inr v"
    using parse_naive_isoformat truncate_ms_id
    by (cases v)
      (auto simp: utc_ok_def serialize_value_def UTC_COLUMNS_def parse_naive_def [of VNull])
qed

interpretation flag: column_codec "serialize_value ''is_secret''"
  "\<lambda>v. Inr (VInt (if truthy v then 1 else 0))" flag_ok
  by unfold_locales (auto simp: flag_ok_def serialize_value_def)

interpretation column: column_codec "serialize_value c" "deserialize_value c" "value_ok c" for c
proof
  fix v assume ok: "value_ok c v"
  have same: "c \<in> set UTC_COLUMNS \<Longrightarrow> serialize_value c v = serialize_value ''updated_at_utc'' v"
    "c \<in> set WALL_CLOCK_COLUMNS \<Longrightarrow> serialize_value c v = serialize_value ''created_at'' v"
    by (auto simp: serialize_value_def UTC_COLUMNS_def WALL_CLOCK_COLUMNS_def split: val.splits)
  consider "c \<in> set UTC_COLUMNS" | "c \<in> set WALL_CLOCK_COLUMNS" "c \<notin> set UTC_COLUMNS"
    | "c = ''is_secret''" | "c \<notin> set UTC_COLUMNS" "c \<notin> set WALL_CLOCK_COLUMNS" "c \<noteq> ''is_secret''"
    by blast
  then show "deserialize_value c (serialize_value c v) = Inr v"
  proof cases
    case 1
    with ok show ?thesis by (simp add: deserialize_value_def same value_ok_def utc.dec_enc)
  next
    case 2
    with ok show ?thesis by (simp add: deserialize_value_def same value_ok_def wall.dec_enc)
  next
    case 3
    with ok show ?thesis
      using flag.dec_enc [of v]
      by (simp add: deserialize_value_def value_ok_def UTC_COLUMNS_def WALL_CLOCK_COLUMNS_def)
  next
    case 4
    with ok show ?thesis
      by (cases v) (simp_all add: deserialize_value_def value_ok_def plain_ok_def serialize_value_def)
  qed
qed

section \<open>Rows\<close>

definition restrict_row :: "string list \<Rightarrow> row \<Rightarrow> row" where
  "restrict_row cs r = map (\<lambda>c. (c, row_get r c)) (filter (has_col r) cs)"

lemma restrict_keys: "fst ` set (restrict_row cs r) = {c \<in> set cs. has_col r c}"
  by (auto simp: restrict_row_def image_iff)

lemma has_col_restrict [simp]: "has_col (restrict_row cs r) c \<longleftrightarrow> c \<in> set cs \<and> has_col r c"
  by (simp add: has_col_keys restrict_keys)

lemma restrict_get: "row_get (restrict_row cs r) c = (if c \<in> set cs \<and> has_col r c then row_get r c else VNull)"
  by (simp add: restrict_row_def row_get_map)

lemma restrict_distinct: "distinct cs \<Longrightarrow> distinct (map fst (restrict_row cs r))"
  by (simp add: restrict_row_def comp_def)

lemma has_col_serialize: "has_col (serialize_row cs r) c \<longleftrightarrow> c \<in> set cs \<and> has_col r c"
  by (induction cs) (auto simp: has_col_Cons)

lemma row_get_serialize:
  "row_get (serialize_row cs r) c =
     (if c \<in> set cs \<and> has_col r c then serialize_value c (row_get r c) else VNull)"
  by (induction cs) (auto simp: row_get_Cons)

lemma deserialize_cong:
  "(\<And>c. c \<in> set cs \<Longrightarrow> has_col p c = has_col q c \<and> row_get p c = row_get q c) \<Longrightarrow>
     deserialize_row cs p = deserialize_row cs q"
  by (induction cs) auto

lemma deserialize_serialize:
  assumes "\<And>c. c \<in> set cs \<Longrightarrow> has_col r c \<Longrightarrow> value_ok c (row_get r c)" and "set cs \<subseteq> set cs'"
  shows "deserialize_row cs (serialize_row cs' r) = Inr (restrict_row cs r)"
  using assms
proof (induction cs)
  case Nil
  then show ?case by (simp add: restrict_row_def)
next
  case (Cons c cs)
  then have IH: "deserialize_row cs (serialize_row cs' r) = Inr (restrict_row cs r)" by simp
  have "deserialize_value c (serialize_value c (row_get r c)) = Inr (row_get r c)"
    if "has_col r c"
    using that Cons.prems(1) column.dec_enc by simp
  with IH Cons.prems(2) show ?case
    by (simp add: has_col_serialize row_get_serialize restrict_row_def)
qed

text \<open>What decoding keeps: only whitelisted columns, each at most once.\<close>

lemma deserialize_columns:
  "deserialize_row cs p = Inr r \<Longrightarrow> map fst r = filter (has_col p) cs"
  by (induction cs arbitrary: r) (auto split: if_splits)

lemma deserialize_get:
  assumes "deserialize_row cs p = Inr r" "distinct cs" "c \<in> set cs" "has_col p c"
  shows "deserialize_value c (row_get p c) = Inr (row_get r c)"
  using assms
proof (induction cs arbitrary: r)
  case (Cons d cs)
  show ?case
  proof (cases "has_col p d")
    case True
    with Cons.prems obtain v r' where v: "deserialize_value d (row_get p d) = Inr v"
      "deserialize_row cs p = Inr r'" "r = (d, v) # r'" by auto
    show ?thesis
      using Cons.IH [OF v(2)] Cons.prems v by (auto simp: row_get_Cons)
  next
    case False
    with Cons.prems have "c \<noteq> d" by auto
    with False Cons show ?thesis by auto
  qed
qed simp

end
