(* ===== verification/Sync_Store.thy ===== *)
theory Sync_Store
  imports Wire
begin

text \<open>
  \<^verbatim>\<open>src/services/sync_store.py\<close>: the change feed read by a peer and the outbox read by
  this node, the agreed row clocks, the durable retry queue, the push receipts, the cursor
  state and the issue list. Every SELECT without an ORDER BY returns rows in the list order
  of the store.
\<close>

section \<open>The change feed\<close>

definition max_change_seq :: "store \<Rightarrow> int" where
  "max_change_seq s = max_or 0 (map le_seq (change_log s))"

definition pending_change_count :: "int \<Rightarrow> store \<Rightarrow> nat" where
  "pending_change_count since s = length (filter (\<lambda>l. since < le_seq l) (change_log s))"

definition visible_project_ids :: "env \<Rightarrow> string \<Rightarrow> store \<Rightarrow> string list" where
  "visible_project_ids e acct s =
     map row_id
       (select Projects
          (\<lambda>p. col_is e ''owner_id'' acct p \<or>
               (\<exists>m \<in> set (tabs s Project_members).
                  sql_eq e (row_get m ''project_id'') (row_get p ''id'') \<and>
                  col_is e ''user_id'' acct m \<and> live m)) s)"

definition row_project_id :: "env \<Rightarrow> tbl \<Rightarrow> row \<Rightarrow> store \<Rightarrow> string option" where
  "row_project_id e t r s =
     (case t of
        Projects \<Rightarrow> row_str r ''id''
      | Memos \<Rightarrow> row_str r ''project_id''
      | Project_members \<Rightarrow> row_str r ''project_id''
      | Memo_versions \<Rightarrow>
          (case find (\<lambda>m. sql_eq e (row_get m ''id'') (row_get r ''memo_id'')) (tabs s Memos) of
             None \<Rightarrow> None | Some m \<Rightarrow> row_str m ''project_id''))"

text \<open>The first \<open>limit\<close> log entries after \<open>since\<close>, in sequence order.\<close>

definition log_window :: "int \<Rightarrow> nat \<Rightarrow> store \<Rightarrow> log_entry list" where
  "log_window since limit s =
     take limit (sort_key le_seq (filter (\<lambda>l. since < le_seq l) (change_log s)))"

text \<open>\<open>latest[(table, row_id)] = entry\<close>: the last entry of each synchronised row.\<close>

definition latest_step ::
  "((tbl \<times> string) \<times> log_entry) list \<Rightarrow> log_entry \<Rightarrow> ((tbl \<times> string) \<times> log_entry) list" where
  "latest_step d l =
     (case tbl_of (le_table l) of None \<Rightarrow> d | Some t \<Rightarrow> AList.update (t, le_row l) l d)"

definition latest_entries :: "log_entry list \<Rightarrow> ((tbl \<times> string) \<times> log_entry) list" where
  "latest_entries ls = foldl latest_step [] ls"

definition next_seq :: "int \<Rightarrow> log_entry list \<Rightarrow> int" where
  "next_seq since ls = (if ls = [] then since else max_or since (map le_seq ls))"

definition cols_for :: "(tbl \<times> string list) list \<Rightarrow> tbl \<Rightarrow> string list" where
  "cols_for cbt t = (case map_of cbt t of None \<Rightarrow> table_columns t
     | Some cs \<Rightarrow> if cs = [] then table_columns t else cs)"

definition feed_change ::
  "env \<Rightarrow> (tbl \<times> string list) list \<Rightarrow> string list \<Rightarrow> store
     \<Rightarrow> (tbl \<times> string) \<times> log_entry \<Rightarrow> change option" where
  "feed_change e cbt visible s kl =
     (case kl of ((t, i), l) \<Rightarrow>
        (case fetch_id e t i s of None \<Rightarrow> None
         | Some r0 \<Rightarrow>
             let r = restrict_row (cols_for cbt t) r0 in
             (case row_project_id e t r s of
                Some p \<Rightarrow> if p \<in> set visible
                  then Some \<lparr>ch_seq = Some (le_seq l), ch_table = tbl_name t, ch_rowId = Some i,
                        ch_op = op_name (le_op l), ch_row = Some (serialize_row (cols_for cbt t) r),
                        ch_base = None, ch_basePeerSeq = None\<rparr>
                  else None
              | None \<Rightarrow> Some \<lparr>ch_seq = Some (le_seq l), ch_table = tbl_name t, ch_rowId = Some i,
                        ch_op = op_name (le_op l), ch_row = Some (serialize_row (cols_for cbt t) r),
                        ch_base = None, ch_basePeerSeq = None\<rparr>)))"

definition ch_seq_key :: "change \<Rightarrow> int" where
  "ch_seq_key c = (case ch_seq c of None \<Rightarrow> 0 | Some n \<Rightarrow> n)"

definition read_changes ::
  "env \<Rightarrow> int \<Rightarrow> nat \<Rightarrow> string \<Rightarrow> (tbl \<times> string list) list \<Rightarrow> store \<Rightarrow> change list \<times> int" where
  "read_changes e since limit acct cbt s =
     (let entries = log_window since limit s in
      if entries = [] then ([], since)
      else (sort_key ch_seq_key
              (List.map_filter (feed_change e cbt (visible_project_ids e acct s) s)
                 (latest_entries entries)),
            next_seq since entries))"

section \<open>Agreed row clocks\<close>

definition row_state_is :: "env \<Rightarrow> string \<Rightarrow> string \<Rightarrow> string \<Rightarrow> row_state \<Rightarrow> bool" where
  "row_state_is e p t i r =
     (same_str e (rs_peer r) p \<and> same_str e (rs_table r) t \<and> same_str e (rs_row r) i)"

definition get_row_sync_state ::
  "env \<Rightarrow> string \<Rightarrow> string \<Rightarrow> string \<Rightarrow> store \<Rightarrow> row_state option" where
  "get_row_sync_state e p t i s = find (row_state_is e p t i) (row_states s)"

definition get_row_sync_clock ::
  "env \<Rightarrow> string \<Rightarrow> string \<Rightarrow> string \<Rightarrow> store \<Rightarrow> string option" where
  "get_row_sync_clock e p t i s =
     (case get_row_sync_state e p t i s of None \<Rightarrow> None
      | Some r \<Rightarrow> map_option iso_db (rs_clock r))"

text \<open>\<open>INSERT ... ON DUPLICATE KEY UPDATE\<close> on the key \<open>(peer, table_name, row_id)\<close>.\<close>

fun upsert_row_state :: "env \<Rightarrow> row_state \<Rightarrow> row_state list \<Rightarrow> row_state list" where
  "upsert_row_state e n [] = [n]"
| "upsert_row_state e n (r # rs) =
     (if row_state_is e (rs_peer n) (rs_table n) (rs_row n) r
      then r\<lparr>rs_clock := rs_clock n, rs_peer_seq := max (rs_peer_seq r) (rs_peer_seq n)\<rparr> # rs
      else r # upsert_row_state e n rs)"

text \<open>The clock argument is a wire string; \<open>None\<close> and a blank string write nothing.\<close>

definition set_row_sync_clock ::
  "env \<Rightarrow> string \<Rightarrow> string \<Rightarrow> string \<Rightarrow> string option \<Rightarrow> int option \<Rightarrow> store \<Rightarrow> exn + store" where
  "set_row_sync_clock e p t i clk pseq s =
     sbind (parse_iso_utc clk)
       (\<lambda>parsed. case parsed of None \<Rightarrow> Inr s
          | Some w \<Rightarrow> Inr (s\<lparr>row_states :=
              upsert_row_state e \<lparr>rs_peer = p, rs_table = t, rs_row = i, rs_clock = Some w,
                rs_peer_seq = (case pseq of None \<Rightarrow> 0 | Some n \<Rightarrow> n)\<rparr> (row_states s)\<rparr>))"

definition outbox_change ::
  "env \<Rightarrow> (tbl \<times> string list) list \<Rightarrow> string option \<Rightarrow> store \<Rightarrow> (tbl \<times> string) \<times> log_entry \<Rightarrow> change"
  where
  "outbox_change e cbt p s kl =
     (case kl of ((t, i), l) \<Rightarrow>
        let row = fetch_id e t i s;
            st = (if blank p then None else get_row_sync_state e (the p) (tbl_name t) i s)
        in \<lparr>ch_seq = Some (le_seq l), ch_table = tbl_name t, ch_rowId = Some i,
            ch_op = (if row = None then ''delete'' else op_name (le_op l)),
            ch_row = map_option (\<lambda>r. serialize_row (cols_for cbt t) (restrict_row (cols_for cbt t) r)) row,
            ch_base = (case st of None \<Rightarrow> None | Some r \<Rightarrow> map_option iso_db (rs_clock r)),
            ch_basePeerSeq = map_option rs_peer_seq st\<rparr>)"

definition collect_local_changes ::
  "env \<Rightarrow> int \<Rightarrow> nat \<Rightarrow> (tbl \<times> string list) list \<Rightarrow> string option \<Rightarrow> store \<Rightarrow> change list \<times> int" where
  "collect_local_changes e since limit cbt p s =
     (let entries = log_window since limit s in
      if entries = [] then ([], since)
      else (sort_key ch_seq_key (map (outbox_change e cbt p s) (latest_entries entries)),
            next_seq since entries))"

section \<open>The retry queue\<close>

definition retry_is :: "env \<Rightarrow> string \<Rightarrow> string \<Rightarrow> int \<Rightarrow> retry \<Rightarrow> bool" where
  "retry_is e p d n r = (same_str e (rq_peer r) p \<and> same_str e (rq_direction r) d \<and> rq_seq r = n)"

definition find_retry :: "env \<Rightarrow> string \<Rightarrow> string \<Rightarrow> int \<Rightarrow> store \<Rightarrow> retry option" where
  "find_retry e p d n s = find (retry_is e p d n) (retries s)"

definition enqueue_sync_retry ::
  "env \<Rightarrow> string \<Rightarrow> string \<Rightarrow> change \<Rightarrow> string \<Rightarrow> store \<Rightarrow> exn + store" where
  "enqueue_sync_retry e p d c reason s =
     (if d \<noteq> ''push'' \<and> d \<noteq> ''pull'' then Inl (ValueError (''unsupported retry direction: '' @ d))
      else case ch_seq c of
        None \<Rightarrow> Inl (ValueError ''retryable sync change requires seq'')
      | Some n \<Rightarrow>
          (case find_retry e p d n s of
             Some r \<Rightarrow>
               if rq_hash r \<noteq> change_hash e c
               then Inl (ValueError ''sync retry has a different immutable payload'')
               else let (now, s1) = now_utc e s
                    in Inr (s1\<lparr>retries := map (\<lambda>q. if retry_is e p d n q
                         then q\<lparr>rq_reason := cp_take 1000 reason, rq_last := now\<rparr> else q) (retries s1)\<rparr>)
           | None \<Rightarrow>
               if ch_rowId c = None then Inl (DbError ''1048 Column row_id cannot be null'')
               else let (now, s1) = now_utc e s
               in Inr (s1\<lparr>retries := retries s1 @ [\<lparr>rq_peer = p, rq_direction = d, rq_seq = n,
                    rq_table = ch_table c, rq_rowId = ch_rowId c, rq_change = c,
                    rq_hash = change_hash e c, rq_reason = cp_take 1000 reason,
                    rq_attempts = 0, rq_first = now, rq_last = now\<rparr>]\<rparr>)))"

definition list_sync_retries :: "env \<Rightarrow> string \<Rightarrow> string \<Rightarrow> nat \<Rightarrow> store \<Rightarrow> retry list" where
  "list_sync_retries e p d limit s =
     take limit (sort_key rq_seq
       (filter (\<lambda>r. same_str e (rq_peer r) p \<and> same_str e (rq_direction r) d) (retries s)))"

definition mark_sync_retry_failed ::
  "env \<Rightarrow> string \<Rightarrow> string \<Rightarrow> int \<Rightarrow> string \<Rightarrow> store \<Rightarrow> store" where
  "mark_sync_retry_failed e p d n reason s =
     (let (now, s1) = now_utc e s
      in s1\<lparr>retries := map (\<lambda>q. if retry_is e p d n q
           then q\<lparr>rq_attempts := Suc (rq_attempts q), rq_reason := cp_take 1000 reason,
                  rq_last := now\<rparr> else q) (retries s1)\<rparr>)"

text \<open>
  A dead entry keeps its row under the direction \<open>pushdead\<close> or \<open>pulldead\<close>; the primary
  key refuses a second dead entry of the same sequence number.
\<close>

definition mark_sync_retry_dead ::
  "env \<Rightarrow> string \<Rightarrow> string \<Rightarrow> int \<Rightarrow> string \<Rightarrow> store \<Rightarrow> exn + store" where
  "mark_sync_retry_dead e p d n reason s =
     (if find_retry e p d n s \<noteq> None \<and> find_retry e p (d @ ''dead'') n s \<noteq> None
      then Inl (DbError ''1062 Duplicate entry'')
      else let (now, s1) = now_utc e s
           in Inr (s1\<lparr>retries := map (\<lambda>q. if retry_is e p d n q
                then q\<lparr>rq_direction := d @ ''dead'', rq_attempts := Suc (rq_attempts q),
                       rq_reason := cp_take 1000 reason, rq_last := now\<rparr> else q) (retries s1)\<rparr>))"

definition delete_sync_retry :: "env \<Rightarrow> string \<Rightarrow> string \<Rightarrow> int \<Rightarrow> store \<Rightarrow> store" where
  "delete_sync_retry e p d n s = s\<lparr>retries := filter (\<lambda>q. \<not> retry_is e p d n q) (retries s)\<rparr>"

definition pending_sync_retry_count :: "env \<Rightarrow> string \<Rightarrow> store \<Rightarrow> nat" where
  "pending_sync_retry_count e p s =
     length (filter (\<lambda>r. same_str e (rq_peer r) p \<and>
       (same_str e (rq_direction r) ''push'' \<or> same_str e (rq_direction r) ''pull'')) (retries s))"

section \<open>Push receipts\<close>

definition receipt_is :: "env \<Rightarrow> string \<Rightarrow> string \<Rightarrow> int \<Rightarrow> receipt \<Rightarrow> bool" where
  "receipt_is e a c n r = (same_str e (rc_account r) a \<and> same_str e (rc_client r) c \<and> rc_seq r = n)"

definition get_sync_receipt ::
  "env \<Rightarrow> string \<Rightarrow> string \<Rightarrow> int \<Rightarrow> store \<Rightarrow> (string \<times> outcome) option" where
  "get_sync_receipt e a c n s =
     map_option (\<lambda>r. (rc_hash r, rc_outcome r)) (find (receipt_is e a c n) (receipts s))"

definition store_sync_receipt ::
  "env \<Rightarrow> string \<Rightarrow> string \<Rightarrow> int \<Rightarrow> string \<Rightarrow> outcome \<Rightarrow> store \<Rightarrow> exn + store" where
  "store_sync_receipt e a c n h oc s =
     (if find (receipt_is e a c n) (receipts s) \<noteq> None then Inl (DbError ''1062 Duplicate entry'')
      else let (now, s1) = now_utc e s
           in Inr (s1\<lparr>receipts := receipts s1 @ [\<lparr>rc_account = a, rc_client = c, rc_seq = n,
                rc_hash = h, rc_outcome = oc, rc_created = now\<rparr>]\<rparr>))"

section \<open>Cursor state\<close>

definition default_peer_state :: "string \<Rightarrow> peer_state" where
  "default_peer_state p = \<lparr>ps_peer = p, ps_pushed = 0, ps_pulled = 0, ps_ok_at = None,
     ps_error = None, ps_paused = False, ps_epoch = None, ps_updated = 0\<rparr>"

definition get_sync_state :: "env \<Rightarrow> string \<Rightarrow> store \<Rightarrow> peer_state" where
  "get_sync_state e p s =
     (case find (\<lambda>r. same_str e (ps_peer r) p) (peers s) of
        None \<Rightarrow> default_peer_state p | Some r \<Rightarrow> r)"

definition ensure_sync_state :: "env \<Rightarrow> string \<Rightarrow> store \<Rightarrow> peer_state \<times> store" where
  "ensure_sync_state e p s =
     (let st = get_sync_state e p s;
          (ep, s1) = (if blank (ps_epoch st) then generate_id e s else (the (ps_epoch st), s));
          (now, s2) = now_utc e s1
      in (st\<lparr>ps_epoch := Some ep\<rparr>,
          if find (\<lambda>r. same_str e (ps_peer r) p) (peers s2) = None
          then s2\<lparr>peers := peers s2 @ [\<lparr>ps_peer = p, ps_pushed = ps_pushed st, ps_pulled = ps_pulled st,
                 ps_ok_at = None, ps_error = None, ps_paused = ps_paused st,
                 ps_epoch = Some ep, ps_updated = now\<rparr>]\<rparr>
          else s2\<lparr>peers := map (\<lambda>r. if same_str e (ps_peer r) p
                 then r\<lparr>ps_epoch := (case ps_epoch r of None \<Rightarrow> Some ep | Some x \<Rightarrow> Some x)\<rparr>
                 else r) (peers s2)\<rparr>))"

definition get_client_epoch :: "env \<Rightarrow> string \<Rightarrow> store \<Rightarrow> string \<times> store" where
  "get_client_epoch e p s =
     (let (st, s1) = ensure_sync_state e p s in (the (ps_epoch st), s1))"

text \<open>The keyword arguments of \<open>update_sync_state\<close>.\<close>

datatype peer_field =
    LastPushed int | LastPulled int | LastOk "int option" | LastError "string option" | Paused bool

fun set_peer_field :: "peer_field \<Rightarrow> peer_state \<Rightarrow> peer_state" where
  "set_peer_field (LastPushed n) r = r\<lparr>ps_pushed := n\<rparr>"
| "set_peer_field (LastPulled n) r = r\<lparr>ps_pulled := n\<rparr>"
| "set_peer_field (LastOk x) r = r\<lparr>ps_ok_at := x\<rparr>"
| "set_peer_field (LastError x) r = r\<lparr>ps_error := x\<rparr>"
| "set_peer_field (Paused b) r = r\<lparr>ps_paused := b\<rparr>"

definition update_sync_state :: "env \<Rightarrow> string \<Rightarrow> peer_field list \<Rightarrow> store \<Rightarrow> store" where
  "update_sync_state e p fs s =
     (if fs = [] then s
      else let s1 = snd (ensure_sync_state e p s); (now, s2) = now_utc e s1
           in s2\<lparr>peers := map (\<lambda>r. if same_str e (ps_peer r) p
                then (fold set_peer_field fs r)\<lparr>ps_updated := now\<rparr> else r) (peers s2)\<rparr>)"

definition set_paused :: "env \<Rightarrow> string \<Rightarrow> bool \<Rightarrow> store \<Rightarrow> store" where
  "set_paused e p b s = update_sync_state e p [Paused b] s"

section \<open>Issues\<close>

definition issue_key_is ::
  "env \<Rightarrow> string \<Rightarrow> string option \<Rightarrow> string option \<Rightarrow> string option \<Rightarrow> issue \<Rightarrow> bool" where
  "issue_key_is e k t r p i =
     (same_str e (is_kind i) k \<and> is_resolved i = None \<and> null_safe_eq e (is_table i) t \<and>
      null_safe_eq e (is_ref i) r \<and> null_safe_eq e (is_peer i) p)"

definition record_issue ::
  "env \<Rightarrow> string \<Rightarrow> string option \<Rightarrow> string option \<Rightarrow> string option \<Rightarrow> issue_detail \<Rightarrow> store
     \<Rightarrow> string \<times> store" where
  "record_issue e k t r p det s =
     (let (now, s1) = now_utc e s in
      case find (issue_key_is e k t r p) (issues s1) of
        Some i \<Rightarrow>
          (is_id i, s1\<lparr>issues := map (\<lambda>j. if same_str e (is_id j) (is_id i)
               then j\<lparr>is_detail := det, is_detected := now\<rparr> else j) (issues s1)\<rparr>)
      | None \<Rightarrow>
          let (n, s2) = generate_id e s1
          in (n, s2\<lparr>issues := issues s2 @ [\<lparr>is_id = n, is_kind = k, is_table = t, is_ref = r,
               is_peer = p, is_detail = det, is_detected = now, is_resolved = None\<rparr>]\<rparr>))"

text \<open>\<open>serialize_issue\<close>: the fields of an issue as the API shows them.\<close>

definition serialize_issue :: "issue \<Rightarrow> issue \<times> string \<times> string option \<times> bool" where
  "serialize_issue i =
     (i, iso_db (is_detected i), map_option iso_db (is_resolved i), is_resolved i \<noteq> None)"

text \<open>The optional filters of \<open>list_issues\<close> and \<open>resolve_issues\<close>.\<close>

definition issue_matches ::
  "env \<Rightarrow> string option \<Rightarrow> string option \<Rightarrow> string option \<Rightarrow> issue \<Rightarrow> bool" where
  "issue_matches e k t r i =
     ((blank k \<or> same_str e (is_kind i) (the k)) \<and>
      (blank t \<or> null_safe_eq e (is_table i) (Some (the t))) \<and>
      (blank r \<or> null_safe_eq e (is_ref i) (Some (the r)) \<or> null_safe_eq e (is_peer i) (Some (the r))))"

definition list_issues ::
  "env \<Rightarrow> string option \<Rightarrow> string option \<Rightarrow> string option \<Rightarrow> bool \<Rightarrow> nat \<Rightarrow> store \<Rightarrow> issue list" where
  "list_issues e k t r include_resolved limit s =
     take limit (sort_key (\<lambda>i. if is_resolved i = None then 0 else (1 :: nat))
       (sort_key (\<lambda>i. - is_detected i)
         (filter (\<lambda>i. (include_resolved \<or> is_resolved i = None) \<and> issue_matches e k t r i)
            (issues s))))"

definition resolve_issues ::
  "env \<Rightarrow> string list \<Rightarrow> string option \<Rightarrow> string option \<Rightarrow> string option \<Rightarrow> store \<Rightarrow> nat \<times> store" where
  "resolve_issues e is k t r s =
     (if is = [] \<and> blank k \<and> blank t \<and> blank r then (0, s)
      else let (now, s1) = now_utc e s;
               hit = (\<lambda>i. is_resolved i = None \<and>
                  (is = [] \<or> (\<exists>j \<in> set is. same_str e (is_id i) j)) \<and> issue_matches e k t r i)
           in (length (filter hit (issues s1)),
               s1\<lparr>issues := map (\<lambda>i. if hit i then i\<lparr>is_resolved := Some now\<rparr> else i) (issues s1)\<rparr>))"

definition unresolved :: "store \<Rightarrow> issue list" where
  "unresolved s = filter (\<lambda>i. is_resolved i = None) (issues s)"

definition unresolved_count :: "env \<Rightarrow> string \<Rightarrow> store \<Rightarrow> nat" where
  "unresolved_count e k s = length (filter (\<lambda>i. same_str e (is_kind i) k) (unresolved s))"

section \<open>Cached identities\<close>

text \<open>The fields of the user dictionary that the cache reads.\<close>

record user =
  us_id :: string
  us_login :: "string option"
  us_username :: "string option"
  us_display :: "string option"
  us_name :: "string option"
  us_email :: "string option"
  us_permission :: "string option"

definition first_of :: "string option \<Rightarrow> string option \<Rightarrow> string option" where
  "first_of a b = (if blank a then b else a)"

definition upsert_local_identity :: "env \<Rightarrow> user \<Rightarrow> string option \<Rightarrow> store \<Rightarrow> store" where
  "upsert_local_identity e u iss s =
     (let (now, s1) = now_utc e s;
          n = \<lparr>id_account = us_id u, id_login = first_of (us_login u) (us_username u),
               id_display = first_of (us_display u) (us_name u), id_email = us_email u,
               id_permission = (case us_permission u of None \<Rightarrow> ''visitor'' | Some p \<Rightarrow> p),
               id_issuer = iss, id_verified = now, id_updated = now\<rparr>
      in if find (\<lambda>i. same_str e (id_account i) (us_id u)) (identities s1) = None
         then s1\<lparr>identities := identities s1 @ [n]\<rparr>
         else s1\<lparr>identities := map (\<lambda>i. if same_str e (id_account i) (us_id u)
                then n\<lparr>id_account := id_account i\<rparr> else i) (identities s1)\<rparr>)"

definition newest_identity :: "identity list \<Rightarrow> identity option" where
  "newest_identity is = (case sort_key (\<lambda>i. - id_verified i) is of [] \<Rightarrow> None | i # _ \<Rightarrow> Some i)"

definition get_local_identity ::
  "env \<Rightarrow> string option \<Rightarrow> string option \<Rightarrow> store \<Rightarrow> identity option" where
  "get_local_identity e acct iss s =
     (if \<not> blank acct \<and> \<not> blank iss
      then find (\<lambda>i. same_str e (id_account i) (the acct) \<and>
             (case id_issuer i of None \<Rightarrow> False | Some x \<Rightarrow> same_str e x (the iss))) (identities s)
      else if \<not> blank acct then find (\<lambda>i. same_str e (id_account i) (the acct)) (identities s)
      else newest_identity (identities s))"

end
