(* ===== verification/Sync_Apply.thy ===== *)
theory Sync_Apply
  imports Sync_Store
begin

text \<open>
  \<^verbatim>\<open>src/services/sync_apply.py\<close>: applying a peer's changes. Later \<open>updated_at_utc\<close> wins, a
  tie goes to the server's value, the loser's memo text is kept as a version, a row whose
  parent is missing is deferred alone, equal names are recorded and never block.

  Each change runs in a savepoint: a step returns the outcome and the store, or an
  exception, in which case the store before it stays.
\<close>

section \<open>Labels\<close>

fun other_side :: "side \<Rightarrow> side" where
  "other_side Client = Server"
| "other_side Server = Client"

text \<open>The Korean labels, as UTF-8.\<close>

fun side_label :: "side \<Rightarrow> string" where
  "side_label Client = [CHR 0xEB, CHR 0xA1, CHR 0x9C, CHR 0xEC, CHR 0xBB, CHR 0xAC]"
| "side_label Server = [CHR 0xEC, CHR 0x9B, CHR 0x90, CHR 0xEA, CHR 0xB2, CHR 0xA9]"

definition conflict_prefix :: string where
  "conflict_prefix = [CHR 0xEC, CHR 0xB6, CHR 0xA9, CHR 0xEB, CHR 0x8F, CHR 0x8C, CHR 0x20,
     CHR 0xC2, CHR 0xB7, CHR 0x20]"

definition conflict_note :: "side \<Rightarrow> int option \<Rightarrow> exn + string" where
  "conflict_note sd moment =
     sbind (kst_label (map_option naive moment))
       (\<lambda>label. Inr (conflict_prefix @ side_label sd @ '' ('' @ label @ '')''))"

section \<open>Deciding\<close>

definition incoming_wins :: "int \<Rightarrow> int option \<Rightarrow> side \<Rightarrow> bool" where
  "incoming_wins inc ex sd =
     (case ex of None \<Rightarrow> True
      | Some x \<Rightarrow> if inc > x then True else if inc < x then False else sd = Server)"

definition latest_log_seq :: "env \<Rightarrow> tbl \<Rightarrow> string \<Rightarrow> store \<Rightarrow> int" where
  "latest_log_seq e t i s =
     max_or 0 (map le_seq (filter (\<lambda>l. same_str e (le_table l) (tbl_name t) \<and> same_str e (le_row l) i)
       (change_log s)))"

definition is_true_divergence ::
  "env \<Rightarrow> tbl \<Rightarrow> string \<Rightarrow> change \<Rightarrow> int \<Rightarrow> int option \<Rightarrow> side \<Rightarrow> store \<Rightarrow> exn + bool" where
  "is_true_divergence e t i c inc ex sd s =
     (case (sd, ch_basePeerSeq c) of
        (Client, Some n) \<Rightarrow> Inr (n < latest_log_seq e t i s)
      | _ \<Rightarrow>
          if blank (ch_base c) then Inr True
          else sbind (parse_iso_utc (ch_base c))
            (\<lambda>b. case b of None \<Rightarrow> Inr True
               | Some w \<Rightarrow> Inr (ex \<noteq> Some w \<and> inc \<noteq> w)))"

text \<open>Column by column; an integer column equals the bool it stands for.\<close>

definition values_match :: "val \<Rightarrow> val \<Rightarrow> bool" where
  "values_match l r =
     (case (l, r) of
        (VInt n, VBool b) \<Rightarrow> ((n \<noteq> 0) = b)
      | _ \<Rightarrow> py_eq l r)"

fun rows_equivalent :: "row \<Rightarrow> row \<Rightarrow> string list \<Rightarrow> bool" where
  "rows_equivalent ex inc [] = True"
| "rows_equivalent ex inc (c # cs) =
     (if \<not> has_col inc c then rows_equivalent ex inc cs
      else if values_match (row_get ex c) (row_get inc c) then rows_equivalent ex inc cs
      else False)"

text \<open>The text an f-string makes of a value; a decimal for an integer.\<close>

fun nat_str :: "nat \<Rightarrow> string" where
  "nat_str n = (if n < 10 then [digit_char (int n)]
                else nat_str (n div 10) @ [digit_char (int (n mod 10))])"

declare nat_str.simps [simp del]

fun py_str :: "val \<Rightarrow> string" where
  "py_str VNull = ''None''"
| "py_str (VBool b) = (if b then ''True'' else ''False'')"
| "py_str (VInt i) = (if i < 0 then ''-'' @ nat_str (nat (- i)) else nat_str (nat i))"
| "py_str (VStr s) = s"
| "py_str (VTime w) = isoformat_ms w"

fun missing_parent_in :: "env \<Rightarrow> (string \<times> tbl) list \<Rightarrow> row \<Rightarrow> store \<Rightarrow> string option" where
  "missing_parent_in e [] r s = None"
| "missing_parent_in e ((c, p) # ps) r s =
     (if \<not> truthy (row_get r c) then missing_parent_in e ps r s
      else if \<exists>x \<in> set (tabs s p). sql_eq e (row_get x ''id'') (row_get r c)
      then missing_parent_in e ps r s
      else Some (tbl_name p @ '':'' @ py_str (row_get r c)))"

definition missing_parent :: "env \<Rightarrow> tbl \<Rightarrow> row \<Rightarrow> store \<Rightarrow> string option" where
  "missing_parent e t r s = missing_parent_in e (table_parents t) r s"

section \<open>Writing\<close>

definition insert_row :: "env \<Rightarrow> tbl \<Rightarrow> row \<Rightarrow> string list \<Rightarrow> store \<Rightarrow> exn + store" where
  "insert_row e t r cs s = db_insert e t (restrict_row cs r) s"

definition update_row :: "env \<Rightarrow> tbl \<Rightarrow> row \<Rightarrow> string list \<Rightarrow> string \<Rightarrow> store \<Rightarrow> exn + store" where
  "update_row e t r cs i s =
     (let present = restrict_row (filter (\<lambda>c. c \<noteq> table_pk t) cs) r
      in if present = [] then Inr s else db_set e t (id_is e i) present s)"

definition mark_applied :: "tbl \<Rightarrow> string \<Rightarrow> outcome \<Rightarrow> outcome" where
  "mark_applied t i oc =
     oc\<lparr>oc_applied := Suc (oc_applied oc), oc_applied_refs := oc_applied_refs oc @ [(t, i)]\<rparr>"

definition mark_skipped :: "outcome \<Rightarrow> outcome" where
  "mark_skipped oc = oc\<lparr>oc_skipped := Suc (oc_skipped oc)\<rparr>"

definition apply_hard_delete ::
  "env \<Rightarrow> tbl \<Rightarrow> string \<Rightarrow> row option \<Rightarrow> outcome \<Rightarrow> store \<Rightarrow> exn + outcome \<times> store" where
  "apply_hard_delete e t i existing oc s =
     (case existing of None \<Rightarrow> Inr (mark_skipped oc, s)
      | Some r \<Rightarrow>
          if soft_delete_table t then
            if row_get r ''deleted_at'' \<noteq> VNull then Inr (mark_skipped oc, s)
            else let (now, s1) = now_utc e s
                 in sbind (db_set e t (id_is e i)
                             [(''deleted_at'', VTime now), (''updated_at_utc'', VTime now)] s1)
                      (\<lambda>s2. Inr (mark_applied t i oc, s2))
          else Inr (mark_applied t i oc, db_delete e t (id_is e i) s))"

definition int_values :: "string \<Rightarrow> row list \<Rightarrow> int list" where
  "int_values c rs =
     List.map_filter (\<lambda>r. case row_get r c of VInt n \<Rightarrow> Some n | _ \<Rightarrow> None) rs"

text \<open>The versions of a memo, and \<open>COALESCE(MAX(version), 0) + 1\<close>.\<close>

definition memo_versions_of :: "env \<Rightarrow> string \<Rightarrow> store \<Rightarrow> row list" where
  "memo_versions_of e m s = select Memo_versions (col_is e ''memo_id'' m) s"

definition next_version :: "env \<Rightarrow> string \<Rightarrow> store \<Rightarrow> int" where
  "next_version e m s = max_or 0 (int_values ''version'' (memo_versions_of e m s)) + 1"

definition preserve_conflict_content ::
  "env \<Rightarrow> tbl \<Rightarrow> string \<Rightarrow> row \<Rightarrow> side \<Rightarrow> int option \<Rightarrow> store \<Rightarrow> exn + int option \<times> store" where
  "preserve_conflict_content e t i loser sd clk s =
     (case content_column t of None \<Rightarrow> Inr (None, s)
      | Some col \<Rightarrow>
          let content = row_get loser col in
          if content = VNull then Inr (None, s)
          else if \<exists>v \<in> set (memo_versions_of e i s). sql_eq e (row_get v ''content'') content
          then Inr (None, s)
          else let n = next_version e i s; (now, s1) = now_utc e s; (vid, s2) = generate_id e s1
               in sbind (conflict_note sd clk)
                   (\<lambda>note. sbind
                      (change_log_enabled (db_insert e Memo_versions
                        [(''id'', VStr vid), (''memo_id'', VStr i), (''content'', content),
                         (''version'', VInt n), (''note'', VStr note), (''created_at'', VTime now),
                         (''updated_at_utc'', VTime now)]) s2)
                      (\<lambda>s3. Inr (Some n, s3))))"

definition duplicate_step ::
  "env \<Rightarrow> tbl \<Rightarrow> string \<Rightarrow> string \<Rightarrow> string \<Rightarrow> string \<Rightarrow> bool \<Rightarrow> row
     \<Rightarrow> outcome \<times> store \<Rightarrow> exn + outcome \<times> store" where
  "duplicate_step e t i col kind name rec cand os =
     (case os of (oc, s) \<Rightarrow>
        sbind (normalize_name (nfc e) (row_get cand col))
          (\<lambda>nm. if nm \<noteq> name then Inr (oc, s)
             else let d = \<lparr>du_kind = kind, du_table = tbl_name t, du_rowId = i,
                           du_peer = row_id cand, du_name = name\<rparr>;
                      oc1 = oc\<lparr>oc_duplicates := oc_duplicates oc @ [d]\<rparr>
                  in if rec then
                       let (n, s1) = record_issue e kind (Some (tbl_name t)) (Some i)
                                       (Some (row_id cand)) (DuplicateDetail d) s
                       in Inr (oc1\<lparr>oc_issue_ids := oc_issue_ids oc1 @ [n]\<rparr>, s1)
                     else Inr (oc1, s)))"

definition duplicate_candidates ::
  "env \<Rightarrow> tbl \<Rightarrow> string \<Rightarrow> string option \<Rightarrow> row \<Rightarrow> store \<Rightarrow> row list" where
  "duplicate_candidates e t i scope r s =
     select t (\<lambda>x. (case scope of None \<Rightarrow> True | Some sc \<Rightarrow> sql_eq e (row_get x sc) (row_get r sc))
                 \<and> \<not> id_is e i x \<and> live x) s"

definition detect_duplicates ::
  "env \<Rightarrow> tbl \<Rightarrow> string \<Rightarrow> row \<Rightarrow> bool \<Rightarrow> outcome \<Rightarrow> store \<Rightarrow> exn + outcome \<times> store" where
  "detect_duplicates e t i r rec oc s =
     (case duplicate_axis t of None \<Rightarrow> Inr (oc, s)
      | Some (scope, col, kind) \<Rightarrow>
          if row_get r ''deleted_at'' \<noteq> VNull then Inr (oc, s)
          else sbind (normalize_name (nfc e) (row_get r col))
            (\<lambda>name. if name = [] then Inr (oc, s)
               else sfold (duplicate_step e t i col kind name rec)
                      (duplicate_candidates e t i scope r s) (oc, s)))"

section \<open>One change\<close>

definition refused :: "tbl \<Rightarrow> string option \<Rightarrow> string \<Rightarrow> ref_entry" where
  "refused t i why = \<lparr>re_seq = None, re_table = tbl_name t, re_rowId = i, re_reason = why\<rparr>"

definition record_conflict ::
  "env \<Rightarrow> tbl \<Rightarrow> string \<Rightarrow> change \<Rightarrow> row \<Rightarrow> row \<Rightarrow> int \<Rightarrow> side \<Rightarrow> bool \<Rightarrow> outcome \<Rightarrow> store
     \<Rightarrow> exn + outcome \<times> store" where
  "record_conflict e t i c existing incoming inc sd rec oc s =
     (let ex = row_clock existing; wins = incoming_wins inc ex sd;
          loser_side = (if wins then other_side sd else sd)
      in sbind (preserve_conflict_content e t i (if wins then existing else incoming) loser_side
                  (if wins then ex else Some inc) s)
           (\<lambda>(v, s1).
              let cf = \<lparr>cf_table = tbl_name t, cf_rowId = i, cf_incoming_won = wins,
                        cf_winnerSide = (if wins then sd else other_side sd),
                        cf_loserSide = loser_side, cf_base = ch_base c,
                        cf_incomingUtc = Some (iso_db inc), cf_existingUtc = map_option iso_db ex,
                        cf_preserved = v\<rparr>;
                  oc1 = oc\<lparr>oc_conflicts := oc_conflicts oc @ [cf]\<rparr>
              in if rec then
                   let (n, s2) = record_issue e ''conflict'' (Some (tbl_name t)) (Some i) None
                                   (ConflictDetail cf) s1
                   in Inr (oc1\<lparr>oc_issue_ids := oc_issue_ids oc1 @ [n]\<rparr>, s2)
                 else Inr (oc1, s1)))"

text \<open>The row exists: an equal row is skipped, a divergence recorded, the later one kept.\<close>

definition apply_existing ::
  "env \<Rightarrow> string list \<Rightarrow> side \<Rightarrow> bool \<Rightarrow> tbl \<Rightarrow> change \<Rightarrow> string \<Rightarrow> row \<Rightarrow> row \<Rightarrow> int \<Rightarrow> outcome
     \<Rightarrow> store \<Rightarrow> exn + outcome \<times> store" where
  "apply_existing e cols sd rec t c i ex incoming inc oc s =
     (let wins = incoming_wins inc (row_clock ex) sd in
      if Some inc = row_clock ex \<and> rows_equivalent ex incoming cols then Inr (mark_skipped oc, s)
      else sbind (is_true_divergence e t i c inc (row_clock ex) sd s)
        (\<lambda>dv. sbind
           (if dv then record_conflict e t i c ex incoming inc sd rec oc s else Inr (oc, s))
           (\<lambda>(oc1, s1).
              if \<not> wins then Inr (mark_skipped oc1, s1)
              else sbind (update_row e t incoming cols i s1)
                (detect_duplicates e t i incoming rec (mark_applied t i oc1)))))"

text \<open>The decoded row: it needs a clock and its parents.\<close>

definition apply_decoded ::
  "env \<Rightarrow> string list \<Rightarrow> side \<Rightarrow> bool \<Rightarrow> tbl \<Rightarrow> change \<Rightarrow> string \<Rightarrow> row option \<Rightarrow> row \<Rightarrow> outcome
     \<Rightarrow> store \<Rightarrow> exn + outcome \<times> store" where
  "apply_decoded e cols sd rec t c i existing incoming oc s =
     (case row_clock incoming of
        None \<Rightarrow> Inr (oc\<lparr>oc_rejected := oc_rejected oc @
                       [refused t (Some i) ''missing_updated_at_utc'']\<rparr>, s)
      | Some inc \<Rightarrow>
          (case missing_parent e t incoming s of
             Some p \<Rightarrow> Inr (oc\<lparr>oc_deferred := oc_deferred oc @
                              [refused t (Some i) (''missing_parent:'' @ p)]\<rparr>, s)
           | None \<Rightarrow>
               (case existing of
                  None \<Rightarrow> sbind (insert_row e t incoming cols s)
                            (detect_duplicates e t i incoming rec (mark_applied t i oc))
                | Some ex \<Rightarrow> apply_existing e cols sd rec t c i ex incoming inc oc s)))"

definition apply_one ::
  "env \<Rightarrow> (tbl \<times> string list) list \<Rightarrow> side \<Rightarrow> bool \<Rightarrow> tbl \<Rightarrow> change \<Rightarrow> outcome \<Rightarrow> store
     \<Rightarrow> exn + outcome \<times> store" where
  "apply_one e cbt sd rec t c oc s =
     (if blank (ch_rowId c)
      then Inr (oc\<lparr>oc_rejected := oc_rejected oc @ [refused t None ''missing_row_id'']\<rparr>, s)
      else
        let cols = cols_for cbt t; i = the (ch_rowId c); existing = fetch_id e t i s in
        if ch_op c = ''delete'' \<and> ch_row c = None then apply_hard_delete e t i existing oc s
        else sbind (deserialize_row cols (case ch_row c of None \<Rightarrow> [] | Some r \<Rightarrow> r))
          (\<lambda>inc. apply_decoded e cols sd rec t c i existing
                   (row_set inc (table_pk t) (VStr i)) oc s))"

section \<open>The batch\<close>

definition row_result_of :: "env \<Rightarrow> tbl \<Rightarrow> change \<Rightarrow> outcome \<Rightarrow> store \<Rightarrow> row_result" where
  "row_result_of e t c oc s =
     (let (st, why) =
        (if oc_rejected oc \<noteq> [] then (Rejected, Some (re_reason (hd (oc_rejected oc))))
         else if oc_deferred oc \<noteq> [] then (Deferred, Some (re_reason (hd (oc_deferred oc))))
         else if oc_applied oc \<noteq> 0 then (Applied, None) else (Skipped, None))
      in \<lparr>rr_seq = ch_seq c, rr_table = tbl_name t, rr_rowId = ch_rowId c, rr_status = st,
          rr_reason = why, rr_conflict = (oc_conflicts oc \<noteq> []),
          rr_effective = (if blank (ch_rowId c) then None
             else case fetch_id e t (the (ch_rowId c)) s of None \<Rightarrow> None
               | Some r \<Rightarrow> map_option iso_db (row_clock r))\<rparr>)"

text \<open>\<open>_merge_outcome\<close> leaves the results out; \<open>_merge_receipt_outcome\<close> takes them too.\<close>

definition merge_outcome :: "outcome \<Rightarrow> outcome \<Rightarrow> outcome" where
  "merge_outcome t s =
     t\<lparr>oc_applied := oc_applied t + oc_applied s, oc_skipped := oc_skipped t + oc_skipped s,
       oc_deferred := oc_deferred t @ oc_deferred s, oc_rejected := oc_rejected t @ oc_rejected s,
       oc_conflicts := oc_conflicts t @ oc_conflicts s,
       oc_duplicates := oc_duplicates t @ oc_duplicates s,
       oc_issue_ids := oc_issue_ids t @ oc_issue_ids s,
       oc_applied_refs := oc_applied_refs t @ oc_applied_refs s\<rparr>"

definition add_result :: "row_result \<Rightarrow> outcome \<Rightarrow> outcome" where
  "add_result r oc = oc\<lparr>oc_results := oc_results oc @ [r]\<rparr>"

definition merge_receipt_outcome :: "outcome \<Rightarrow> outcome \<Rightarrow> outcome" where
  "merge_receipt_outcome t s =
     (merge_outcome t s)\<lparr>oc_results := oc_results t @ oc_results s\<rparr>"

definition reject_result :: "change \<Rightarrow> string \<Rightarrow> row_result" where
  "reject_result c why =
     \<lparr>rr_seq = ch_seq c, rr_table = ch_table c, rr_rowId = ch_rowId c, rr_status = Rejected,
      rr_reason = Some why, rr_conflict = False, rr_effective = None\<rparr>"

definition reject_change :: "change \<Rightarrow> string \<Rightarrow> outcome \<Rightarrow> outcome" where
  "reject_change c why oc =
     add_result (reject_result c why)
       (oc\<lparr>oc_rejected := oc_rejected oc @
            [\<lparr>re_seq = ch_seq c, re_table = ch_table c, re_rowId = ch_rowId c, re_reason = why\<rparr>]\<rparr>)"

text \<open>The receipt key of a change, when the caller named an account and a client.\<close>

definition receipt_key :: "(string \<times> string) option \<Rightarrow> change \<Rightarrow> (string \<times> string \<times> int) option" where
  "receipt_key rcpt c =
     (case (rcpt, ch_seq c) of
        (Some (a, cl), Some n) \<Rightarrow> if a = [] \<or> cl = [] then None else Some (a, cl, n)
      | _ \<Rightarrow> None)"

definition keep_receipt ::
  "env \<Rightarrow> (string \<times> string \<times> int) option \<Rightarrow> change \<Rightarrow> outcome \<Rightarrow> store \<Rightarrow> exn + store" where
  "keep_receipt e key c oc s =
     (case key of None \<Rightarrow> Inr s
      | Some (a, cl, n) \<Rightarrow> store_sync_receipt e a cl n (change_hash e c) oc s)"

text \<open>One pass of the loop. \<open>Inl\<close> is an exception that ends the batch.\<close>

definition process_change ::
  "env \<Rightarrow> (tbl \<times> string list) list \<Rightarrow> side \<Rightarrow> bool \<Rightarrow> (string \<times> string) option
     \<Rightarrow> tbl \<times> change \<Rightarrow> outcome \<times> store \<Rightarrow> exn + outcome \<times> store" where
  "process_change e cbt sd rec rcpt tc os =
     (case tc of (t, c) \<Rightarrow> case os of (oc, s) \<Rightarrow>
        let key = receipt_key rcpt c;
            prior = (case key of None \<Rightarrow> None | Some (a, cl, n) \<Rightarrow> get_sync_receipt e a cl n s)
        in case prior of
             Some (h, old) \<Rightarrow>
               if h \<noteq> change_hash e c then Inl (ReceiptPayloadMismatch (the (ch_seq c)))
               else Inr (merge_receipt_outcome oc old, s)
           | None \<Rightarrow>
               (case apply_one e cbt sd rec t c empty_outcome s of
                  Inl x \<Rightarrow>
                    sbind (keep_receipt e key c (reject_change c (exn_str x) empty_outcome) s)
                      (\<lambda>s1. Inr (reject_change c (exn_str x) oc, s1))
                | Inr (row_oc, s1) \<Rightarrow>
                    let r = row_result_of e t c row_oc s1;
                        oc1 = add_result r (merge_outcome oc row_oc)
                    in if rr_status r = Deferred then Inr (oc1, s1)
                       else sbind (keep_receipt e key c (add_result r row_oc) s1)
                              (\<lambda>s2. Inr (oc1, s2))))"

text \<open>Grouping by table keeps the order of the batch inside a table.\<close>

definition grouped :: "change list \<Rightarrow> (tbl \<times> change) list" where
  "grouped cs =
     concat (map (\<lambda>t. map (Pair t) (filter (\<lambda>c. tbl_of (ch_table c) = Some t) cs)) SYNC_TABLE_ORDER)"

fun reject_unknown :: "change list \<Rightarrow> outcome \<Rightarrow> outcome" where
  "reject_unknown [] oc = oc"
| "reject_unknown (c # cs) oc =
     reject_unknown cs (if is_sync_table (ch_table c) then oc
                        else reject_change c ''unknown_table'' oc)"

definition apply_changes ::
  "env \<Rightarrow> (tbl \<times> string list) list \<Rightarrow> side \<Rightarrow> bool \<Rightarrow> (string \<times> string) option \<Rightarrow> change list
     \<Rightarrow> store \<Rightarrow> exn + outcome \<times> store" where
  "apply_changes e cbt sd rec rcpt cs s =
     sfold (process_change e cbt sd rec rcpt) (grouped cs) (reject_unknown cs empty_outcome, s)"

end
