(* ===== verification/Invariants.thy ===== *)
theory Invariants
  imports Sync_Apply
begin

text \<open>
  The constraints of the schema (\<^verbatim>\<open>src/connectors/__init__.py\<close>), and what the components
  promise about the synchronised tables and the log: an invariant that the SQL statements
  keep is kept by every operation built from them. The locales \<open>statement_invariant\<close>,
  \<open>change_invariant\<close> and \<open>store_invariant\<close> state the laws once; their clients are proved inside
  them, and they are interpreted on the primary keys, the foreign keys, the sequence of the log,
  the survival of rows and log entries, and what a change leaves of the log.
\<close>

section \<open>Constraints of the CREATE TABLE statements\<close>

fun not_null_columns :: "tbl \<Rightarrow> string list" where
  "not_null_columns Projects =
     [''id'', ''name'', ''icon'', ''status'', ''created_at'', ''updated_at'', ''updated_at_utc'']"
| "not_null_columns Memos =
     [''id'', ''project_id'', ''title'', ''status'', ''created_at'', ''updated_at'', ''updated_at_utc'']"
| "not_null_columns Memo_versions =
     [''id'', ''memo_id'', ''version'', ''created_at'', ''updated_at_utc'']"
| "not_null_columns Project_members =
     [''id'', ''project_id'', ''user_id'', ''role'', ''invited_at'', ''updated_at_utc'']"

definition same_col :: "env \<Rightarrow> string \<Rightarrow> row \<Rightarrow> row \<Rightarrow> bool" where
  "same_col e c r x = sql_eq e (row_get x c) (row_get r c)"

definition parent_absent :: "env \<Rightarrow> store \<Rightarrow> tbl \<Rightarrow> row \<Rightarrow> bool" where
  "parent_absent e s t r =
     (\<exists>(c, p) \<in> set (table_parents t). \<not> (\<exists>x \<in> set (tabs s p).
        sql_eq e (row_get x ''id'') (row_get r c)))"

definition member_taken :: "env \<Rightarrow> row list \<Rightarrow> row \<Rightarrow> bool" where
  "member_taken e rs r =
     (\<exists>x \<in> set rs. same_col e ''project_id'' r x \<and> same_col e ''user_id'' r x)"

definition ddl_refuse_ins :: "env \<Rightarrow> store \<Rightarrow> tbl \<Rightarrow> row \<Rightarrow> string option" where
  "ddl_refuse_ins e s t r =
     (if \<exists>c \<in> set (not_null_columns t). row_get r c = VNull then Some ''1048 Column cannot be null''
      else if row_str r ''id'' = None then Some ''1366 Incorrect value''
      else if \<exists>x \<in> set (tabs s t). same_col e ''id'' r x then Some ''1062 Duplicate entry''
      else if t = Project_members \<and> member_taken e (tabs s t) r then Some ''1062 Duplicate entry''
      else if parent_absent e s t r then Some ''1452 Cannot add or update a child row''
      else None)"

definition ddl_refuse_upd :: "env \<Rightarrow> store \<Rightarrow> tbl \<Rightarrow> row \<Rightarrow> row \<Rightarrow> string option" where
  "ddl_refuse_upd e s t r r' =
     (if \<exists>c \<in> set (not_null_columns t). row_get r' c = VNull then Some ''1048 Column cannot be null''
      else if t = Project_members \<and> member_taken e (remove1 r (tabs s t)) r'
      then Some ''1062 Duplicate entry''
      else if parent_absent e s t r' then Some ''1452 Cannot add or update a child row''
      else None)"

text \<open>An engine that refuses what the schema forbids (it may refuse more).\<close>

definition enforces_ddl :: "env \<Rightarrow> bool" where
  "enforces_ddl e \<longleftrightarrow>
     (\<forall>s t r. ddl_refuse_ins e s t r \<noteq> None \<longrightarrow> refuse_ins e s t r \<noteq> None) \<and>
     (\<forall>s t r r'. ddl_refuse_upd e s t r r' \<noteq> None \<longrightarrow> refuse_upd e s t r r' \<noteq> None)"

section \<open>Invariants of the statements\<close>

text \<open>For an invariant that does not look at the issues, their operations are for free.\<close>

lemma issue_blind:
  assumes "\<And>s k. I s \<Longrightarrow> I (s\<lparr>ticks := k\<rparr>)" "\<And>s k. I s \<Longrightarrow> I (s\<lparr>ids := k\<rparr>)"
    and "\<And>s is. I s \<Longrightarrow> I (s\<lparr>issues := is\<rparr>)" and "I s"
  shows "record_issue e k t r p d s = (i, s') \<Longrightarrow> I s'"
    and "resolve_issues e is k' t' r' s = (m, s') \<Longrightarrow> I s'"
  using assms
  by (auto simp: record_issue_def resolve_issues_def now_utc_def generate_id_def Let_def
      split: option.splits if_splits)


text \<open>
  The first contract has what one change of a peer needs, the second adds the receipts for a whole
  batch, the third the articles and the connections; each gives the one before.
\<close>

locale statement_invariant =
  fixes e :: env and I :: "store \<Rightarrow> bool"
  assumes ticks: "I s \<Longrightarrow> I (s\<lparr>ticks := k\<rparr>)"
    and ids: "I s \<Longrightarrow> I (s\<lparr>ids := k\<rparr>)"
    and issue: "I s \<Longrightarrow> record_issue e kd tb rf pr dt s = (i, s') \<Longrightarrow> I s'"
    and resolve: "I s \<Longrightarrow> resolve_issues e is kd' tb' rf' s = (m, s') \<Longrightarrow> I s'"
    and insert: "I s \<Longrightarrow> db_insert e t r s = Inr s' \<Longrightarrow> I s'"
    and update: "I s \<Longrightarrow> db_update e t P asg s = Inr (n, s') \<Longrightarrow>
      ''id'' \<notin> fst ` set asg \<Longrightarrow> I s'"
    and delete: "I s \<Longrightarrow> I (db_delete e Memo_versions P s)"
    and logged: "I s \<Longrightarrow> change_log_enabled (db_insert e Memo_versions r) s = Inr s' \<Longrightarrow> I s'"
begin

lemma set_update: "I s \<Longrightarrow> db_set e t P asg s = Inr s' \<Longrightarrow> ''id'' \<notin> fst ` set asg \<Longrightarrow> I s'"
  by (auto simp: db_set_def intro: update)

lemma now: "I s \<Longrightarrow> now_utc e s = (w, s') \<Longrightarrow> I s'"
  by (auto simp: now_utc_def intro: ticks)

lemma local_now: "I s \<Longrightarrow> now_local e s = (w, s') \<Longrightarrow> I s'"
  by (auto simp: now_local_def intro: ticks)

lemma new_id: "I s \<Longrightarrow> generate_id e s = (i, s') \<Longrightarrow> I s'"
  by (auto simp: generate_id_def intro: ids)

subsection \<open>Applying changes\<close>

lemma insert_row: "I s \<Longrightarrow> insert_row e t r cs s = Inr s' \<Longrightarrow> I s'"
  by (auto simp: insert_row_def intro: insert)

lemma update_row: "I s \<Longrightarrow> update_row e t r cs i s = Inr s' \<Longrightarrow> I s'"
  by (auto simp: update_row_def Let_def table_pk_def restrict_row_def intro: set_update
      split: if_splits)

lemma hard_delete: "I s \<Longrightarrow> apply_hard_delete e t i ex oc s = Inr (oc', s') \<Longrightarrow> I s'"
  by (auto simp: apply_hard_delete_def Let_def soft_delete_table_iff split: option.splits if_splits
      prod.splits intro: delete set_update now)

lemma preserve:
  assumes "I s" "preserve_conflict_content e t i r sd k s = Inr (v, s')"
  shows "I s'"
proof -
  obtain now s1 where n: "now_utc e s = (now, s1)" by (cases "now_utc e s")
  obtain vid s2 where g: "generate_id e s1 = (vid, s2)" by (cases "generate_id e s1")
  have "I s2" using assms(1) n g now new_id by blast
  moreover have "s' = s \<or> (\<exists>asg. change_log_enabled (db_insert e Memo_versions asg) s2 = Inr s')"
    using assms(2) n g
    by (auto simp: preserve_conflict_content_def Let_def split: option.splits if_splits)
  ultimately show ?thesis using assms(1) logged by blast
qed

lemma duplicate_step:
  "I (snd p) \<Longrightarrow> duplicate_step e t i c k nm rec x p = Inr q \<Longrightarrow> I (snd q)"
  by (auto simp: duplicate_step_def Let_def split: prod.splits if_splits intro: issue)

lemma duplicates:
  assumes "I s" "detect_duplicates e t i r rec oc s = Inr (oc', s')"
  shows "I s'"
proof -
  have loop: "I s'" if "sfold (duplicate_step e t i c k nm rec) xs (oc, s) = Inr (oc', s')" for c k nm xs
    using sfold_invariant [OF that, where P = "\<lambda>p. I (snd p)"] assms(1) duplicate_step by auto
  show ?thesis
    using assms by (auto simp: detect_duplicates_def split: option.splits if_splits dest: loop)
qed

lemma conflict:
  assumes "I s" "record_conflict e t i c ex inc k sd rec oc s = Inr (oc', s')"
  shows "I s'"
  using assms
  by (auto simp: record_conflict_def Let_def split: prod.splits if_splits
      dest: preserve intro: issue)

lemma apply_existing:
  assumes I: "I s"
    and run: "apply_existing e cols sd rec t c i ex incoming inc oc s = Inr (oc', s')"
  shows "I s'"
proof (cases "Some inc = row_clock ex \<and> rows_equivalent ex incoming cols")
  case True
  with run I show ?thesis by (auto simp: apply_existing_def)
next
  case False
  with run obtain dv oc1 s1 where d: "(if dv then record_conflict e t i c ex incoming inc sd rec oc s
      else Inr (oc, s)) = Inr (oc1, s1)"
    and r: "(if \<not> incoming_wins inc (row_clock ex) sd then Inr (mark_skipped oc1, s1)
        else sbind (update_row e t incoming cols i s1)
          (detect_duplicates e t i incoming rec (mark_applied t i oc1))) = Inr (oc', s')"
    by (auto simp: apply_existing_def Let_def)
  from d I have "I s1" by (auto split: if_splits intro: conflict)
  with r show ?thesis by (auto split: if_splits dest: update_row duplicates)
qed

lemma apply_decoded:
  "I s \<Longrightarrow> apply_decoded e cols sd rec t c i existing incoming oc s = Inr (oc', s') \<Longrightarrow> I s'"
  by (auto simp: apply_decoded_def split: option.splits
      dest: insert_row duplicates apply_existing)

lemma apply_one:
  "I s \<Longrightarrow> apply_one e cbt sd rec t c oc s = Inr (oc', s') \<Longrightarrow> I s'"
  unfolding apply_one_def Let_def
  by (auto split: if_splits dest: hard_delete apply_decoded)

end

lemma logged_insert:
  assumes "\<And>s b. I s \<Longrightarrow> I (s\<lparr>applying := b\<rparr>)" "\<And>s s'. I s \<Longrightarrow> db_insert e t r s = Inr s' \<Longrightarrow> I s'"
    and "I s" "change_log_enabled (db_insert e t r) s = Inr s'"
  shows "I s'"
proof -
  obtain s1 where "db_insert e t r (s\<lparr>applying := False\<rparr>) = Inr s1" "s' = s1\<lparr>applying := applying s\<rparr>"
    using assms(4) by (auto simp: change_log_enabled_def)
  then show ?thesis using assms(1-3) by blast
qed

locale change_invariant = statement_invariant +
  assumes receipts: "I s \<Longrightarrow> I (s\<lparr>receipts := rs\<rparr>)"
begin

lemma receipt: "I s \<Longrightarrow> store_sync_receipt e a c n h oc s = Inr s' \<Longrightarrow> I s'"
  by (auto simp: store_sync_receipt_def now_utc_def Let_def split: if_splits intro!: receipts ticks)

lemma keep_receipt: "I s \<Longrightarrow> keep_receipt e k c oc s = Inr s' \<Longrightarrow> I s'"
  by (auto simp: keep_receipt_def split: option.splits intro: receipt)

lemma process_change:
  assumes I: "I s" and run: "process_change e cbt sd rec rcpt (t, c) (oc, s) = Inr (oc', s')"
  shows "I s'"
proof (cases "apply_one e cbt sd rec t c empty_outcome s")
  case (Inl x)
  with I run show ?thesis
    by (auto simp: process_change_def Let_def split: option.splits if_splits dest: keep_receipt)
next
  case (Inr p)
  obtain oc1 s1 where p: "p = (oc1, s1)" by (cases p)
  have "I s1" using I Inr p apply_one by blast
  with I run Inr p show ?thesis
    by (auto simp: process_change_def Let_def split: option.splits if_splits dest: keep_receipt)
qed

lemma apply_changes:
  assumes "I s" "apply_changes e cbt sd rec rcpt cs s = Inr (oc, s')"
  shows "I s'"
  using sfold_invariant [OF assms(2) [unfolded apply_changes_def], where P = "\<lambda>p. I (snd p)"]
    assms(1) process_change by fastforce

end

locale store_invariant = change_invariant +
  assumes articles: "I s \<Longrightarrow> I (s\<lparr>articles := as\<rparr>)"
    and flag: "I s \<Longrightarrow> I (s\<lparr>applying := b\<rparr>)"
begin

lemma connection:
  "(\<And>s v s'. I s \<Longrightarrow> f s = Inr (v, s') \<Longrightarrow> I s') \<Longrightarrow> I s \<Longrightarrow> with_connection b f s = (r, s') \<Longrightarrow> I s'"
  by (auto simp: with_connection_def split: sum.splits prod.splits) (metis flag)

end

section \<open>The statements, row by row\<close>

lemma row_get_touch_id:
  "''id'' \<notin> fst ` set asg \<Longrightarrow> row_get (row_update r (touch now t asg)) ''id'' = row_get r ''id''"
  by (subst row_get_touch) (auto simp: row_get_update)

lemma row_id_touch [simp]:
  "''id'' \<notin> fst ` set asg \<Longrightarrow> row_id (row_update r (touch now t asg)) = row_id r"
  by (simp add: row_id_def row_get_touch_id)

lemma db_update_ids:
  assumes "db_update e t P asg s = Inr (n, s')" "''id'' \<notin> fst ` set asg"
  shows "map row_id (tabs s' u) = map row_id (tabs s u)"
  using assms(2) by (simp add: db_update_tabs [THEN conjunct1, OF assms(1)])

lemma db_update_id_cols:
  assumes "db_update e t P asg s = Inr (n, s')" "''id'' \<notin> fst ` set asg"
  shows "map (\<lambda>r. row_get r ''id'') (tabs s' u) = map (\<lambda>r. row_get r ''id'') (tabs s u)"
  using assms(2) by (simp add: db_update_tabs [THEN conjunct1, OF assms(1)] row_get_touch_id)

lemma db_insert_ddl:
  assumes "enforces_ddl e" "db_insert e t r s = Inr s'"
  shows "ddl_refuse_ins e s t (complete_row (sql_now e (ticks s)) t r) = None"
proof -
  have "refuse_ins e s t (complete_row (sql_now e (ticks s)) t r) = None"
    using assms(2) by (auto simp: db_insert_def Let_def split: option.splits)
  with assms(1) show ?thesis unfolding enforces_ddl_def by blast
qed

lemma db_update_ddl:
  assumes "enforces_ddl e" "db_update e t P asg s = Inr (n, s')" "r \<in> set (tabs s t)" "P r"
  shows "ddl_refuse_upd e s t r (row_update r (touch (sql_now e (ticks s)) t asg)) = None"
proof -
  have "refuse_upd e s t r (row_update r (touch (sql_now e (ticks s)) t asg)) = None"
    using assms(2-4) by (auto simp: db_update_def Let_def find_None split: option.splits)
  with assms(1) show ?thesis unfolding enforces_ddl_def by blast
qed

section \<open>Primary keys\<close>

definition keys_ok :: "env \<Rightarrow> store \<Rightarrow> bool" where
  "keys_ok e s = (\<forall>t. (\<forall>r \<in> set (tabs s t). row_str r ''id'' \<noteq> None) \<and>
     distinct (map (\<lambda>r. collate e (row_id r)) (tabs s t)))"

lemma row_str_VStr: "row_str r c = Some v \<longleftrightarrow> row_get r c = VStr v"
  by (cases "row_get r c") (auto simp: row_str_def)

lemma row_str_not_None: "row_str r c \<noteq> None \<longleftrightarrow> (\<exists>v. row_get r c = VStr v)"
  using row_str_VStr by auto

lemma keys_ok_cong:
  assumes "\<And>t. map (\<lambda>r. row_get r ''id'') (tabs s' t) = map (\<lambda>r. row_get r ''id'') (tabs s t)"
    and "keys_ok e s"
  shows "keys_ok e s'"
proof -
  have id: "map f (map (\<lambda>r. row_get r ''id'') (tabs s' t)) = map f (map (\<lambda>r. row_get r ''id'') (tabs s t))" for f :: "val \<Rightarrow> string" and t
    using assms(1) by simp
  have "map (\<lambda>r. collate e (row_id r)) (tabs s' t) = map (\<lambda>r. collate e (row_id r)) (tabs s t)" for t
    using id [of "\<lambda>v. collate e (case v of VStr s \<Rightarrow> s | _ \<Rightarrow> [])" t] by (simp add: row_id_def comp_def)
  moreover have "(\<lambda>r. row_get r ''id'') ` set (tabs s' t) = (\<lambda>r. row_get r ''id'') ` set (tabs s t)" for t
    using assms(1) [of t] by (metis set_map)
  ultimately show ?thesis using assms(2) unfolding keys_ok_def row_str_not_None
    by (metis (no_types, lifting) image_iff)
qed

lemma keys_ok_insert:
  assumes e: "enforces_ddl e" and k: "keys_ok e s" and ins: "db_insert e t r s = Inr s'"
  shows "keys_ok e s'"
proof -
  let ?r = "complete_row (sql_now e (ticks s)) t r"
  have ddl: "ddl_refuse_ins e s t ?r = None" using e ins by (rule db_insert_ddl)
  then obtain i where i: "row_get ?r ''id'' = VStr i"
    by (auto simp: ddl_refuse_ins_def row_str_def split: if_splits val.splits)
  have new: "\<not> same_col e ''id'' ?r x" if "x \<in> set (tabs s t)" for x
    using ddl that by (auto simp: ddl_refuse_ins_def split: if_splits)
  have "collate e (row_id ?r) \<noteq> collate e (row_id x)" if x: "x \<in> set (tabs s t)" for x
  proof -
    obtain j where "row_get x ''id'' = VStr j"
      using k x unfolding keys_ok_def row_str_not_None by blast
    with new [OF x] i show ?thesis by (auto simp: same_col_def same_str_def row_id_def)
  qed
  with k i show ?thesis
    unfolding keys_ok_def row_str_not_None db_insert_tabs [OF ins] by auto
qed

lemma keys_ok_fields [simp]:
  "keys_ok e (s\<lparr>ticks := k\<rparr>) = keys_ok e s" "keys_ok e (s\<lparr>ids := k\<rparr>) = keys_ok e s"
  "keys_ok e (s\<lparr>issues := is\<rparr>) = keys_ok e s" "keys_ok e (s\<lparr>receipts := rs\<rparr>) = keys_ok e s"
  "keys_ok e (s\<lparr>articles := as\<rparr>) = keys_ok e s" "keys_ok e (s\<lparr>applying := b\<rparr>) = keys_ok e s"
  by (simp_all add: keys_ok_def)

lemma keys_ok_update:
  "keys_ok e s \<Longrightarrow> db_update e t P asg s = Inr (n, s') \<Longrightarrow> ''id'' \<notin> fst ` set asg \<Longrightarrow> keys_ok e s'"
  using db_update_id_cols keys_ok_cong by metis

lemma keys_ok_delete: "keys_ok e s \<Longrightarrow> keys_ok e (db_delete e Memo_versions P s)"
  by (auto simp: keys_ok_def distinct_map_filter)

interpretation keys: store_invariant e "\<lambda>s. enforces_ddl e \<longrightarrow> keys_ok e s" for e
proof
  show "enforces_ddl e \<longrightarrow> keys_ok e s'" if "enforces_ddl e \<longrightarrow> keys_ok e s" "record_issue e k t r p d s = (i, s')" for s s' k t r p d i
    by (rule issue_blind(1) [where I = "\<lambda>s. enforces_ddl e \<longrightarrow> keys_ok e s", OF _ _ _ that]) simp_all
  show "enforces_ddl e \<longrightarrow> keys_ok e s'" if "enforces_ddl e \<longrightarrow> keys_ok e s" "resolve_issues e is k t r s = (m, s')" for s s' "is" k t r m
    by (rule issue_blind(2) [where I = "\<lambda>s. enforces_ddl e \<longrightarrow> keys_ok e s", OF _ _ _ that]) simp_all
  show "enforces_ddl e \<longrightarrow> keys_ok e s'"
    if "enforces_ddl e \<longrightarrow> keys_ok e s" "change_log_enabled (db_insert e Memo_versions r) s = Inr s'"
    for s s' r
    by (rule logged_insert [where I = "\<lambda>s. enforces_ddl e \<longrightarrow> keys_ok e s", OF _ _ that])
      (auto intro: keys_ok_insert)
qed (auto intro: keys_ok_insert keys_ok_update keys_ok_delete)

text \<open>With the keys in order a row is the only one its id fetches.\<close>

lemma fetch_id_unique:
  assumes "keys_ok e s" "r \<in> set (tabs s t)" "id_is e i r"
  shows "fetch_id e t i s = Some r"
proof -
  from assms(2,3) obtain x where x: "fetch_id e t i s = Some x"
    unfolding fetch_id_def by (meson find_None not_Some_eq)
  then have m: "x \<in> set (tabs s t)" "id_is e i x" by (auto simp: fetch_id_def dest: find_SomeD)
  have "collate e (row_id y) = collate e i" if "id_is e i y" for y
    using that by (auto simp: col_is_iff same_str_def row_id_def)
  with m assms have "x = r" unfolding keys_ok_def by (metis distinct_map inj_onD)
  with x show ?thesis by simp
qed

section \<open>Foreign keys\<close>

definition parents_ok :: "env \<Rightarrow> store \<Rightarrow> bool" where
  "parents_ok e s = (\<forall>t. \<forall>r \<in> set (tabs s t). \<not> parent_absent e s t r)"

text \<open>A parent that is there stays there when no id of a parent table goes.\<close>

lemma parent_absent_mono:
  assumes "\<And>p. p \<noteq> Memo_versions \<Longrightarrow>
      (\<lambda>r. row_get r ''id'') ` set (tabs s p) \<subseteq> (\<lambda>r. row_get r ''id'') ` set (tabs s' p)"
    and "parent_absent e s' t r"
  shows "parent_absent e s t r"
proof -
  from assms(2) obtain c p where cp: "(c, p) \<in> set (table_parents t)"
    "\<forall>x \<in> set (tabs s' p). \<not> sql_eq e (row_get x ''id'') (row_get r c)"
    unfolding parent_absent_def by blast
  have "p \<noteq> Memo_versions" using cp(1) by (cases t) auto
  note sub = assms(1) [OF this]
  have "\<not> sql_eq e (row_get x ''id'') (row_get r c)" if "x \<in> set (tabs s p)" for x
  proof -
    have "row_get x ''id'' \<in> (\<lambda>r. row_get r ''id'') ` set (tabs s' p)" using sub that by blast
    with cp(2) show ?thesis by auto
  qed
  with cp(1) show ?thesis unfolding parent_absent_def by blast
qed

lemma parents_ok_fields [simp]:
  "parents_ok e (s\<lparr>ticks := k\<rparr>) = parents_ok e s" "parents_ok e (s\<lparr>ids := k\<rparr>) = parents_ok e s"
  "parents_ok e (s\<lparr>issues := is\<rparr>) = parents_ok e s"
  "parents_ok e (s\<lparr>receipts := rs\<rparr>) = parents_ok e s"
  "parents_ok e (s\<lparr>articles := as\<rparr>) = parents_ok e s"
  "parents_ok e (s\<lparr>applying := b\<rparr>) = parents_ok e s"
  by (simp_all add: parents_ok_def parent_absent_def)

text \<open>The step of each statement: rows it writes have their parents, and no id goes.\<close>

lemma parents_ok_step:
  assumes p: "parents_ok e s"
    and grow: "\<And>p. p \<noteq> Memo_versions \<Longrightarrow>
      (\<lambda>r. row_get r ''id'') ` set (tabs s p) \<subseteq> (\<lambda>r. row_get r ''id'') ` set (tabs s' p)"
    and rows: "\<And>u x. x \<in> set (tabs s' u) \<Longrightarrow> x \<in> set (tabs s u) \<or> \<not> parent_absent e s u x"
  shows "parents_ok e s'"
  unfolding parents_ok_def
proof (intro allI ballI)
  fix u x assume "x \<in> set (tabs s' u)"
  then have "\<not> parent_absent e s u x" using rows p unfolding parents_ok_def by blast
  then show "\<not> parent_absent e s' u x" using parent_absent_mono [OF grow] by blast
qed

lemma parents_ok_insert:
  assumes e: "enforces_ddl e" and p: "parents_ok e s" and ins: "db_insert e t r s = Inr s'"
  shows "parents_ok e s'"
proof (rule parents_ok_step [OF p])
  note tabs = db_insert_tabs [OF ins]
  show "(\<lambda>r. row_get r ''id'') ` set (tabs s p) \<subseteq> (\<lambda>r. row_get r ''id'') ` set (tabs s' p)" for p
    by (auto simp: tabs)
  have "\<not> parent_absent e s t (complete_row (sql_now e (ticks s)) t r)"
    using db_insert_ddl [OF e ins] by (auto simp: ddl_refuse_ins_def split: if_splits)
  then show "x \<in> set (tabs s u) \<or> \<not> parent_absent e s u x" if "x \<in> set (tabs s' u)" for u x
    using that unfolding tabs by (auto split: if_splits)
qed

lemma parents_ok_update:
  assumes e: "enforces_ddl e" and p: "parents_ok e s"
    and upd: "db_update e t P asg s = Inr (n, s')" and id: "''id'' \<notin> fst ` set asg"
  shows "parents_ok e s'"
proof (rule parents_ok_step [OF p])
  note tabs = db_update_tabs [THEN conjunct1, OF upd]
  show "(\<lambda>r. row_get r ''id'') ` set (tabs s p) \<subseteq> (\<lambda>r. row_get r ''id'') ` set (tabs s' p)" for p
    using db_update_id_cols [OF upd id, of p] by (metis set_map subset_refl)
  have "\<not> parent_absent e s t (row_update x (touch (sql_now e (ticks s)) t asg))"
    if "x \<in> set (tabs s t)" "P x" for x
    using db_update_ddl [OF e upd that] by (auto simp: ddl_refuse_upd_def split: if_splits)
  then show "x \<in> set (tabs s u) \<or> \<not> parent_absent e s u x" if "x \<in> set (tabs s' u)" for u x
    using that unfolding tabs by (auto split: if_splits)
qed

lemma parents_ok_delete: "parents_ok e s \<Longrightarrow> parents_ok e (db_delete e Memo_versions P s)"
  by (erule parents_ok_step) (auto split: if_splits)

interpretation parents: store_invariant e "\<lambda>s. enforces_ddl e \<longrightarrow> parents_ok e s" for e
proof
  show "enforces_ddl e \<longrightarrow> parents_ok e s'" if "enforces_ddl e \<longrightarrow> parents_ok e s" "record_issue e k t r p d s = (i, s')" for s s' k t r p d i
    by (rule issue_blind(1) [where I = "\<lambda>s. enforces_ddl e \<longrightarrow> parents_ok e s", OF _ _ _ that]) simp_all
  show "enforces_ddl e \<longrightarrow> parents_ok e s'" if "enforces_ddl e \<longrightarrow> parents_ok e s" "resolve_issues e is k t r s = (m, s')" for s s' "is" k t r m
    by (rule issue_blind(2) [where I = "\<lambda>s. enforces_ddl e \<longrightarrow> parents_ok e s", OF _ _ _ that]) simp_all
  show "enforces_ddl e \<longrightarrow> parents_ok e s'"
    if "enforces_ddl e \<longrightarrow> parents_ok e s" "change_log_enabled (db_insert e Memo_versions r) s = Inr s'"
    for s s' r
    by (rule logged_insert [where I = "\<lambda>s. enforces_ddl e \<longrightarrow> parents_ok e s", OF _ _ that])
      (auto intro: parents_ok_insert)
qed (auto intro: parents_ok_insert parents_ok_update parents_ok_delete)

section \<open>The log\<close>

definition log_ok :: "store \<Rightarrow> bool" where
  "log_ok s \<longleftrightarrow> sorted_wrt (<) (map le_seq (change_log s)) \<and>
     (\<forall>l \<in> set (change_log s). le_seq l \<le> auto_seq s \<and> is_sync_table (le_table l))"

definition log_extends :: "store \<Rightarrow> store \<Rightarrow> bool" where
  "log_extends s s' = (\<exists>ls. change_log s' = change_log s @ ls)"

lemma log_ok_change: "log_ok s \<Longrightarrow> log_ok (log_change e t o' i s)"
  by (force simp: log_change_def log_ok_def sorted_wrt_append is_sync_table_def)

lemma log_ok_changes: "log_ok s \<Longrightarrow> log_ok (log_changes e t o' is s)"
  by (induction "is" arbitrary: s) (auto simp: log_ok_change)

lemma log_extends_change: "log_extends s0 s \<Longrightarrow> log_extends s0 (log_change e t o' i s)"
  by (auto simp: log_extends_def log_change_def)

lemma log_extends_changes: "log_extends s0 s \<Longrightarrow> log_extends s0 (log_changes e t o' is s)"
  by (induction "is" arbitrary: s) (auto simp: log_extends_change)

lemma log_tabs_update [simp]:
  "log_ok (s\<lparr>tabs := x\<rparr>) = log_ok s" "log_extends s0 (s\<lparr>tabs := x\<rparr>) = log_extends s0 s"
  by (simp_all add: log_ok_def log_extends_def)

lemma log_ok_insert: "log_ok s \<Longrightarrow> db_insert e t r s = Inr s' \<Longrightarrow> log_ok s'"
  by (auto simp: db_insert_def Let_def intro!: log_ok_change split: option.splits)

lemma log_ok_update: "log_ok s \<Longrightarrow> db_update e t P asg s = Inr (n, s') \<Longrightarrow> log_ok s'"
  by (auto simp: db_update_def Let_def intro!: log_ok_changes split: option.splits)

lemma log_ok_delete: "log_ok s \<Longrightarrow> log_ok (db_delete e t P s)"
  by (auto simp: db_delete_def intro!: log_ok_changes)

lemma log_ok_fields [simp]:
  "log_ok (s\<lparr>ticks := k\<rparr>) = log_ok s" "log_ok (s\<lparr>ids := k\<rparr>) = log_ok s"
  "log_ok (s\<lparr>issues := is\<rparr>) = log_ok s" "log_ok (s\<lparr>receipts := rs\<rparr>) = log_ok s"
  "log_ok (s\<lparr>articles := as\<rparr>) = log_ok s" "log_ok (s\<lparr>applying := b\<rparr>) = log_ok s"
  by (simp_all add: log_ok_def)

interpretation log: store_invariant e log_ok for e
proof
  show "log_ok s'" if "log_ok s" "record_issue e k t r p d s = (i, s')" for s s' k t r p d i
    by (rule issue_blind(1) [where I = "log_ok", OF _ _ _ that]) simp_all
  show "log_ok s'" if "log_ok s" "resolve_issues e is k t r s = (m, s')" for s s' "is" k t r m
    by (rule issue_blind(2) [where I = "log_ok", OF _ _ _ that]) simp_all
  show "log_ok s'"
    if "log_ok s" "change_log_enabled (db_insert e Memo_versions r) s = Inr s'" for s s' r
    by (rule logged_insert [where I = "log_ok", OF _ _ that])
      (auto intro: log_ok_insert)
qed (auto intro: log_ok_insert log_ok_update log_ok_delete)

text \<open>Rows with a tombstone column and log entries never go away.\<close>

definition survives :: "store \<Rightarrow> store \<Rightarrow> bool" where
  "survives s0 s \<longleftrightarrow> log_extends s0 s \<and>
     (\<forall>t. t \<noteq> Memo_versions \<longrightarrow> (\<exists>is. map row_id (tabs s t) = map row_id (tabs s0 t) @ is))"

lemma survives_refl [simp]: "survives s s"
  by (simp add: survives_def log_extends_def)

lemma survives_trans: "survives a b \<Longrightarrow> survives b c \<Longrightarrow> survives a c"
  by (fastforce simp: survives_def log_extends_def)

lemma survives_insert: "survives s0 s \<Longrightarrow> db_insert e t r s = Inr s' \<Longrightarrow> survives s0 s'"
proof -
  assume a: "survives s0 s" "db_insert e t r s = Inr s'"
  then have "log_extends s0 s'"
    by (auto simp: survives_def db_insert_def Let_def intro!: log_extends_change split: option.splits)
  with a show ?thesis by (auto simp: survives_def db_insert_tabs)
qed

lemma survives_update:
  "survives s0 s \<Longrightarrow> db_update e t P asg s = Inr (n, s') \<Longrightarrow> ''id'' \<notin> fst ` set asg \<Longrightarrow> survives s0 s'"
proof -
  assume a: "survives s0 s" "db_update e t P asg s = Inr (n, s')" "''id'' \<notin> fst ` set asg"
  then have "log_extends s0 s'"
    by (auto simp: survives_def db_update_def Let_def intro!: log_extends_changes split: option.splits)
  with a show ?thesis by (auto simp: survives_def db_update_ids)
qed

lemma survives_delete: "survives s0 s \<Longrightarrow> survives s0 (db_delete e Memo_versions P s)"
  by (auto simp: survives_def db_delete_def intro!: log_extends_changes)

lemma survives_fields [simp]:
  "survives s0 (s\<lparr>ticks := k\<rparr>) = survives s0 s" "survives s0 (s\<lparr>ids := k\<rparr>) = survives s0 s"
  "survives s0 (s\<lparr>issues := is\<rparr>) = survives s0 s"
  "survives s0 (s\<lparr>receipts := rs\<rparr>) = survives s0 s"
  "survives s0 (s\<lparr>articles := as\<rparr>) = survives s0 s"
  "survives s0 (s\<lparr>applying := b\<rparr>) = survives s0 s"
  by (simp_all add: survives_def log_extends_def)

interpretation survival: store_invariant e "survives s0" for e s0
proof
  show "survives s0 s'" if "survives s0 s" "record_issue e k t r p d s = (i, s')" for s s' k t r p d i
    by (rule issue_blind(1) [where I = "survives s0", OF _ _ _ that]) simp_all
  show "survives s0 s'" if "survives s0 s" "resolve_issues e is k t r s = (m, s')" for s s' "is" k t r m
    by (rule issue_blind(2) [where I = "survives s0", OF _ _ _ that]) simp_all
  show "survives s0 s'"
    if "survives s0 s" "change_log_enabled (db_insert e Memo_versions r) s = Inr s'" for s s' r
    by (rule logged_insert [where I = "survives s0", OF _ _ that])
      (auto intro: survives_insert)
qed (auto intro: survives_insert survives_update survives_delete)

text \<open>
  While \<open>@sync_applying\<close> is set nothing is logged, apart from the versions that keep a losing text.
\<close>

definition echoes_nothing :: "store \<Rightarrow> store \<Rightarrow> bool" where
  "echoes_nothing s0 s \<longleftrightarrow> (\<exists>ls. change_log s = change_log s0 @ ls \<and>
     (\<forall>l \<in> set ls. le_table l = tbl_name Memo_versions \<and> le_op l = Insert))"

lemma echoes_refl [simp]: "echoes_nothing s s"
  by (simp add: echoes_nothing_def)

lemma echoes_log: "change_log s' = change_log s \<Longrightarrow> echoes_nothing s0 s' = echoes_nothing s0 s"
  by (simp add: echoes_nothing_def)

lemma applying_changes: "applying s \<Longrightarrow> log_changes e t o' is s = s"
  by (induction "is") (simp_all add: log_change_def)

interpretation applied: change_invariant e "\<lambda>s. applying s \<and> echoes_nothing s0 s" for e s0
proof
  let ?I = "\<lambda>s. applying s \<and> echoes_nothing s0 s"
  show "?I s'" if "?I s" "record_issue e k t r p d s = (i, s')" for s s' k t r p d i
    by (rule issue_blind(1) [where I = ?I, OF _ _ _ that]) (simp_all add: echoes_nothing_def)
  show "?I s'" if "?I s" "resolve_issues e is k t r s = (m, s')" for s s' "is" k t r m
    by (rule issue_blind(2) [where I = ?I, OF _ _ _ that]) (simp_all add: echoes_nothing_def)
  show "?I s'" if "?I s" "db_insert e t r s = Inr s'" for s s' t r
    using that by (auto simp: db_insert_def Let_def log_change_def echoes_nothing_def split: option.splits)
  show "?I s'" if "?I s" "db_update e t P asg s = Inr (n, s')" for s t P asg n s'
    using that by (auto simp: db_update_def Let_def applying_changes echoes_nothing_def split: option.splits)
  show "?I (db_delete e Memo_versions P s)" if "?I s" for s P
    using that by (simp add: db_delete_def applying_changes echoes_nothing_def)
  show "?I s'" if run: "?I s" "change_log_enabled (db_insert e Memo_versions r) s = Inr s'" for s s' r
  proof -
    obtain s1 where s1: "db_insert e Memo_versions r (s\<lparr>applying := False\<rparr>) = Inr s1" "s' = s1\<lparr>applying := applying s\<rparr>"
      using run(2) by (auto simp: change_log_enabled_def)
    then obtain l where "change_log s1 = change_log s @ [l]" "le_table l = tbl_name Memo_versions" "le_op l = Insert"
      by (auto simp: db_insert_def Let_def log_change_def split: option.splits)
    with run(1) s1(2) show ?thesis by (auto simp: echoes_nothing_def)
  qed
qed (simp_all add: echoes_nothing_def)

section \<open>What one change leaves alone\<close>

text \<open>
  The node-local books: applying a change of a peer writes the synchronised tables, the
  log and the issues, nothing else.
\<close>

definition books_kept :: "store \<Rightarrow> store \<Rightarrow> bool" where
  "books_kept s0 s \<longleftrightarrow> articles s = articles s0 \<and> receipts s = receipts s0 \<and>
     retries s = retries s0 \<and> row_states s = row_states s0 \<and> peers s = peers s0 \<and>
     identities s = identities s0 \<and> applying s = applying s0"

lemma same_books_kept: "same_books s s' \<Longrightarrow> books_kept s0 s \<Longrightarrow> books_kept s0 s'"
  by (simp add: same_books_def books_kept_def)

lemma books_kept_fields [simp]:
  "books_kept s0 (s\<lparr>ticks := k\<rparr>) = books_kept s0 s" "books_kept s0 (s\<lparr>ids := k\<rparr>) = books_kept s0 s"
  "books_kept s0 (s\<lparr>issues := is\<rparr>) = books_kept s0 s"
  by (simp_all add: books_kept_def)

interpretation books: statement_invariant e "books_kept s0" for e s0
proof
  show "books_kept s0 s'" if "books_kept s0 s" "record_issue e k t r p d s = (i, s')" for s s' k t r p d i
    by (rule issue_blind(1) [where I = "books_kept s0", OF _ _ _ that]) simp_all
  show "books_kept s0 s'" if "books_kept s0 s" "resolve_issues e is k t r s = (m, s')" for s s' "is" k t r m
    by (rule issue_blind(2) [where I = "books_kept s0", OF _ _ _ that]) simp_all
  show "books_kept s0 s'"
    if "books_kept s0 s" "change_log_enabled (db_insert e Memo_versions r) s = Inr s'" for s s' r
    using that same_books_kept [of "s\<lparr>applying := False\<rparr>"] db_insert_books
    by (fastforce simp: change_log_enabled_def books_kept_def same_books_def)
qed (auto dest: db_insert_books db_update_books intro: same_books_kept db_delete_books)

text \<open>
  While \<open>@sync_applying\<close> is set the only entries the log gains are inserts of versions:
  what came from a peer is not sent back.
\<close>

definition no_echo :: "store \<Rightarrow> store \<Rightarrow> bool" where
  "no_echo s0 s \<longleftrightarrow> applying s \<and> (\<exists>ls. change_log s = change_log s0 @ ls \<and>
     (\<forall>l \<in> set ls. le_table l = tbl_name Memo_versions \<and> le_op l = Insert))"

lemma no_echo_step:
  "no_echo s0 s \<Longrightarrow> change_log s' = change_log s \<Longrightarrow> applying s' = applying s \<Longrightarrow> no_echo s0 s'"
  by (simp add: no_echo_def)

lemma applying_quiet:
  assumes "applying s"
  shows "db_insert e t r s = Inr s' \<Longrightarrow> change_log s' = change_log s \<and> applying s' = applying s"
    and "db_update e t P asg s = Inr (n, s') \<Longrightarrow> change_log s' = change_log s \<and> applying s' = applying s"
    and "change_log (db_delete e t P s) = change_log s \<and> applying (db_delete e t P s) = applying s"
  using assms
  by (auto simp: db_insert_def db_update_def db_delete_def Let_def log_change_def
      log_changes_applying split: option.splits)

lemma no_echo_logged:
  assumes "no_echo s0 s" "change_log_enabled (db_insert e Memo_versions r) s = Inr s'"
  shows "no_echo s0 s'"
proof -
  obtain i q a where "change_log s' = change_log s @
      [\<lparr>le_seq = q, le_table = tbl_name Memo_versions, le_row = i, le_op = Insert, le_at = a\<rparr>]"
    "applying s' = applying s"
    using assms(2)
    by (auto simp: change_log_enabled_def db_insert_def log_change_def Let_def split: option.splits)
  with assms(1) show ?thesis by (auto simp: no_echo_def)
qed

lemma no_echo_fields [simp]:
  "no_echo s0 (s\<lparr>ticks := k\<rparr>) = no_echo s0 s" "no_echo s0 (s\<lparr>ids := k\<rparr>) = no_echo s0 s"
  "no_echo s0 (s\<lparr>issues := is\<rparr>) = no_echo s0 s"
  by (simp_all add: no_echo_def)

interpretation echo: statement_invariant e "no_echo s0" for e s0
proof
  show "no_echo s0 s'" if "no_echo s0 s" "record_issue e k t r p d s = (i, s')" for s s' k t r p d i
    by (rule issue_blind(1) [where I = "no_echo s0", OF _ _ _ that]) simp_all
  show "no_echo s0 s'" if "no_echo s0 s" "resolve_issues e is k t r s = (m, s')" for s s' "is" k t r m
    by (rule issue_blind(2) [where I = "no_echo s0", OF _ _ _ that]) simp_all
  show "no_echo s0 s \<Longrightarrow> db_insert e t r s = Inr s' \<Longrightarrow> no_echo s0 s'" for s s' t r
    using applying_quiet(1) no_echo_step unfolding no_echo_def by metis
  show "no_echo s0 s \<Longrightarrow> db_update e t P asg s = Inr (n, s') \<Longrightarrow> no_echo s0 s'" for s s' t P asg n
    using applying_quiet(2) no_echo_step unfolding no_echo_def by metis
  show "no_echo s0 s \<Longrightarrow> no_echo s0 (db_delete e Memo_versions P s)" for s P
    using applying_quiet(3) no_echo_step unfolding no_echo_def by metis
qed (auto intro: no_echo_logged)

section \<open>Open issues\<close>

text \<open>At most one unresolved issue per kind and reference, as the database compares them.\<close>

definition same_issue :: "env \<Rightarrow> issue \<Rightarrow> issue \<Rightarrow> bool" where
  "same_issue e i j = (same_str e (is_kind i) (is_kind j) \<and> null_safe_eq e (is_table i) (is_table j) \<and>
     null_safe_eq e (is_ref i) (is_ref j) \<and> null_safe_eq e (is_peer i) (is_peer j))"

definition issues_ok :: "env \<Rightarrow> store \<Rightarrow> bool" where
  "issues_ok e s = sorted_wrt (\<lambda>i j. \<not> same_issue e i j) (unresolved s)"

lemma issues_ok_fields [simp]:
  "issues_ok e (s\<lparr>ticks := k\<rparr>) = issues_ok e s" "issues_ok e (s\<lparr>ids := k\<rparr>) = issues_ok e s"
  "issues_ok e (s\<lparr>receipts := rs\<rparr>) = issues_ok e s"
  "issues_ok e (s\<lparr>articles := as\<rparr>) = issues_ok e s"
  "issues_ok e (s\<lparr>applying := b\<rparr>) = issues_ok e s"
  by (simp_all add: issues_ok_def unresolved_def)

lemma issues_ok_cong: "issues s' = issues s \<Longrightarrow> issues_ok e s' = issues_ok e s"
  by (simp add: issues_ok_def unresolved_def)

lemma issues_ok_map:
  assumes "\<And>i. same_issue e (f i) = same_issue e i" "\<And>i j. same_issue e j (f i) = same_issue e j i"
    and "\<And>i. is_resolved (f i) = None \<Longrightarrow> is_resolved i = None"
    and "issues_ok e s" "issues s' = map f (issues s)"
  shows "issues_ok e s'"
proof -
  have "sorted_wrt (\<lambda>i j. \<not> same_issue e i j) (filter (\<lambda>i. is_resolved i = None) xs) \<Longrightarrow>
      sorted_wrt (\<lambda>i j. \<not> same_issue e i j) (filter (\<lambda>i. is_resolved i = None) (map f xs))" for xs
    by (induction xs) (auto simp: assms(1,2) dest: assms(3) split: if_splits)
  with assms(4,5) show ?thesis by (simp add: issues_ok_def unresolved_def)
qed

lemma same_issue_detail [simp]:
  "same_issue e (i\<lparr>is_detail := d, is_detected := w\<rparr>) j = same_issue e i j"
  "same_issue e j (i\<lparr>is_detail := d, is_detected := w\<rparr>) = same_issue e j i"
  "same_issue e (i\<lparr>is_resolved := x\<rparr>) j = same_issue e i j"
  "same_issue e j (i\<lparr>is_resolved := x\<rparr>) = same_issue e j i"
  by (simp_all add: same_issue_def)

lemma issues_ok_record:
  assumes ok: "issues_ok e s" and run: "record_issue e k t r p d s = (i, s')"
  shows "issues_ok e s'"
proof (cases "find (issue_key_is e k t r p) (issues s)")
  case None
  then have none: "\<not> issue_key_is e k t r p j" if "j \<in> set (issues s)" for j
    using that by (simp add: find_None)
  obtain x where x: "issues s' = issues s @ [x]" "is_kind x = k" "is_table x = t" "is_ref x = r"
    "is_peer x = p" "is_resolved x = None"
    using run None by (auto simp: record_issue_def now_utc_def generate_id_def Let_def)
  have "\<not> same_issue e j x" if "j \<in> set (unresolved s)" for j
    using none [of j] that x(2-) by (auto simp: unresolved_def same_issue_def issue_key_is_def)
  with ok x(1,6) show ?thesis by (simp add: issues_ok_def unresolved_def sorted_wrt_append)
next
  case (Some y)
  let ?w = "utcnow_naive (clock e (ticks s))"
  from Some have "issues s' = map (\<lambda>j. if same_str e (is_id j) (is_id y)
               then j\<lparr>is_detail := d, is_detected := ?w\<rparr> else j) (issues s)"
    using run by (auto simp: record_issue_def now_utc_def Let_def)
  with ok show ?thesis
    by (intro issues_ok_map [where s = s and s' = s' and
        f = "\<lambda>j. if same_str e (is_id j) (is_id y) then j\<lparr>is_detail := d, is_detected := ?w\<rparr> else j"])
      (auto split: if_splits)
qed

lemma issues_ok_resolve:
  assumes ok: "issues_ok e s" and run: "resolve_issues e is k t r s = (m, s')"
  shows "issues_ok e s'"
proof (cases "is = [] \<and> blank k \<and> blank t \<and> blank r")
  case True
  with run ok show ?thesis by (simp add: resolve_issues_def)
next
  case False
  let ?hit = "\<lambda>i. is_resolved i = None \<and> (is = [] \<or> (\<exists>j \<in> set is. same_str e (is_id i) j)) \<and>
      issue_matches e k t r i"
  let ?w = "utcnow_naive (clock e (ticks s))"
  from False run have
    "issues s' = map (\<lambda>i. if ?hit i then i\<lparr>is_resolved := Some ?w\<rparr> else i) (issues s)"
    by (auto simp: resolve_issues_def now_utc_def Let_def split: if_splits)
  with ok show ?thesis
    by (intro issues_ok_map [where s = s and s' = s' and
        f = "\<lambda>i. if ?hit i then i\<lparr>is_resolved := Some ?w\<rparr> else i"]) (auto split: if_splits)
qed

lemma issues_ok_statements:
  "issues_ok e s \<Longrightarrow> db_insert e u r s = Inr s' \<Longrightarrow> issues_ok e s'"
  "issues_ok e s \<Longrightarrow> db_update e u P asg s = Inr (n, s') \<Longrightarrow> issues_ok e s'"
  "issues_ok e s \<Longrightarrow> issues_ok e (db_delete e u P s)"
  using db_insert_books db_update_books db_delete_books issues_ok_cong
  unfolding same_books_def by metis+

interpretation open_issues: store_invariant e "issues_ok e" for e
proof
  show "issues_ok e s'"
    if "issues_ok e s" "change_log_enabled (db_insert e Memo_versions r) s = Inr s'" for s s' r
    by (rule logged_insert [where I = "issues_ok e", OF _ _ that]) (auto intro: issues_ok_statements)
qed (auto intro: issues_ok_statements issues_ok_record issues_ok_resolve)

end
