(* ===== verification/Samples.thy ===== *)
theory Samples
  imports Invariants
begin

text \<open>
  Concrete inputs for the witnesses: an engine that refuses exactly what the schema forbids,
  a clock that ticks, and small stores. The sample collation folds nothing.
\<close>

definition lax_env :: env where
  "lax_env = \<lparr>clock = (\<lambda>n. 1700000000000000 + int n * 1000000), uuid = (\<lambda>n. ''uuid-'' @ nat_str n),
     sql_now = (\<lambda>n. 1700000000000000), collate = (\<lambda>x. x), nfc = (\<lambda>x. x),
     change_hash = (\<lambda>c. ch_table c @ ''/'' @ (case ch_rowId c of None \<Rightarrow> [] | Some i \<Rightarrow> i) @ ''/'' @
        (case ch_row c of None \<Rightarrow> [] | Some r \<Rightarrow> py_str (row_get r ''content''))),
     refuse_ins = (\<lambda>s t r. None), refuse_upd = (\<lambda>s t r r'. None)\<rparr>"

definition sample_env :: env where
  "sample_env = lax_env\<lparr>refuse_ins := ddl_refuse_ins lax_env, refuse_upd := ddl_refuse_upd lax_env\<rparr>"

definition empty_store :: store where
  "empty_store = \<lparr>tabs = (\<lambda>t. []), articles = [], change_log = [], issues = [], receipts = [],
     retries = [], row_states = [], peers = [], identities = [], applying = False,
     auto_seq = 0, ticks = 0, ids = 0\<rparr>"

lemma sql_eq_collate: "collate e = collate e' \<Longrightarrow> sql_eq e v w = sql_eq e' v w"
  by (cases v; cases w) (simp_all add: same_str_def)

lemma ddl_collate:
  assumes "collate e = collate e'"
  shows "ddl_refuse_ins e = ddl_refuse_ins e'" "ddl_refuse_upd e = ddl_refuse_upd e'"
  using sql_eq_collate [OF assms]
  by (auto simp: fun_eq_iff ddl_refuse_ins_def ddl_refuse_upd_def parent_absent_def member_taken_def
      same_col_def)

lemma sample_enforces_ddl: "enforces_ddl sample_env"
  using ddl_collate [of sample_env lax_env] by (simp add: enforces_ddl_def sample_env_def)

definition sample_project :: "string \<Rightarrow> string \<Rightarrow> int \<Rightarrow> row" where
  "sample_project i nm w =
     [(''id'', VStr i), (''owner_id'', VStr ''ann''), (''name'', VStr nm), (''icon'', VStr ''x''),
      (''status'', VInt 0), (''is_secret'', VInt 0), (''created_at'', VTime 0),
      (''updated_at'', VTime 0), (''updated_at_utc'', VTime w), (''deleted_at'', VNull)]"

definition sample_memo :: "string \<Rightarrow> string \<Rightarrow> string \<Rightarrow> string \<Rightarrow> int \<Rightarrow> row" where
  "sample_memo i p ti co w =
     [(''id'', VStr i), (''project_id'', VStr p), (''created_by'', VStr ''ann''), (''title'', VStr ti),
      (''content'', VStr co), (''status'', VInt 0), (''created_at'', VTime 0),
      (''updated_at'', VTime 0), (''updated_at_utc'', VTime w), (''deleted_at'', VNull)]"

definition sample_version :: "string \<Rightarrow> string \<Rightarrow> string \<Rightarrow> int \<Rightarrow> row" where
  "sample_version i m co n =
     [(''id'', VStr i), (''memo_id'', VStr m), (''content'', VStr co), (''version'', VInt n),
      (''note'', VNull), (''created_at'', VTime 0), (''updated_at_utc'', VTime 0)]"

definition sample_store :: "row list \<Rightarrow> row list \<Rightarrow> row list \<Rightarrow> store" where
  "sample_store ps ms vs =
     empty_store\<lparr>tabs := (\<lambda>t. []) (Projects := ps, Memos := ms, Memo_versions := vs)\<rparr>"

definition row_change :: "int \<Rightarrow> tbl \<Rightarrow> string \<Rightarrow> row \<Rightarrow> change" where
  "row_change n t i r = \<lparr>ch_seq = Some n, ch_table = tbl_name t, ch_rowId = Some i,
     ch_op = ''update'', ch_row = Some (serialize_row (table_columns t) r), ch_base = None,
     ch_basePeerSeq = None\<rparr>"

definition memo_node :: "string \<Rightarrow> int \<Rightarrow> store" where
  "memo_node co w = sample_store [sample_project ''p'' ''home'' 0] [sample_memo ''m'' ''p'' ''todo'' co w] []"

section \<open>Reading off a run\<close>

text \<open>
  A check evaluates a run once and looks at what it returned; the elimination rules give the
  outcome and the store back to the proof.
\<close>

definition ok_with :: "('a \<Rightarrow> 'b \<Rightarrow> bool) \<Rightarrow> 'c + 'a \<times> 'b \<Rightarrow> bool" where
  "ok_with P r = (case r of Inl x \<Rightarrow> False | Inr p \<Rightarrow> P (fst p) (snd p))"

definition value_with :: "('a \<Rightarrow> bool) \<Rightarrow> 'c + 'a \<Rightarrow> bool" where
  "value_with P r = (case r of Inl x \<Rightarrow> False | Inr v \<Rightarrow> P v)"

definition some_with :: "('a \<Rightarrow> bool) \<Rightarrow> 'a option \<Rightarrow> bool" where
  "some_with P x = (case x of None \<Rightarrow> False | Some y \<Rightarrow> P y)"

definition single_with :: "('a \<Rightarrow> bool) \<Rightarrow> 'a list \<Rightarrow> bool" where
  "single_with P xs = (case xs of [] \<Rightarrow> False | x # ys \<Rightarrow> ys = [] \<and> P x)"

lemma ok_withE:
  assumes "ok_with P r"
  obtains a b where "r = Inr (a, b)" "P a b"
  using assms by (cases r) (auto simp: ok_with_def)

lemma value_withE:
  assumes "value_with P r"
  obtains v where "r = Inr v" "P v"
  using assms by (cases r) (auto simp: value_with_def)

lemma some_withE:
  assumes "some_with P x"
  obtains y where "x = Some y" "P y"
  using assms by (cases x) (auto simp: some_with_def)

lemma single_withE:
  assumes "single_with P xs"
  obtains x where "xs = [x]" "P x"
  using assms by (cases xs) (auto simp: single_with_def)

end
