(* ===== verification/Apply_Batch.thy ===== *)
theory Apply_Batch
  imports Apply_Laws "HOL-Library.Multiset"
begin

text \<open>
  A whole batch (\<open>apply_changes\<close>): every change is answered exactly once, a replay of an
  answered batch returns the same outcome and changes nothing, a replay with another payload
  is refused, parents are applied before their children, and clocks never go back.
\<close>

section \<open>The receipt book\<close>

text \<open>
  What the batch relies on: a receipt that was stored is found, stays as it was stored, and
  is never stored twice.
\<close>

locale receipt_book =
  fixes get :: "'k \<Rightarrow> 's \<Rightarrow> 'v option" and put :: "'k \<Rightarrow> 'v \<Rightarrow> 's \<Rightarrow> 'e + 's"
  assumes put_get: "put k v s = Inr s' \<Longrightarrow> get k s' = Some v"
    and put_keeps: "put k v s = Inr s' \<Longrightarrow> get j s = Some w \<Longrightarrow> get j s' = Some w"
    and put_fresh: "put k v s = Inr s' \<Longrightarrow> get k s = None"
begin

lemma no_second_put: "put k v s = Inr s' \<Longrightarrow> put k w s' = Inr s'' \<Longrightarrow> False"
  using put_get put_fresh by (metis option.distinct(1))

lemma kept_by_all:
  assumes "sfold (\<lambda>kv. put (fst kv) (snd kv)) kvs s = Inr s'" "get j s = Some w"
  shows "get j s' = Some w"
  using sfold_invariant [OF assms(1), where P = "\<lambda>s. get j s = Some w"] assms(2) put_keeps by blast

lemma all_kept:
  "sfold (\<lambda>kv. put (fst kv) (snd kv)) kvs s = Inr s' \<Longrightarrow> (k, v) \<in> set kvs \<Longrightarrow> get k s' = Some v"
proof (induction kvs arbitrary: s)
  case (Cons x kvs)
  then obtain s1 where s1: "put (fst x) (snd x) s = Inr s1"
    "sfold (\<lambda>kv. put (fst kv) (snd kv)) kvs s1 = Inr s'" by auto
  show ?case
  proof (cases "(k, v) = x")
    case True
    with s1 show ?thesis using put_get kept_by_all by (metis fst_conv snd_conv)
  qed (use Cons s1 in auto)
qed simp

end

abbreviation get_receipt :: "env \<Rightarrow> string \<times> string \<times> int \<Rightarrow> store \<Rightarrow> (string \<times> outcome) option" where
  "get_receipt e k s \<equiv> (case k of (a, c, n) \<Rightarrow> get_sync_receipt e a c n s)"

abbreviation put_receipt ::
  "env \<Rightarrow> string \<times> string \<times> int \<Rightarrow> string \<times> outcome \<Rightarrow> store \<Rightarrow> exn + store" where
  "put_receipt e k v s \<equiv>
     (case k of (a, c, n) \<Rightarrow> case v of (h, oc) \<Rightarrow> store_sync_receipt e a c n h oc s)"

interpretation receipts: receipt_book "get_receipt e" "put_receipt e" for e
proof
  fix k j :: "string \<times> string \<times> int" and v w :: "string \<times> outcome" and s s' :: store
  assume put: "put_receipt e k v s = Inr s'"
  obtain a c n h oc where kv: "k = (a, c, n)" "v = (h, oc)" by (metis prod_cases3 surj_pair)
  have none: "find (receipt_is e a c n) (receipts s) = None"
    using put kv by (auto simp: store_sync_receipt_def split: if_splits)
  obtain w' where rs: "receipts s' = receipts s @
      [\<lparr>rc_account = a, rc_client = c, rc_seq = n, rc_hash = h, rc_outcome = oc, rc_created = w'\<rparr>]"
    using put kv by (auto simp: store_sync_receipt_def now_utc_def Let_def split: if_splits)
  show "get_receipt e k s' = Some v"
    using none by (simp add: kv get_sync_receipt_def rs find_append receipt_is_def)
  show "get_receipt e k s = None"
    using none by (simp add: kv get_sync_receipt_def)
  show "get_receipt e j s = Some w \<Longrightarrow> get_receipt e j s' = Some w"
    by (cases j) (auto simp: get_sync_receipt_def rs find_append)
qed

section \<open>One pass\<close>

lemma merge_add_result:
  "oc_results d = [] \<Longrightarrow> add_result r (merge_outcome oc d) = merge_receipt_outcome oc (add_result r d)"
  by (simp add: add_result_def merge_receipt_outcome_def merge_outcome_def)

lemma merge_reject:
  "reject_change c why oc = merge_receipt_outcome oc (reject_change c why empty_outcome)"
  by (simp add: reject_change_def add_result_def merge_receipt_outcome_def merge_outcome_def
      empty_outcome_def)

text \<open>Why a change is deferred: the message names a parent table and an id it lacks.\<close>

definition parent_gap :: "env \<Rightarrow> tbl \<Rightarrow> string \<Rightarrow> store \<Rightarrow> bool" where
  "parent_gap e t m s \<longleftrightarrow> (\<exists>p v. p < t \<and> p \<noteq> Memo_versions \<and> m = tbl_name p @ '':'' @ py_str v \<and>
     \<not> (\<exists>x \<in> set (tabs s p). sql_eq e (row_get x ''id'') v))"

lemma missing_parent_gap: "missing_parent e t r s = Some m \<Longrightarrow> parent_gap e t m s"
proof -
  have gen: "missing_parent_in e ps r s = Some m \<Longrightarrow> \<exists>(c, p) \<in> set ps.
      m = tbl_name p @ '':'' @ py_str (row_get r c) \<and>
      \<not> (\<exists>x \<in> set (tabs s p). sql_eq e (row_get x ''id'') (row_get r c))" for ps
    by (induction ps) (auto split: if_splits)
  assume "missing_parent e t r s = Some m"
  with gen obtain c p where cp: "(c, p) \<in> set (table_parents t)"
    "m = tbl_name p @ '':'' @ py_str (row_get r c)"
    "\<not> (\<exists>x \<in> set (tabs s p). sql_eq e (row_get x ''id'') (row_get r c))"
    unfolding missing_parent_def by blast
  moreover have "p < t" "p \<noteq> Memo_versions"
    using parent_before_child [OF cp(1)] cp(1) by (cases t; auto)+
  ultimately show ?thesis unfolding parent_gap_def by blast
qed

definition gap_entry :: "env \<Rightarrow> tbl \<Rightarrow> ref_entry \<Rightarrow> store \<Rightarrow> bool" where
  "gap_entry e t d s \<longleftrightarrow>
     (\<exists>i m. d = refused t i (''missing_parent:'' @ m) \<and> parent_gap e t m s)"

lemma gap_entryI:
  "missing_parent e t r s = Some m \<Longrightarrow> gap_entry e t (refused t i (''missing_parent:'' @ m)) s"
  unfolding gap_entry_def using missing_parent_gap by blast

lemma apply_one_deferred:
  assumes "apply_one e cbt sd rec t c empty_outcome s = Inr (oc, s')"
  shows "oc_deferred oc = [] \<or> (oc_rejected oc = [] \<and> s' = s \<and>
    (\<exists>d. oc_deferred oc = [d] \<and> gap_entry e t d s))"
proof -
  have hd: "oc_deferred oc' = []" if "apply_hard_delete e t i ex empty_outcome s = Inr (oc', s2)" for i ex oc' s2
    using that by (auto simp: apply_hard_delete_def mark_skipped_def mark_applied_def empty_outcome_def
        split: if_splits option.splits prod.splits)
  have dec: "oc_deferred oc' = [] \<or> (oc_rejected oc' = [] \<and> s2 = s \<and>
      (\<exists>d. oc_deferred oc' = [d] \<and> gap_entry e t d s))"
    if "apply_decoded e cols sd rec t c i ex inc empty_outcome s = Inr (oc', s2)" for cols i ex inc oc' s2
    using that
    by (auto simp: apply_decoded_def mark_applied_def same_verdict_def empty_outcome_def
        split: option.splits dest!: apply_existing_refs duplicates_both dest: gap_entryI [simplified])
  show ?thesis
    using assms unfolding apply_one_def Let_def
    by (auto simp: empty_outcome_def [THEN arg_cong, of oc_deferred] split: if_splits dest: hd dec)
qed

text \<open>A pass appends the outcome of one change: an old one, or a fresh one that is kept.\<close>

lemma process_cases:
  assumes "process_change e cbt sd rec rcpt (t, c) (oc, s) = Inr (oc', s')"
  obtains (replay) k d where "receipt_key rcpt c = Some k"
      "get_receipt e k s = Some (change_hash e c, d)" "oc' = merge_receipt_outcome oc d" "s' = s"
  | (fresh) d r where "oc' = merge_receipt_outcome oc d" "oc_results d = [r]" "rr_seq r = ch_seq c"
      "oc_deferred d \<noteq> [] \<Longrightarrow> rr_status r = Deferred \<and> s' = s \<and>
         (\<exists>g. oc_deferred d = [g] \<and> gap_entry e t g s)"
      "receipts s' = receipts s \<and> (rr_status r = Deferred \<or> receipt_key rcpt c = None) \<or>
       (\<exists>k s1. receipt_key rcpt c = Some k \<and> receipts s1 = receipts s \<and>
          put_receipt e k (change_hash e c, d) s1 = Inr s' \<and> rr_status r \<noteq> Deferred)"
proof (cases "case receipt_key rcpt c of None \<Rightarrow> None | Some k \<Rightarrow> get_receipt e k s")
  case (Some hd)
  then obtain k where k: "receipt_key rcpt c = Some k" "get_receipt e k s = Some hd"
    by (auto split: option.splits)
  obtain h d where hd: "hd = (h, d)" by (cases hd)
  have "process_change e cbt sd rec rcpt (t, c) (oc, s) =
      (if h \<noteq> change_hash e c then Inl (ReceiptPayloadMismatch (the (ch_seq c)))
       else Inr (merge_receipt_outcome oc d, s))"
    using k hd by (cases k) (simp add: process_change_def Let_def)
  with assms k hd show ?thesis by (intro replay [of k d]) (auto split: if_splits)
next
  case None
  then have run: "(case apply_one e cbt sd rec t c empty_outcome s of
        Inl x \<Rightarrow> sbind (keep_receipt e (receipt_key rcpt c) c (reject_change c (exn_str x) empty_outcome) s)
                   (\<lambda>s1. Inr (reject_change c (exn_str x) oc, s1))
      | Inr (row_oc, s1) \<Rightarrow>
          if rr_status (row_result_of e t c row_oc s1) = Deferred
          then Inr (add_result (row_result_of e t c row_oc s1) (merge_outcome oc row_oc), s1)
          else sbind (keep_receipt e (receipt_key rcpt c) c (add_result (row_result_of e t c row_oc s1) row_oc) s1)
                 (\<lambda>s2. Inr (add_result (row_result_of e t c row_oc s1) (merge_outcome oc row_oc), s2)))
      = Inr (oc', s')"
    using assms unfolding process_change_def Let_def by (auto split: option.splits)
  show ?thesis
  proof (cases "apply_one e cbt sd rec t c empty_outcome s")
    case (Inl x)
    let ?d = "reject_change c (exn_str x) empty_outcome"
    have d: "oc_results ?d = [reject_result c (exn_str x)]"
      by (simp add: reject_change_def add_result_def empty_outcome_def)
    have nd: "oc_deferred ?d = []" by (simp add: reject_change_def add_result_def empty_outcome_def)
    show ?thesis
      using run Inl merge_reject [of c "exn_str x" oc] d nd
      by (intro fresh [of ?d "reject_result c (exn_str x)"])
        (auto simp: reject_result_def keep_receipt_def split: option.splits)
  next
    case (Inr p)
    obtain row_oc s1 where p: "p = (row_oc, s1)" by (cases p)
    let ?r = "row_result_of e t c row_oc s1" let ?d = "add_result ?r row_oc"
    have one: "apply_one e cbt sd rec t c empty_outcome s = Inr (row_oc, s1)" using Inr p by simp
    have res: "oc_results row_oc = []"
      using apply_one_refs [OF one] by (simp add: refs_kept_def empty_outcome_def)
    have rs: "receipts s1 = receipts s"
      using books.apply_one [OF _ one, of s] by (simp add: books_kept_def)
    have seq: "rr_seq ?r = ch_seq c" by (simp add: row_result_of_def Let_def split: prod.splits)
    have def: "oc_deferred ?d \<noteq> [] \<Longrightarrow> rr_status ?r = Deferred \<and> s1 = s \<and>
        (\<exists>g. oc_deferred ?d = [g] \<and> gap_entry e t g s)"
      using apply_one_deferred [OF one] by (auto simp: add_result_def row_result_of_def Let_def)
    show ?thesis
    proof (rule fresh [of ?d ?r])
      show "oc' = merge_receipt_outcome oc ?d"
        using run one merge_add_result [OF res] by (auto split: if_splits)
      show "oc_results ?d = [?r]" using res by (simp add: add_result_def)
      show "rr_seq ?r = ch_seq c" by (rule seq)
      show "rr_status ?r = Deferred \<and> s' = s \<and>
          (\<exists>g. oc_deferred ?d = [g] \<and> gap_entry e t g s)"
        if "oc_deferred ?d \<noteq> []"
        using def [OF that] run one by auto
      show "receipts s' = receipts s \<and> (rr_status ?r = Deferred \<or> receipt_key rcpt c = None) \<or>
       (\<exists>k s1. receipt_key rcpt c = Some k \<and> receipts s1 = receipts s \<and>
          put_receipt e k (change_hash e c, ?d) s1 = Inr s' \<and> rr_status ?r \<noteq> Deferred)"
        using run one rs by (auto simp: keep_receipt_def split: option.splits if_splits)
    qed
  qed
qed

section \<open>Every change is answered once\<close>

definition receipts_ok :: "store \<Rightarrow> bool" where
  "receipts_ok s \<longleftrightarrow> (\<forall>r \<in> set (receipts s). \<exists>x \<in> set (oc_results (rc_outcome r)).
     oc_results (rc_outcome r) = [x] \<and> rr_seq x = Some (rc_seq r) \<and> rr_status x \<noteq> Deferred \<and>
     oc_deferred (rc_outcome r) = [])"

lemma receipt_key_seq: "receipt_key rcpt c = Some (a, cl, n) \<Longrightarrow> ch_seq c = Some n"
  by (auto simp: receipt_key_def split: option.splits prod.splits if_splits)

lemma put_receipt_receipts:
  "put_receipt e (a, cl, n) (h, d) s = Inr s' \<Longrightarrow> \<exists>w. receipts s' = receipts s @
     [\<lparr>rc_account = a, rc_client = cl, rc_seq = n, rc_hash = h, rc_outcome = d, rc_created = w\<rparr>]"
  by (auto simp: store_sync_receipt_def now_utc_def Let_def split: if_splits)

lemma get_receipt_shape:
  assumes "get_receipt e (a, cl, n) s = Some (h, d)" "receipts_ok s"
  shows "\<exists>x. oc_results d = [x] \<and> rr_seq x = Some n \<and> rr_status x \<noteq> Deferred \<and> oc_deferred d = []"
proof -
  obtain r where "r \<in> set (receipts s)" "rc_outcome r = d" "rc_seq r = n"
    using assms(1) by (auto simp: get_sync_receipt_def receipt_is_def dest: find_SomeD)
  with assms(2) show ?thesis unfolding receipts_ok_def by blast
qed

lemma merge_receipt_results [simp]:
  "oc_results (merge_receipt_outcome oc d) = oc_results oc @ oc_results d"
  by (simp add: merge_receipt_outcome_def merge_outcome_def)

lemma process_answers:
  assumes run: "process_change e cbt sd rec rcpt (t, c) (oc, s) = Inr (oc', s')" and ok: "receipts_ok s"
  shows "receipts_ok s' \<and> (\<exists>r. oc_results oc' = oc_results oc @ [r] \<and> rr_seq r = ch_seq c)"
  using run
proof (cases rule: process_cases)
  case (replay k d)
  obtain a cl n where k: "k = (a, cl, n)" by (cases k)
  show ?thesis
    using get_receipt_shape [OF replay(2) [unfolded k] ok] receipt_key_seq [OF replay(1) [unfolded k]]
      replay(3,4) ok by auto
next
  case (fresh d r)
  have "receipts_ok s'"
    using fresh(5)
  proof (elim disjE conjE exE)
    fix k s1 assume k: "receipt_key rcpt c = Some k" "receipts s1 = receipts s"
      "put_receipt e k (change_hash e c, d) s1 = Inr s'" "rr_status r \<noteq> Deferred"
    obtain a cl n where kk: "k = (a, cl, n)" by (cases k)
    show ?thesis
      using put_receipt_receipts [OF k(3) [unfolded kk]] k(1,2,4) ok fresh(2-4) receipt_key_seq kk
      by (fastforce simp: receipts_ok_def)
  qed (use ok in \<open>simp_all add: receipts_ok_def\<close>)
  with fresh(1-3) show ?thesis by auto
qed

lemma sfold_answers:
  assumes "sfold (process_change e cbt sd rec rcpt) xs (oc, s) = Inr (oc', s')" "receipts_ok s"
  shows "receipts_ok s' \<and> (\<exists>rs. oc_results oc' = oc_results oc @ rs \<and>
    map rr_seq rs = map (ch_seq \<circ> snd) xs)"
  using assms
proof (induction xs arbitrary: oc s)
  case (Cons x xs)
  obtain t c where x: "x = (t, c)" by (cases x)
  from Cons.prems x obtain oc1 s1 where
    p: "process_change e cbt sd rec rcpt (t, c) (oc, s) = Inr (oc1, s1)"
    and q: "sfold (process_change e cbt sd rec rcpt) xs (oc1, s1) = Inr (oc', s')" by auto
  from process_answers [OF p Cons.prems(2)] obtain r where
    r: "receipts_ok s1" "oc_results oc1 = oc_results oc @ [r]" "rr_seq r = ch_seq c" by blast
  from Cons.IH [OF q r(1)] obtain rs where "receipts_ok s'" "oc_results oc' = oc_results oc1 @ rs"
    "map rr_seq rs = map (ch_seq \<circ> snd) xs" by blast
  with r(2,3) x show ?case by (intro conjI exI [of _ "r # rs"]) simp_all
qed simp

lemma mset_grouped:
  "mset (map snd (grouped cs)) = filter_mset (\<lambda>c. is_sync_table (ch_table c)) (mset cs)"
proof (induction cs)
  case Nil
  then show ?case by (simp add: grouped_def SYNC_TABLE_ORDER_def)
next
  case (Cons c cs)
  show ?case
  proof (cases "tbl_of (ch_table c)")
    case None
    with Cons show ?thesis by (simp add: grouped_def SYNC_TABLE_ORDER_def is_sync_table_def)
  next
    case (Some t)
    with Cons show ?thesis
      by (cases t) (simp_all add: grouped_def SYNC_TABLE_ORDER_def is_sync_table_def comp_def)
  qed
qed

lemma reject_unknown_seqs:
  "\<exists>rs. oc_results (reject_unknown cs oc) = oc_results oc @ rs \<and>
     map rr_seq rs = map ch_seq (filter (\<lambda>c. \<not> is_sync_table (ch_table c)) cs) \<and>
     (\<forall>r \<in> set rs. rr_status r = Rejected)"
proof (induction cs arbitrary: oc)
  case (Cons c cs)
  show ?case
    using Cons.IH [of "if is_sync_table (ch_table c) then oc else reject_change c ''unknown_table'' oc"]
    by (auto simp: reject_change_def add_result_def reject_result_def)
qed simp

lemma batch_answered:
  assumes "apply_changes e cbt sd rec rcpt cs s = Inr (oc, s')" "receipts_ok s"
  shows "mset (map rr_seq (oc_results oc)) = mset (map ch_seq cs) \<and> receipts_ok s'"
proof -
  obtain us where us: "oc_results (reject_unknown cs empty_outcome) = us"
    "map rr_seq us = map ch_seq (filter (\<lambda>c. \<not> is_sync_table (ch_table c)) cs)"
    using reject_unknown_seqs [of cs empty_outcome] by (auto simp: empty_outcome_def)
  obtain rs where rs: "receipts_ok s'" "oc_results oc = us @ rs"
    "map rr_seq rs = map ch_seq (map snd (grouped cs))"
    using sfold_answers [OF assms(1) [unfolded apply_changes_def] assms(2)] us(1) by auto
  have "mset (map ch_seq cs) = image_mset ch_seq (filter_mset (\<lambda>c. is_sync_table (ch_table c)) (mset cs))
      + image_mset ch_seq (filter_mset (\<lambda>c. \<not> is_sync_table (ch_table c)) (mset cs))"
    by (simp flip: image_mset_union)
  also have "\<dots> = mset (map ch_seq (map snd (grouped cs))) + mset (map rr_seq us)"
    using mset_grouped [of cs] us(2) by (simp del: map_map)
  finally show ?thesis using rs by simp
qed

text \<open>C5. A batch that returns answers every change exactly once, with its sequence number, replayed
  and unknown ones included, and keeps the receipts well formed.\<close>

theorem every_change_answered:
  assumes "apply_changes e cbt sd rec rcpt cs s = Inr (oc, s')" "receipts_ok s"
  shows "mset (map rr_seq (oc_results oc)) = mset (map ch_seq cs) \<and> receipts_ok s'"
  using assms by (rule batch_answered)

section \<open>Replaying a batch\<close>

lemma process_keeps_receipts:
  assumes "process_change e cbt sd rec rcpt (t, c) (oc, s) = Inr (oc', s')" "get_receipt e j s = Some w"
  shows "get_receipt e j s' = Some w"
  using assms(1)
proof (cases rule: process_cases)
  case (fresh d r)
  have cong: "get_receipt e j s2 = get_receipt e j s" if "receipts s2 = receipts s" for s2
    using that by (cases j) (simp add: get_sync_receipt_def)
  from fresh(5) show ?thesis
  proof (elim disjE conjE exE)
    fix k s1 assume same: "receipts s1 = receipts s" and put: "put_receipt e k (change_hash e c, d) s1 = Inr s'"
    have "get_receipt e j s1 = Some w" using cong [OF same] assms(2) by simp
    then show ?thesis by (rule receipts.put_keeps [OF put])
  qed (use cong assms(2) in simp_all)
qed (use assms(2) in simp)

text \<open>The receipt that answers a change of the batch.\<close>

definition answered_by ::
  "env \<Rightarrow> (string \<times> string) option \<Rightarrow> store \<Rightarrow> tbl \<times> change \<Rightarrow> outcome \<Rightarrow> bool" where
  "answered_by e rcpt s tc d \<longleftrightarrow>
     (\<exists>k. receipt_key rcpt (snd tc) = Some k \<and> get_receipt e k s = Some (change_hash e (snd tc), d))"

lemma process_answered:
  assumes run: "process_change e cbt sd rec rcpt (t, c) (oc, s) = Inr (oc', s')"
    and key: "receipt_key rcpt c \<noteq> None"
    and nd: "\<forall>r \<in> set (oc_results oc'). rr_status r \<noteq> Deferred"
  shows "\<exists>d. oc' = merge_receipt_outcome oc d \<and> answered_by e rcpt s' (t, c) d"
  using run
proof (cases rule: process_cases)
  case (replay k d)
  then show ?thesis by (auto simp: answered_by_def)
next
  case (fresh d r)
  then obtain k s1 where k: "receipt_key rcpt c = Some k"
    "put_receipt e k (change_hash e c, d) s1 = Inr s'"
    using key nd by auto
  have "get_receipt e k s' = Some (change_hash e c, d)" by (rule receipts.put_get [OF k(2)])
  with fresh(1) k(1) show ?thesis unfolding answered_by_def by simp
qed

lemma sfold_results_grow:
  "sfold (process_change e cbt sd rec rcpt) xs (oc, s) = Inr (oc', s') \<Longrightarrow>
     set (oc_results oc) \<subseteq> set (oc_results oc') \<and>
     (get_receipt e j s = Some w \<longrightarrow> get_receipt e j s' = Some w)"
proof (induction xs arbitrary: oc s)
  case (Cons x xs)
  obtain t c where x: "x = (t, c)" by (cases x)
  from Cons.prems x obtain oc1 s1 where
    p: "process_change e cbt sd rec rcpt (t, c) (oc, s) = Inr (oc1, s1)"
    and q: "sfold (process_change e cbt sd rec rcpt) xs (oc1, s1) = Inr (oc', s')" by auto
  have "set (oc_results oc) \<subseteq> set (oc_results oc1)"
    using p by (cases rule: process_cases) auto
  with Cons.IH [OF q] process_keeps_receipts [OF p, of j w] show ?case by auto
qed simp

lemma sfold_answered:
  assumes "sfold (process_change e cbt sd rec rcpt) xs (oc, s) = Inr (oc', s')"
    and "\<forall>tc \<in> set xs. receipt_key rcpt (snd tc) \<noteq> None"
    and "\<forall>r \<in> set (oc_results oc'). rr_status r \<noteq> Deferred"
  shows "\<exists>ds. oc' = foldl merge_receipt_outcome oc ds \<and> list_all2 (answered_by e rcpt s') xs ds"
  using assms
proof (induction xs arbitrary: oc s)
  case (Cons x xs)
  obtain t c where x: "x = (t, c)" by (cases x)
  from Cons.prems x obtain oc1 s1 where
    p: "process_change e cbt sd rec rcpt (t, c) (oc, s) = Inr (oc1, s1)"
    and q: "sfold (process_change e cbt sd rec rcpt) xs (oc1, s1) = Inr (oc', s')" by auto
  have sub: "set (oc_results oc1) \<subseteq> set (oc_results oc')"
    using sfold_results_grow [OF q] by blast
  have "receipt_key rcpt c \<noteq> None" "\<forall>r \<in> set (oc_results oc1). rr_status r \<noteq> Deferred"
    using Cons.prems x sub by auto
  from process_answered [OF p this] obtain d where
    d: "oc1 = merge_receipt_outcome oc d" "answered_by e rcpt s1 (t, c) d" by blast
  have ans: "answered_by e rcpt s' (t, c) d"
    using d(2) sfold_results_grow [OF q] unfolding answered_by_def by blast
  obtain ds where "oc' = foldl merge_receipt_outcome oc1 ds" "list_all2 (answered_by e rcpt s') xs ds"
    using Cons.IH [OF q] Cons.prems by auto
  with d(1) ans x show ?case by (intro exI [of _ "d # ds"]) simp
qed simp

lemma sfold_replay:
  "list_all2 (answered_by e rcpt s) xs ds \<Longrightarrow>
     sfold (process_change e cbt sd rec rcpt) xs (oc, s) = Inr (foldl merge_receipt_outcome oc ds, s)"
proof (induction xs ds arbitrary: oc rule: list_all2_induct)
  case (Cons x xs d ds)
  obtain t c where x: "x = (t, c)" by (cases x)
  with Cons(1) obtain k where "receipt_key rcpt c = Some k"
    "get_receipt e k s = Some (change_hash e c, d)" by (auto simp: answered_by_def)
  then have "process_change e cbt sd rec rcpt (t, c) (oc, s) = Inr (merge_receipt_outcome oc d, s)"
    by (cases k) (simp add: process_change_def Let_def)
  with Cons(3) x show ?case by simp
qed simp

lemma grouped_mem: "(t, c) \<in> set (grouped cs) \<longleftrightarrow> c \<in> set cs \<and> tbl_of (ch_table c) = Some t"
  by (auto simp: grouped_def)

text \<open>C6. Sending a settled batch a second time gives the same outcome and changes nothing.\<close>

theorem replayed_batch_is_idempotent:
  assumes "apply_changes e cbt sd rec rcpt cs s = Inr (oc, s')"
    and "\<forall>c \<in> set cs. receipt_key rcpt c \<noteq> None"
    and "\<forall>r \<in> set (oc_results oc). rr_status r \<noteq> Deferred"
  shows "apply_changes e cbt sd rec rcpt cs s' = Inr (oc, s')"
proof -
  have "\<forall>tc \<in> set (grouped cs). receipt_key rcpt (snd tc) \<noteq> None"
    using assms(2) grouped_mem by force
  from sfold_answered [OF assms(1) [unfolded apply_changes_def] this assms(3)] obtain ds where
    "oc = foldl merge_receipt_outcome (reject_unknown cs empty_outcome) ds"
    "list_all2 (answered_by e rcpt s') (grouped cs) ds" by blast
  with sfold_replay show ?thesis unfolding apply_changes_def by fastforce
qed

section \<open>What a batch can raise\<close>

lemma process_raises:
  assumes "process_change e cbt sd rec rcpt (t, c) (oc, s) = Inl x"
  shows "\<exists>n. x = ReceiptPayloadMismatch n \<and> ch_seq c = Some n \<and>
    (\<exists>k h d. receipt_key rcpt c = Some k \<and> get_receipt e k s = Some (h, d) \<and> h \<noteq> change_hash e c)"
proof -
  have put: "\<exists>s2. keep_receipt e (receipt_key rcpt c) c d s1 = Inr s2"
    if "receipts s1 = receipts s" "\<forall>k. receipt_key rcpt c = Some k \<longrightarrow> get_receipt e k s = None" for d s1
    using that
    by (auto simp: keep_receipt_def get_sync_receipt_def store_sync_receipt_def now_utc_def Let_def
        split: option.splits)
  have rs: "receipts s1 = receipts s" if "apply_one e cbt sd rec t c empty_outcome s = Inr (d, s1)" for d s1
    using books.apply_one [OF _ that, of s] by (simp add: books_kept_def)
  show ?thesis
  proof (cases "\<exists>k h d. receipt_key rcpt c = Some k \<and> get_receipt e k s = Some (h, d)")
    case True
    then obtain a cl n h d where k: "receipt_key rcpt c = Some (a, cl, n)"
      "get_sync_receipt e a cl n s = Some (h, d)" by auto
    with assms receipt_key_seq [OF k(1)] show ?thesis
      by (auto simp: process_change_def Let_def split: if_splits)
  next
    case False
    then have none: "\<forall>k. receipt_key rcpt c = Some k \<longrightarrow> get_receipt e k s = None"
      by (metis not_Some_eq surj_pair)
    show ?thesis
    proof (cases "apply_one e cbt sd rec t c empty_outcome s")
      case (Inl y)
      with assms put [OF refl none, of "reject_change c (exn_str y) empty_outcome"] none show ?thesis
        unfolding process_change_def Let_def by (auto split: option.splits)
    next
      case (Inr p)
      obtain d s1 where p: "p = (d, s1)" by (cases p)
      show ?thesis
        using assms Inr p put [OF rs none, of d s1 "add_result (row_result_of e t c d s1) d"] none
        unfolding process_change_def Let_def by (auto split: option.splits if_splits)
    qed
  qed
qed

lemma sfold_raises:
  "sfold (process_change e cbt sd rec rcpt) xs p = Inl x \<Longrightarrow>
     \<exists>n tc k. x = ReceiptPayloadMismatch n \<and> tc \<in> set xs \<and> receipt_key rcpt (snd tc) = Some k \<and>
       ch_seq (snd tc) = Some n"
proof (induction xs arbitrary: p)
  case (Cons y xs)
  obtain t c oc s where y: "y = (t, c)" "p = (oc, s)" by (cases y; cases p)
  from Cons.prems show ?case
  proof (cases "process_change e cbt sd rec rcpt y p")
    case (Inl z)
    with Cons.prems y process_raises show ?thesis by fastforce
  next
    case (Inr q)
    with Cons show ?thesis by fastforce
  qed
qed simp

text \<open>No row can kill a batch: only a replayed sequence number with another payload ends it.\<close>

text \<open>The only exception a batch can raise is the payload mismatch of a replayed sequence number,
  and only when receipts are in use.\<close>

theorem batch_raises_only_mismatch:
  assumes "apply_changes e cbt sd rec rcpt cs s = Inl x"
  shows "\<exists>n c. x = ReceiptPayloadMismatch n \<and> c \<in> set cs \<and> ch_seq c = Some n \<and> rcpt \<noteq> None"
  using sfold_raises [OF assms [unfolded apply_changes_def]] grouped_mem
  by (force simp: receipt_key_def split: option.splits)

text \<open>C7. A sequence number replayed with another payload aborts the whole request and rolls the store
  back.\<close>

theorem reused_seq_is_refused:
  assumes "c \<in> set cs" "is_sync_table (ch_table c)" "receipt_key rcpt c = Some (a, cl, n)"
    and "get_sync_receipt e a cl n s = Some (h, d)" "h \<noteq> change_hash e c"
  shows "\<exists>m. with_connection True (apply_changes e cbt sd rec rcpt cs) s = (Inl (ReceiptPayloadMismatch m), s)"
proof -
  let ?s = "s\<lparr>applying := True\<rparr>"
  obtain t where t: "tbl_of (ch_table c) = Some t" using assms(2) by (auto simp: is_sync_table_def)
  have mem: "(t, c) \<in> set (grouped cs)" using assms(1) t by (simp add: grouped_mem)
  then obtain xs ys where sp: "grouped cs = xs @ (t, c) # ys" by (meson split_list)
  have h0: "get_receipt e (a, cl, n) ?s = Some (h, d)"
    using assms(4) by (simp add: get_sync_receipt_def)
  have "\<exists>x. apply_changes e cbt sd rec rcpt cs ?s = Inl x"
  proof (cases "sfold (process_change e cbt sd rec rcpt) xs (reject_unknown cs empty_outcome, ?s)")
    case (Inr p)
    obtain oc1 s1 where p: "p = (oc1, s1)" by (cases p)
    have "get_receipt e (a, cl, n) s1 = Some (h, d)"
      using sfold_results_grow [OF Inr [unfolded p]] h0 by blast
    with assms(3,5) have "process_change e cbt sd rec rcpt (t, c) p = Inl (ReceiptPayloadMismatch (the (ch_seq c)))"
      by (simp add: process_change_def Let_def p)
    with Inr show ?thesis by (simp add: apply_changes_def sp sfold_append)
  qed (simp add: apply_changes_def sp sfold_append)
  then obtain x where x: "apply_changes e cbt sd rec rcpt cs ?s = Inl x" by blast
  with batch_raises_only_mismatch [OF x] show ?thesis by (auto simp: with_connection_def)
qed

section \<open>Parents first\<close>

text \<open>A change on one table touches that table and \<open>memo_versions\<close>, no other.\<close>

lemma apply_existing_tabs:
  assumes run: "apply_existing e cols sd rec t c i ex inc k oc s = Inr (oc', s')"
    and u: "u \<noteq> t" "u \<noteq> Memo_versions"
  shows "tabs s' u = tabs s u"
proof (cases "Some k = row_clock ex \<and> rows_equivalent ex inc cols")
  case True
  with run show ?thesis by (auto simp: apply_existing_def)
next
  case False
  obtain dv oc1 s1 where
    conf: "(if dv then record_conflict e t i c ex inc k sd rec oc s else Inr (oc, s)) = Inr (oc1, s1)"
    and fin: "if incoming_wins k (row_clock ex) sd
     then \<exists>s2. update_row e t inc cols i s1 = Inr s2 \<and>
            detect_duplicates e t i inc rec (mark_applied t i oc1) s2 = Inr (oc', s')
     else oc' = mark_skipped oc1 \<and> s' = s1"
    by (rule apply_existing_stages [OF run False])
  have "tabs s1 u = tabs s u"
    using conf record_conflict_tabs(1) u by (fastforce split: if_splits)
  with fin u show ?thesis by (auto simp: update_row_tabs split: if_splits dest!: duplicates_both)
qed

lemma apply_decoded_tabs:
  "apply_decoded e cols sd rec t c i ex inc oc s = Inr (oc', s') \<Longrightarrow>
     u \<noteq> t \<Longrightarrow> u \<noteq> Memo_versions \<Longrightarrow> tabs s' u = tabs s u"
  by (auto simp: apply_decoded_def insert_row_def apply_existing_tabs split: option.splits
      dest!: duplicates_both db_insert_tabs)

lemma hard_delete_tabs:
  "apply_hard_delete e t i ex oc s = Inr (oc', s') \<Longrightarrow> u \<noteq> t \<Longrightarrow> tabs s' u = tabs s u"
  by (auto simp: apply_hard_delete_def now_utc_def Let_def split: option.splits if_splits
      dest!: db_set_tabs)

lemma apply_one_tabs:
  "apply_one e cbt sd rec t c oc s = Inr (oc', s') \<Longrightarrow>
     u \<noteq> t \<Longrightarrow> u \<noteq> Memo_versions \<Longrightarrow> tabs s' u = tabs s u"
  unfolding apply_one_def Let_def
  by (auto split: if_splits dest: hard_delete_tabs apply_decoded_tabs)

lemma process_tabs:
  assumes "process_change e cbt sd rec rcpt (t, c) (oc, s) = Inr (oc', s')"
    and "u \<noteq> t" "u \<noteq> Memo_versions"
  shows "tabs s' u = tabs s u"
proof (cases "apply_one e cbt sd rec t c empty_outcome s")
  case (Inl x)
  with assms(1) show ?thesis
    unfolding process_change_def Let_def
    by (auto dest!: keep_receipt_core split: option.splits if_splits)
next
  case (Inr p)
  obtain d s1 where p: "p = (d, s1)" by (cases p)
  have "tabs s1 u = tabs s u" using apply_one_tabs [OF Inr [unfolded p] assms(2,3)] .
  with assms(1) Inr p show ?thesis
    unfolding process_change_def Let_def
    by (auto dest!: keep_receipt_core split: option.splits if_splits)
qed

lemma parent_gap_cong:
  "(\<And>u. u < t \<Longrightarrow> u \<noteq> Memo_versions \<Longrightarrow> tabs s' u = tabs s u) \<Longrightarrow> parent_gap e t m s' = parent_gap e t m s"
  unfolding parent_gap_def by metis

lemma process_deferred:
  assumes run: "process_change e cbt sd rec rcpt (t, c) (oc, s) = Inr (oc', s')" and ok: "receipts_ok s"
    and d: "g \<in> set (oc_deferred oc')"
  shows "g \<in> set (oc_deferred oc) \<or> gap_entry e t g s'"
  using run
proof (cases rule: process_cases)
  case (replay k d)
  obtain a cl n where k: "k = (a, cl, n)" by (cases k)
  from get_receipt_shape [OF replay(2) [unfolded k] ok] replay(3) d show ?thesis
    by (auto simp: merge_receipt_outcome_def merge_outcome_def)
next
  case (fresh d' r)
  then show ?thesis
    using d by (cases "oc_deferred d' = []") (auto simp: merge_receipt_outcome_def merge_outcome_def)
qed

text \<open>A deferral stands to the end: later changes are on later tables.\<close>

lemma sfold_deferred:
  assumes "sfold (process_change e cbt sd rec rcpt) xs (oc, s) = Inr (oc', s')"
    and "sorted (map fst xs)" "receipts_ok s"
    and "\<forall>g \<in> set (oc_deferred oc). \<exists>t. gap_entry e t g s \<and> (\<forall>x \<in> set xs. t \<le> fst x)"
  shows "\<forall>g \<in> set (oc_deferred oc'). \<exists>t. gap_entry e t g s'"
  using assms
proof (induction xs arbitrary: oc s)
  case Nil
  then have "oc' = oc" "s' = s" by simp_all
  with Nil.prems(4) show ?case by blast
next
  case (Cons x xs)
  obtain u c where x: "x = (u, c)" by (cases x)
  from Cons.prems x obtain oc1 s1 where
    p: "process_change e cbt sd rec rcpt (u, c) (oc, s) = Inr (oc1, s1)"
    and q: "sfold (process_change e cbt sd rec rcpt) xs (oc1, s1) = Inr (oc', s')" by auto
  have "\<exists>t. gap_entry e t g s1 \<and> (\<forall>y \<in> set xs. t \<le> fst y)" if g: "g \<in> set (oc_deferred oc1)" for g
  proof (cases "g \<in> set (oc_deferred oc)")
    case True
    then obtain t where t: "gap_entry e t g s" "\<forall>y \<in> set (x # xs). t \<le> fst y"
      using Cons.prems(4) by blast
    have same: "tabs s1 v = tabs s v" if "v < t" "v \<noteq> Memo_versions" for v
    proof (rule process_tabs [OF p _ that(2)])
      show "v \<noteq> u" using that(1) t(2) x by auto
    qed
    have "parent_gap e t m s1 = parent_gap e t m s" for m
      by (rule parent_gap_cong) (rule same)
    then have "gap_entry e t g s1" using t(1) unfolding gap_entry_def by simp
    with t(2) show ?thesis by auto
  next
    case False
    with process_deferred [OF p Cons.prems(3) g] have "gap_entry e u g s1" by blast
    with Cons.prems(2) x show ?thesis by auto
  qed
  then have g1: "\<forall>g \<in> set (oc_deferred oc1). \<exists>t. gap_entry e t g s1 \<and> (\<forall>y \<in> set xs. t \<le> fst y)"
    by blast
  have "receipts_ok s1" using process_answers [OF p Cons.prems(3)] by blast
  moreover have "sorted (map fst xs)" using Cons.prems(2) by simp
  ultimately show ?case by (rule Cons.IH [OF q _ _ g1, rotated])
qed

lemma sorted_grouped: "sorted (map fst (grouped cs))"
proof -
  have "map fst (map (Pair t) ys) = replicate (length ys) t" for t :: tbl and ys :: "change list"
    by (induction ys) auto
  then show ?thesis
    by (auto simp: grouped_def SYNC_TABLE_ORDER_def sorted_append less_eq_tbl_def simp del: map_map)
qed

lemma reject_unknown_deferred: "oc_deferred (reject_unknown cs oc) = oc_deferred oc"
  by (induction cs arbitrary: oc) (simp_all add: reject_change_def add_result_def)

text \<open>C8. A change is deferred only if a parent row it names is still missing when the batch is over:
  the dependency order leaves no change behind whose parent came in the same batch.\<close>

theorem deferred_only_without_parent:
  assumes "apply_changes e cbt sd rec rcpt cs s = Inr (oc, s')" "receipts_ok s"
    and "g \<in> set (oc_deferred oc)"
  shows "\<exists>t i p v. g = refused t i (''missing_parent:'' @ tbl_name p @ '':'' @ py_str v) \<and> p < t \<and>
    \<not> (\<exists>x \<in> set (tabs s' p). sql_eq e (row_get x ''id'') v)"
proof -
  have "oc_deferred (reject_unknown cs empty_outcome) = []"
    by (simp add: reject_unknown_deferred) (simp add: empty_outcome_def)
  with sfold_deferred [OF assms(1) [unfolded apply_changes_def] sorted_grouped assms(2)] assms(3)
  obtain t where "gap_entry e t g s'" by auto
  then show ?thesis unfolding gap_entry_def parent_gap_def by blast
qed

section \<open>Clocks never go back\<close>

definition clock_at :: "env \<Rightarrow> tbl \<Rightarrow> string \<Rightarrow> store \<Rightarrow> int option" where
  "clock_at e t i s = (case fetch_id e t i s of None \<Rightarrow> None | Some r \<Rightarrow> row_clock r)"

definition clock_le :: "env \<Rightarrow> store \<Rightarrow> store \<Rightarrow> bool" where
  "clock_le e s s' \<longleftrightarrow> (\<forall>t i k. clock_at e t i s = Some k \<longrightarrow> (\<exists>k'. clock_at e t i s' = Some k' \<and> k \<le> k'))"

lemma clock_le_trans: "clock_le e a b \<Longrightarrow> clock_le e b c \<Longrightarrow> clock_le e a c"
  unfolding clock_le_def by (meson order_trans)

lemma clock_le_same: "tabs s' = tabs s \<Longrightarrow> clock_le e s s'"
  by (auto simp: clock_le_def clock_at_def fetch_id_def)

lemma clock_le_append: "tabs s' = (tabs s)(u := tabs s u @ xs) \<Longrightarrow> clock_le e s s'"
  by (auto simp: clock_le_def clock_at_def fetch_id_def find_append split: option.splits if_splits)

lemma fetch_same_key:
  assumes "fetch_id e t i s = Some r" "id_is e j r"
  shows "fetch_id e t j s = Some r"
proof -
  have "id_is e i r" using assms(1) by (auto simp: fetch_id_def dest: find_SomeD)
  with assms(2) have "same_str e i j" by (auto simp: col_is_iff intro: same_str_trans same_str_sym)
  then have "id_is e i = id_is e j"
    by (auto simp: fun_eq_iff col_is_iff intro: same_str_trans same_str_sym)
  with assms(1) show ?thesis by (simp add: fetch_id_def)
qed

lemma clock_le_update:
  assumes upd: "update_row e t inc cols i s = Inr s'" and ex: "fetch_id e t i s = Some ex"
    and d: "distinct cols" and clk: "''updated_at_utc'' \<in> set cols" "has_col inc ''updated_at_utc''"
    and k: "row_clock inc = Some k" and wins: "incoming_wins k (row_clock ex) sd"
  shows "clock_le e s s'"
  unfolding clock_le_def
proof (intro allI impI)
  fix u j k0 assume k0: "clock_at e u j s = Some k0"
  then obtain r where r: "fetch_id e u j s = Some r" "row_clock r = Some k0"
    by (auto simp: clock_at_def split: option.splits)
  obtain r' where r': "fetch_id e t i s' = Some r'" "row_get r' ''updated_at_utc'' = row_get inc ''updated_at_utc''"
    using update_row_fetch [OF upd ex d] clk by fastforce
  show "\<exists>k'. clock_at e u j s' = Some k' \<and> k0 \<le> k'"
  proof (cases "u = t \<and> id_is e i r")
    case True
    then have "r = ex" using fetch_same_key [of e u j s r i] r(1) ex by auto
    with wins r(2) have "k0 \<le> k" by (auto simp: incoming_wins_def split: if_splits)
    have "id_is e j r" using r(1) by (auto simp: fetch_id_def dest: find_SomeD)
    with True have "id_is e i = id_is e j"
      by (auto simp: fun_eq_iff col_is_iff same_str_def)
    with r' True have "clock_at e u j s' = row_clock inc"
      by (simp add: clock_at_def fetch_id_def row_clock_def)
    with k \<open>k0 \<le> k\<close> show ?thesis by simp
  next
    case False
    have "fetch_id e u j s' = Some r"
    proof (cases "u = t")
      case True
      show ?thesis
      proof (cases "s' = s")
        case False
        then obtain n asg where "db_update e t (id_is e i) asg s = Inr (n, s')" "''id'' \<notin> fst ` set asg"
          using upd by (auto simp: update_row_def table_pk_def db_set_def Let_def restrict_keys split: if_splits)
        from fetch_after_update [OF this, of j] r(1) True \<open>\<not> (u = t \<and> id_is e i r)\<close> show ?thesis by simp
      qed (use r in simp)
    next
      case False
      with update_row_tabs [OF upd] r(1) fetch_id_cong show ?thesis by metis
    qed
    with r(2) show ?thesis by (simp add: clock_at_def)
  qed
qed

lemma clock_le_existing:
  assumes run: "apply_existing e cols sd rec t c i ex inc k oc s = Inr (oc', s')"
    and ex: "fetch_id e t i s = Some ex" and d: "distinct cols"
    and clk: "''updated_at_utc'' \<in> set cols" "has_col inc ''updated_at_utc''" "row_clock inc = Some k"
  shows "clock_le e s s'"
proof (cases "Some k = row_clock ex \<and> rows_equivalent ex inc cols")
  case True
  with run show ?thesis by (auto simp: apply_existing_def intro: clock_le_same)
next
  case False
  obtain dv oc1 s1 where
    conf: "(if dv then record_conflict e t i c ex inc k sd rec oc s else Inr (oc, s)) = Inr (oc1, s1)"
    and fin: "if incoming_wins k (row_clock ex) sd
     then \<exists>s2. update_row e t inc cols i s1 = Inr s2 \<and>
            detect_duplicates e t i inc rec (mark_applied t i oc1) s2 = Inr (oc', s')
     else oc' = mark_skipped oc1 \<and> s' = s1"
    by (rule apply_existing_stages [OF run False])
  have 1: "clock_le e s s1"
  proof (cases dv)
    case True
    with conf obtain xs where "tabs s1 = (tabs s)(Memo_versions := tabs s Memo_versions @ xs)"
      using record_conflict_tabs(1) by fastforce
    then show ?thesis by (rule clock_le_append)
  qed (use conf in \<open>simp add: clock_le_same\<close>)
  show ?thesis
  proof (cases "incoming_wins k (row_clock ex) sd")
    case True
    with fin obtain s2 where s2: "update_row e t inc cols i s1 = Inr s2" "tabs s' = tabs s2"
      using duplicates_both by auto
    have "fetch_id e t i s1 = Some ex" using conflict_step_tabs [OF conf] ex fetch_id_cong by metis
    from clock_le_update [OF s2(1) this d clk True] show ?thesis
      using 1 clock_le_same [OF s2(2)] clock_le_trans by blast
  qed (use fin 1 in simp)
qed

lemma deserialize_has_col:
  "deserialize_row cs p = Inr r \<Longrightarrow> has_col r c \<longleftrightarrow> c \<in> set cs \<and> has_col p c"
  by (simp add: has_col_keys [of r] deserialize_columns flip: set_map)

lemma row_clock_has_col: "row_clock r = Some k \<Longrightarrow> has_col r ''updated_at_utc''"
  by (auto simp: row_clock_def row_get_def has_col_def split: option.splits)

lemma clock_le_one:
  assumes run: "apply_one e cbt sd rec t c oc s = Inr (oc', s')" and d: "distinct (cols_for cbt t)"
    and nd: "\<not> (ch_op c = ''delete'' \<and> ch_row c = None)"
  shows "clock_le e s s'"
proof (cases "blank (ch_rowId c)")
  case True
  with run show ?thesis by (auto simp: apply_one_def intro: clock_le_same)
next
  case False
  let ?i = "the (ch_rowId c)"
  obtain inc0 where dec: "deserialize_row (cols_for cbt t) (case ch_row c of None \<Rightarrow> [] | Some r \<Rightarrow> r) = Inr inc0"
    and app: "apply_decoded e (cols_for cbt t) sd rec t c ?i (fetch_id e t ?i s)
        (row_set inc0 ''id'' (VStr ?i)) oc s = Inr (oc', s')"
    using run False nd by (auto simp: apply_one_def table_pk_def Let_def split: if_splits)
  let ?inc = "row_set inc0 ''id'' (VStr ?i)"
  have cl: "''updated_at_utc'' \<in> set (cols_for cbt t)" "has_col ?inc ''updated_at_utc''" if "row_clock ?inc = Some k" for k
  proof -
    show h: "has_col ?inc ''updated_at_utc''" using that by (rule row_clock_has_col)
    show "''updated_at_utc'' \<in> set (cols_for cbt t)" using h deserialize_has_col [OF dec] by simp
  qed
  show ?thesis
  proof (cases "fetch_id e t ?i s")
    case None
    with app show ?thesis
      by (auto simp: apply_decoded_def insert_row_def split: option.splits
          intro: clock_le_same clock_le_append dest!: duplicates_both db_insert_tabs)
  next
    case (Some ex)
    show ?thesis
    proof (cases "s' = s")
      case False
      with app Some obtain k where "row_clock ?inc = Some k"
        "apply_existing e (cols_for cbt t) sd rec t c ?i ex ?inc k oc s = Inr (oc', s')"
        by (auto simp: apply_decoded_def split: option.splits)
      with clock_le_existing [OF _ Some d] cl show ?thesis by blast
    qed (simp add: clock_le_same)
  qed
qed

lemma clock_le_process:
  assumes run: "process_change e cbt sd rec rcpt (t, c) (oc, s) = Inr (oc', s')"
    and d: "distinct (cols_for cbt t)" and nd: "\<not> (ch_op c = ''delete'' \<and> ch_row c = None)"
  shows "clock_le e s s'"
proof (cases "apply_one e cbt sd rec t c empty_outcome s")
  case (Inl x)
  with run show ?thesis
    unfolding process_change_def Let_def
    by (auto dest!: keep_receipt_core intro: clock_le_same split: option.splits if_splits)
next
  case (Inr p)
  obtain d' s1 where p: "p = (d', s1)" by (cases p)
  have "clock_le e s s1" using clock_le_one [OF Inr [unfolded p] d nd] .
  moreover have "tabs s' = tabs s1 \<or> tabs s' = tabs s"
    using run Inr p unfolding process_change_def Let_def
    by (auto dest!: keep_receipt_core split: option.splits if_splits)
  ultimately show ?thesis using clock_le_same clock_le_trans by metis
qed

text \<open>C9. No batch lets the clock of a row go back, or removes a row, unless it carries a bare delete.\<close>

theorem clocks_never_go_back:
  assumes "apply_changes e cbt sd rec rcpt cs s = Inr (oc, s')"
    and "\<forall>t. distinct (cols_for cbt t)"
    and "\<forall>c \<in> set cs. \<not> (ch_op c = ''delete'' \<and> ch_row c = None)"
    and "fetch_id e t i s = Some r" "row_clock r = Some k"
  shows "\<exists>r' k'. fetch_id e t i s' = Some r' \<and> row_clock r' = Some k' \<and> k \<le> k'"
proof -
  have "clock_le e s (snd (oc, s'))"
  proof (rule sfold_invariant [OF assms(1) [unfolded apply_changes_def], where P = "\<lambda>p. clock_le e s (snd p)"])
    show "clock_le e s (snd (reject_unknown cs empty_outcome, s))" by (simp add: clock_le_same)
    fix x p p' assume x: "x \<in> set (grouped cs)" and le: "clock_le e s (snd p)"
      and run: "process_change e cbt sd rec rcpt x p = Inr p'"
    have "snd x \<in> set cs" using x grouped_mem [of "fst x" "snd x" cs] by simp
    with assms(3) have "\<not> (ch_op (snd x) = ''delete'' \<and> ch_row (snd x) = None)" by blast
    then have "clock_le e (snd p) (snd p')"
      using clock_le_process [of e cbt sd rec rcpt "fst x" "snd x" "fst p" "snd p" "fst p'" "snd p'"]
        run assms(2) by simp
    with le show "clock_le e s (snd p')" by (rule clock_le_trans)
  qed
  with assms(4,5) show ?thesis
    unfolding clock_le_def clock_at_def by (fastforce split: option.splits)
qed

end
