(* ===== verification/Feed.thy ===== *)
theory Feed
  imports Invariants "HOL-Library.Multiset"
begin

text \<open>
  The change feed and the outbox of \<^verbatim>\<open>src/services/sync_store.py\<close>: what a peer reads by
  following the cursor is exactly the visible part of the log, each row once and with its
  current value, and nothing of another account.
\<close>

section \<open>The window\<close>

lemma log_window_mem:
  "l \<in> set (log_window since limit s) \<Longrightarrow> l \<in> set (change_log s) \<and> since < le_seq l"
  by (auto simp: log_window_def dest: in_set_takeD)

lemma sorted_log:
  assumes "log_ok s"
  shows "sort_key le_seq (filter P (change_log s)) = filter P (change_log s)"
proof (rule sort_key_id_if_sorted)
  have "sorted_wrt (<) (map le_seq (filter P (change_log s)))"
    using assms by (auto simp: log_ok_def sorted_wrt_map intro: sorted_wrt_filter)
  then show "sorted (map le_seq (filter P (change_log s)))"
    by (rule sorted_wrt_mono_rel [rotated]) simp
qed

lemma log_window_sorted: "sorted (map le_seq (log_window since limit s))"
  unfolding log_window_def by (metis sorted_sort_key sorted_wrt_take take_map)

lemma next_seq_ge: "l \<in> set ls \<Longrightarrow> le_seq l \<le> next_seq since ls"
  by (auto simp: next_seq_def intro: max_or_ge)

lemma next_seq_mem:
  "ls \<noteq> [] \<Longrightarrow> \<exists>l \<in> set ls. next_seq since ls = le_seq l"
  using max_or_mem [of "map le_seq ls" since] by (auto simp: next_seq_def)

text \<open>The window is the stretch of the log up to the cursor it returns.\<close>

lemma sorted_take_upto:
  fixes f :: "'a \<Rightarrow> int"
  assumes "sorted_wrt (<) (map f xs)" "take n xs \<noteq> []" "x \<in> set xs" "f x \<le> f (last (take n xs))"
  shows "x \<in> set (take n xs)"
proof (rule ccontr)
  assume no: "x \<notin> set (take n xs)"
  with assms(3) have d: "x \<in> set (drop n xs)"
    by (metis UnE append_take_drop_id set_append)
  have "sorted_wrt (<) (map f (take n xs) @ map f (drop n xs))"
    using assms(1) by (simp flip: map_append)
  then have "f (last (take n xs)) < f x"
    using d assms(2) by (auto simp: sorted_wrt_append)
  with assms(4) show False by simp
qed

lemma sorted_last_max:
  fixes f :: "'a \<Rightarrow> int"
  assumes "sorted_wrt (<) (map f xs)" "xs \<noteq> []" "x \<in> set xs"
  shows "f x \<le> f (last xs)"
  using assms
proof (induction xs)
  case (Cons y ys)
  then show ?case by (cases "ys = []") (auto simp: less_imp_le dest: last_in_set)
qed simp

lemma log_window_upto:
  assumes ok: "log_ok s" and l: "l \<in> set (change_log s)" "since < le_seq l"
    and n: "le_seq l \<le> next_seq since (log_window since limit s)"
  shows "l \<in> set (log_window since limit s)"
proof -
  let ?xs = "filter (\<lambda>l. since < le_seq l) (change_log s)"
  have w: "log_window since limit s = take limit ?xs"
    by (simp add: log_window_def sorted_log [OF ok])
  have srt: "sorted_wrt (<) (map le_seq ?xs)"
    using ok by (auto simp: log_ok_def sorted_wrt_map intro: sorted_wrt_filter)
  have ne: "take limit ?xs \<noteq> []"
    using n l(2) unfolding w next_seq_def by (auto split: if_splits)
  obtain m where m: "m \<in> set (take limit ?xs)" "next_seq since (take limit ?xs) = le_seq m"
    using next_seq_mem [OF ne] by blast
  have "sorted_wrt (<) (map le_seq (take limit ?xs))"
    using srt by (metis sorted_wrt_take take_map)
  then have "le_seq m \<le> le_seq (last (take limit ?xs))"
    using ne m(1) by (rule sorted_last_max)
  with n m w have "le_seq l \<le> le_seq (last (take limit ?xs))" by simp
  moreover have "l \<in> set ?xs" using l by simp
  ultimately show ?thesis unfolding w using srt ne by (intro sorted_take_upto)
qed

section \<open>The last entry of every row\<close>

lemma latest_step_conv:
  "map_of (latest_step d l) k =
     (case tbl_of (le_table l) of None \<Rightarrow> map_of d k
      | Some t \<Rightarrow> if k = (t, le_row l) then Some l else map_of d k)"
  by (auto simp: latest_step_def update_conv split: option.splits)

lemma latest_entries_snoc: "latest_entries (ls @ [l]) = latest_step (latest_entries ls) l"
  by (simp add: latest_entries_def)

definition log_key :: "log_entry \<Rightarrow> (tbl \<times> string) option" where
  "log_key l = map_option (\<lambda>t. (t, le_row l)) (tbl_of (le_table l))"

lemma latest_entries_conv:
  "map_of (latest_entries ls) k = find (\<lambda>l. log_key l = Some k) (rev ls)"
proof (induction ls rule: rev_induct)
  case (snoc l ls)
  then show ?case
    by (auto simp: latest_entries_snoc latest_step_conv log_key_def split: option.splits)
qed (simp add: latest_entries_def)

lemma distinct_latest: "distinct (map fst (latest_entries ls))"
proof (induction ls rule: rev_induct)
  case (snoc l ls)
  then show ?case
    by (auto simp: latest_entries_snoc latest_step_def distinct_update split: option.splits)
qed (simp add: latest_entries_def)

lemma latest_entries_mem:
  "(k, l) \<in> set (latest_entries ls) \<Longrightarrow> l \<in> set ls \<and> log_key l = Some k"
proof -
  assume "(k, l) \<in> set (latest_entries ls)"
  then have "map_of (latest_entries ls) k = Some l" using distinct_latest by simp
  then have "find (\<lambda>l. log_key l = Some k) (rev ls) = Some l"
    by (simp add: latest_entries_conv)
  from find_SomeD [OF this] show ?thesis by simp
qed

text \<open>In a sorted window the entry kept for a row is the one with the largest number.\<close>

lemma find_rev_max:
  fixes f :: "'a \<Rightarrow> int"
  assumes "sorted (map f ls)" "find P (rev ls) = Some l" "m \<in> set ls" "P m"
  shows "f m \<le> f l"
  using assms
proof (induction ls rule: rev_induct)
  case (snoc x ls)
  then show ?case by (auto simp: sorted_append split: if_splits)
qed simp

lemma latest_entries_max:
  assumes "sorted (map le_seq ls)" "m \<in> set ls" "log_key m = Some k"
  shows "\<exists>l. (k, l) \<in> set (latest_entries ls) \<and> le_seq m \<le> le_seq l"
proof -
  obtain l where l: "find (\<lambda>l. log_key l = Some k) (rev ls) = Some l"
    using assms(2,3) by (cases "find (\<lambda>l. log_key l = Some k) (rev ls)") (auto simp: find_None)
  then have "map_of (latest_entries ls) k = Some l" by (simp add: latest_entries_conv)
  then have "(k, l) \<in> set (latest_entries ls)" by (rule map_of_SomeD)
  with find_rev_max [OF assms(1) l assms(2)] assms(3) show ?thesis by blast
qed

section \<open>The feed of a peer\<close>

lemma read_changes_set:
  "read_changes e since limit a cbt s = (cs, n) \<Longrightarrow>
     set cs = {c. \<exists>kl \<in> set (latest_entries (log_window since limit s)).
       feed_change e cbt (visible_project_ids e a s) s kl = Some c}
     \<and> n = next_seq since (log_window since limit s) \<and> sorted (map ch_seq_key cs)"
  by (auto simp: read_changes_def Let_def set_map_filter next_seq_def latest_entries_def
      split: if_splits)

lemma feed_change_Some:
  "feed_change e cbt vis s ((t, i), l) = Some c \<longleftrightarrow>
     (\<exists>r. fetch_id e t i s = Some r \<and>
       c = \<lparr>ch_seq = Some (le_seq l), ch_table = tbl_name t, ch_rowId = Some i,
            ch_op = op_name (le_op l),
            ch_row = Some (serialize_row (cols_for cbt t) (restrict_row (cols_for cbt t) r)),
            ch_base = None, ch_basePeerSeq = None\<rparr> \<and>
       (\<forall>p. row_project_id e t (restrict_row (cols_for cbt t) r) s = Some p \<longrightarrow> p \<in> set vis))"
  by (auto simp: feed_change_def Let_def split: option.splits)

lemma restrict_table_columns:
  assumes "k \<in> set (table_columns t)"
  shows "row_get (restrict_row (table_columns t) r) k = row_get r k"
  using assms by (simp add: restrict_get row_get_no_col)

lemma row_project_id_restrict:
  "row_project_id e t (restrict_row (table_columns t) r) s = row_project_id e t r s"
proof -
  have "row_get (restrict_row (table_columns t) r) k = row_get r k" if "k \<in> set (table_columns t)" for k
    using that by (rule restrict_table_columns)
  then show ?thesis by (cases t) (simp_all add: row_project_id_def row_str_def)
qed

lemma serialize_restrict:
  "serialize_row cs (restrict_row cs r) = serialize_row cs r"
proof -
  have "serialize_row cs (restrict_row ds r) = serialize_row cs r" if "set cs \<subseteq> set ds" for cs ds
    using that
    by (induction cs) (auto simp: restrict_get)
  then show ?thesis by simp
qed

lemma fetch_id_mem: "fetch_id e t i s = Some r \<Longrightarrow> r \<in> set (tabs s t) \<and> id_is e i r"
  by (auto simp: fetch_id_def dest: find_SomeD)

lemma sql_eq_VStr: "sql_eq e v w \<Longrightarrow> row_get x c = w \<Longrightarrow> (\<exists>a. v = VStr a) \<Longrightarrow> \<exists>b. row_str x c = Some b"
  by (cases v; cases w) (auto simp: row_str_def)

lemma parent_present:
  assumes "parents_ok e s" "r \<in> set (tabs s t)" "(c, p) \<in> set (table_parents t)"
  shows "\<exists>x \<in> set (tabs s p). sql_eq e (row_get x ''id'') (row_get r c)"
  using assms unfolding parents_ok_def parent_absent_def by blast

lemma project_of_row:
  assumes p: "parents_ok e s" and k: "keys_ok e s" and r: "r \<in> set (tabs s t)"
  shows "\<exists>q. row_project_id e t r s = Some q"
proof -
  have id: "\<exists>a. row_get x ''id'' = VStr a" if "x \<in> set (tabs s u)" for x u
    using k that unfolding keys_ok_def row_str_not_None by blast
  have child: "\<exists>b. row_str y c = Some b" if "y \<in> set (tabs s u)" "(c, q) \<in> set (table_parents u)" for y u c q
  proof -
    note present = parent_present [OF p that]
    obtain x where "x \<in> set (tabs s q)" "sql_eq e (row_get x ''id'') (row_get y c)"
      using present by blast
    with id sql_eq_VStr show ?thesis by blast
  qed
  show ?thesis
  proof (cases t)
    case Projects
    with id [of r t] r show ?thesis by (auto simp: row_project_id_def row_str_def)
  next
    case Memos
    with child [of r t] r show ?thesis by (auto simp: row_project_id_def)
  next
    case Project_members
    with child [of r t] r show ?thesis by (auto simp: row_project_id_def)
  next
    case Memo_versions
    then obtain m where "m \<in> set (tabs s Memos)" "sql_eq e (row_get m ''id'') (row_get r ''memo_id'')"
      using parent_present [OF p r] by auto
    then obtain m' where m': "find (\<lambda>m. sql_eq e (row_get m ''id'') (row_get r ''memo_id'')) (tabs s Memos) = Some m'"
      by (cases "find (\<lambda>m. sql_eq e (row_get m ''id'') (row_get r ''memo_id'')) (tabs s Memos)")
        (auto simp: find_None)
    then have "m' \<in> set (tabs s Memos)" by (auto dest: find_SomeD)
    then have "\<exists>b. row_str m' ''project_id'' = Some b" using child [of m' Memos] by auto
    with m' Memo_versions show ?thesis by (simp add: row_project_id_def)
  qed
qed

text \<open>What \<open>visible_project_ids\<close> and \<open>row_project_id\<close> say, written out over the tables.\<close>

lemma visible_project:
  assumes "keys_ok e s" "p \<in> set (visible_project_ids e acct s)"
  shows "\<exists>P. P \<in> set (tabs s Projects) \<and> row_get P ''id'' = VStr p \<and>
    (col_is e ''owner_id'' acct P \<or> (\<exists>m \<in> set (tabs s Project_members).
       sql_eq e (row_get m ''project_id'') (VStr p) \<and> col_is e ''user_id'' acct m \<and> row_get m ''deleted_at'' = VNull))"
proof -
  obtain P where P: "P \<in> set (tabs s Projects)" "p = row_id P"
    "col_is e ''owner_id'' acct P \<or> (\<exists>m \<in> set (tabs s Project_members).
       sql_eq e (row_get m ''project_id'') (row_get P ''id'') \<and> col_is e ''user_id'' acct m \<and> live m)"
    using assms(2) by (auto simp: visible_project_ids_def select_def)
  moreover have "row_get P ''id'' = VStr (row_id P)"
    using assms(1) P(1) unfolding keys_ok_def row_str_not_None by (fastforce simp: row_id_def)
  ultimately show ?thesis by metis
qed

lemma project_of_row_is:
  "row_project_id e t r s = Some p \<Longrightarrow>
     (case t of Projects \<Rightarrow> row_get r ''id'' = VStr p
      | Memo_versions \<Rightarrow> (\<exists>m \<in> set (tabs s Memos). sql_eq e (row_get m ''id'') (row_get r ''memo_id'') \<and>
          row_get m ''project_id'' = VStr p)
      | _ \<Rightarrow> row_get r ''project_id'' = VStr p)"
  by (auto simp: row_project_id_def row_str_VStr split: tbl.splits option.splits dest!: find_SomeD)

text \<open>C10. Every change in the feed of an account is the current row of one of the synchronised tables,
  and it belongs to a project (a memo version by its memo) whose owner is the account or which
  has a member row of the account without a tombstone.\<close>

theorem feed_leaks_nothing:
  assumes "keys_ok e s" "parents_ok e s"
    and "read_changes e since limit acct [] s = (cs, n)" "c \<in> set cs"
  shows "\<exists>t i r p P. ch_table c = tbl_name t \<and> ch_rowId c = Some i \<and> fetch_id e t i s = Some r \<and>
    ch_row c = Some (serialize_row (table_columns t) r) \<and>
    (case t of Projects \<Rightarrow> row_get r ''id'' = VStr p
     | Memo_versions \<Rightarrow> (\<exists>m \<in> set (tabs s Memos). sql_eq e (row_get m ''id'') (row_get r ''memo_id'') \<and>
         row_get m ''project_id'' = VStr p)
     | _ \<Rightarrow> row_get r ''project_id'' = VStr p) \<and>
    P \<in> set (tabs s Projects) \<and> row_get P ''id'' = VStr p \<and>
    (col_is e ''owner_id'' acct P \<or>
     (\<exists>m \<in> set (tabs s Project_members). sql_eq e (row_get m ''project_id'') (VStr p) \<and>
        col_is e ''user_id'' acct m \<and> row_get m ''deleted_at'' = VNull))"
proof -
  obtain t i l where "feed_change e [] (visible_project_ids e acct s) s ((t, i), l) = Some c"
    using read_changes_set [OF assms(3)] assms(4) by auto
  then obtain r where r: "fetch_id e t i s = Some r" "ch_table c = tbl_name t" "ch_rowId c = Some i"
    "ch_row c = Some (serialize_row (table_columns t) r)"
    "\<forall>p. row_project_id e t r s = Some p \<longrightarrow> p \<in> set (visible_project_ids e acct s)"
    by (auto simp: feed_change_Some cols_for_def row_project_id_restrict serialize_restrict)
  moreover obtain p where p: "row_project_id e t r s = Some p"
    using project_of_row [OF assms(2,1)] fetch_id_mem [OF r(1)] by blast
  ultimately obtain P where P: "P \<in> set (tabs s Projects)" "row_get P ''id'' = VStr p"
    "col_is e ''owner_id'' acct P \<or> (\<exists>m \<in> set (tabs s Project_members).
       sql_eq e (row_get m ''project_id'') (VStr p) \<and> col_is e ''user_id'' acct m \<and> row_get m ''deleted_at'' = VNull)"
    using visible_project [OF assms(1)] by blast
  show ?thesis
    by (rule exI [of _ t], rule exI [of _ i], rule exI [of _ r], rule exI [of _ p], rule exI [of _ P],
        intro conjI r(1-4) P project_of_row_is [OF p])
qed

text \<open>C11. Every logged change of a visible row up to the returned cursor is in the feed, with the
  current row, under a sequence number at least as new.\<close>

theorem feed_misses_nothing:
  assumes "log_ok s" "read_changes e since limit acct [] s = (cs, n)"
    and "l \<in> set (change_log s)" "since < le_seq l" "le_seq l \<le> n"
    and "le_table l = tbl_name t" "fetch_id e t (le_row l) s = Some r"
    and "row_project_id e t r s = Some p" "p \<in> set (visible_project_ids e acct s)"
  shows "\<exists>c m. c \<in> set cs \<and> ch_table c = tbl_name t \<and> ch_rowId c = Some (le_row l) \<and>
    ch_row c = Some (serialize_row (table_columns t) r) \<and> ch_seq c = Some m \<and> le_seq l \<le> m \<and> m \<le> n"
proof -
  let ?w = "log_window since limit s"
  have n: "n = next_seq since ?w" and cs: "set cs = {c. \<exists>kl \<in> set (latest_entries ?w).
       feed_change e [] (visible_project_ids e acct s) s kl = Some c}"
    using read_changes_set [OF assms(2)] by auto
  have lw: "l \<in> set ?w"
    using log_window_upto [OF assms(1,3,4)] assms(5) n by blast
  have "log_key l = Some (t, le_row l)" using assms(6) by (simp add: log_key_def)
  from latest_entries_max [OF log_window_sorted lw this] obtain l' where
    l': "((t, le_row l), l') \<in> set (latest_entries ?w)" "le_seq l \<le> le_seq l'" by blast
  have l'w: "l' \<in> set ?w" using latest_entries_mem [OF l'(1)] by blast
  let ?c = "\<lparr>ch_seq = Some (le_seq l'), ch_table = tbl_name t, ch_rowId = Some (le_row l),
            ch_op = op_name (le_op l'), ch_row = Some (serialize_row (table_columns t) r),
            ch_base = None, ch_basePeerSeq = None\<rparr>"
  have "feed_change e [] (visible_project_ids e acct s) s ((t, le_row l), l') = Some ?c"
    using assms(7-9) by (simp add: feed_change_Some cols_for_def row_project_id_restrict serialize_restrict)
  with cs l'(1) have "?c \<in> set cs" by blast
  with l'(2) next_seq_ge [OF l'w, of since] n show ?thesis by (intro exI [of _ ?c]) simp
qed

lemma filter_len_less:
  "x \<in> set xs \<Longrightarrow> P x \<Longrightarrow> \<not> Q x \<Longrightarrow> (\<And>y. Q y \<Longrightarrow> P y) \<Longrightarrow> length (filter Q xs) < length (filter P xs)"
proof (induction xs)
  case (Cons y ys)
  have le: "length (filter Q ys) \<le> length (filter P ys)"
  proof -
    have "filter Q ys = filter Q (filter P ys)" using Cons.prems(4) by (induction ys) auto
    then show ?thesis by (metis length_filter_le)
  qed
  with Cons show ?case by fastforce
qed simp

text \<open>C12. With a positive limit the cursor moves past at least one pending entry until none is left,
  also when every row of the window is filtered out.\<close>

theorem feed_makes_progress:
  assumes "read_changes e since limit acct cbt s = (cs, n)" "0 < limit"
  shows "if pending_change_count since s = 0 then cs = [] \<and> n = since
    else since < n \<and> pending_change_count n s < pending_change_count since s"
proof (cases "pending_change_count since s = 0")
  case True
  then have "log_window since limit s = []"
    by (simp add: pending_change_count_def log_window_def)
  with assms(1) True show ?thesis by (simp add: read_changes_def)
next
  case False
  let ?w = "log_window since limit s"
  have "length ?w = min (pending_change_count since s) limit"
    by (simp add: log_window_def pending_change_count_def)
  with False assms(2) have ne: "?w \<noteq> []" by (metis length_0_conv min_def not_gr_zero)
  obtain m where m: "m \<in> set ?w" "next_seq since ?w = le_seq m" using next_seq_mem [OF ne] by blast
  have n: "n = le_seq m" using read_changes_set [OF assms(1)] m(2) by simp
  note mm = log_window_mem [OF m(1)]
  have "pending_change_count n s < pending_change_count since s"
    unfolding pending_change_count_def using mm n
    by (intro filter_len_less [of m]) auto
  with mm n False show ?thesis by simp
qed

text \<open>The feed is sorted by sequence number and names no row twice.\<close>

theorem feed_in_order:
  assumes "read_changes e since limit acct cbt s = (cs, n)"
  shows "sorted (map ch_seq_key cs) \<and> distinct (map (\<lambda>c. (ch_table c, ch_rowId c)) cs)"
proof -
  let ?w = "log_window since limit s"
  let ?f = "feed_change e cbt (visible_project_ids e acct s) s"
  have d: "distinct (map (\<lambda>c. (ch_table c, ch_rowId c)) (List.map_filter ?f kls))"
    if "distinct (map fst kls)" for kls
    using that
  proof (induction kls)
    case (Cons kl kls)
    obtain t i l where kl: "kl = ((t, i), l)" by (metis surj_pair)
    show ?case
    proof (cases "?f kl")
      case None
      with Cons show ?thesis by (simp add: map_filter_simps)
    next
      case (Some c)
      have c: "ch_table c = tbl_name t" "ch_rowId c = Some i"
        using Some kl by (auto simp: feed_change_Some)
      have "(ch_table c, ch_rowId c) \<noteq> (ch_table c', ch_rowId c')"
        if c': "c' \<in> set (List.map_filter ?f kls)" for c'
      proof -
        obtain u j m where kl': "((u, j), m) \<in> set kls" "?f ((u, j), m) = Some c'"
          using c' by (auto simp: set_map_filter)
        then have "ch_table c' = tbl_name u" "ch_rowId c' = Some j" by (auto simp: feed_change_Some)
        moreover have "(u, j) \<noteq> (t, i)" using Cons.prems kl kl'(1) by force
        ultimately show ?thesis using c by (auto simp: tbl_name_inj)
      qed
      with Cons Some show ?thesis by (auto simp: map_filter_simps)
    qed
  qed (simp add: map_filter_simps)
  have srt: "sorted (map ch_seq_key cs)" using read_changes_set [OF assms] by blast
  have "cs = [] \<or> cs = sort_key ch_seq_key (List.map_filter ?f (latest_entries ?w))"
    using assms by (auto simp: read_changes_def Let_def split: if_splits)
  then have "distinct (map (\<lambda>c. (ch_table c, ch_rowId c)) cs)"
  proof
    assume cs: "cs = sort_key ch_seq_key (List.map_filter ?f (latest_entries ?w))"
    then have "mset (map (\<lambda>c. (ch_table c, ch_rowId c)) cs) =
        mset (map (\<lambda>c. (ch_table c, ch_rowId c)) (List.map_filter ?f (latest_entries ?w)))"
      by simp
    from mset_eq_imp_distinct_iff [OF this] d [OF distinct_latest] show ?thesis by blast
  qed simp
  with srt show ?thesis by simp
qed

end
