(* ===== verification/Books.thy ===== *)
theory Books
  imports Invariants
begin

text \<open>
  The node-local books of \<^verbatim>\<open>src/services/sync_store.py\<close>: the agreed clock of a row, the
  retry queue with its immutable payloads, the issues, and the client epoch of a peer.
\<close>

section \<open>The agreed clock of a row\<close>

lemma row_state_is_trans:
  "row_state_is e p t i r \<Longrightarrow> row_state_is e p t i q \<longleftrightarrow> row_state_is e (rs_peer r) (rs_table r) (rs_row r) q"
  by (auto simp: row_state_is_def same_str_def)

lemma find_upsert:
  "find (row_state_is e p t i) (upsert_row_state e n rs) =
     (if row_state_is e p t i n
      then Some (case find (row_state_is e p t i) rs of None \<Rightarrow> n
        | Some r \<Rightarrow> r\<lparr>rs_clock := rs_clock n, rs_peer_seq := max (rs_peer_seq r) (rs_peer_seq n)\<rparr>)
      else find (row_state_is e p t i) rs)"
proof (induction rs)
  case (Cons r rs)
  have "row_state_is e p t i r \<longleftrightarrow> row_state_is e (rs_peer n) (rs_table n) (rs_row n) r"
    if "row_state_is e p t i n" using row_state_is_trans [OF that] .
  moreover have "\<not> row_state_is e p t i r"
    if "\<not> row_state_is e p t i n" "row_state_is e (rs_peer n) (rs_table n) (rs_row n) r"
    using that by (auto simp: row_state_is_def same_str_def)
  moreover have "row_state_is e p t i (r\<lparr>rs_clock := x, rs_peer_seq := y\<rparr>) = row_state_is e p t i r" for x y
    by (simp add: row_state_is_def)
  ultimately show ?case using Cons.IH by auto
qed simp

lemma iso_db_truncate [simp]: "iso_db (truncate_ms w) = iso_db w"
  by (simp add: iso_db_def)

text \<open>C15. The clock agreed with a peer is read back as it was written, its peer sequence number never
  decreases, and other rows keep theirs.\<close>

theorem agreed_clock_is_kept:
  assumes "set_row_sync_clock e p t i (Some (iso_db w)) n s = Inr s'" "in_range w"
  shows "get_row_sync_clock e p t i s' = Some (iso_db w) \<and>
    (\<forall>st. get_row_sync_state e p t i s = Some st \<longrightarrow>
       (\<exists>st'. get_row_sync_state e p t i s' = Some st' \<and> rs_peer_seq st \<le> rs_peer_seq st')) \<and>
    (\<forall>p' t' i'. \<not> (same_str e p' p \<and> same_str e t' t \<and> same_str e i' i) \<longrightarrow>
       get_row_sync_clock e p' t' i' s' = get_row_sync_clock e p' t' i' s)"
proof -
  let ?n = "\<lparr>rs_peer = p, rs_table = t, rs_row = i, rs_clock = Some (truncate_ms w),
      rs_peer_seq = (case n of None \<Rightarrow> 0 | Some m \<Rightarrow> m)\<rparr>"
  have s': "row_states s' = upsert_row_state e ?n (row_states s)"
    using assms by (auto simp: set_row_sync_clock_def parse_iso_db)
  have same: "row_state_is e p t i ?n" by (simp add: row_state_is_def)
  have other: "\<not> row_state_is e p' t' i' ?n"
    if "\<not> (same_str e p' p \<and> same_str e t' t \<and> same_str e i' i)" for p' t' i'
    using that by (auto simp: row_state_is_def same_str_def)
  show ?thesis
    using same other
    by (auto simp: get_row_sync_clock_def get_row_sync_state_def s' find_upsert split: option.splits)
qed

section \<open>The retry queue\<close>

definition retries_ok :: "env \<Rightarrow> store \<Rightarrow> bool" where
  "retries_ok e s \<longleftrightarrow> (\<forall>r \<in> set (retries s). rq_hash r = change_hash e (rq_change r))"

lemma find_retry_map:
  assumes "\<And>q. retry_is e p d n (f q) = retry_is e p d n q"
  shows "find (retry_is e p d n) (map f qs) = map_option f (find (retry_is e p d n) qs)"
  by (rule find_map_cong) (simp add: assms)

text \<open>A change put into the retry queue can be found again with the same payload; queueing it
  twice keeps one entry and its attempts.\<close>

theorem queued_change_is_kept:
  assumes "enqueue_sync_retry e p d c reason s = Inr s'" "retries_ok e s"
  shows "retries_ok e s' \<and> (\<exists>n r. ch_seq c = Some n \<and> find_retry e p d n s' = Some r \<and>
      change_hash e (rq_change r) = change_hash e c \<and> rq_reason r = cp_take 1000 reason \<and>
      (case find_retry e p d n s of None \<Rightarrow> rq_change r = c \<and> rq_attempts r = 0
       | Some old \<Rightarrow> rq_change r = rq_change old \<and> rq_attempts r = rq_attempts old))"
proof -
  obtain n where n: "ch_seq c = Some n" and d: "d = ''push'' \<or> d = ''pull''"
    using assms(1) by (auto simp: enqueue_sync_retry_def split: if_splits option.splits)
  show ?thesis
  proof (cases "find_retry e p d n s")
    case None
    then obtain r where r: "retries s' = retries s @ [r]" "rq_hash r = change_hash e c" "rq_change r = c"
      "rq_reason r = cp_take 1000 reason" "rq_attempts r = 0" "retry_is e p d n r"
      using assms(1) n d
      by (auto simp: enqueue_sync_retry_def now_utc_def Let_def retry_is_def split: if_splits)
    have "find_retry e p d n s' = Some r"
      using None r by (simp add: find_retry_def find_append)
    with None r n assms(2) show ?thesis by (auto simp: retries_ok_def)
  next
    case (Some old)
    let ?now = "utcnow_naive (clock e (ticks s))"
    let ?f = "\<lambda>q. if retry_is e p d n q then q\<lparr>rq_reason := cp_take 1000 reason, rq_last := ?now\<rparr> else q"
    have old: "retry_is e p d n old" "old \<in> set (retries s)"
      using Some by (auto simp: find_retry_def dest: find_SomeD)
    have s': "retries s' = map ?f (retries s)" "rq_hash old = change_hash e c"
      using assms(1) n d Some
      by (auto simp: enqueue_sync_retry_def now_utc_def Let_def split: if_splits)
    have "retry_is e p d n (?f q) = retry_is e p d n q" for q by (simp add: retry_is_def)
    from find_retry_map [of e p d n ?f, OF this] have "find_retry e p d n s' = Some (?f old)"
      using Some s' by (simp add: find_retry_def)
    moreover have "change_hash e (rq_change old) = change_hash e c"
      using assms(2) old(2) s'(2) by (auto simp: retries_ok_def)
    ultimately show ?thesis
      using Some n old(1) assms(2) s'(1) by (auto simp: retries_ok_def)
  qed
qed

section \<open>Issues\<close>

text \<open>However often an issue is recorded, one unresolved entry stands for it, with the latest
  detail.\<close>

theorem issue_recorded_once:
  assumes "issues_ok e s" "record_issue e k t r p det s = (i, s')"
  shows "issues_ok e s' \<and>
    (\<exists>j. filter (issue_key_is e k t r p) (issues s') = [j] \<and> is_detail j = det \<and> is_id j = i)"
proof -
  have uniq: "\<exists>j. filter (issue_key_is e k t r p) is' = [j]"
    if ok: "sorted_wrt (\<lambda>i j. \<not> same_issue e i j) (filter (\<lambda>i. is_resolved i = None) is')"
      and x: "x \<in> set is'" "issue_key_is e k t r p x" for is' x
  proof -
    have same: "same_issue e a b" if "issue_key_is e k t r p a" "issue_key_is e k t r p b" for a b
      using that by (auto simp: same_issue_def issue_key_is_def same_str_def null_safe_eq_def
          split: option.splits)
    have "filter (issue_key_is e k t r p) is' =
        filter (issue_key_is e k t r p) (filter (\<lambda>i. is_resolved i = None) is')"
      by (simp add: issue_key_is_def conj_commute cong: filter_cong) (auto intro: filter_cong)
    then have "sorted_wrt (\<lambda>i j. \<not> same_issue e i j) (filter (issue_key_is e k t r p) is')"
      using sorted_wrt_filter [OF ok] by metis
    moreover have "filter (issue_key_is e k t r p) is' \<noteq> []" using x by (auto simp: filter_empty_conv)
    moreover have "issue_key_is e k t r p y" if "y \<in> set (filter (issue_key_is e k t r p) is')" for y
      using that by simp
    ultimately show ?thesis
      using same by (cases "filter (issue_key_is e k t r p) is'" rule: remdups_adj.cases)
        (auto simp del: filter.simps)
  qed
  have ok': "issues_ok e s'" using issues_ok_record [OF assms] .
  have "\<exists>x \<in> set (issues s'). issue_key_is e k t r p x \<and> is_detail x = det \<and> is_id x = i"
  proof (cases "find (issue_key_is e k t r p) (issues s)")
    case None
    then show ?thesis
      using assms(2)
      by (auto simp: record_issue_def now_utc_def generate_id_def Let_def issue_key_is_def)
  next
    case (Some y)
    then have y: "y \<in> set (issues s)" "issue_key_is e k t r p y" by (auto dest: find_SomeD)
    have i: "i = is_id y" and s': "issues s' = map (\<lambda>j. if same_str e (is_id j) (is_id y)
        then j\<lparr>is_detail := det, is_detected := utcnow_naive (clock e (ticks s))\<rparr> else j) (issues s)"
      using assms(2) Some by (auto simp: record_issue_def now_utc_def Let_def)
    let ?x = "y\<lparr>is_detail := det, is_detected := utcnow_naive (clock e (ticks s))\<rparr>"
    have "?x \<in> set (issues s')" using y(1) unfolding s' by (force simp: image_iff)
    moreover have "issue_key_is e k t r p ?x" using y(2) by (simp add: issue_key_is_def)
    ultimately show ?thesis using i by (intro bexI [of _ ?x]) simp_all
  qed
  then obtain x where x: "x \<in> set (issues s')" "issue_key_is e k t r p x" "is_detail x = det" "is_id x = i"
    by blast
  from uniq [OF ok' [unfolded issues_ok_def unresolved_def] x(1,2)] obtain j where
    j: "filter (issue_key_is e k t r p) (issues s') = [j]" by blast
  have "x \<in> set (filter (issue_key_is e k t r p) (issues s'))" using x by simp
  with j x ok' show ?thesis by auto
qed

text \<open>Resolving closes exactly the unresolved issues the filters select and returns their number.\<close>

theorem resolved_issues_leave_the_list:
  assumes "resolve_issues e is k t r s = (n, s')"
    and "is \<noteq> [] \<or> \<not> blank k \<or> \<not> blank t \<or> \<not> blank r"
  shows "(\<forall>i \<in> set (unresolved s'). \<not> ((is = [] \<or> (\<exists>j \<in> set is. same_str e (is_id i) j)) \<and>
           issue_matches e k t r i)) \<and>
    set (unresolved s') \<subseteq> set (unresolved s) \<and>
    length (unresolved s') + n = length (unresolved s)"
proof -
  let ?hit = "\<lambda>i. is_resolved i = None \<and> (is = [] \<or> (\<exists>j \<in> set is. same_str e (is_id i) j)) \<and>
      issue_matches e k t r i"
  let ?w = "utcnow_naive (clock e (ticks s))"
  have s': "issues s' = map (\<lambda>i. if ?hit i then i\<lparr>is_resolved := Some ?w\<rparr> else i) (issues s)"
    and n: "n = length (filter ?hit (issues s))"
    using assms by (auto simp: resolve_issues_def now_utc_def Let_def)
  have un: "unresolved s' = filter (\<lambda>i. is_resolved i = None \<and> \<not> ?hit i) (issues s)"
  proof -
    have "filter (\<lambda>i. is_resolved i = None) (map (\<lambda>i. if h i then i\<lparr>is_resolved := Some ?w\<rparr> else i) xs) =
        filter (\<lambda>i. is_resolved i = None \<and> \<not> h i) xs" for h xs
      by (induction xs) auto
    from this [of ?hit] show ?thesis unfolding unresolved_def s' by blast
  qed
  have "length (filter (\<lambda>i. is_resolved i = None \<and> \<not> ?hit i) xs) + length (filter ?hit xs) =
      length (filter (\<lambda>i. is_resolved i = None) xs)" for xs
    by (induction xs) auto
  with un n show ?thesis by (auto simp: unresolved_def)
qed

end
