(* ===== verification/Sync_Witnesses.thy ===== *)
theory Sync_Witnesses
  imports Samples Apply_Batch Feed Books
begin

text \<open>
  The properties of the synchronisation core at concrete inputs: two nodes that edited one
  memo, a batch with receipts, a feed, a retry queue and a list of issues.
\<close>

section \<open>One change\<close>

definition old_memo :: row where "old_memo = sample_memo ''m'' ''p'' ''todo'' ''old'' 1000000"
definition new_memo :: row where "new_memo = sample_memo ''m'' ''p'' ''todo'' ''new'' 2000000"
definition pushed :: change where "pushed = row_change 1 Memos ''m'' new_memo"
definition pulled :: change where "pulled = row_change 1 Memos ''m'' old_memo"

definition push_run :: "exn + outcome \<times> store" where
  "push_run = apply_one sample_env [] Client True Memos pushed empty_outcome (memo_node ''old'' 1000000)"

definition pull_run :: "exn + outcome \<times> store" where
  "pull_run = apply_one sample_env [] Server True Memos pulled empty_outcome (memo_node ''new'' 2000000)"

lemma push_run_done:
  obtains oc s cf x where "push_run = Inr (oc, s)" "oc_deferred oc = []" "oc_conflicts oc = [cf]"
    "fetch_id sample_env Memos ''m'' s = Some x" "row_get x ''content'' \<noteq> VStr ''old''"
proof -
  have "ok_with (\<lambda>oc s. oc_deferred oc = [] \<and> single_with (\<lambda>_. True) (oc_conflicts oc) \<and>
    some_with (\<lambda>x. row_get x ''content'' \<noteq> VStr ''old'') (fetch_id sample_env Memos ''m'' s)) push_run"
    by code_simp
  with that show ?thesis by (elim ok_withE conjE single_withE some_withE)
qed

lemma pull_run_done: obtains oc s where "pull_run = Inr (oc, s)" "oc_deferred oc = []"
proof -
  have "ok_with (\<lambda>oc s. oc_deferred oc = []) pull_run" by code_simp
  with that show ?thesis by (elim ok_withE)
qed

lemma sample_rows:
  "synced_row Memos ''m'' old_memo" "synced_row Memos ''m'' new_memo"
  "carries pulled Memos ''m'' old_memo" "carries pushed Memos ''m'' new_memo"
  "fetch_id sample_env Memos ''m'' (memo_node ''old'' 1000000) = Some old_memo"
  "fetch_id sample_env Memos ''m'' (memo_node ''new'' 2000000) = Some new_memo"
proof -
  have "synced_row Memos ''m'' old_memo \<and> synced_row Memos ''m'' new_memo" by code_simp
  then show "synced_row Memos ''m'' old_memo" "synced_row Memos ''m'' new_memo" by simp_all
qed (simp_all add: carries_def pulled_def pushed_def row_change_def old_memo_def new_memo_def
      memo_node_def sample_store_def sample_memo_def fetch_id_def col_is_def row_simps)

theorem lww_converges_witness:
  "\<exists>oa srv ob cli x y. push_run = Inr (oa, srv) \<and> pull_run = Inr (ob, cli) \<and>
     fetch_id sample_env Memos ''m'' srv = Some x \<and> fetch_id sample_env Memos ''m'' cli = Some y \<and>
     (\<forall>k \<in> set (table_columns Memos). row_get x k = row_get y k \<and>
        row_get x k = row_get (if the (row_clock old_memo) < the (row_clock new_memo)
          then new_memo else old_memo) k)"
proof -
  obtain oa srv where a: "push_run = Inr (oa, srv)" "oc_deferred oa = []" by (rule push_run_done)
  obtain ob cli where b: "pull_run = Inr (ob, cli)" "oc_deferred ob = []" by (rule pull_run_done)
  show ?thesis
    using lww_converges [OF sample_rows(1,2,4,3,5,6) a(1) [unfolded push_run_def]
        b(1) [unfolded pull_run_def] a(2) b(2)] a b by blast
qed


lemma pushed_facts:
  "ch_rowId pushed = Some ''m''" "''m'' \<noteq> []" "ch_row pushed = Some (the (ch_row pushed))"
  "ch_base pushed = None" "ch_basePeerSeq pushed = None"
  by (simp_all add: pushed_def row_change_def)

lemma decoded_new:
  obtains inc where "deserialize_row (cols_for [] Memos) (the (ch_row pushed)) = Inr inc"
    "row_get inc ''content'' = VStr ''new''"
proof -
  have "value_with (\<lambda>inc. row_get inc ''content'' = VStr ''new'')
      (deserialize_row (cols_for [] Memos) (the (ch_row pushed)))" by code_simp
  with that show ?thesis by (elim value_withE)
qed

lemma old_content: "row_get old_memo ''content'' = VStr ''old''"
  by (simp add: old_memo_def sample_memo_def row_simps)

theorem conflict_keeps_loser_witness:
  "\<exists>oc s cf. push_run = Inr (oc, s) \<and> oc_conflicts oc = [cf] \<and>
     text_kept sample_env ''m'' (if cf_incoming_won cf then VStr ''old'' else VStr ''new'')
       (memo_node ''old'' 1000000) s"
proof -
  obtain oc s cf where r: "push_run = Inr (oc, s)" "oc_conflicts oc = [cf]" by (rule push_run_done)
  obtain inc where d: "deserialize_row (cols_for [] Memos) (the (ch_row pushed)) = Inr inc"
    "row_get inc ''content'' = VStr ''new''" by (rule decoded_new)
  from conflict_keeps_loser [OF r(1) [unfolded push_run_def] r(2) pushed_facts(1,2) sample_rows(5)
      pushed_facts(3) d(1)] r d(2) old_content show ?thesis by (auto split: if_splits)
qed


definition orphan_run :: "exn + outcome \<times> store" where
  "orphan_run = process_change sample_env [] Client True None (Memos, pushed)
     (empty_outcome, empty_store)"

theorem refused_change_no_trace_witness:
  "\<exists>oc s. orphan_run = Inr (oc, s) \<and> tabs s = tabs empty_store \<and> change_log s = [] \<and> issues s = []"
proof -
  have "ok_with (\<lambda>oc s. single_with (\<lambda>r. rr_status r = Deferred) (oc_results oc)) orphan_run"
    by code_simp
  then obtain oc s r where "orphan_run = Inr (oc, s)" "oc_results oc = [r]" "rr_status r = Deferred"
    by (elim ok_withE single_withE)
  with refused_change_no_trace [of sample_env "[]" Client True None Memos pushed empty_outcome
      empty_store oc s r] show ?thesis
    by (simp add: orphan_run_def empty_outcome_def empty_store_def)
qed

section \<open>A batch\<close>

definition batch :: "change list" where
  "batch = [row_change 1 Projects ''p'' (sample_project ''p'' ''home'' 1000000),
            row_change 2 Memos ''m'' new_memo]"

abbreviation desk :: "(string \<times> string) option" where
  "desk \<equiv> Some (''ann'', ''desk'')"

definition batch_run :: "exn + outcome \<times> store" where
  "batch_run = apply_changes sample_env [] Client True desk batch empty_store"

lemma batch_run_done:
  obtains oc s h d where "batch_run = Inr (oc, s)" "\<forall>r \<in> set (oc_results oc). rr_status r \<noteq> Deferred"
    "get_sync_receipt sample_env ''ann'' ''desk'' 1 s = Some (h, d)" "h \<noteq> ''memos/n/new''"
proof -
  have "ok_with (\<lambda>oc s. (\<forall>r \<in> set (oc_results oc). rr_status r \<noteq> Deferred) \<and>
      some_with (\<lambda>w. fst w \<noteq> ''memos/n/new'') (get_sync_receipt sample_env ''ann'' ''desk'' 1 s)) batch_run"
    by code_simp
  with that show ?thesis by (elim ok_withE conjE some_withE) (metis prod.collapse)
qed

lemma empty_receipts_ok: "receipts_ok empty_store"
  by (simp add: receipts_ok_def empty_store_def)

theorem every_change_answered_witness:
  "\<exists>oc s. batch_run = Inr (oc, s) \<and> mset (map rr_seq (oc_results oc)) = mset (map ch_seq batch) \<and>
     receipts_ok s"
proof -
  obtain oc s where r: "batch_run = Inr (oc, s)" by (rule batch_run_done)
  from every_change_answered [OF r [unfolded batch_run_def] empty_receipts_ok] r show ?thesis by blast
qed

theorem replayed_batch_is_idempotent_witness:
  "\<exists>oc s. batch_run = Inr (oc, s) \<and>
     apply_changes sample_env [] Client True desk batch s = Inr (oc, s)"
proof -
  obtain oc s where r: "batch_run = Inr (oc, s)" "\<forall>r \<in> set (oc_results oc). rr_status r \<noteq> Deferred"
    by (rule batch_run_done)
  have "\<forall>c \<in> set batch. receipt_key desk c \<noteq> None"
    by (simp add: batch_def row_change_def receipt_key_def)
  from replayed_batch_is_idempotent [OF r(1) [unfolded batch_run_def] this r(2)] r show ?thesis by blast
qed

definition reused :: change where "reused = row_change 1 Memos ''n'' new_memo"

lemma reused_facts:
  "receipt_key desk reused = Some (''ann'', ''desk'', 1)" "is_sync_table (ch_table reused)"
  "change_hash sample_env reused = ''memos/n/new''"
proof -
  show "change_hash sample_env reused = ''memos/n/new''"
    by (simp add: reused_def row_change_def sample_env_def lax_env_def row_simps new_memo_def sample_memo_def
        serialize_value_def)
qed (use tbl_of_name [of Memos] in \<open>simp_all add: reused_def row_change_def receipt_key_def is_sync_table_def\<close>)

theorem reused_seq_is_refused_witness:
  "\<exists>oc s m. batch_run = Inr (oc, s) \<and>
     with_connection True (apply_changes sample_env [] Client True desk [reused]) s =
       (Inl (ReceiptPayloadMismatch m), s)"
proof -
  obtain oc s h d where r: "batch_run = Inr (oc, s)"
    "get_sync_receipt sample_env ''ann'' ''desk'' 1 s = Some (h, d)" "h \<noteq> ''memos/n/new''"
    by (rule batch_run_done)
  have "reused \<in> set [reused]" by simp
  from reused_seq_is_refused [OF this reused_facts(2,1) r(2) r(3) [folded reused_facts(3)]] r
  show ?thesis by blast
qed

definition reused_run :: "exn + outcome \<times> store" where
  "reused_run = apply_changes sample_env [] Client True desk
     [row_change 1 Memos ''m'' new_memo, row_change 1 Memos ''n'' new_memo] (memo_node ''old'' 1000000)"

definition orphan_batch_run :: "exn + outcome \<times> store" where
  "orphan_batch_run = apply_changes sample_env [] Client True desk [pushed] empty_store"

theorem deferred_only_without_parent_witness:
  "\<exists>oc s g t i p v. orphan_batch_run = Inr (oc, s) \<and> oc_deferred oc = [g] \<and>
     g = refused t i (''missing_parent:'' @ tbl_name p @ '':'' @ py_str v) \<and> p < t \<and>
     \<not> (\<exists>x \<in> set (tabs s p). sql_eq sample_env (row_get x ''id'') v)"
proof -
  have "ok_with (\<lambda>oc s. single_with (\<lambda>g. True) (oc_deferred oc)) orphan_batch_run" by code_simp
  then obtain oc s g where r: "orphan_batch_run = Inr (oc, s)" "oc_deferred oc = [g]"
    by (elim ok_withE single_withE)
  then have "g \<in> set (oc_deferred oc)" by simp
  from deferred_only_without_parent [OF r(1) [unfolded orphan_batch_run_def] empty_receipts_ok this] r
  show ?thesis by blast
qed

definition edit_run :: "exn + outcome \<times> store" where
  "edit_run = apply_changes sample_env [] Client True desk [pushed] (memo_node ''old'' 1000000)"

theorem clocks_never_go_back_witness:
  "\<exists>oc s r k. edit_run = Inr (oc, s) \<and> fetch_id sample_env Memos ''m'' s = Some r \<and>
     row_clock r = Some k \<and> 1000000 \<le> k"
proof -
  have "ok_with (\<lambda>oc s. True) edit_run" by code_simp
  then obtain oc s where r: "edit_run = Inr (oc, s)" by (elim ok_withE)
  have "distinct (cols_for [] t)" for t by (cases t) (simp_all add: cols_for_def)
  then have d: "\<forall>t. distinct (cols_for [] t)" by blast
  have "row_clock old_memo = Some 1000000"
    by (simp add: old_memo_def sample_memo_def row_clock_def row_simps)
  from clocks_never_go_back [OF r [unfolded edit_run_def] d _ sample_rows(5) this] r
  show ?thesis by (auto simp: pushed_def row_change_def)
qed


section \<open>The feed\<close>

definition logged :: "int \<Rightarrow> tbl \<Rightarrow> string \<Rightarrow> op \<Rightarrow> log_entry" where
  "logged n t i o' = \<lparr>le_seq = n, le_table = tbl_name t, le_row = i, le_op = o', le_at = 0\<rparr>"

definition feed_store :: store where
  "feed_store = (memo_node ''old'' 1000000)\<lparr>change_log :=
     [logged 1 Projects ''p'' Insert, logged 2 Memos ''m'' Insert, logged 3 Memos ''m'' Update],
     auto_seq := 3\<rparr>"

definition feed :: "change list \<times> int" where
  "feed = read_changes sample_env 0 10 ''ann'' [] feed_store"

lemma feed_facts:
  obtains c cs where "feed = (c # cs, 3)"
proof -
  have "case feed of (cs, n) \<Rightarrow> cs \<noteq> [] \<and> n = 3" by code_simp
  then show ?thesis using that by (cases feed) (auto simp: neq_Nil_conv)
qed

lemma feed_store_ok:
  "keys_ok sample_env feed_store" "parents_ok sample_env feed_store" "log_ok feed_store"
  "fetch_id sample_env Memos ''m'' feed_store = Some old_memo"
  "row_project_id sample_env Memos old_memo feed_store = Some ''p''"
  "''p'' \<in> set (visible_project_ids sample_env ''ann'' feed_store)"
proof -
  have "keys_ok sample_env feed_store \<and> parents_ok sample_env feed_store \<and>
    some_with (\<lambda>p. p = ''p'') (row_project_id sample_env Memos old_memo feed_store) \<and>
    ''p'' \<in> set (visible_project_ids sample_env ''ann'' feed_store)" by code_simp
  then show "keys_ok sample_env feed_store" "parents_ok sample_env feed_store"
    "row_project_id sample_env Memos old_memo feed_store = Some ''p''"
    "''p'' \<in> set (visible_project_ids sample_env ''ann'' feed_store)" by (auto elim: some_withE)
  show "log_ok feed_store" using tbl_of_name [of Projects] tbl_of_name [of Memos]
    by (simp add: log_ok_def feed_store_def logged_def is_sync_table_def)
  show "fetch_id sample_env Memos ''m'' feed_store = Some old_memo"
    using sample_rows(5) by (simp add: fetch_id_def feed_store_def)
qed

theorem feed_leaks_nothing_witness:
  "\<exists>c cs t i p P. feed = (c # cs, 3) \<and> ch_table c = tbl_name t \<and> ch_rowId c = Some i \<and>
     P \<in> set (tabs feed_store Projects) \<and> row_get P ''id'' = VStr p \<and>
     (col_is sample_env ''owner_id'' ''ann'' P \<or>
      (\<exists>m \<in> set (tabs feed_store Project_members). sql_eq sample_env (row_get m ''project_id'') (VStr p) \<and>
         col_is sample_env ''user_id'' ''ann'' m \<and> row_get m ''deleted_at'' = VNull))"
proof -
  obtain c cs where f: "feed = (c # cs, 3)" by (rule feed_facts)
  have "c \<in> set (c # cs)" by simp
  from feed_leaks_nothing [OF feed_store_ok(1,2) f [unfolded feed_def] this] f show ?thesis by blast
qed

theorem feed_misses_nothing_witness:
  "\<exists>c m. c \<in> set (fst feed) \<and> ch_table c = tbl_name Memos \<and> ch_rowId c = Some ''m'' \<and>
     ch_row c = Some (serialize_row (table_columns Memos) old_memo) \<and> ch_seq c = Some m \<and>
     2 \<le> m \<and> m \<le> 3"
proof -
  obtain c cs where f: "feed = (c # cs, 3)" by (rule feed_facts)
  have "logged 2 Memos ''m'' Insert \<in> set (change_log feed_store)" by (simp add: feed_store_def)
  from feed_misses_nothing [OF feed_store_ok(3) f [unfolded feed_def] this, of Memos old_memo "''p''"]
    feed_store_ok(4,5,6) show ?thesis by (simp add: logged_def f)
qed

theorem feed_makes_progress_witness:
  "0 < snd feed \<and> pending_change_count (snd feed) feed_store < pending_change_count 0 feed_store"
proof -
  obtain c cs where f: "feed = (c # cs, 3)" by (rule feed_facts)
  from feed_makes_progress [OF f [unfolded feed_def]] show ?thesis
    by (simp add: f pending_change_count_def feed_store_def logged_def)
qed

theorem feed_in_order_witness:
  "sorted (map ch_seq_key (fst feed)) \<and> distinct (map (\<lambda>c. (ch_table c, ch_rowId c)) (fst feed))"
proof -
  obtain c cs where f: "feed = (c # cs, 3)" by (rule feed_facts)
  from feed_in_order [OF f [unfolded feed_def]] show ?thesis by (simp add: f)
qed

section \<open>The books\<close>

theorem agreed_clock_is_kept_witness:
  "\<exists>s. set_row_sync_clock sample_env ''srv'' ''memos'' ''m'' (Some (iso_db 1000000)) (Some 3) empty_store = Inr s \<and>
     get_row_sync_clock sample_env ''srv'' ''memos'' ''m'' s = Some (iso_db 1000000)"
proof -
  have "value_with (\<lambda>s. True)
    (set_row_sync_clock sample_env ''srv'' ''memos'' ''m'' (Some (iso_db 1000000)) (Some 3) empty_store)"
    by code_simp
  then obtain s where s: "set_row_sync_clock sample_env ''srv'' ''memos'' ''m'' (Some (iso_db 1000000))
      (Some 3) empty_store = Inr s" by (elim value_withE)
  have "in_range 1000000" by (simp add: in_range_def us_day_def)
  from agreed_clock_is_kept [OF s this] s show ?thesis by blast
qed

definition reported :: "string \<times> store" where
  "reported = record_issue sample_env ''conflict'' (Some ''memos'') (Some ''m'') None NoDetail empty_store"

theorem issue_recorded_once_witness:
  "\<exists>j. filter (issue_key_is sample_env ''conflict'' (Some ''memos'') (Some ''m'') None)
     (issues (snd reported)) = [j] \<and> is_detail j = NoDetail \<and> is_id j = fst reported"
proof -
  have "issues_ok sample_env empty_store" by (simp add: issues_ok_def unresolved_def empty_store_def)
  from issue_recorded_once [OF this, of "''conflict''" "Some ''memos''" "Some ''m''" None NoDetail
      "fst reported" "snd reported"] show ?thesis by (simp add: reported_def)
qed

definition settled :: "nat \<times> store" where
  "settled = resolve_issues sample_env [] (Some ''conflict'') None None (snd reported)"

theorem resolved_issues_leave_the_list_witness:
  "length (unresolved (snd settled)) + fst settled = length (unresolved (snd reported))"
  using resolved_issues_leave_the_list [of sample_env "[]" "Some ''conflict''" None None
      "snd reported" "fst settled" "snd settled"]
  by (simp add: settled_def)

end
