(* ===== verification/Merge.thy ===== *)
theory Merge
  imports Apply_Laws
begin

text \<open>
  \<^verbatim>\<open>src/services/merge.py\<close>: merging a duplicate memo or project into the one that
  survives, on the node that decides, so the writes are logged like any other. Where the
  source raises a Korean message a tag names it.
\<close>

section \<open>Labels and loading\<close>

definition merge_prefix :: string where
  "merge_prefix = [CHR 0xEB, CHR 0xB3, CHR 0x91, CHR 0xED, CHR 0x95, CHR 0xA9, CHR 0x20,
     CHR 0xC2, CHR 0xB7, CHR 0x20]"

definition merge_note :: "val \<Rightarrow> int \<Rightarrow> exn + string" where
  "merge_note loser_label moment =
     sbind (kst_label (Some (naive moment)))
       (\<lambda>l. Inr (cp_take 255 (merge_prefix @ py_str loser_label @ '' ('' @ l @ '')'')))"

definition load_memo :: "env \<Rightarrow> string \<Rightarrow> string \<Rightarrow> store \<Rightarrow> exn + row" where
  "load_memo e i label s =
     (case find (\<lambda>r. id_is e i r \<and> live r) (tabs s Memos) of
        None \<Rightarrow> Inl (MergeErr 404 (label @ '' memo not found: '' @ i)) | Some r \<Rightarrow> Inr r)"

definition load_project :: "env \<Rightarrow> string \<Rightarrow> string \<Rightarrow> store \<Rightarrow> exn + row" where
  "load_project e i label s =
     (case find (\<lambda>r. id_is e i r \<and> live r) (tabs s Projects) of
        None \<Rightarrow> Inl (MergeErr 404 (label @ '' project not found: '' @ i)) | Some r \<Rightarrow> Inr r)"

record merge_result =
  mr_kind :: string
  mr_winner :: string
  mr_loser :: string
  mr_winner_label :: val
  mr_loser_label :: val
  mr_content_version :: "int option"
  mr_moved :: nat
  mr_latest :: "int option"
  mr_members :: nat
  mr_resolved :: nat

section \<open>Memos\<close>

text \<open>\<open>ORDER BY version ASC, created_at ASC\<close>\<close>

definition val_int :: "val \<Rightarrow> int" where
  "val_int v = (case v of VInt n \<Rightarrow> n | VTime t \<Rightarrow> t | _ \<Rightarrow> - 1)"

definition versions_in_order :: "env \<Rightarrow> string \<Rightarrow> store \<Rightarrow> row list" where
  "versions_in_order e m s =
     sort_key (\<lambda>r. val_int (row_get r ''version''))
       (sort_key (\<lambda>r. val_int (row_get r ''created_at'')) (memo_versions_of e m s))"

text \<open>The loser's text becomes a version of the winner unless the winner already has it.\<close>

definition adopt_content ::
  "env \<Rightarrow> row \<Rightarrow> string \<Rightarrow> int \<Rightarrow> int \<Rightarrow> store \<Rightarrow> exn + int option \<times> store" where
  "adopt_content e loser winner_id now n s =
     (let content = row_get loser ''content'' in
      if \<not> truthy content then Inr (None, s)
      else if \<exists>v \<in> set (memo_versions_of e winner_id s). sql_eq e (row_get v ''content'') content
      then Inr (None, s)
      else let (vid, s1) = generate_id e s
           in sbind (merge_note (row_get loser ''title'') now)
                (\<lambda>note. sbind (db_insert e Memo_versions
                    [(''id'', VStr vid), (''memo_id'', VStr winner_id), (''content'', content),
                     (''version'', VInt n), (''note'', VStr note), (''created_at'', VTime now),
                     (''updated_at_utc'', VTime now)] s1)
                  (\<lambda>s2. Inr (Some n, s2))))"

definition renumbered :: "string \<Rightarrow> int \<Rightarrow> string \<Rightarrow> int \<Rightarrow> row" where
  "renumbered winner_id n note now =
     [(''memo_id'', VStr winner_id), (''version'', VInt n), (''note'', VStr note),
      (''updated_at_utc'', VTime now)]"

definition move_version ::
  "env \<Rightarrow> row \<Rightarrow> string \<Rightarrow> int \<Rightarrow> row \<Rightarrow> int \<times> store \<Rightarrow> exn + int \<times> store" where
  "move_version e loser winner_id now v ns =
     (case ns of (n, s) \<Rightarrow>
        sbind (if truthy (row_get v ''note'') then Inr (py_str (row_get v ''note''))
               else merge_note (row_get loser ''title'') now)
          (\<lambda>note. sbind (db_set e Memo_versions (id_is e (row_id v))
                           (renumbered winner_id n (cp_take 255 note) now) s)
            (\<lambda>s1. Inr (n + 1, s1))))"

definition tombstone :: "env \<Rightarrow> tbl \<Rightarrow> string \<Rightarrow> int \<Rightarrow> store \<Rightarrow> exn + store" where
  "tombstone e t i now s =
     db_set e t (id_is e i) [(''deleted_at'', VTime now), (''updated_at_utc'', VTime now)] s"

definition resolve_both :: "env \<Rightarrow> string \<Rightarrow> string \<Rightarrow> string \<Rightarrow> store \<Rightarrow> nat \<times> store" where
  "resolve_both e t loser_id winner_id s =
     (let (a, s1) = resolve_issues e [] None (Some t) (Some loser_id) s;
          (b, s2) = resolve_issues e [] None (Some t) (Some winner_id) s1
      in (a + b, s2))"

definition merge_memos :: "env \<Rightarrow> string \<Rightarrow> string \<Rightarrow> store \<Rightarrow> exn + merge_result \<times> store" where
  "merge_memos e loser_id winner_id s =
     (if loser_id = winner_id then Inl (MergeErr 400 ''same memo'')
      else sbind (load_memo e loser_id ''loser'' s)
        (\<lambda>loser. sbind (load_memo e winner_id ''survivor'' s)
          (\<lambda>winner.
            let (now, s1) = now_utc e s; n = next_version e winner_id s1
            in sbind (adopt_content e loser winner_id now n s1)
              (\<lambda>(cv, s2).
                let vs = versions_in_order e loser_id s2
                in sbind (sfold (move_version e loser winner_id now) vs
                          ((case cv of None \<Rightarrow> n | Some k \<Rightarrow> n + 1), s2))
                  (\<lambda>(m, s3). sbind (tombstone e Memos loser_id now s3)
                    (\<lambda>s4.
                      let (res, s5) = resolve_both e ''memos'' loser_id winner_id s4
                      in Inr (\<lparr>mr_kind = ''memo'', mr_winner = winner_id, mr_loser = loser_id,
                               mr_winner_label = row_get winner ''title'',
                               mr_loser_label = row_get loser ''title'',
                               mr_content_version = cv, mr_moved = length vs,
                               mr_latest = Some (m - 1), mr_members = 0, mr_resolved = res\<rparr>, s5)))))))"

section \<open>Projects\<close>

definition reparent :: "env \<Rightarrow> string \<Rightarrow> int \<Rightarrow> string \<Rightarrow> store \<Rightarrow> exn + store" where
  "reparent e winner_id now i s =
     db_set e Memos (id_is e i) [(''project_id'', VStr winner_id), (''updated_at_utc'', VTime now)] s"

definition move_articles :: "env \<Rightarrow> string \<Rightarrow> string \<Rightarrow> store \<Rightarrow> store" where
  "move_articles e loser_id winner_id s =
     s\<lparr>articles := map (\<lambda>a. if col_is e ''project_id'' loser_id a
                           then row_set a ''project_id'' (VStr winner_id) else a) (articles s)\<rparr>"

text \<open>The winner's row of a user, live or not.\<close>

definition member_row :: "env \<Rightarrow> string \<Rightarrow> val \<Rightarrow> store \<Rightarrow> row option" where
  "member_row e p u s =
     find (\<lambda>r. col_is e ''project_id'' p r \<and> sql_eq e (row_get r ''user_id'') u) (tabs s Project_members)"

text \<open>A live member of the loser is added, revived from a tombstone, or already there.\<close>

definition place_member ::
  "env \<Rightarrow> string \<Rightarrow> int \<Rightarrow> row \<Rightarrow> nat \<times> store \<Rightarrow> exn + nat \<times> store" where
  "place_member e winner_id now mem ks =
     (case ks of (k, s) \<Rightarrow>
        case member_row e winner_id (row_get mem ''user_id'') s of
          None \<Rightarrow>
            let (vid, s1) = generate_id e s
            in sbind (db_insert e Project_members
                 [(''id'', VStr vid), (''project_id'', VStr winner_id),
                  (''user_id'', row_get mem ''user_id''), (''username'', row_get mem ''username''),
                  (''display_name'', row_get mem ''display_name''), (''email'', row_get mem ''email''),
                  (''role'', row_get mem ''role''), (''invited_at'', row_get mem ''invited_at''),
                  (''updated_at_utc'', VTime now)] s1)
               (\<lambda>s2. Inr (Suc k, s2))
        | Some r \<Rightarrow>
            if row_get r ''deleted_at'' \<noteq> VNull
            then sbind (db_set e Project_members (id_is e (row_id r))
                   [(''deleted_at'', VNull), (''role'', row_get mem ''role''),
                    (''username'', row_get mem ''username''),
                    (''display_name'', row_get mem ''display_name''),
                    (''email'', row_get mem ''email''), (''updated_at_utc'', VTime now)] s)
                 (\<lambda>s2. Inr (Suc k, s2))
            else Inr (k, s))"

definition merge_member ::
  "env \<Rightarrow> string \<Rightarrow> int \<Rightarrow> row \<Rightarrow> nat \<times> store \<Rightarrow> exn + nat \<times> store" where
  "merge_member e winner_id now mem ks =
     sbind (place_member e winner_id now mem ks)
       (\<lambda>(k1, s3). sbind (tombstone e Project_members (row_id mem) now s3) (\<lambda>s4. Inr (k1, s4)))"

definition merge_projects :: "env \<Rightarrow> string \<Rightarrow> string \<Rightarrow> store \<Rightarrow> exn + merge_result \<times> store" where
  "merge_projects e loser_id winner_id s =
     (if loser_id = winner_id then Inl (MergeErr 400 ''same project'')
      else sbind (load_project e loser_id ''loser'' s)
        (\<lambda>loser. sbind (load_project e winner_id ''survivor'' s)
          (\<lambda>winner.
            let (now, s1) = now_utc e s;
                memo_ids = map row_id (select Memos (col_is e ''project_id'' loser_id) s1)
            in sbind (sfold (reparent e winner_id now) memo_ids s1)
              (\<lambda>s2.
                let s3 = move_articles e loser_id winner_id s2;
                    mems = select Project_members
                             (\<lambda>r. col_is e ''project_id'' loser_id r \<and> live r) s3
                in sbind (sfold (merge_member e winner_id now) mems (0, s3))
                  (\<lambda>(k, s4). sbind (tombstone e Projects loser_id now s4)
                    (\<lambda>s5.
                      let (res, s6) = resolve_both e ''projects'' loser_id winner_id s5
                      in Inr (\<lparr>mr_kind = ''project'', mr_winner = winner_id, mr_loser = loser_id,
                               mr_winner_label = row_get winner ''name'',
                               mr_loser_label = row_get loser ''name'',
                               mr_content_version = None, mr_moved = length memo_ids,
                               mr_latest = None, mr_members = k, mr_resolved = res\<rparr>, s6)))))))"

section \<open>The stages of a merge\<close>

lemma merge_memos_stages:
  assumes "merge_memos e l w s = Inr (r, s')"
  obtains now s1 loser winner cv s2 m s3 s4 where "l \<noteq> w" "now_utc e s = (now, s1)"
    "load_memo e l ''loser'' s = Inr loser" "load_memo e w ''survivor'' s = Inr winner"
    "adopt_content e loser w now (next_version e w s1) s1 = Inr (cv, s2)"
    "sfold (move_version e loser w now) (versions_in_order e l s2)
       ((case cv of None \<Rightarrow> next_version e w s1 | Some k \<Rightarrow> next_version e w s1 + 1), s2) = Inr (m, s3)"
    "tombstone e Memos l now s3 = Inr s4" "s' = snd (resolve_both e ''memos'' l w s4)"
    "mr_content_version r = cv" "mr_moved r = length (versions_in_order e l s2)"
    "mr_latest r = Some (m - 1)"
proof -
  obtain now s1 where n: "now_utc e s = (now, s1)" by (cases "now_utc e s")
  show ?thesis
    using assms that n by (auto simp: merge_memos_def Let_def case_prod_beta split: if_splits)
qed

lemma merge_projects_stages:
  assumes "merge_projects e l w s = Inr (r, s')"
  obtains now s1 loser winner s2 k s4 s5 where "l \<noteq> w" "now_utc e s = (now, s1)"
    "load_project e l ''loser'' s = Inr loser" "load_project e w ''survivor'' s = Inr winner"
    "sfold (reparent e w now) (map row_id (select Memos (col_is e ''project_id'' l) s1)) s1 = Inr s2"
    "sfold (merge_member e w now) (select Project_members
       (\<lambda>r. col_is e ''project_id'' l r \<and> live r) (move_articles e l w s2))
       (0, move_articles e l w s2) = Inr (k, s4)"
    "tombstone e Projects l now s4 = Inr s5" "s' = snd (resolve_both e ''projects'' l w s5)"
    "mr_members r = k" "mr_moved r = length (select Memos (col_is e ''project_id'' l) s1)"
proof -
  obtain now s1 where n: "now_utc e s = (now, s1)" by (cases "now_utc e s")
  show ?thesis
    using assms that n by (auto simp: merge_projects_def Let_def case_prod_beta split: if_splits)
qed

section \<open>Both keep the invariants of the store\<close>

context statement_invariant
begin

lemma adopt_content:
  assumes "I s" "adopt_content e loser w now n s = Inr (cv, s')"
  shows "I s'"
proof -
  obtain vid s1 where g: "generate_id e s = (vid, s1)" by (cases "generate_id e s")
  have "I s1" using new_id [OF assms(1) g] .
  moreover have "s' = s \<or> (\<exists>r. db_insert e Memo_versions r s1 = Inr s')"
    using assms(2) g by (auto simp: adopt_content_def Let_def split: if_splits)
  ultimately show ?thesis using assms(1) insert by blast
qed

lemma move_version: "I (snd p) \<Longrightarrow> move_version e loser w now v p = Inr q \<Longrightarrow> I (snd q)"
  by (auto simp: move_version_def renumbered_def split: prod.splits intro: set_update)

lemma tombstone: "I s \<Longrightarrow> tombstone e t i now s = Inr s' \<Longrightarrow> I s'"
  unfolding tombstone_def by (rule set_update) auto

lemma resolve_both: "I s \<Longrightarrow> resolve_both e t a b s = (n, s') \<Longrightarrow> I s'"
  by (auto simp: resolve_both_def Let_def split: prod.splits intro: resolve)

lemma merge_memos:
  assumes "I s" "merge_memos e l w s = Inr (r, s')"
  shows "I s'"
  using assms(2)
proof (cases rule: merge_memos_stages)
  case (1 now s1 loser winner cv s2 m s3 s4)
  have "I s1" using now [OF assms(1) 1(2)] .
  then have "I s2" using adopt_content 1(5) by blast
  then have "I (snd (m, s3))"
    using sfold_invariant [OF 1(6), where P = "\<lambda>p. I (snd p)"] move_version by auto
  then have "I s4" using tombstone 1(7) by simp
  then show ?thesis using resolve_both 1(8) by (metis prod.collapse)
qed

lemma reparent: "I s \<Longrightarrow> reparent e w now i s = Inr s' \<Longrightarrow> I s'"
  unfolding reparent_def by (rule set_update) auto

lemma place_member:
  assumes "I (snd p)" "place_member e w now mem p = Inr q"
  shows "I (snd q)"
proof -
  obtain k s where p: "p = (k, s)" by (cases p)
  obtain vid s1 where g: "generate_id e s = (vid, s1)" by (cases "generate_id e s")
  have s1: "I s1" using assms(1) p new_id [OF _ g] by simp
  show ?thesis
  proof (cases "member_row e w (row_get mem ''user_id'') s")
    case None
    with assms(2) p g s1 show ?thesis by (auto simp: place_member_def intro: insert)
  next
    case (Some r)
    with assms p show ?thesis
      by (auto simp: place_member_def split: if_splits dest: set_update)
  qed
qed

lemma merge_member: "I (snd p) \<Longrightarrow> merge_member e w now mem p = Inr q \<Longrightarrow> I (snd q)"
proof -
  assume a: "I (snd p)" "merge_member e w now mem p = Inr q"
  then obtain k s3 where st: "place_member e w now mem p = Inr (k, s3)"
    "tombstone e Project_members (row_id mem) now s3 = Inr (snd q)"
    by (auto simp: merge_member_def)
  have "I s3" using place_member [OF a(1) st(1)] by simp
  then show ?thesis using st(2) by (rule tombstone)
qed

end

context store_invariant
begin

lemma merge_projects:
  assumes "I s" "merge_projects e l w s = Inr (r, s')"
  shows "I s'"
  using assms(2)
proof (cases rule: merge_projects_stages)
  case (1 now s1 loser winner s2 k s4 s5)
  have "I s1" using now [OF assms(1) 1(2)] .
  then have "I s2" using sfold_invariant [OF 1(5), where P = I] reparent by blast
  then have "I (move_articles e l w s2)" by (simp add: move_articles_def articles)
  then have "I (snd (k, s4))"
    using sfold_invariant [OF 1(6), where P = "\<lambda>p. I (snd p)"] merge_member by auto
  then have "I s5" using tombstone 1(7) by simp
  then show ?thesis using resolve_both 1(8) by (metis prod.collapse)
qed

end

end
