(* ===== verification/Merge_Laws.thy ===== *)
theory Merge_Laws
  imports Merge Samples "HOL-Library.Multiset"
begin

text \<open>
  What a merge leaves behind: the survivor's versions are renumbered without a collision and
  nothing of the loser is lost; memos and members move to the surviving project.
\<close>

section \<open>Rows by their keys\<close>

lemma id_is_trans: "id_is e i r \<Longrightarrow> id_is e j r \<Longrightarrow> collate e i = collate e j"
  by (auto simp: col_is_iff same_str_def)

lemma id_is_self: "keys_ok e s \<Longrightarrow> r \<in> set (tabs s t) \<Longrightarrow> id_is e (row_id r) r"
  unfolding keys_ok_def row_str_not_None by (fastforce simp: col_is_iff row_id_def)

lemma id_is_unique:
  "keys_ok e s \<Longrightarrow> r \<in> set (tabs s t) \<Longrightarrow> v \<in> set (tabs s t) \<Longrightarrow> id_is e (row_id v) r \<longleftrightarrow> r = v"
  using fetch_id_unique id_is_self by (metis option.inject)

lemma keys_collate: "keys_ok e s \<Longrightarrow> distinct (map (\<lambda>r. collate e (row_id r)) (tabs s t))"
  by (simp add: keys_ok_def)

section \<open>Moving the versions\<close>

lemma row_get_renumbered:
  "row_get (row_update r (renumbered w n note' now)) c =
     (if c = ''memo_id'' then VStr w else if c = ''version'' then VInt n
      else if c = ''note'' then VStr note' else if c = ''updated_at_utc'' then VTime now
      else row_get r c)"
  by (simp add: renumbered_def)

lemma touch_others [simp]: "touch now Memo_versions asg = asg" "touch now Project_members asg = asg"
  by (simp_all add: touch_def)

lemma move_version_tabs:
  assumes "move_version e loser w now v (n, s) = Inr (m, s')"
  shows "m = n + 1 \<and> (\<exists>note'. tabs s' = (tabs s)(Memo_versions := map (\<lambda>r. if id_is e (row_id v) r
     then row_update r (renumbered w n note' now) else r) (tabs s Memo_versions)))"
  using assms by (auto simp: move_version_def dest!: db_set_tabs cong: if_cong)

definition moved_to :: "env \<Rightarrow> string \<Rightarrow> int \<Rightarrow> row list \<Rightarrow> (row \<Rightarrow> row) \<Rightarrow> bool" where
  "moved_to e w n vs g \<longleftrightarrow> (\<forall>r.
     (\<forall>c. c \<notin> {''memo_id'', ''version'', ''note'', ''updated_at_utc''} \<longrightarrow> row_get (g r) c = row_get r c) \<and>
     ((\<forall>v \<in> set vs. \<not> id_is e (row_id v) r) \<longrightarrow> g r = r) \<and>
     (\<forall>k < length vs. id_is e (row_id (vs ! k)) r \<longrightarrow>
        row_get (g r) ''memo_id'' = VStr w \<and> row_get (g r) ''version'' = VInt (n + int k)))"

lemma col_is_cong: "row_get r c = row_get r' c \<Longrightarrow> col_is e c v r = col_is e c v r'"
  by (simp add: col_is_def)

lemma moved_to_Cons:
  assumes "moved_to e w (n + 1) vs g" "\<forall>v' \<in> set vs. collate e (row_id v') \<noteq> collate e (row_id v)"
  shows "moved_to e w n (v # vs)
    (g \<circ> (\<lambda>r. if id_is e (row_id v) r then row_update r (renumbered w n note' now) else r))"
proof -
  let ?f = "\<lambda>r. if id_is e (row_id v) r then row_update r (renumbered w n note' now) else r"
  have id: "id_is e i (?f r) = id_is e i r" for i r
    by (rule col_is_cong) (simp add: row_get_renumbered)
  have keep: "row_get (g (?f r)) c = row_get r c"
    if "c \<notin> {''memo_id'', ''version'', ''note'', ''updated_at_utc''}" for r c
    using assms(1) that by (simp add: moved_to_def row_get_renumbered)
  have stay: "g (?f r) = r" if "\<forall>u \<in> set (v # vs). \<not> id_is e (row_id u) r" for r
    using assms(1) that by (simp add: moved_to_def)
  have head: "row_get (g (?f r)) ''memo_id'' = VStr w \<and> row_get (g (?f r)) ''version'' = VInt n"
    if h: "id_is e (row_id v) r" for r
  proof -
    have "\<forall>u \<in> set vs. \<not> id_is e (row_id u) (?f r)"
      using assms(2) id_is_trans [OF h] unfolding id by metis
    then have "g (?f r) = ?f r" using assms(1) by (simp only: moved_to_def)
    with h show ?thesis by (simp add: row_get_renumbered)
  qed
  have tail: "row_get (g (?f r)) ''memo_id'' = VStr w \<and> row_get (g (?f r)) ''version'' = VInt (n + 1 + int k)"
    if "k < length vs" "id_is e (row_id (vs ! k)) r" for r k
  proof -
    have "id_is e (row_id (vs ! k)) (?f r)" using that(2) unfolding id .
    with assms(1) that(1) show ?thesis unfolding moved_to_def by blast
  qed
  show ?thesis
    unfolding moved_to_def
  proof (intro allI conjI impI)
    fix r c :: string
  next
    fix r k assume "k < length (v # vs)" "id_is e (row_id ((v # vs) ! k)) r"
    then show "row_get ((g \<circ> ?f) r) ''memo_id'' = VStr w" "row_get ((g \<circ> ?f) r) ''version'' = VInt (n + int k)"
      using head tail by (cases k; simp add: add.assoc)+
  qed (use keep stay in auto)
qed

lemma moves:
  assumes "sfold (move_version e loser w now) vs (n, s) = Inr (m, s')"
    and "distinct (map (\<lambda>v. collate e (row_id v)) vs)"
  shows "m = n + int (length vs) \<and> (\<exists>g. moved_to e w n vs g \<and>
     tabs s' = (tabs s)(Memo_versions := map g (tabs s Memo_versions)))"
  using assms
proof (induction vs arbitrary: n s)
  case Nil
  then show ?case by (auto simp: moved_to_def intro!: exI [of _ id])
next
  case (Cons v vs)
  then obtain n1 s1 where st: "move_version e loser w now v (n, s) = Inr (n1, s1)"
    "sfold (move_version e loser w now) vs (n1, s1) = Inr (m, s')" by auto
  from move_version_tabs [OF st(1)] obtain note' where n1: "n1 = n + 1" and s1: "tabs s1 =
      (tabs s)(Memo_versions := map (\<lambda>r. if id_is e (row_id v) r
        then row_update r (renumbered w n note' now) else r) (tabs s Memo_versions))" by blast
  have d: "distinct (map (\<lambda>v. collate e (row_id v)) vs)" using Cons.prems(2) by simp
  from Cons.IH [OF st(2) d] obtain g where m: "m = n1 + int (length vs)"
    and g: "moved_to e w n1 vs g" "tabs s' = (tabs s1)(Memo_versions := map g (tabs s1 Memo_versions))" by blast
  have "\<forall>v' \<in> set vs. collate e (row_id v') \<noteq> collate e (row_id v)" using Cons.prems(2) by (simp add: image_iff) metis
  from moved_to_Cons [OF g(1) [unfolded n1] this, of note' now]
  have "moved_to e w n (v # vs) (g \<circ> (\<lambda>r. if id_is e (row_id v) r
      then row_update r (renumbered w n note' now) else r))" .
  moreover have "tabs s' = (tabs s)(Memo_versions := map (g \<circ> (\<lambda>r. if id_is e (row_id v) r
      then row_update r (renumbered w n note' now) else r)) (tabs s Memo_versions))"
    unfolding g(2) s1 by simp
  ultimately show ?case using m n1 by auto
qed

section \<open>Merging memos\<close>

lemma adopt_content_tabs:
  assumes "adopt_content e loser w now n s = Inr (cv, s')"
  obtains (had) "cv = None" "tabs s' = tabs s"
      "\<not> truthy (row_get loser ''content'') \<or>
       (\<exists>x \<in> set (memo_versions_of e w s). sql_eq e (row_get x ''content'') (row_get loser ''content''))"
  | (added) x where "cv = Some n" "tabs s' = (tabs s)(Memo_versions := tabs s Memo_versions @ [x])"
      "row_get x ''memo_id'' = VStr w" "row_get x ''version'' = VInt n"
      "row_get x ''content'' = row_get loser ''content''"
proof -
  obtain vid s1 where g: "generate_id e s = (vid, s1)" by (cases "generate_id e s")
  have t: "tabs s1 = tabs s" using generate_id_tabs [OF g] .
  show ?thesis
    using assms g t had added
    by (auto simp: adopt_content_def Let_def row_get_complete all_columns_def row_simps
        split: if_splits dest!: db_insert_tabs)
qed


lemma versions_in_order_set: "set (versions_in_order e l s) = set (memo_versions_of e l s)"
  by (simp add: versions_in_order_def)

lemma versions_in_order_distinct:
  assumes "keys_ok e s"
  shows "distinct (map (\<lambda>v. collate e (row_id v)) (versions_in_order e l s))"
proof -
  have "mset (map (\<lambda>v. collate e (row_id v)) (versions_in_order e l s)) =
      mset (map (\<lambda>v. collate e (row_id v)) (memo_versions_of e l s))"
    by (simp add: versions_in_order_def)
  moreover have "distinct (map (\<lambda>v. collate e (row_id v)) (memo_versions_of e l s))"
    using keys_collate [OF assms] by (simp add: memo_versions_of_def select_def distinct_map_filter)
  ultimately show ?thesis by (metis mset_eq_imp_distinct_iff)
qed

text \<open>The rows of the survivor and of the loser after the loser's versions were moved.\<close>

lemma moved_versions:
  assumes keys: "keys_ok e s" and ne: "\<not> same_str e l w"
    and g: "moved_to e w n (versions_in_order e l s) g"
    and t: "tabs s' Memo_versions = map g (tabs s Memo_versions)"
  shows "memo_versions_of e l s' = []"
    and "memo_versions_of e w s' = map g (filter (\<lambda>r. col_is e ''memo_id'' w r \<or> col_is e ''memo_id'' l r)
           (tabs s Memo_versions))"
    and "\<And>r. r \<in> set (tabs s Memo_versions) \<Longrightarrow> \<not> col_is e ''memo_id'' l r \<Longrightarrow> g r = r"
    and "\<And>r. r \<in> set (memo_versions_of e l s) \<Longrightarrow> \<exists>k < length (versions_in_order e l s).
           r = versions_in_order e l s ! k \<and> row_get (g r) ''version'' = VInt (n + int k)"
    and "\<And>r. row_get (g r) ''id'' = row_get r ''id'' \<and> row_get (g r) ''content'' = row_get r ''content''"
proof -
  let ?vs = "versions_in_order e l s"
  have vs: "set ?vs = {r \<in> set (tabs s Memo_versions). col_is e ''memo_id'' l r}"
    by (simp add: versions_in_order_set memo_versions_of_def select_def)
  show stay: "g r = r" if "r \<in> set (tabs s Memo_versions)" "\<not> col_is e ''memo_id'' l r" for r
    using g that id_is_unique [OF keys that(1)] vs unfolding moved_to_def by blast
  have move: "row_get (g r) ''memo_id'' = VStr w" "\<exists>k < length ?vs. r = ?vs ! k \<and>
      row_get (g r) ''version'' = VInt (n + int k)"
    if r: "r \<in> set (tabs s Memo_versions)" "col_is e ''memo_id'' l r" for r
  proof -
    obtain k where k: "k < length ?vs" "r = ?vs ! k" using r vs by (metis (no_types, lifting) in_set_conv_nth mem_Collect_eq)
    then have "id_is e (row_id (?vs ! k)) r" using id_is_self [OF keys r(1)] by simp
    with g k show "row_get (g r) ''memo_id'' = VStr w" "\<exists>k < length ?vs. r = ?vs ! k \<and>
      row_get (g r) ''version'' = VInt (n + int k)" unfolding moved_to_def by blast+
  qed
  show "\<exists>k < length ?vs. r = ?vs ! k \<and> row_get (g r) ''version'' = VInt (n + int k)"
    if "r \<in> set (memo_versions_of e l s)" for r
    using that move(2) by (simp add: memo_versions_of_def select_def)
  show "row_get (g r) ''id'' = row_get r ''id'' \<and> row_get (g r) ''content'' = row_get r ''content''" for r
    using g by (simp add: moved_to_def)
  have here: "col_is e ''memo_id'' i (g r) \<longleftrightarrow> (if col_is e ''memo_id'' l r then same_str e w i else col_is e ''memo_id'' i r)"
    if "r \<in> set (tabs s Memo_versions)" for i r
    using that move(1) stay by (simp add: col_is_def)
  have "\<not> same_str e w l" using ne same_str_sym by blast
  then show "memo_versions_of e l s' = []"
    using here by (auto simp: memo_versions_of_def select_def t filter_empty_conv)
  have "filter (col_is e ''memo_id'' w) (map g rs) =
      map g (filter (\<lambda>r. col_is e ''memo_id'' w r \<or> col_is e ''memo_id'' l r) rs)"
    if "set rs \<subseteq> set (tabs s Memo_versions)" for rs
    using that here by (induction rs) auto
  then show "memo_versions_of e w s' = map g (filter (\<lambda>r. col_is e ''memo_id'' w r \<or> col_is e ''memo_id'' l r)
           (tabs s Memo_versions))"
    by (simp add: memo_versions_of_def select_def t)
qed


lemma version_below:
  assumes "r \<in> set (memo_versions_of e w s)" "row_get r ''version'' = VInt k"
  shows "k < next_version e w s"
proof -
  have "k \<in> set (int_values ''version'' (memo_versions_of e w s))"
    using assms by (force simp: int_values_def set_map_filter)
  from max_or_ge [OF this, of 0] show ?thesis by (simp add: next_version_def)
qed

lemma int_values_map:
  "int_values c rs = List.map_filter (\<lambda>v. case v of VInt n \<Rightarrow> Some n | _ \<Rightarrow> None) (map (\<lambda>r. row_get r c) rs)"
  by (induction rs) (simp_all add: int_values_def map_filter_simps split: option.split)

lemma int_values_cong: "map (\<lambda>r. row_get r c) rs = map (\<lambda>r. row_get r c) rs' \<Longrightarrow> int_values c rs = int_values c rs'"
  by (simp only: int_values_map)

lemma set_int_values: "set (int_values c rs) = {n. \<exists>r \<in> set rs. row_get r c = VInt n}"
proof -
  have "(case v of VInt n \<Rightarrow> Some n | _ \<Rightarrow> None) = Some k \<longleftrightarrow> v = VInt k" for v k
    by (cases v) auto
  then show ?thesis by (auto simp: int_values_def set_map_filter)
qed

lemma max_or_eqI:
  assumes "\<And>x. x \<in> set xs \<Longrightarrow> x \<le> m" "m \<in> set xs"
  shows "max_or d xs = m"
proof -
  have "xs \<noteq> []" using assms(2) by auto
  from max_or_mem [OF this, of d] assms(1) have "max_or d xs \<le> m" by blast
  with max_or_ge [OF assms(2), of d] show ?thesis by simp
qed

lemma distinct_map_split:
  assumes "distinct (map f xs)" "\<And>x. x \<in> set xs \<Longrightarrow> P x \<Longrightarrow> g (h x) = f x"
    and "\<And>x y. x \<in> set ys \<Longrightarrow> y \<in> set ys \<Longrightarrow> x \<noteq> y \<Longrightarrow> \<not> P x \<Longrightarrow> g (h x) \<noteq> g (h y)"
    and "distinct ys" "filter P ys = xs"
  shows "distinct (map (g \<circ> h) ys)"
proof -
  have "g (h x) \<noteq> g (h y)" if xy: "x \<in> set ys" "y \<in> set ys" "x \<noteq> y" for x y
  proof (cases "P x \<and> P y")
    case True
    then have m: "x \<in> set xs" "y \<in> set xs" using xy assms(5) by auto
    then have "f x \<noteq> f y" using assms(1) xy(3) by (auto simp: distinct_map dest: inj_onD)
    with m True assms(2) show ?thesis by metis
  next
    case False
    with xy assms(3) show ?thesis by metis
  qed
  then have "inj_on (g \<circ> h) (set ys)" by (intro inj_onI) (metis comp_apply)
  with assms(4) show ?thesis by (simp add: distinct_map)
qed


text \<open>A merge of memos: the store in which the loser's text was adopted, and the move.\<close>

lemma merge_memos_rows:
  assumes run: "merge_memos e l w s = Inr (r, s')" and ddl: "enforces_ddl e" and keys: "keys_ok e s"
  obtains loser s2 n g xs where "fetch_id e Memos l s = Some loser" "keys_ok e s2"
    "tabs s2 Memo_versions = tabs s Memo_versions @ xs"
    "xs = [] \<and> n = next_version e w s \<and>
       (\<not> truthy (row_get loser ''content'') \<or>
        (\<exists>x \<in> set (memo_versions_of e w s). sql_eq e (row_get x ''content'') (row_get loser ''content''))) \<or>
     (\<exists>x. xs = [x] \<and> row_get x ''memo_id'' = VStr w \<and> row_get x ''version'' = VInt (next_version e w s) \<and>
        row_get x ''content'' = row_get loser ''content'' \<and> n = next_version e w s + 1)"
    "moved_to e w n (versions_in_order e l s2) g"
    "tabs s' Memo_versions = map g (tabs s2 Memo_versions)"
    "mr_latest r = Some (n + int (length (versions_in_order e l s2)) - 1)"
  using run
proof (cases rule: merge_memos_stages)
  case (1 now s1 loser winner cv s2 m s3 s4)
  have t1: "tabs s1 = tabs s" using now_utc_tabs [OF 1(2)] .
  have nv: "next_version e w s1 = next_version e w s"
    by (simp add: next_version_def memo_versions_of_def select_def t1)
  have k1: "keys_ok e s1" using keys t1 by (simp add: keys_ok_def)
  have k2: "keys_ok e s2" using keys.adopt_content [OF _ 1(5)] k1 ddl by blast
  have "s' = snd (resolve_both e ''memos'' l w s4)" using 1(8) .
  then have t5: "tabs s' = tabs s4" by (simp add: resolve_both_def resolve_issues_def now_utc_def Let_def case_prod_beta)
  have t4: "tabs s4 Memo_versions = tabs s3 Memo_versions"
    using 1(7) by (auto simp: tombstone_def dest!: db_set_tabs)
  let ?n = "case cv of None \<Rightarrow> next_version e w s1 | Some k \<Rightarrow> next_version e w s1 + 1"
  from moves [OF 1(6) versions_in_order_distinct [OF k2]] obtain g where
    m: "m = ?n + int (length (versions_in_order e l s2))" and g: "moved_to e w ?n (versions_in_order e l s2) g"
    "tabs s3 = (tabs s2)(Memo_versions := map g (tabs s2 Memo_versions))" by blast
  have f: "fetch_id e Memos l s = Some loser"
    using 1(3) fetch_id_unique [OF keys] by (auto simp: load_memo_def dest!: find_SomeD split: option.splits)
  have t': "tabs s' Memo_versions = map g (tabs s2 Memo_versions)" using t5 t4 g(2) by simp
  have latest: "mr_latest r = Some (?n + int (length (versions_in_order e l s2)) - 1)" using 1(11) m by simp
  from 1(5) show ?thesis
  proof (cases rule: adopt_content_tabs)
    case had
    show ?thesis
      by (rule that [OF f k2 _ _ g(1) t' latest, of "[]"])
        (use had nv t1 in \<open>simp_all add: memo_versions_of_def select_def\<close>)
  next
    case (added x)
    show ?thesis
      by (rule that [OF f k2 _ _ g(1) t' latest, of "[x]"]) (use added nv t1 in simp_all)
  qed
qed

lemma memo_id_exclusive:
  "\<not> same_str e l w \<Longrightarrow> col_is e c w r \<Longrightarrow> \<not> col_is e c l r"
  by (auto simp: col_is_iff same_str_def)

text \<open>C16. Merging a memo into another leaves the loser without versions and every version of either
  memo, with its content, as a version of the survivor; the loser's own content, unless it is
  empty, becomes a version byte for byte, or the survivor had a version before whose text the
  collation of the database calls equal.\<close>

theorem merge_loses_nothing:
  assumes "merge_memos e l w s = Inr (r, s')" "enforces_ddl e" "keys_ok e s" "\<not> same_str e l w"
  shows "memo_versions_of e l s' = [] \<and>
    (\<forall>x \<in> set (memo_versions_of e l s) \<union> set (memo_versions_of e w s). \<exists>y \<in> set (memo_versions_of e w s').
       row_get y ''id'' = row_get x ''id'' \<and> row_get y ''content'' = row_get x ''content'') \<and>
    (\<exists>m. fetch_id e Memos l s = Some m \<and>
       (truthy (row_get m ''content'') \<longrightarrow>
          (\<exists>y \<in> set (memo_versions_of e w s'). row_get y ''content'' = row_get m ''content'') \<or>
          (\<exists>x \<in> set (memo_versions_of e w s). sql_eq e (row_get x ''content'') (row_get m ''content''))))"
  using assms(1-3)
proof (cases rule: merge_memos_rows)
  case (1 loser s2 n g xs)
  note mv = moved_versions [OF 1(2) assms(4) 1(5,6)]
  have all: "\<exists>y \<in> set (memo_versions_of e w s'). row_get y ''id'' = row_get x ''id'' \<and>
      row_get y ''content'' = row_get x ''content''"
    if "x \<in> set (tabs s2 Memo_versions)" "col_is e ''memo_id'' w x \<or> col_is e ''memo_id'' l x" for x
    using that mv(5) by (force simp: mv(2))
  have "(\<exists>y \<in> set (memo_versions_of e w s'). row_get y ''content'' = row_get loser ''content'') \<or>
      (\<exists>x \<in> set (memo_versions_of e w s). sql_eq e (row_get x ''content'') (row_get loser ''content''))"
    if c: "truthy (row_get loser ''content'')"
    using 1(4)
  proof (elim disjE exE conjE)
    fix x assume x: "xs = [x]" "row_get x ''memo_id'' = VStr w" "row_get x ''content'' = row_get loser ''content''"
    then have "x \<in> set (tabs s2 Memo_versions)" "col_is e ''memo_id'' w x" using 1(3) by (simp_all add: col_is_iff)
    with all [of x] x(3) show ?thesis by metis
  qed (use c in auto)
  with 1(1) mv(1) all 1(3) show ?thesis
    by (auto simp: memo_versions_of_def select_def)
qed

text \<open>The versions of the merged memo are renumbered past those of the survivor, so no two of them
  share a number, and the reported latest version is the last one.\<close>

theorem merged_versions_stay_apart:
  assumes "merge_memos e l w s = Inr (r, s')" "enforces_ddl e" "keys_ok e s" "\<not> same_str e l w"
    and "distinct (map (\<lambda>x. row_get x ''version'') (memo_versions_of e w s))"
  shows "distinct (map (\<lambda>x. row_get x ''version'') (memo_versions_of e w s')) \<and>
    mr_latest r = Some (next_version e w s' - 1)"
  using assms(1-3)
proof (cases rule: merge_memos_rows)
  case (1 loser s2 n g xs)
  let ?vs = "versions_in_order e l s2" and ?v = "\<lambda>x. row_get x ''version''"
  let ?P = "\<lambda>r. \<not> col_is e ''memo_id'' l r"
  let ?ys = "filter (\<lambda>r. col_is e ''memo_id'' w r \<or> col_is e ''memo_id'' l r) (tabs s2 Memo_versions)"
  let ?ws = "memo_versions_of e w s @ xs"
  note mv = moved_versions [OF 1(2) assms(4) 1(5,6)]
  have ws: "filter ?P ?ys = ?ws"
  proof -
    have "filter ?P ?ys = filter (col_is e ''memo_id'' w) (tabs s2 Memo_versions)"
      using memo_id_exclusive [OF assms(4)] by (auto intro: filter_cong)
    also have "\<dots> = ?ws" using 1(4) by (auto simp: 1(3) memo_versions_of_def select_def col_is_iff)
    finally show ?thesis .
  qed
  have ws_set: "set ?ws = {x \<in> set ?ys. ?P x}" unfolding ws [symmetric] by auto
  have below: "k < n" if "x \<in> set ?ws" "?v x = VInt k" for x k
    using that 1(4) version_below [of x e w s k] by fastforce
  have old: "VInt (next_version e w s) \<notin> ?v ` set (memo_versions_of e w s)"
  proof
    assume "VInt (next_version e w s) \<in> ?v ` set (memo_versions_of e w s)"
    then obtain x where "x \<in> set (memo_versions_of e w s)" "?v x = VInt (next_version e w s)" by auto
    from version_below [OF this] show False by simp
  qed
  have dw: "distinct (map ?v ?ws)"
    using assms(5) 1(4) old by (elim disjE exE conjE) auto
  have num: "\<exists>k < length ?vs. x = ?vs ! k \<and> ?v (g x) = VInt (n + int k)"
    if "x \<in> set ?ys" "\<not> ?P x" for x
    using mv(4) [of x] that by (auto simp: memo_versions_of_def select_def)
  have keep: "?v (g x) = ?v x" if "x \<in> set ?ws" "?P x" for x
  proof -
    have "x \<in> set ?ys" using that(1) ws_set by blast
    then show ?thesis using mv(3) [of x] that(2) by simp
  qed
  have apart: "?v (g x) \<noteq> ?v (g y)" if xy: "x \<in> set ?ys" "y \<in> set ?ys" "x \<noteq> y" "\<not> ?P x" for x y
  proof -
    obtain k where k: "x = ?vs ! k" "?v (g x) = VInt (n + int k)" using num [OF xy(1,4)] by blast
    show ?thesis
    proof (cases "?P y")
      case True
      with xy(2) ws_set have "y \<in> set ?ws" by blast
      with keep [OF this True] below [of y] k show ?thesis by fastforce
    next
      case False
      from num [OF xy(2) this] xy(3) k show ?thesis by auto
    qed
  qed
  have dy: "distinct ?ys"
    using keys_collate [OF 1(2), of Memo_versions] distinct_map distinct_filter by blast
  have "distinct (map (?v \<circ> g) ?ys)"
    using distinct_map_split [of ?v ?ws ?P ?v g ?ys, OF dw _ _ dy ws] keep apart by blast
  then have d: "distinct (map ?v (memo_versions_of e w s'))" by (simp add: mv(2))
  let ?L = "int_values ''version'' (memo_versions_of e w s')"
  have le: "k \<le> n + int (length ?vs) - 1" if kL: "k \<in> set ?L" for k
  proof -
    obtain x where x: "x \<in> set ?ys" "?v (g x) = VInt k" using kL by (auto simp: set_int_values mv(2))
    show ?thesis
    proof (cases "?P x")
      case True
      with x(1) ws_set have "x \<in> set ?ws" by blast
      with keep [OF this True] below [of x k] x(2) show ?thesis by simp
    next
      case False
      from num [OF x(1) this] x(2) show ?thesis by auto
    qed
  qed
  have "max_or 0 ?L = n + int (length ?vs) - 1"
  proof (cases "length ?vs = 0")
    case True
    then have "memo_versions_of e l s2 = []" using versions_in_order_set by (metis length_0_conv set_empty)
    then have "\<forall>x \<in> set (tabs s2 Memo_versions). ?P x"
      by (simp add: memo_versions_of_def select_def filter_empty_conv)
    then have allP: "\<forall>x \<in> set ?ys. ?P x" by simp
    then have "filter ?P ?ys = ?ys" by (simp only: filter_id_conv)
    then have "?ys = ?ws" using ws by simp
    then have "map ?v (memo_versions_of e w s') = map ?v ?ws" using keep allP by (simp only: mv(2) map_map) simp
    from int_values_cong [OF this] have L: "?L = int_values ''version'' ?ws" .
    from 1(4) consider "xs = []" "n = next_version e w s"
      | x where "xs = [x]" "?v x = VInt (next_version e w s)" "n = next_version e w s + 1" by blast
    then show ?thesis
    proof cases
      case 1
      then show ?thesis by (simp add: L True next_version_def)
    next
      case (2 x)
      note x = this
      have "n - 1 \<in> set ?L" using x by (simp add: L set_int_values)
      with le True show ?thesis by (intro max_or_eqI) simp_all
    qed
  next
    case False
    let ?x = "?vs ! (length ?vs - 1)"
    have x: "?x \<in> set ?vs" using False by simp
    then have ys: "?x \<in> set ?ys" "\<not> ?P ?x"
      by (simp_all add: versions_in_order_set memo_versions_of_def select_def)
    from num [OF this] obtain k where k: "k < length ?vs" "?x = ?vs ! k" "?v (g ?x) = VInt (n + int k)" by blast
    have "distinct ?vs" using versions_in_order_distinct [OF 1(2)] distinct_map by blast
    then have "k = length ?vs - 1" using k(1,2) False by (simp add: nth_eq_iff_index_eq)
    then have "n + int (length ?vs) - 1 \<in> set ?L"
      using k ys(1) by (auto simp: set_int_values mv(2) of_nat_diff)
    with le show ?thesis by (intro max_or_eqI)
  qed
  then have "mr_latest r = Some (next_version e w s' - 1)" by (simp add: 1(7) next_version_def)
  with d show ?thesis by blast
qed


section \<open>Merging projects\<close>

text \<open>An update of one row by its id, of columns that do not include the id.\<close>

definition touched_by :: "env \<Rightarrow> string list \<Rightarrow> string list \<Rightarrow> (row \<Rightarrow> row) \<Rightarrow> bool" where
  "touched_by e is cols g \<longleftrightarrow> (\<forall>r. (\<forall>c. c \<notin> set cols \<longrightarrow> row_get (g r) c = row_get r c) \<and>
     ((\<forall>i \<in> set is. \<not> id_is e i r) \<longrightarrow> g r = r))"

lemma reparented:
  assumes "sfold (reparent e w now) is s = Inr s'"
  shows "\<exists>g. touched_by e is [''project_id'', ''updated_at_utc'', ''updated_at''] g \<and>
    tabs s' = (tabs s)(Memos := map g (tabs s Memos)) \<and>
    (\<forall>r. (\<exists>i \<in> set is. id_is e i r) \<longrightarrow> row_get (g r) ''project_id'' = VStr w)"
  using assms
proof (induction "is" arbitrary: s)
  case Nil
  then show ?case by (auto simp: touched_by_def intro!: exI [of _ id])
next
  case (Cons i "is")
  then obtain s1 where st: "reparent e w now i s = Inr s1" "sfold (reparent e w now) is s1 = Inr s'" by auto
  let ?u = "\<lambda>r. row_update r (touch (sql_now e (ticks s)) Memos
      [(''project_id'', VStr w), (''updated_at_utc'', VTime now)])"
  let ?f = "\<lambda>r. if id_is e i r then ?u r else r"
  have s1: "tabs s1 = (tabs s)(Memos := map ?f (tabs s Memos))"
    using st(1) by (auto simp: reparent_def dest!: db_set_tabs)
  have get: "row_get (?f r) c = row_get r c" if "c \<notin> {''project_id'', ''updated_at_utc'', ''updated_at''}" for r c
    using that by (simp add: row_get_touch)
  have id: "id_is e j (?f r) = id_is e j r" for j r by (rule col_is_cong) (rule get, simp)
  have p: "row_get (?f r) ''project_id'' = (if id_is e i r then VStr w else row_get r ''project_id'')" for r
    by (simp add: row_get_touch)
  from Cons.IH [OF st(2)] obtain g where g: "touched_by e is [''project_id'', ''updated_at_utc'', ''updated_at''] g"
    "tabs s' = (tabs s1)(Memos := map g (tabs s1 Memos))"
    "\<forall>r. (\<exists>i \<in> set is. id_is e i r) \<longrightarrow> row_get (g r) ''project_id'' = VStr w" by blast
  have new: "row_get (g (?f r)) ''project_id'' = VStr w" if "\<exists>j \<in> set (i # is). id_is e j r" for r
  proof (cases "\<exists>j \<in> set is. id_is e j r")
    case True
    then have "\<exists>j \<in> set is. id_is e j (?f r)" by (simp only: id)
    then show ?thesis using g(3) by blast
  next
    case False
    then have "\<forall>j \<in> set is. \<not> id_is e j (?f r)" by (simp only: id bex_simps ball_simps simp_thms)
    then have "g (?f r) = ?f r" using g(1) unfolding touched_by_def by blast
    with False that p [of r] show ?thesis by auto
  qed
  have t: "touched_by e (i # is) [''project_id'', ''updated_at_utc'', ''updated_at''] (g \<circ> ?f)"
    using g(1) get unfolding touched_by_def by simp
  show ?case
  proof (intro exI conjI)
    show "tabs s' = (tabs s)(Memos := map (g \<circ> ?f) (tabs s Memos))" unfolding g(2) s1 by simp
    show "touched_by e (i # is) [''project_id'', ''updated_at_utc'', ''updated_at''] (g \<circ> ?f)" by (rule t)
  qed (simp only: comp_apply, use new in blast)
qed


definition live_member :: "env \<Rightarrow> string \<Rightarrow> val \<Rightarrow> store \<Rightarrow> bool" where
  "live_member e w u s \<longleftrightarrow> (\<exists>x \<in> set (tabs s Project_members).
     col_is e ''project_id'' w x \<and> live x \<and> sql_eq e (row_get x ''user_id'') u)"

text \<open>A row keeps its place: the same id and project.\<close>

definition placed :: "row \<Rightarrow> store \<Rightarrow> bool" where
  "placed x s \<longleftrightarrow> (\<exists>y \<in> set (tabs s Project_members). row_get y ''id'' = row_get x ''id'' \<and>
     row_get y ''project_id'' = row_get x ''project_id'')"

lemma sql_eq_self: "v \<noteq> VNull \<Longrightarrow> sql_eq e v v"
  by (cases v) simp_all

lemma place_member_step:
  assumes run: "place_member e w now m (k, s) = Inr (k', s')" and ddl: "enforces_ddl e" and keys: "keys_ok e s"
    and ne: "\<not> same_str e l w"
  shows "live_member e w (row_get m ''user_id'') s' \<and> (\<forall>u. live_member e w u s \<longrightarrow> live_member e w u s') \<and>
    (\<forall>x. placed x s \<longrightarrow> placed x s') \<and> (\<forall>x \<in> set (tabs s' Project_members).
       col_is e ''project_id'' l x \<and> live x \<longrightarrow> x \<in> set (tabs s Project_members)) \<and>
    (\<forall>t. t \<noteq> Project_members \<longrightarrow> tabs s' t = tabs s t)"
proof (cases "member_row e w (row_get m ''user_id'') s")
  case None
  obtain vid s1 where g: "generate_id e s = (vid, s1)" by (cases "generate_id e s")
  have t1: "tabs s1 = tabs s" using generate_id_tabs [OF g] .
  from run None g obtain row where ins: "db_insert e Project_members row s1 = Inr s'"
    and row: "row_get row ''project_id'' = VStr w" "row_get row ''user_id'' = row_get m ''user_id''"
      "\<not> has_col row ''deleted_at''" "has_col row ''project_id''" "has_col row ''user_id''"
    by (auto simp: place_member_def row_simps)
  let ?r = "complete_row (sql_now e (ticks s1)) Project_members row"
  have t': "tabs s' = (tabs s)(Project_members := tabs s Project_members @ [?r])"
    using db_insert_tabs [OF ins] t1 by simp
  have r: "row_get ?r ''project_id'' = VStr w" "row_get ?r ''user_id'' = row_get m ''user_id''"
    "row_get ?r ''deleted_at'' = VNull"
    using row by (simp_all add: row_get_complete all_columns_def column_default_def WALL_CLOCK_COLUMNS_def)
  have "row_get ?r ''user_id'' \<noteq> VNull"
    using db_insert_ddl [OF ddl ins] by (auto simp: ddl_refuse_ins_def split: if_splits)
  then have "sql_eq e (row_get ?r ''user_id'') (row_get m ''user_id'')" using r(2) sql_eq_self by metis
  with r have "live_member e w (row_get m ''user_id'') s'" by (auto simp: live_member_def t' col_is_def)
  moreover have "\<not> col_is e ''project_id'' l ?r" using r(1) ne same_str_sym by (auto simp: col_is_def)
  ultimately show ?thesis by (auto simp: t' live_member_def placed_def)
next
  case (Some r)
  then have r: "r \<in> set (tabs s Project_members)" "col_is e ''project_id'' w r"
    "sql_eq e (row_get r ''user_id'') (row_get m ''user_id'')"
    unfolding member_row_def by (auto dest!: find_SomeD)
  show ?thesis
  proof (cases "live r")
    case True
    with run Some have "s' = s" by (simp add: place_member_def)
    with r True show ?thesis by (auto simp: live_member_def)
  next
    case False
    let ?asg = "[(''deleted_at'', VNull), (''role'', row_get m ''role''), (''username'', row_get m ''username''),
      (''display_name'', row_get m ''display_name''), (''email'', row_get m ''email''), (''updated_at_utc'', VTime now)]"
    have t': "tabs s' = (tabs s)(Project_members := map (\<lambda>x. if id_is e (row_id r) x then row_update x ?asg else x)
        (tabs s Project_members))"
      using run Some False by (auto simp: place_member_def dest!: db_set_tabs cong: if_cong)
    have one: "id_is e (row_id r) x \<longleftrightarrow> x = r" if "x \<in> set (tabs s Project_members)" for x
      using id_is_unique [OF keys that r(1)] .
    have pm: "set (tabs s' Project_members) = (\<lambda>x. if x = r then row_update r ?asg else x) ` set (tabs s Project_members)"
      using one by (auto simp: t' image_iff)
    have get: "row_get (row_update r ?asg) ''deleted_at'' = VNull"
      "row_get (row_update r ?asg) ''project_id'' = row_get r ''project_id''"
      "row_get (row_update r ?asg) ''user_id'' = row_get r ''user_id''"
      "row_get (row_update r ?asg) ''id'' = row_get r ''id''" by simp_all
    have new: "live_member e w (row_get m ''user_id'') s'"
      unfolding live_member_def pm using r get by (auto simp: col_is_def intro!: bexI [of _ r])
    have old: "live_member e w u s'" if "live_member e w u s" for u
    proof -
      from that obtain x where "x \<in> set (tabs s Project_members)" "col_is e ''project_id'' w x" "live x"
        "sql_eq e (row_get x ''user_id'') u" unfolding live_member_def by blast
      then show ?thesis unfolding live_member_def pm using False by (auto intro!: bexI [of _ x])
    qed
    have pl: "placed x s'" if "placed x s" for x
    proof -
      from that obtain y where "y \<in> set (tabs s Project_members)" "row_get y ''id'' = row_get x ''id''"
        "row_get y ''project_id'' = row_get x ''project_id''" unfolding placed_def by blast
      then show ?thesis unfolding placed_def pm using get(2,4) by (intro bexI [OF _ imageI [of y]]) auto
    qed
    have dead: "x \<in> set (tabs s Project_members)"
      if "x \<in> set (tabs s' Project_members)" "col_is e ''project_id'' l x" for x
      using that memo_id_exclusive [OF ne r(2)] col_is_cong [OF get(2)] unfolding pm by (auto split: if_splits)
    have rest: "\<forall>t. t \<noteq> Project_members \<longrightarrow> tabs s' t = tabs s t" by (simp add: t')
    show ?thesis using new old pl dead rest by blast
  qed
qed


lemma tombstone_members:
  assumes run: "tombstone e Project_members (row_id m) now s = Inr s'" and keys: "keys_ok e s"
    and ne: "\<not> same_str e l w" and m: "placed m s" "col_is e ''project_id'' l m"
  shows "(\<forall>u. live_member e w u s \<longrightarrow> live_member e w u s') \<and> (\<forall>x. placed x s \<longrightarrow> placed x s') \<and>
    (\<forall>x \<in> set (tabs s' Project_members). live x \<longrightarrow>
       x \<in> set (tabs s Project_members) \<and> \<not> id_is e (row_id m) x) \<and>
    (\<forall>t. t \<noteq> Project_members \<longrightarrow> tabs s' t = tabs s t)"
proof -
  let ?u = "\<lambda>x. row_update x [(''deleted_at'', VTime now), (''updated_at_utc'', VTime now)]"
  have t': "tabs s' = (tabs s)(Project_members := map (\<lambda>x. if id_is e (row_id m) x then ?u x else x)
      (tabs s Project_members))"
    using run by (auto simp: tombstone_def dest!: db_set_tabs cong: if_cong)
  have get: "row_get (?u x) ''id'' = row_get x ''id''" "row_get (?u x) ''project_id'' = row_get x ''project_id''"
    "row_get (?u x) ''deleted_at'' \<noteq> VNull" for x by simp_all
  obtain y where y: "y \<in> set (tabs s Project_members)" "row_get y ''id'' = row_get m ''id''"
    "row_get y ''project_id'' = row_get m ''project_id''" using m(1) unfolding placed_def by blast
  have "id_is e (row_id m) x \<longleftrightarrow> x = y" if "x \<in> set (tabs s Project_members)" for x
    using id_is_unique [OF keys that y(1)] y(2) by (simp add: row_id_def)
  moreover have "\<not> col_is e ''project_id'' w y"
    using m(2) memo_id_exclusive [OF ne] col_is_cong [OF y(3)] by blast
  ultimately have other: "\<not> id_is e (row_id m) x"
    if "x \<in> set (tabs s Project_members)" "col_is e ''project_id'' w x" for x using that by blast
  have keep: "x \<in> set (tabs s' Project_members)"
    if "x \<in> set (tabs s Project_members)" "\<not> id_is e (row_id m) x" for x
    using that by (force simp: t')
  have "live_member e w u s'" if "live_member e w u s" for u
    using that other keep unfolding live_member_def by blast
  moreover have "placed x s'" if "placed x s" for x
  proof -
    from that obtain z where z: "z \<in> set (tabs s Project_members)" "row_get z ''id'' = row_get x ''id''"
      "row_get z ''project_id'' = row_get x ''project_id''" unfolding placed_def by blast
    let ?z = "if id_is e (row_id m) z then ?u z else z"
    have "?z \<in> set (tabs s' Project_members)" using z(1) by (simp add: t' image_iff) blast
    moreover have "row_get ?z ''id'' = row_get x ''id''" "row_get ?z ''project_id'' = row_get x ''project_id''"
      using get(1,2) [of z] z(2,3) by simp_all
    ultimately show ?thesis unfolding placed_def by blast
  qed
  moreover have "x \<in> set (tabs s Project_members) \<and> \<not> id_is e (row_id m) x"
    if "x \<in> set (tabs s' Project_members)" "live x" for x
    using that get(3) by (auto simp: t' split: if_splits)
  moreover have "\<forall>t. t \<noteq> Project_members \<longrightarrow> tabs s' t = tabs s t" by (simp add: t')
  ultimately show ?thesis by blast
qed

lemma merged_members:
  assumes "sfold (merge_member e w now) mems (k, s) = Inr (k', s')" "enforces_ddl e" "keys_ok e s"
    and "\<not> same_str e l w" "\<forall>m \<in> set mems. placed m s \<and> col_is e ''project_id'' l m"
    and "\<forall>x \<in> set (tabs s Project_members). col_is e ''project_id'' l x \<and> live x \<longrightarrow>
       (\<exists>m \<in> set mems. id_is e (row_id m) x)"
  shows "(\<forall>x \<in> set (tabs s' Project_members). col_is e ''project_id'' l x \<longrightarrow> \<not> live x) \<and>
    (\<forall>m \<in> set mems. live_member e w (row_get m ''user_id'') s') \<and>
    (\<forall>u. live_member e w u s \<longrightarrow> live_member e w u s') \<and>
    (\<forall>t. t \<noteq> Project_members \<longrightarrow> tabs s' t = tabs s t)"
  using assms
proof (induction mems arbitrary: k s)
  case (Cons m mems)
  then obtain k1 s1 where "merge_member e w now m (k, s) = Inr (k1, s1)"
    and rest: "sfold (merge_member e w now) mems (k1, s1) = Inr (k', s')" by auto
  then obtain s0 where st: "place_member e w now m (k, s) = Inr (k1, s0)"
    "tombstone e Project_members (row_id m) now s0 = Inr s1" by (auto simp: merge_member_def)
  have k0: "keys_ok e s0" using keys.place_member [of e "(k, s)", OF _ st(1)] Cons.prems(2,3) by simp
  have k1: "keys_ok e s1" using keys.tombstone [OF _ st(2)] k0 Cons.prems(2) by blast
  from place_member_step [OF st(1) Cons.prems(2,3,4)] have a:
    "live_member e w (row_get m ''user_id'') s0" "\<And>u. live_member e w u s \<Longrightarrow> live_member e w u s0"
    "\<And>x. placed x s \<Longrightarrow> placed x s0"
    "\<And>x. x \<in> set (tabs s0 Project_members) \<Longrightarrow> col_is e ''project_id'' l x \<Longrightarrow> live x \<Longrightarrow>
       x \<in> set (tabs s Project_members)" "\<And>t. t \<noteq> Project_members \<Longrightarrow> tabs s0 t = tabs s t" by blast+
  have m: "placed m s0" "col_is e ''project_id'' l m" using Cons.prems(5) a(3) by auto
  from tombstone_members [OF st(2) k0 Cons.prems(4) m] have b:
    "\<And>u. live_member e w u s0 \<Longrightarrow> live_member e w u s1" "\<And>x. placed x s0 \<Longrightarrow> placed x s1"
    "\<And>x. x \<in> set (tabs s1 Project_members) \<Longrightarrow> live x \<Longrightarrow>
       x \<in> set (tabs s0 Project_members) \<and> \<not> id_is e (row_id m) x"
    "\<And>t. t \<noteq> Project_members \<Longrightarrow> tabs s1 t = tabs s0 t" by blast+
  have pl: "\<forall>x \<in> set mems. placed x s1 \<and> col_is e ''project_id'' l x" using Cons.prems(5) a(3) b(2) by simp
  have todo: "\<forall>x \<in> set (tabs s1 Project_members). col_is e ''project_id'' l x \<and> live x \<longrightarrow>
      (\<exists>m \<in> set mems. id_is e (row_id m) x)"
  proof (intro ballI impI)
    fix x assume x: "x \<in> set (tabs s1 Project_members)" "col_is e ''project_id'' l x \<and> live x"
    with b(3) have "x \<in> set (tabs s0 Project_members)" "\<not> id_is e (row_id m) x" by blast+
    with a(4) x(2) Cons.prems(6) show "\<exists>m \<in> set mems. id_is e (row_id m) x" by fastforce
  qed
  from Cons.IH [OF rest Cons.prems(2) k1 Cons.prems(4) pl todo] a b show ?case by auto
qed auto

text \<open>Merging a project into another moves its memos and articles to the survivor, changes no
  other memo, and leaves nothing in the loser.\<close>

theorem merged_project_is_emptied:
  assumes "merge_projects e l w s = Inr (r, s')" "enforces_ddl e" "keys_ok e s" "\<not> same_str e l w"
  shows "(\<forall>m \<in> set (tabs s' Memos). \<not> col_is e ''project_id'' l m) \<and>
    (\<forall>m \<in> set (tabs s Memos). \<exists>m' \<in> set (tabs s' Memos). row_get m' ''id'' = row_get m ''id'' \<and>
       row_get m' ''content'' = row_get m ''content'' \<and>
       (if col_is e ''project_id'' l m then row_get m' ''project_id'' = VStr w else m' = m)) \<and>
    (\<forall>a \<in> set (articles s'). \<not> col_is e ''project_id'' l a) \<and>
    (\<forall>x \<in> set (tabs s' Project_members). col_is e ''project_id'' l x \<longrightarrow> \<not> live x) \<and>
    (\<forall>x \<in> set (tabs s Project_members). col_is e ''project_id'' l x \<and> live x \<longrightarrow>
       live_member e w (row_get x ''user_id'') s') \<and>
    (\<forall>u. live_member e w u s \<longrightarrow> live_member e w u s') \<and>
    (\<forall>p \<in> set (tabs s' Projects). id_is e l p \<longrightarrow> \<not> live p)"
  using assms(1)
proof (cases rule: merge_projects_stages)
  case (1 now s1 loser winner s2 k s4 s5)
  let ?is = "map row_id (select Memos (col_is e ''project_id'' l) s1)"
  let ?s3 = "move_articles e l w s2"
  let ?mems = "select Project_members (\<lambda>r. col_is e ''project_id'' l r \<and> live r) ?s3"
  have t1: "tabs s1 = tabs s" using now_utc_tabs [OF 1(2)] .
  have k1: "keys_ok e s1" using assms(3) t1 by (simp add: keys_ok_def)
  from reparented [OF 1(5)] obtain g where g: "touched_by e ?is [''project_id'', ''updated_at_utc'', ''updated_at''] g"
    "tabs s2 = (tabs s1)(Memos := map g (tabs s1 Memos))"
    "\<forall>r. (\<exists>i \<in> set ?is. id_is e i r) \<longrightarrow> row_get (g r) ''project_id'' = VStr w" by blast
  have hit: "(\<exists>i \<in> set ?is. id_is e i r) \<longleftrightarrow> col_is e ''project_id'' l r" if r: "r \<in> set (tabs s Memos)" for r
    using id_is_unique [OF assms(3) r] r by (auto simp: select_def t1)
  have memo: "if col_is e ''project_id'' l m then row_get (g m) ''project_id'' = VStr w else g m = m"
    "row_get (g m) ''id'' = row_get m ''id''" "row_get (g m) ''content'' = row_get m ''content''"
    if "m \<in> set (tabs s Memos)" for m
    using g(1,3) hit [OF that] unfolding touched_by_def by auto
  have t3: "tabs ?s3 = tabs s2" by (simp add: move_articles_def)
  have k2: "keys_ok e s2"
    using sfold_invariant [OF 1(5), where P = "\<lambda>s. enforces_ddl e \<longrightarrow> keys_ok e s"] keys.reparent k1 assms(2) by blast
  then have k3: "keys_ok e ?s3" by (simp add: move_articles_def)
  have self: "id_is e (row_id x) x" if "x \<in> set (tabs ?s3 Project_members)" for x using id_is_self [OF k3 that] .
  have pl: "\<forall>m \<in> set ?mems. placed m ?s3 \<and> col_is e ''project_id'' l m"
    by (auto simp: select_def placed_def)
  have todo: "\<forall>x \<in> set (tabs ?s3 Project_members). col_is e ''project_id'' l x \<and> live x \<longrightarrow>
      (\<exists>m \<in> set ?mems. id_is e (row_id m) x)" using self by (auto simp: select_def)
  from merged_members [OF 1(6) assms(2) k3 assms(4) pl todo] have mem:
    "\<forall>x \<in> set (tabs s4 Project_members). col_is e ''project_id'' l x \<longrightarrow> \<not> live x"
    "\<forall>m \<in> set ?mems. live_member e w (row_get m ''user_id'') s4"
    "\<forall>u. live_member e w u ?s3 \<longrightarrow> live_member e w u s4"
    "\<forall>t. t \<noteq> Project_members \<longrightarrow> tabs s4 t = tabs ?s3 t" by blast+
  have t': "tabs s' = tabs s5" "articles s' = articles s5"
    using 1(8) by (simp_all add: resolve_both_def resolve_issues_def now_utc_def Let_def case_prod_beta)
  have t5: "\<forall>t. t \<noteq> Projects \<longrightarrow> tabs s5 t = tabs s4 t" "\<forall>p \<in> set (tabs s5 Projects). id_is e l p \<longrightarrow> \<not> live p"
    using 1(7) by (auto simp: tombstone_def row_get_touch dest!: db_set_tabs)
  have "books_kept ?s3 (snd (k, s4))"
  proof (rule sfold_invariant [OF 1(6), where P = "\<lambda>p. books_kept ?s3 (snd p)"])
    show "books_kept ?s3 (snd (0, ?s3))" by (simp add: books_kept_def)
  qed (erule books.merge_member)
  then have "books_kept ?s3 s5" using books.tombstone [OF _ 1(7)] by simp
  then have "articles s' = articles ?s3" using t'(2) by (simp add: books_kept_def)
  then have art: "\<forall>a \<in> set (articles s'). \<not> col_is e ''project_id'' l a"
    using assms(4) same_str_sym by (auto simp: move_articles_def col_is_def)
  have memos: "tabs s' Memos = map g (tabs s Memos)" using t'(1) t5(1) mem(4) t3 g(2) t1 by simp
  have pm0: "tabs ?s3 Project_members = tabs s Project_members" using t3 g(2) t1 by simp
  have pm: "tabs s' Project_members = tabs s4 Project_members" using t'(1) t5(1) by simp
  have lm: "live_member e w u s' = live_member e w u s4" "live_member e w u s = live_member e w u ?s3" for u
    by (simp_all add: live_member_def pm pm0)
  have "\<not> col_is e ''project_id'' l (g m)" if "m \<in> set (tabs s Memos)" for m
    using memo(1) [OF that] assms(4) same_str_sym by (auto simp: col_is_def split: if_splits)
  moreover have "\<exists>m' \<in> set (tabs s' Memos). row_get m' ''id'' = row_get m ''id'' \<and>
       row_get m' ''content'' = row_get m ''content'' \<and>
       (if col_is e ''project_id'' l m then row_get m' ''project_id'' = VStr w else m' = m)"
    if "m \<in> set (tabs s Memos)" for m
    using memo [OF that] that by (intro bexI [of _ "g m"]) (simp_all add: memos)
  moreover have "\<forall>p \<in> set (tabs s' Projects). id_is e l p \<longrightarrow> \<not> live p" using t5(2) t'(1) by simp
  moreover have "live_member e w (row_get x ''user_id'') s'"
    if "x \<in> set (tabs s Project_members)" "col_is e ''project_id'' l x" "live x" for x
    using mem(2) that by (simp add: lm select_def pm0)
  ultimately show ?thesis using art mem(1,3) by (simp add: memos pm lm)
qed


section \<open>Two merges\<close>

definition merge_store :: store where
  "merge_store = sample_store [sample_project ''p'' ''home'' 0, sample_project ''q'' ''Home'' 0]
     [sample_memo ''m'' ''p'' ''todo'' ''text'' 0, sample_memo ''n'' ''q'' ''todo'' ''other'' 0]
     [sample_version ''v1'' ''m'' ''first'' 1, sample_version ''v2'' ''n'' ''older'' 1]"

lemma merge_store_ok:
  "keys_ok sample_env merge_store" "\<not> same_str sample_env ''n'' ''m''" "\<not> same_str sample_env ''q'' ''p''"
  "distinct (map (\<lambda>x. row_get x ''version'') (memo_versions_of sample_env ''m'' merge_store))"
proof -
  have "keys_ok sample_env merge_store \<and> \<not> same_str sample_env ''n'' ''m'' \<and> \<not> same_str sample_env ''q'' ''p'' \<and>
    distinct (map (\<lambda>x. row_get x ''version'') (memo_versions_of sample_env ''m'' merge_store))" by code_simp
  then show "keys_ok sample_env merge_store" "\<not> same_str sample_env ''n'' ''m''" "\<not> same_str sample_env ''q'' ''p''"
    "distinct (map (\<lambda>x. row_get x ''version'') (memo_versions_of sample_env ''m'' merge_store))" by blast+
qed

lemma merge_runs:
  obtains r s r' s' where "merge_memos sample_env ''n'' ''m'' merge_store = Inr (r, s)"
    "merge_projects sample_env ''q'' ''p'' merge_store = Inr (r', s')"
proof -
  have "ok_with (\<lambda>r s. True) (merge_memos sample_env ''n'' ''m'' merge_store) \<and>
    ok_with (\<lambda>r s. True) (merge_projects sample_env ''q'' ''p'' merge_store)" by code_simp
  then show ?thesis using that by (elim conjE ok_withE)
qed

theorem merge_loses_nothing_witness:
  "\<exists>r s. merge_memos sample_env ''n'' ''m'' merge_store = Inr (r, s) \<and>
     memo_versions_of sample_env ''n'' s = []"
proof -
  obtain r s where run: "merge_memos sample_env ''n'' ''m'' merge_store = Inr (r, s)" by (rule merge_runs)
  from merge_loses_nothing [OF run sample_enforces_ddl merge_store_ok(1,2)] run show ?thesis by blast
qed

theorem merged_versions_stay_apart_witness:
  "\<exists>r s. merge_memos sample_env ''n'' ''m'' merge_store = Inr (r, s) \<and>
     distinct (map (\<lambda>x. row_get x ''version'') (memo_versions_of sample_env ''m'' s)) \<and>
     mr_latest r = Some (next_version sample_env ''m'' s - 1)"
proof -
  obtain r s where run: "merge_memos sample_env ''n'' ''m'' merge_store = Inr (r, s)" by (rule merge_runs)
  from merged_versions_stay_apart [OF run sample_enforces_ddl merge_store_ok(1,2,4)] run show ?thesis by blast
qed

theorem merged_project_is_emptied_witness:
  "\<exists>r s. merge_projects sample_env ''q'' ''p'' merge_store = Inr (r, s) \<and>
     (\<forall>m \<in> set (tabs s Memos). \<not> col_is sample_env ''project_id'' ''q'' m)"
proof -
  obtain r s where run: "merge_projects sample_env ''q'' ''p'' merge_store = Inr (r, s)" by (rule merge_runs)
  from merged_project_is_emptied [OF run sample_enforces_ddl merge_store_ok(1,3)] run show ?thesis by blast
qed

end
