(* ===== verification/Access.thy ===== *)
theory Access
  imports Sync_Apply
begin

text \<open>
  Who may do what: the roles of \<^verbatim>\<open>src/utils.py\<close>, the admin guards of
  \<^verbatim>\<open>src/auth_utils.py\<close>, the permission claim of \<^verbatim>\<open>src/token_verifier.py\<close>, and the account
  and credential checks of \<^verbatim>\<open>src/services/sync_auth.py\<close>. Verifying a JWT and asking the
  authentication service are parameters.
\<close>

section \<open>Project roles\<close>

definition WRITE_ROLES :: "string list" where "WRITE_ROLES = [''owner'', ''editor'']"

definition is_service_owner :: "user \<Rightarrow> bool" where
  "is_service_owner u = (us_permission u = Some ''owner'')"

text \<open>The live membership rows of a user in a project.\<close>

definition membership :: "env \<Rightarrow> string \<Rightarrow> string \<Rightarrow> store \<Rightarrow> row option" where
  "membership e p u s =
     find (\<lambda>m. col_is e ''project_id'' p m \<and> col_is e ''user_id'' u m \<and> live m) (tabs s Project_members)"

definition check_project_membership :: "env \<Rightarrow> string \<Rightarrow> user \<Rightarrow> store \<Rightarrow> bool" where
  "check_project_membership e p u s = (is_service_owner u \<or> membership e p (us_id u) s \<noteq> None)"

definition get_project_role :: "env \<Rightarrow> string \<Rightarrow> user \<Rightarrow> store \<Rightarrow> string option" where
  "get_project_role e p u s =
     (if is_service_owner u then Some ''owner''
      else case membership e p (us_id u) s of None \<Rightarrow> None | Some m \<Rightarrow> row_str m ''role'')"

definition can_write_project :: "env \<Rightarrow> string \<Rightarrow> user \<Rightarrow> store \<Rightarrow> bool" where
  "can_write_project e p u s =
     (case get_project_role e p u s of None \<Rightarrow> False | Some r \<Rightarrow> r \<in> set WRITE_ROLES)"

definition can_manage_project :: "env \<Rightarrow> string \<Rightarrow> user \<Rightarrow> store \<Rightarrow> bool" where
  "can_manage_project e p u s = (get_project_role e p u s = Some ''owner'')"

lemma can_write_iff:
  "can_write_project e p u s \<longleftrightarrow> get_project_role e p u s \<in> {Some ''owner'', Some ''editor''}"
  by (auto simp: can_write_project_def WRITE_ROLES_def split: option.splits)

lemma manage_writes: "can_manage_project e p u s \<Longrightarrow> can_write_project e p u s"
  by (simp add: can_manage_project_def can_write_iff)

lemma role_member: "get_project_role e p u s = Some r \<Longrightarrow> check_project_membership e p u s"
  by (auto simp: get_project_role_def check_project_membership_def split: if_splits option.splits)

lemma write_member: "can_write_project e p u s \<Longrightarrow> check_project_membership e p u s"
  using role_member by (auto simp: can_write_iff)

section \<open>Permissions\<close>

definition ADMIN_PERMISSIONS :: "string list" where
  "ADMIN_PERMISSIONS = [''superadmin'', ''owner'', ''admin'']"

definition SERVICE_PERMISSIONS :: "string list" where
  "SERVICE_PERMISSIONS = [''superadmin'', ''owner'', ''admin'', ''user'', ''visitor'']"

definition is_admin :: "user \<Rightarrow> bool" where
  "is_admin u = (case us_permission u of None \<Rightarrow> False | Some p \<Rightarrow> p \<in> set ADMIN_PERMISSIONS)"

definition require_admin :: "user \<Rightarrow> exn + user" where
  "require_admin u = (if is_admin u then Inr u else Inl (HttpError 403 ''Admin access required''))"

definition require_super_admin :: "user \<Rightarrow> exn + user" where
  "require_super_admin u =
     (if us_permission u = Some ''owner'' then Inr u
      else Inl (HttpError 403 ''Super admin access required''))"

text \<open>The claims of a verified token that the source reads.\<close>

record claims =
  cl_key :: "string option"
  cl_permission :: "string option"
  cl_sub :: "string option"
  cl_preferred :: "string option"
  cl_username :: "string option"
  cl_email :: "string option"
  cl_name :: "string option"

definition get_permission_from_payload :: "claims \<Rightarrow> exn + string" where
  "get_permission_from_payload c =
     (if cl_key c \<noteq> Some ''todo'' then Inl (JWTError ''Invalid service permission'')
      else let p = (case cl_permission c of None \<Rightarrow> ''visitor'' | Some q \<Rightarrow> q)
           in if p \<in> set SERVICE_PERMISSIONS then Inr p
              else Inl (JWTError ''Invalid service permission''))"

definition build_user_from_payload :: "claims \<Rightarrow> exn + user" where
  "build_user_from_payload c =
     sbind (get_permission_from_payload c)
       (\<lambda>p. if blank (cl_sub c) then Inl (JWTError ''Invalid token'')
            else let a = the (cl_sub c);
                     login = first_of (cl_preferred c) (first_of (cl_username c) (first_of (cl_email c) (Some a)));
                     display = first_of (cl_name c) (first_of (cl_preferred c) (first_of (cl_username c) (Some a)))
                 in Inr \<lparr>us_id = a, us_login = login, us_username = login, us_display = display,
                         us_name = display, us_email = cl_email c, us_permission = Some p\<rparr>)"

text \<open>
  \<open>get_current_user\<close>: \<open>cookie\<close> is what the session service answers for the request's cookie
  (nothing without one), \<open>bearer\<close> the verified claims of a bearer token (an error when its
  signature or issuer is wrong).
\<close>

definition get_current_user ::
  "(exn + user option) option \<Rightarrow> (exn + claims) option \<Rightarrow> exn + user" where
  "get_current_user cookie bearer =
     (let by_token =
        (case bearer of None \<Rightarrow> Inl (HttpError 401 ''Not authenticated'')
         | Some (Inl x) \<Rightarrow> Inl (HttpError 401 ''Invalid token'')
         | Some (Inr c) \<Rightarrow>
             (case build_user_from_payload c of
                Inl x \<Rightarrow> Inl (HttpError 401 ''Invalid token'')
              | Inr u \<Rightarrow> if us_permission u = Some ''visitor''
                         then Inl (HttpError 403 ''Todo access approval required'') else Inr u))
      in case cookie of
           None \<Rightarrow> by_token
         | Some (Inl x) \<Rightarrow> if bearer = None then Inl x else by_token
         | Some (Inr None) \<Rightarrow> by_token
         | Some (Inr (Some u)) \<Rightarrow>
             if us_permission u = Some ''visitor''
             then Inl (HttpError 403 ''Todo access approval required'') else Inr u)"

section \<open>The account of a peer\<close>

text \<open>
  \<open>SELECT DISTINCT owner_id\<close>: one representative of each class of the collation, sorted by
  Python as byte strings.
\<close>

fun distinct_by :: "('a \<Rightarrow> 'b) \<Rightarrow> 'a list \<Rightarrow> 'a list" where
  "distinct_by f [] = []"
| "distinct_by f (x # xs) = x # distinct_by f (filter (\<lambda>y. f y \<noteq> f x) xs)"

fun str_le :: "string \<Rightarrow> string \<Rightarrow> bool" where
  "str_le [] ys = True"
| "str_le (x # xs) [] = False"
| "str_le (x # xs) (y # ys) =
     ((of_char x :: nat) < of_char y \<or> (of_char x :: nat) = of_char y \<and> str_le xs ys)"

fun insert_str :: "string \<Rightarrow> string list \<Rightarrow> string list" where
  "insert_str x [] = [x]"
| "insert_str x (y # ys) = (if str_le x y then x # y # ys else y # insert_str x ys)"

definition sort_str :: "string list \<Rightarrow> string list" where
  "sort_str xs = foldr insert_str xs []"

lemma insert_str_set: "set (insert_str x xs) = insert x (set xs)"
  by (induction xs) auto

lemma sort_str_set [simp]: "set (sort_str xs) = set xs"
  by (induction xs) (auto simp: sort_str_def insert_str_set)

definition distinct_owner_ids :: "env \<Rightarrow> store \<Rightarrow> string list" where
  "distinct_owner_ids e s =
     sort_str (distinct_by (collate e)
       (List.map_filter (\<lambda>p. case row_str p ''owner_id'' of None \<Rightarrow> None
          | Some o' \<Rightarrow> if same_str e o' [] then None else Some o') (tabs s Projects)))"

definition resolve_account_id :: "env \<Rightarrow> string \<Rightarrow> store \<Rightarrow> exn + string" where
  "resolve_account_id e configured s =
     (if configured \<noteq> [] then Inr configured
      else case distinct_owner_ids e s of
             [] \<Rightarrow> Inl (HttpError 503 ''account_unresolved'')
           | [a] \<Rightarrow> Inr a
           | _ \<Rightarrow> Inl (HttpError 503 ''account_unresolved''))"

end
