(* ===== verification/Peer.thy ===== *)
theory Peer
  imports Merge
begin

text \<open>
  The way to the other node: the JSON client of \<^verbatim>\<open>src/services/http_json.py\<close>, the peer client
  of \<^verbatim>\<open>src/services/sync_peer.py\<close>, the state the daemon shares with the API
  (\<^verbatim>\<open>src/services/sync_runtime.py\<close>) and \<open>run_merge\<close>, which decides the node that merges
  (\<^verbatim>\<open>src/services/merge.py\<close>). What the network does with a request and what \<open>json.loads\<close>
  makes of a body are parameters; bodies that are not UTF-8 are not modelled.
\<close>

section \<open>JSON over HTTP\<close>

datatype json =
    JNull | JBool bool | JInt int | JStr string | JList "json list" | JObj "(string \<times> json) list"

definition is_object :: "json \<Rightarrow> bool" where
  "is_object j = (case j of JObj fs \<Rightarrow> True | _ \<Rightarrow> False)"

text \<open>\<open>obj.get(k)\<close>; a missing key reads as None.\<close>

definition json_get :: "json \<Rightarrow> string \<Rightarrow> json" where
  "json_get j k =
     (case j of JObj fs \<Rightarrow> (case map_of fs k of None \<Rightarrow> JNull | Some v \<Rightarrow> v) | _ \<Rightarrow> JNull)"

record json_response =
  js_status :: int
  js_data :: json

definition response_ok :: "json_response \<Rightarrow> bool" where
  "response_ok r = (200 \<le> js_status r \<and> js_status r < 300)"

definition decode_body :: "(string \<Rightarrow> json option) \<Rightarrow> string \<Rightarrow> json" where
  "decode_body loads raw =
     (if raw = [] then JNull else case loads raw of None \<Rightarrow> JStr raw | Some j \<Rightarrow> j)"

text \<open>What \<open>urlopen\<close> does: an answer, an HTTP error with a body, no connection, a timeout.\<close>

datatype wire = Answered int string | HttpFailed int string | NoConnection string | TimedOut

text \<open>\<open>Inl\<close> is \<open>HttpUnreachable\<close>.\<close>

definition request_json :: "(string \<Rightarrow> json option) \<Rightarrow> wire \<Rightarrow> string + json_response" where
  "request_json loads w =
     (case w of
        Answered st raw \<Rightarrow> Inr \<lparr>js_status = st, js_data = decode_body loads raw\<rparr>
      | HttpFailed st raw \<Rightarrow> Inr \<lparr>js_status = st, js_data = decode_body loads raw\<rparr>
      | NoConnection why \<Rightarrow> Inl why
      | TimedOut \<Rightarrow> Inl ''timeout'')"

section \<open>The peer client\<close>

definition rstrip_slash :: "string \<Rightarrow> string" where
  "rstrip_slash s = rev (dropWhile (\<lambda>c. c = CHR ''/'') (rev s))"

definition ends_with :: "string \<Rightarrow> string \<Rightarrow> bool" where
  "ends_with s suffix = (length suffix \<le> length s \<and> drop (length s - length suffix) s = suffix)"

definition normalize_peer_root :: "string \<Rightarrow> string" where
  "normalize_peer_root url =
     (let root = rstrip_slash (strip url)
      in if ends_with root ''/api'' then take (length root - length ''/api'') root else root)"

record peer_cfg =
  pc_root :: string
  pc_key_id :: string
  pc_secret :: string

definition make_peer :: "string \<Rightarrow> string \<Rightarrow> string \<Rightarrow> peer_cfg" where
  "make_peer url key secret =
     \<lparr>pc_root = normalize_peer_root url, pc_key_id = key, pc_secret = secret\<rparr>"

definition configured :: "peer_cfg \<Rightarrow> bool" where
  "configured p = (pc_root p \<noteq> [] \<and> pc_key_id p \<noteq> [] \<and> pc_secret p \<noteq> [])"

definition auth_headers :: "peer_cfg \<Rightarrow> (string \<times> string) list" where
  "auth_headers p =
     [(''x-auth-service-key-id'', pc_key_id p), (''x-auth-service-secret'', pc_secret p)]"

text \<open>\<open>SyncPeerUnreachable\<close> and \<open>SyncPeerError\<close>\<close>

datatype peer_fail = Unreachable string | PeerError int json

text \<open>\<open>_call\<close>: \<open>send\<close> stands for the network.\<close>

definition call ::
  "(string \<times> string \<times> json \<times> (string \<times> string) list \<Rightarrow> string + json_response) \<Rightarrow> peer_cfg
     \<Rightarrow> string \<times> string \<times> json \<Rightarrow> peer_fail + (string \<times> json) list" where
  "call send p req =
     (case req of (verb, path, body) \<Rightarrow>
        if \<not> configured p then Inl (PeerError 0 (JStr ''peer not configured''))
        else case send (verb, pc_root p @ path, body, auth_headers p) of
               Inl why \<Rightarrow> Inl (Unreachable why)
             | Inr r \<Rightarrow>
                 if \<not> response_ok r then Inl (PeerError (js_status r) (js_data r))
                 else case js_data r of
                        JObj fs \<Rightarrow> Inr fs
                      | _ \<Rightarrow> Inl (PeerError (js_status r) (JStr ''expected a JSON object'')))"

text \<open>\<open>urllib.parse.quote\<close>, with \<open>/\<close> kept as it is.\<close>

definition unreserved :: "char \<Rightarrow> bool" where
  "unreserved c =
     (let n = (of_char c :: nat)
      in 48 \<le> n \<and> n \<le> 57 \<or> 65 \<le> n \<and> n \<le> 90 \<or> 97 \<le> n \<and> n \<le> 122 \<or> c \<in> set ''_.-~/'')"

definition hex_digit :: "nat \<Rightarrow> char" where
  "hex_digit n = ''0123456789ABCDEF'' ! n"

definition quote :: "string \<Rightarrow> string" where
  "quote s = concat (map (\<lambda>c. if unreserved c then [c]
     else [CHR 0x25, hex_digit (of_char c div 16), hex_digit (of_char c mod 16)]) s)"

definition int_str :: "int \<Rightarrow> string" where
  "int_str i = (if i < 0 then CHR ''-'' # nat_str (nat (- i)) else nat_str (nat i))"

definition handshake_request :: "string \<times> string \<times> json" where
  "handshake_request = (''GET'', ''/api/sync/handshake'', JNull)"

definition changes_request :: "int \<Rightarrow> int \<Rightarrow> string \<times> string \<times> json" where
  "changes_request since limit =
     (''GET'', ''/api/sync/changes?since='' @ int_str since @ ''&limit='' @ int_str limit, JNull)"

definition push_request :: "string \<Rightarrow> json list \<Rightarrow> string \<times> string \<times> json" where
  "push_request client changes =
     (''POST'', ''/api/sync/push'', JObj [(''clientId'', JStr client),
        (''schemaVersion'', JInt SCHEMA_VERSION), (''changes'', JList changes)])"

definition lock_acquire_request :: "string \<Rightarrow> string \<Rightarrow> string \<Rightarrow> string \<Rightarrow> string \<times> string \<times> json" where
  "lock_acquire_request memo owner user_id name =
     (''POST'', ''/api/sync/locks/'' @ quote memo @ ''/acquire'',
      JObj [(''ownerKey'', JStr owner), (''userId'', JStr user_id), (''displayName'', JStr name)])"

definition lock_release_request :: "string \<Rightarrow> string \<Rightarrow> string \<times> string \<times> json" where
  "lock_release_request memo owner =
     (''POST'', ''/api/sync/locks/'' @ quote memo @ ''/release'', JObj [(''ownerKey'', JStr owner)])"

definition lock_holder_request :: "string \<Rightarrow> string \<times> string \<times> json" where
  "lock_holder_request memo = (''GET'', ''/api/sync/locks/'' @ quote memo, JNull)"

definition merge_memo_request :: "string \<Rightarrow> string \<Rightarrow> string \<times> string \<times> json" where
  "merge_memo_request loser winner =
     (''POST'', ''/api/sync/merge/memos/'' @ quote loser @ ''/merge-into/'' @ quote winner, JNull)"

definition merge_project_request :: "string \<Rightarrow> string \<Rightarrow> string \<times> string \<times> json" where
  "merge_project_request loser winner =
     (''POST'', ''/api/sync/merge/projects/'' @ quote loser @ ''/merge-into/'' @ quote winner, JNull)"

section \<open>The runtime state\<close>

text \<open>
  \<open>rt_wake\<close> is the wake event once one is bound, and whether it is set. The clock skew is kept
  in microseconds; the source rounds it to milliseconds for display.
\<close>

record sync_runtime =
  rt_online :: bool
  rt_error :: "string option"
  rt_error_kind :: "string option"
  rt_cycle_at :: "int option"
  rt_ok_at :: "int option"
  rt_peer_schema :: "int option"
  rt_skew :: "int option"
  rt_blocked :: "string option"
  rt_running :: bool
  rt_wake :: "bool option"

definition fresh_runtime :: sync_runtime where
  "fresh_runtime = \<lparr>rt_online = False, rt_error = None, rt_error_kind = None, rt_cycle_at = None,
     rt_ok_at = None, rt_peer_schema = None, rt_skew = None, rt_blocked = None,
     rt_running = False, rt_wake = None\<rparr>"

definition bind_wake_event :: "bool \<Rightarrow> sync_runtime \<Rightarrow> sync_runtime" where
  "bind_wake_event b r = r\<lparr>rt_wake := Some b\<rparr>"

definition request_cycle :: "sync_runtime \<Rightarrow> sync_runtime" where
  "request_cycle r = (case rt_wake r of None \<Rightarrow> r | Some b \<Rightarrow> r\<lparr>rt_wake := Some True\<rparr>)"

definition mark_online :: "int \<Rightarrow> sync_runtime \<Rightarrow> sync_runtime" where
  "mark_online now r =
     r\<lparr>rt_online := True, rt_error := None, rt_error_kind := None, rt_ok_at := Some now\<rparr>"

definition mark_offline :: "string \<Rightarrow> sync_runtime \<Rightarrow> sync_runtime" where
  "mark_offline why r =
     r\<lparr>rt_online := False, rt_error := Some why, rt_error_kind := Some ''offline''\<rparr>"

definition mark_blocked :: "string \<Rightarrow> string \<Rightarrow> sync_runtime \<Rightarrow> sync_runtime" where
  "mark_blocked k why r =
     r\<lparr>rt_error := Some why, rt_error_kind := Some k, rt_blocked := Some why\<rparr>"

definition clear_blocked :: "sync_runtime \<Rightarrow> sync_runtime" where
  "clear_blocked r = r\<lparr>rt_blocked := None\<rparr>"

definition mark_cycle :: "int \<Rightarrow> sync_runtime \<Rightarrow> sync_runtime" where
  "mark_cycle now r = r\<lparr>rt_cycle_at := Some now\<rparr>"

text \<open>\<open>snapshot\<close>: the record, its two instants in wire form.\<close>

definition runtime_snapshot :: "sync_runtime \<Rightarrow> sync_runtime \<times> string option \<times> string option" where
  "runtime_snapshot r = (r, map_option iso_db (rt_cycle_at r), map_option iso_db (rt_ok_at r))"

section \<open>Where a merge runs\<close>

datatype merged = MergedRemotely "(string \<times> json) list" | MergedHere merge_result

text \<open>\<open>str(message)\<close>; \<open>show\<close> is \<open>str\<close> of the JSON values that are no string.\<close>

definition error_text :: "(json \<Rightarrow> string) \<Rightarrow> json \<Rightarrow> string" where
  "error_text shown detail =
     (let m = (if is_object detail then json_get detail ''detail'' else detail)
      in case m of JStr t \<Rightarrow> t | _ \<Rightarrow> shown m)"

text \<open>
  \<open>client\<close> is \<open>runs_sync_daemon()\<close>, \<open>remote\<close> answers \<open>merge_memo\<close> or \<open>merge_project\<close> of the peer.
\<close>

definition run_merge ::
  "env \<Rightarrow> (json \<Rightarrow> string) \<Rightarrow> bool \<Rightarrow> peer_cfg
     \<Rightarrow> (string \<times> string \<times> json \<Rightarrow> peer_fail + (string \<times> json) list)
     \<Rightarrow> string \<Rightarrow> string \<Rightarrow> string \<Rightarrow> sync_runtime \<times> store \<Rightarrow> (exn + merged) \<times> sync_runtime \<times> store" where
  "run_merge e shown client p remote k loser winner w =
     (case w of (rt, s) \<Rightarrow>
        if client then
          if \<not> rt_online rt \<or> \<not> configured p then (Inl (MergeErr 409 ''offline''), rt, s)
          else case remote (if k = ''memo'' then merge_memo_request loser winner
                            else merge_project_request loser winner) of
                 Inl (Unreachable why) \<Rightarrow>
                   (Inl (MergeErr 409 (''unreachable: '' @ why)), mark_offline why rt, s)
               | Inl (PeerError st detail) \<Rightarrow>
                   (Inl (MergeErr (if st = 0 then 502 else st) (error_text shown detail)), rt, s)
               | Inr fs \<Rightarrow> (Inr (MergedRemotely fs), request_cycle rt, s)
        else case with_connection False
                    ((if k = ''memo'' then merge_memos else merge_projects) e loser winner) s of
               (Inl x, s') \<Rightarrow> (Inl x, rt, s')
             | (Inr m, s') \<Rightarrow> (Inr (MergedHere m), rt, s'))"

lemma client_never_merges_here:
  "run_merge e shown True p remote k loser winner (rt, s) = (r, rt', s') \<Longrightarrow>
     s' = s \<and> (\<forall>m. r \<noteq> Inr (MergedHere m)) \<and> (\<not> rt_online rt \<longrightarrow> r = Inl (MergeErr 409 ''offline'') \<and> rt' = rt)"
  by (auto simp: run_merge_def split: if_splits sum.splits peer_fail.splits)

lemma normalized_root:
  "normalize_peer_root ''https://todo.example/api/ '' = ''https://todo.example''"
  by code_simp

lemma call_configured: "call send p req = Inr fs \<Longrightarrow> configured p"
  by (auto simp: call_def split: prod.splits if_splits)

lemma call_unreachable:
  "call send p req = Inl (Unreachable why) \<longleftrightarrow>
     configured p \<and> (case req of (verb, path, body) \<Rightarrow>
       send (verb, pc_root p @ path, body, auth_headers p) = Inl why)"
  by (auto simp: call_def split: prod.splits sum.splits json.splits)

end
