(* ===== verification/Sync_Auth.thy ===== *)
theory Sync_Auth
  imports Access Peer
begin

text \<open>
  \<^verbatim>\<open>src/services/sync_auth.py\<close>: who a peer is. The credential of a request is shown to the
  authentication service, whose verdict is kept for a while; the key must also be on this
  node's own list. The service, SHA-256 and the monotonic clock are parameters: \<open>ae_send\<close> and
  \<open>ae_mono\<close> take the number of the event, so two calls may get different answers.
\<close>

section \<open>State\<close>

record verdict =
  vc_valid :: bool
  vc_reason :: "string option"
  vc_permission :: string
  vc_expires :: int

record auth_cfg =
  ac_serves :: bool
  ac_allowed :: "string list"
  ac_key_id :: string
  ac_secret :: string
  ac_url :: string
  ac_scope :: string
  ac_seconds :: int

record auth_env =
  ae_mono :: "nat \<Rightarrow> int"
  ae_digest :: "string \<Rightarrow> string"
  ae_send :: "nat \<Rightarrow> string \<times> string \<times> json \<times> (string \<times> string) list \<Rightarrow> string + json_response"
  ae_shown :: "json \<Rightarrow> string"

record auth_state =
  au_cache :: "(string \<times> verdict) list"
  au_event :: nat

definition no_verdicts :: auth_state where
  "no_verdicts = \<lparr>au_cache = [], au_event = 0\<rparr>"

record principal =
  pr_account :: string
  pr_permission :: string
  pr_kind :: string
  pr_subject :: string

text \<open>\<open>SyncAuthError\<close>, \<open>SyncAuthUnavailable\<close>, and the \<open>TypeError\<close> of \<open>compare_digest\<close>.\<close>

datatype auth_fail = AuthError int string | AuthUnavailable string | AuthCrash string

section \<open>The cache of verdicts\<close>

definition cache_key :: "auth_env \<Rightarrow> string \<Rightarrow> string \<Rightarrow> string" where
  "cache_key e k sec = ae_digest e (k @ '':'' @ sec)"

definition get_cached ::
  "auth_env \<Rightarrow> string \<Rightarrow> string \<Rightarrow> auth_state \<Rightarrow> verdict option \<times> auth_state" where
  "get_cached e k sec a =
     (case map_of (au_cache a) (cache_key e k sec) of
        None \<Rightarrow> (None, a)
      | Some v \<Rightarrow>
          if vc_expires v \<le> ae_mono e (au_event a)
          then (None, a\<lparr>au_event := Suc (au_event a),
                        au_cache := AList.delete (cache_key e k sec) (au_cache a)\<rparr>)
          else (Some v, a\<lparr>au_event := Suc (au_event a)\<rparr>))"

definition store_verdict ::
  "auth_cfg \<Rightarrow> auth_env \<Rightarrow> string \<Rightarrow> string \<Rightarrow> bool \<Rightarrow> string option \<Rightarrow> string \<Rightarrow> auth_state
     \<Rightarrow> auth_state" where
  "store_verdict g e k sec ok why perm a =
     a\<lparr>au_event := Suc (au_event a),
       au_cache := AList.update (cache_key e k sec)
         \<lparr>vc_valid = ok, vc_reason = why, vc_permission = perm,
          vc_expires = ae_mono e (au_event a) + ac_seconds g\<rparr> (au_cache a)\<rparr>"

definition clear_cache :: "auth_state \<Rightarrow> auth_state" where
  "clear_cache a = a\<lparr>au_cache := []\<rparr>"

section \<open>The node's own list\<close>

definition ascii :: "string \<Rightarrow> bool" where
  "ascii s = (\<forall>c \<in> set s. (of_char c :: nat) < 128)"

definition require_server_allowlist :: "auth_cfg \<Rightarrow> auth_fail + unit" where
  "require_server_allowlist g =
     (if ac_serves g \<and> ac_allowed g = [] then Inl (AuthUnavailable ''SYNC_ALLOWED_KEY_IDS'')
      else Inr ())"

text \<open>Every entry is compared; \<open>compare_digest\<close> takes ASCII text only.\<close>

fun compare_all :: "string \<Rightarrow> string list \<Rightarrow> bool \<Rightarrow> auth_fail + bool" where
  "compare_all k [] matched = Inr matched"
| "compare_all k (x # xs) matched =
     (if \<not> ascii k \<or> \<not> ascii x then Inl (AuthCrash ''TypeError'')
      else compare_all k xs (matched \<or> k = x))"

definition require_allowed_key_id :: "auth_cfg \<Rightarrow> string \<Rightarrow> auth_fail + unit" where
  "require_allowed_key_id g k =
     (if \<not> ac_serves g then Inr ()
      else sbind (compare_all k (ac_allowed g) False)
        (\<lambda>m. if m then Inr () else Inl (AuthError 403 ''credential_not_allowed'')))"

section \<open>Verifying a credential\<close>

definition KEY_HEADER :: string where "KEY_HEADER = ''x-auth-service-key-id''"
definition SECRET_HEADER :: string where "SECRET_HEADER = ''x-auth-service-secret''"
definition CREDENTIAL_PERMISSION :: string where "CREDENTIAL_PERMISSION = ''owner''"

definition header :: "(string \<times> string) list \<Rightarrow> string \<Rightarrow> string" where
  "header hs n = (case map_of hs n of None \<Rightarrow> [] | Some v \<Rightarrow> v)"

definition handles :: "(string \<times> string) list \<Rightarrow> bool" where
  "handles hs = (header hs KEY_HEADER \<noteq> [])"

fun json_truthy :: "json \<Rightarrow> bool" where
  "json_truthy JNull = False"
| "json_truthy (JBool b) = b"
| "json_truthy (JInt i) = (i \<noteq> 0)"
| "json_truthy (JStr s) = (s \<noteq> [])"
| "json_truthy (JList xs) = (xs \<noteq> [])"
| "json_truthy (JObj fs) = (fs \<noteq> [])"

definition verify_request ::
  "auth_cfg \<Rightarrow> string \<Rightarrow> string \<Rightarrow> string \<times> string \<times> json \<times> (string \<times> string) list" where
  "verify_request g k sec =
     (''POST'', ac_url g,
      JObj [(''keyId'', JStr k), (''secret'', JStr sec), (''requiredScope'', JStr (ac_scope g))],
      [(KEY_HEADER, ac_key_id g), (SECRET_HEADER, ac_secret g)])"

text \<open>\<open>str(verdict.get("reason") or "invalid_credential")\<close>\<close>

definition verdict_reason :: "auth_env \<Rightarrow> json \<Rightarrow> string" where
  "verdict_reason e d =
     (let r = json_get d ''reason''
      in if \<not> json_truthy r then ''invalid_credential''
         else case r of JStr t \<Rightarrow> t | _ \<Rightarrow> ae_shown e r)"

text \<open>What the reply of the service means, and what is kept of it.\<close>

definition judge_reply ::
  "auth_cfg \<Rightarrow> auth_env \<Rightarrow> string \<Rightarrow> string \<Rightarrow> string + json_response \<Rightarrow> auth_state
     \<Rightarrow> (auth_fail + string \<times> string) \<times> auth_state" where
  "judge_reply g e k sec reply a =
     (case reply of
        Inl why \<Rightarrow> (Inl (AuthUnavailable (''unreachable: '' @ why)), a)
      | Inr r \<Rightarrow>
          if js_status r = 401 then (Inl (AuthUnavailable ''not authenticated''), a)
          else if \<not> response_ok r \<or> \<not> is_object (js_data r)
          then (Inl (AuthUnavailable ''unexpected auth verify response''), a)
          else if json_get (js_data r) ''valid'' = JBool True
          then case require_allowed_key_id g k of
                 Inl x \<Rightarrow> (Inl x, a)
               | Inr u \<Rightarrow> (Inr (k, CREDENTIAL_PERMISSION),
                           store_verdict g e k sec True None CREDENTIAL_PERMISSION a)
          else (Inl (AuthError 403 (verdict_reason e (js_data r))),
                store_verdict g e k sec False (Some (verdict_reason e (js_data r)))
                  CREDENTIAL_PERMISSION a))"

definition verify ::
  "auth_cfg \<Rightarrow> auth_env \<Rightarrow> (string \<times> string) list \<Rightarrow> auth_state
     \<Rightarrow> (auth_fail + string \<times> string) \<times> auth_state" where
  "verify g e hs a =
     (let k = strip (header hs KEY_HEADER); sec = strip (header hs SECRET_HEADER) in
      if k = [] \<or> sec = [] then (Inl (AuthError 401 ''missing_credential''), a)
      else case require_server_allowlist g of
        Inl x \<Rightarrow> (Inl x, a)
      | Inr u \<Rightarrow>
          (case get_cached e k sec a of
             (Some v, a1) \<Rightarrow>
               if vc_valid v then
                 (case require_allowed_key_id g k of
                    Inl x \<Rightarrow> (Inl x, a1) | Inr u' \<Rightarrow> (Inr (k, vc_permission v), a1))
               else (Inl (AuthError 403 (str_or (vc_reason v) ''invalid_credential'')), a1)
           | (None, a1) \<Rightarrow>
               if ac_key_id g = [] \<or> ac_secret g = []
               then (Inl (AuthUnavailable ''AUTH_SERVICE_KEY_ID/AUTH_SERVICE_SECRET''), a1)
               else judge_reply g e k sec (ae_send e (au_event a1) (verify_request g k sec))
                      (a1\<lparr>au_event := Suc (au_event a1)\<rparr>)))"

text \<open>\<open>key.lower()\<close>; a header name is ASCII, and of two that fold together the later wins.\<close>

definition lower_char :: "char \<Rightarrow> char" where
  "lower_char c = (let n = (of_char c :: nat) in if 65 \<le> n \<and> n \<le> 90 then char_of (n + 32) else c)"

definition lower :: "string \<Rightarrow> string" where
  "lower s = map lower_char s"

definition normalize_headers :: "(string \<times> string) list \<Rightarrow> (string \<times> string) list" where
  "normalize_headers hs = foldl (\<lambda>d (n, v). AList.update (lower n) v d) [] hs"

text \<open>One authenticator is registered, so the loop over the list has one pass.\<close>

definition authenticate_headers ::
  "auth_cfg \<Rightarrow> auth_env \<Rightarrow> (string \<times> string) list \<Rightarrow> string \<Rightarrow> auth_state
     \<Rightarrow> (auth_fail + principal) \<times> auth_state" where
  "authenticate_headers g e hs account a =
     (if \<not> handles (normalize_headers hs) then (Inl (AuthError 401 ''missing_credential''), a)
      else case verify g e (normalize_headers hs) a of
             (Inl x, a1) \<Rightarrow> (Inl x, a1)
           | (Inr (subject, perm), a1) \<Rightarrow>
               (Inr \<lparr>pr_account = account, pr_permission = perm, pr_kind = ''service_credential'',
                     pr_subject = subject\<rparr>, a1))"

section \<open>A run of requests\<close>

datatype auth_call = Authenticate "(string \<times> string) list" string | ClearCache

fun auth_step :: "auth_cfg \<Rightarrow> auth_env \<Rightarrow> auth_call \<Rightarrow> auth_state \<Rightarrow> auth_state" where
  "auth_step g e (Authenticate hs account) a = snd (authenticate_headers g e hs account a)"
| "auth_step g e ClearCache a = clear_cache a"

definition auth_run :: "auth_cfg \<Rightarrow> auth_env \<Rightarrow> auth_call list \<Rightarrow> auth_state" where
  "auth_run g e cs = foldl (\<lambda>a c. auth_step g e c a) no_verdicts cs"

section \<open>What an accepted credential stands for\<close>

text \<open>The service called the credential valid in its answer to event \<open>j\<close>.\<close>

definition vouched :: "auth_cfg \<Rightarrow> auth_env \<Rightarrow> nat \<Rightarrow> string \<Rightarrow> string \<Rightarrow> bool" where
  "vouched g e j k sec =
     (\<exists>r. ae_send e j (verify_request g k sec) = Inr r \<and> response_ok r \<and>
          json_get (js_data r) ''valid'' = JBool True)"

definition backed :: "auth_cfg \<Rightarrow> auth_env \<Rightarrow> nat \<Rightarrow> string \<Rightarrow> verdict \<Rightarrow> bool" where
  "backed g e n tok v =
     (vc_valid v \<longrightarrow> (\<exists>j < n. \<exists>k sec. tok = cache_key e k sec \<and> vouched g e j k sec \<and>
        vc_expires v = ae_mono e (Suc j) + ac_seconds g \<and>
        require_allowed_key_id g k = Inr ()))"

definition cache_ok :: "auth_cfg \<Rightarrow> auth_env \<Rightarrow> auth_state \<Rightarrow> bool" where
  "cache_ok g e a = (\<forall>tok v. map_of (au_cache a) tok = Some v \<longrightarrow> backed g e (au_event a) tok v)"

lemma backed_later: "backed g e n tok v \<Longrightarrow> n \<le> m \<Longrightarrow> backed g e m tok v"
  unfolding backed_def using order_less_le_trans by blast

lemma cache_ok_later:
  "cache_ok g e a \<Longrightarrow> cache_ok g e (a\<lparr>au_event := Suc (au_event a)\<rparr>)"
  unfolding cache_ok_def using backed_later by fastforce

lemma cache_ok_delete:
  "cache_ok g e a \<Longrightarrow> cache_ok g e (a\<lparr>au_event := Suc (au_event a), au_cache := AList.delete t (au_cache a)\<rparr>)"
  unfolding cache_ok_def using backed_later by (fastforce simp: delete_conv' split: if_splits)

lemma cache_ok_store:
  assumes "cache_ok g e a" "ok \<Longrightarrow> vouched g e j k sec \<and> require_allowed_key_id g k = Inr () \<and> Suc j = au_event a"
  shows "cache_ok g e (store_verdict g e k sec ok why perm a)"
  unfolding cache_ok_def
proof (intro allI impI)
  fix tok v
  assume v: "map_of (au_cache (store_verdict g e k sec ok why perm a)) tok = Some v"
  have n: "au_event (store_verdict g e k sec ok why perm a) = Suc (au_event a)"
    by (simp add: store_verdict_def)
  show "backed g e (au_event (store_verdict g e k sec ok why perm a)) tok v"
  proof (cases "tok = cache_key e k sec")
    case True
    with v have e: "vc_valid v = ok" "vc_expires v = ae_mono e (au_event a) + ac_seconds g"
      by (auto simp: store_verdict_def update_conv')
    show ?thesis
      unfolding backed_def n e True
    proof (intro impI exI conjI)
      assume ok
      note j = assms(2) [OF this]
      show "j < Suc (au_event a)" using j by simp
      show "cache_key e k sec = cache_key e k sec" ..
      show "vouched g e j k sec" using j by simp
      show "ae_mono e (au_event a) + ac_seconds g = ae_mono e (Suc j) + ac_seconds g" using j by simp
      show "require_allowed_key_id g k = Inr ()" using j by simp
    qed
  next
    case False
    with v have "map_of (au_cache a) tok = Some v" by (simp add: store_verdict_def update_conv')
    then have "backed g e (au_event a) tok v" using assms(1) by (simp add: cache_ok_def)
    then show ?thesis unfolding n by (rule backed_later) simp
  qed
qed

lemma get_cached_ok:
  assumes "cache_ok g e a" "get_cached e k sec a = (w, a1)"
  shows "cache_ok g e a1" "au_event a \<le> au_event a1"
  using assms cache_ok_later cache_ok_delete
  by (auto simp: get_cached_def split: option.splits if_splits)

lemma vouchedI:
  assumes "ae_send e j (verify_request g k sec) = Inr r" "response_ok r"
    "json_get (js_data r) ''valid'' = JBool True"
  shows "vouched g e j k sec"
  using assms by (auto simp: vouched_def)

lemma judge_reply_ok:
  assumes a: "cache_ok g e a" and n: "au_event a = Suc j"
    and run: "judge_reply g e k sec (ae_send e j (verify_request g k sec)) a = (r, a')"
  shows "cache_ok g e a'"
    and "r = Inr (subj, perm) \<Longrightarrow> subj = k \<and> perm = CREDENTIAL_PERMISSION \<and>
           require_allowed_key_id g k = Inr () \<and> vouched g e j k sec"
proof -
  have st: "cache_ok g e (store_verdict g e k sec True why pm a)"
    if "vouched g e j k sec" "require_allowed_key_id g k = Inr ()" for why pm
    using cache_ok_store [OF a] that n by simp
  have st': "cache_ok g e (store_verdict g e k sec False why pm a)" for why pm
    using cache_ok_store [OF a] by simp
  show "cache_ok g e a'"
    using run a st st' vouchedI
    by (auto simp: judge_reply_def split: sum.splits if_splits)
  show "subj = k \<and> perm = CREDENTIAL_PERMISSION \<and> require_allowed_key_id g k = Inr () \<and> vouched g e j k sec"
    if "r = Inr (subj, perm)"
    using run that vouchedI by (auto simp: judge_reply_def split: sum.splits if_splits)
qed

text \<open>Vouched for in this very request, or not longer ago than a verdict is kept.\<close>

definition recently ::
  "auth_cfg \<Rightarrow> auth_env \<Rightarrow> nat \<Rightarrow> string \<Rightarrow> string \<Rightarrow> bool" where
  "recently g e n k sec =
     (\<exists>j k' sec'. cache_key e k' sec' = cache_key e k sec \<and> require_allowed_key_id g k' = Inr () \<and>
        vouched g e j k' sec' \<and> (n \<le> j \<or> ae_mono e n < ae_mono e (Suc j) + ac_seconds g))"

lemma get_cached_valid:
  assumes "cache_ok g e a" "get_cached e k sec a = (Some v, a1)" "vc_valid v"
  shows "recently g e (au_event a) k sec"
proof -
  have v: "map_of (au_cache a) (cache_key e k sec) = Some v" "\<not> vc_expires v \<le> ae_mono e (au_event a)"
    using assms(2) by (auto simp: get_cached_def split: option.splits if_splits)
  then obtain j k' sec' where "cache_key e k sec = cache_key e k' sec'" "vouched g e j k' sec'"
    "vc_expires v = ae_mono e (Suc j) + ac_seconds g" "require_allowed_key_id g k' = Inr ()"
    using assms(1,3) unfolding cache_ok_def backed_def by metis
  with v(2) show ?thesis unfolding recently_def by (metis not_le)
qed

lemma recentlyI: "vouched g e j k sec \<Longrightarrow> require_allowed_key_id g k = Inr () \<Longrightarrow> n \<le> j \<Longrightarrow> recently g e n k sec"
  unfolding recently_def by blast

lemma verify_ok:
  assumes a: "cache_ok g e a" and run: "verify g e hs a = (r, a')"
  shows "cache_ok g e a'"
    and "r = Inr (k, perm) \<Longrightarrow> k = strip (header hs KEY_HEADER) \<and> require_allowed_key_id g k = Inr () \<and>
           recently g e (au_event a) k (strip (header hs SECRET_HEADER))"
proof -
  let ?k = "strip (header hs KEY_HEADER)" and ?sec = "strip (header hs SECRET_HEADER)"
  obtain w a1 where c: "get_cached e ?k ?sec a = (w, a1)" by (cases "get_cached e ?k ?sec a")
  note ok = get_cached_ok [OF a c]
  let ?a2 = "a1\<lparr>au_event := Suc (au_event a1)\<rparr>"
  have j: "cache_ok g e ?a2" "au_event ?a2 = Suc (au_event a1)" using cache_ok_later [OF ok(1)] by simp_all
  show "cache_ok g e a'"
    using run c a ok(1) judge_reply_ok(1) [OF j]
    by (auto simp: verify_def Let_def split: if_splits sum.splits option.splits)
  assume r: "r = Inr (k, perm)"
  show "k = ?k \<and> require_allowed_key_id g k = Inr () \<and> recently g e (au_event a) k ?sec"
  proof (cases w)
    case None
    with run r c have "judge_reply g e ?k ?sec (ae_send e (au_event a1) (verify_request g ?k ?sec)) ?a2
        = (Inr (k, perm), a')"
      by (auto simp: verify_def Let_def split: if_splits sum.splits)
    from judge_reply_ok(2) [OF j this, of k perm] show ?thesis using recentlyI [OF _ _ ok(2)] by auto
  next
    case (Some v)
    with run r c have v: "vc_valid v" "k = ?k" "require_allowed_key_id g ?k = Inr ()"
      by (auto simp: verify_def Let_def split: if_splits sum.splits)
    then show ?thesis using get_cached_valid [OF a c [unfolded Some]] by simp
  qed
qed

lemma cache_ok_step: "cache_ok g e a \<Longrightarrow> cache_ok g e (auth_step g e c a)"
proof (cases c)
  case (Authenticate hs account)
  assume a: "cache_ok g e a"
  obtain r a1 where v: "verify g e (normalize_headers hs) a = (r, a1)"
    by (cases "verify g e (normalize_headers hs) a")
  show ?thesis
    using Authenticate a v verify_ok(1) [OF a v]
    by (auto simp: authenticate_headers_def split: sum.splits)
qed (simp add: clear_cache_def cache_ok_def)

lemma cache_ok_run: "cache_ok g e (auth_run g e cs)"
proof -
  have "cache_ok g e a \<Longrightarrow> cache_ok g e (foldl (\<lambda>a c. auth_step g e c a) a cs)" for a
    by (induction cs arbitrary: a) (auto simp: cache_ok_step)
  then show ?thesis by (simp add: auth_run_def cache_ok_def no_verdicts_def)
qed

lemma compare_all_mem: "compare_all k xs m = Inr b \<Longrightarrow> b = (m \<or> k \<in> set xs)"
  by (induction xs arbitrary: m) (auto split: if_splits)

lemma allowed_listed: "ac_serves g \<Longrightarrow> require_allowed_key_id g k = Inr () \<Longrightarrow> k \<in> set (ac_allowed g)"
  by (auto simp: require_allowed_key_id_def split: if_splits dest: compare_all_mem)

lemma append_colon:
  "CHR '':'' \<notin> set k \<Longrightarrow> CHR '':'' \<notin> set k' \<Longrightarrow> k @ CHR '':'' # x = k' @ CHR '':'' # y \<Longrightarrow> k = k' \<and> x = y"
  by (auto simp: append_eq_append_conv2 append_eq_Cons_conv Cons_eq_append_conv)

text \<open>C23. A peer is let in only with a key on the node's own list, for the account the node serves,
  and only if, in this request or within the life of a cached verdict, the authentication
  service called valid a listed key and a secret whose digest of key:secret is that of the
  pair presented - which is the very pair, provided the digest is injective and no listed key
  contains a colon.\<close>

theorem accepted_credential_was_vouched_for:
  assumes run: "authenticate_headers g e hs account (auth_run g e cs) = (Inr p, a')"
    and serves: "ac_serves g"
  shows "pr_subject p \<in> set (ac_allowed g) \<and> pr_account p = account \<and>
    (\<exists>j k sec. vouched g e j k sec \<and> k \<in> set (ac_allowed g) \<and>
         ae_digest e (k @ '':'' @ sec) =
           ae_digest e (pr_subject p @ '':'' @ strip (header (normalize_headers hs) SECRET_HEADER)) \<and>
         (inj (ae_digest e) \<longrightarrow> (\<forall>x \<in> set (ac_allowed g). CHR '':'' \<notin> set x) \<longrightarrow>
            k = pr_subject p \<and> sec = strip (header (normalize_headers hs) SECRET_HEADER)) \<and>
         (au_event (auth_run g e cs) \<le> j \<or>
          ae_mono e (au_event (auth_run g e cs)) < ae_mono e (Suc j) + ac_seconds g))"
proof -
  let ?sec = "strip (header (normalize_headers hs) SECRET_HEADER)" and ?a = "auth_run g e cs"
  obtain k perm where v: "verify g e (normalize_headers hs) ?a = (Inr (k, perm), a')"
    and p: "pr_subject p = k" "pr_account p = account"
    using run by (auto simp: authenticate_headers_def split: if_splits prod.splits sum.splits)
  note ok = verify_ok(2) [OF cache_ok_run v refl]
  then obtain j k' sec' where j: "cache_key e k' sec' = cache_key e k ?sec" "vouched g e j k' sec'"
    "require_allowed_key_id g k' = Inr ()"
    "au_event ?a \<le> j \<or> ae_mono e (au_event ?a) < ae_mono e (Suc j) + ac_seconds g"
    unfolding recently_def by blast
  have l: "k \<in> set (ac_allowed g)" "k' \<in> set (ac_allowed g)"
    using allowed_listed [OF serves] ok j(3) by auto
  have same: "ae_digest e (k' @ '':'' @ sec') = ae_digest e (k @ '':'' @ ?sec)" using j(1) by (simp add: cache_key_def)
  moreover have "k' = k \<and> sec' = ?sec" if "inj (ae_digest e)" "\<forall>x \<in> set (ac_allowed g). CHR '':'' \<notin> set x"
  proof -
    have "k' @ CHR '':'' # sec' = k @ CHR '':'' # ?sec" using same that(1) by (simp add: inj_def)
    then show ?thesis using append_colon l that(2) by blast
  qed
  ultimately show ?thesis using j(2,4) l unfolding p by blast
qed

section \<open>A credential in use\<close>

definition sample_auth :: auth_cfg where
  "sample_auth = \<lparr>ac_serves = True, ac_allowed = [''laptop''], ac_key_id = ''todo'', ac_secret = ''s'',
     ac_url = ''https://auth/verify'', ac_scope = ''sync'', ac_seconds = 300\<rparr>"

definition sample_auth_env :: auth_env where
  "sample_auth_env = \<lparr>ae_mono = int, ae_digest = (\<lambda>x. x),
     ae_send = (\<lambda>n r. if n = 0 then Inr \<lparr>js_status = 200, js_data = JObj [(''valid'', JBool True)]\<rparr>
        else Inl ''timeout''), ae_shown = (\<lambda>j. [])\<rparr>"

definition sample_headers :: "(string \<times> string) list" where
  "sample_headers = [(''X-Auth-Service-Key-Id'', ''laptop''), (''X-Auth-Service-Secret'', ''pw'')]"

text \<open>The second request is answered from the cache: the service is out of reach by then.\<close>

theorem accepted_credential_was_vouched_for_witness:
  "\<exists>j. vouched sample_auth sample_auth_env j ''laptop'' ''pw'' \<and>
     (2 \<le> j \<or> ae_mono sample_auth_env 2 < ae_mono sample_auth_env (Suc j) + 300)"
proof -
  let ?a = "auth_run sample_auth sample_auth_env [Authenticate sample_headers ''ann'']"
  have a: "au_event ?a = 2" by code_simp
  have run: "authenticate_headers sample_auth sample_auth_env sample_headers ''ann'' ?a =
     (Inr \<lparr>pr_account = ''ann'', pr_permission = ''owner'', pr_kind = ''service_credential'',
           pr_subject = ''laptop''\<rparr>, ?a\<lparr>au_event := 3\<rparr>)"
    by code_simp
  have sec: "strip (header (normalize_headers sample_headers) SECRET_HEADER) = ''pw''" by code_simp
  have g: "ac_serves sample_auth" "\<forall>x \<in> set (ac_allowed sample_auth). CHR '':'' \<notin> set x"
    "inj (ae_digest sample_auth_env)" "ac_seconds sample_auth = 300"
    by (simp_all add: sample_auth_def sample_auth_env_def)
  from accepted_credential_was_vouched_for [OF run g(1)] g(2-) show ?thesis by (simp add: a sec) blast
qed

end
