(* ===== verification/Lock_Registry.thy ===== *)
theory Lock_Registry
  imports Prelude
begin

text \<open>
  \<^verbatim>\<open>src/services/lock_registry.py\<close>: the lease registry of memo edits. The dictionaries are
  association lists; a reading of \<open>monotonic()\<close> is an argument, and the token that
  \<open>token_urlsafe\<close> returns is too. An operation returns the registry with the notifications
  it sends appended. Python runs each operation under one re-entrant lock, so the operations
  are atomic; a timer may call \<open>expire\<close> at any moment, also after it was cancelled.
\<close>

record holder =
  lh_owner :: string
  lh_user :: string
  lh_display :: string
  lh_token :: string
  lh_generation :: nat
  lh_expires :: int

text \<open>\<open>to_dict\<close> hides the expiry.\<close>

record holder_view =
  hv_owner :: string
  hv_user :: string
  hv_display :: string
  hv_token :: string
  hv_generation :: nat

definition to_dict :: "holder \<Rightarrow> holder_view" where
  "to_dict h = \<lparr>hv_owner = lh_owner h, hv_user = lh_user h, hv_display = lh_display h,
     hv_token = lh_token h, hv_generation = lh_generation h\<rparr>"

record notice =
  no_memo :: string
  no_holder :: "holder_view option"
  no_previous :: "holder_view option"

record registry =
  ttl :: int
  locks :: "(string \<times> holder) list"
  generations :: "(string \<times> nat) list"
  timers :: "(string \<times> string \<times> int) list"
  notices :: "notice list"

definition new_registry :: "int \<Rightarrow> registry" where
  "new_registry t = \<lparr>ttl = t, locks = [], generations = [], timers = [], notices = []\<rparr>"

definition notify :: "string \<Rightarrow> holder_view option \<Rightarrow> holder_view option \<Rightarrow> registry \<Rightarrow> registry" where
  "notify m h p r = r\<lparr>notices := notices r @ [\<lparr>no_memo = m, no_holder = h, no_previous = p\<rparr>]\<rparr>"

definition live_holder :: "int \<Rightarrow> string \<Rightarrow> registry \<Rightarrow> holder option" where
  "live_holder now m r =
     (case map_of (locks r) m of None \<Rightarrow> None
      | Some h \<Rightarrow> if lh_expires h \<le> now then None else Some h)"

text \<open>The old timer is cancelled, the new one carries the owner and the expiry it was set for.\<close>

definition schedule_expiry :: "string \<Rightarrow> holder \<Rightarrow> registry \<Rightarrow> registry" where
  "schedule_expiry m h r = r\<lparr>timers := AList.update m (lh_owner h, lh_expires h) (timers r)\<rparr>"

definition drop_lock :: "string \<Rightarrow> registry \<Rightarrow> registry" where
  "drop_lock m r = r\<lparr>locks := AList.delete m (locks r), timers := AList.delete m (timers r)\<rparr>"

definition expire :: "int \<Rightarrow> string \<Rightarrow> string \<Rightarrow> int \<Rightarrow> registry \<Rightarrow> registry" where
  "expire now m owner exp r =
     (case map_of (locks r) m of None \<Rightarrow> r
      | Some h \<Rightarrow>
          if lh_owner h = owner \<and> lh_expires h = exp then
            if lh_expires h \<le> now then notify m None (Some (to_dict h)) (drop_lock m r)
            else schedule_expiry m h r
          else r)"

definition current_holder :: "int \<Rightarrow> string \<Rightarrow> registry \<Rightarrow> holder_view option" where
  "current_holder now m r = map_option to_dict (live_holder now m r)"

definition validate ::
  "int \<Rightarrow> string \<Rightarrow> string option \<Rightarrow> string option \<Rightarrow> string option \<Rightarrow> registry \<Rightarrow> bool" where
  "validate now m token user owner r =
     (if blank token then False
      else case live_holder now m r of None \<Rightarrow> False
        | Some h \<Rightarrow> lh_token h = the token \<and> (user = None \<or> user = Some (lh_user h)) \<and>
            (owner = None \<or> owner = Some (lh_owner h)))"

text \<open>
  \<open>acquire\<close>: \<open>now\<close> is the reading of the liveness check, \<open>later\<close> the one the expiry is
  computed from.
\<close>

definition acquire ::
  "int \<Rightarrow> int \<Rightarrow> string \<Rightarrow> string \<Rightarrow> string \<Rightarrow> string \<Rightarrow> string \<Rightarrow> registry
     \<Rightarrow> (bool \<times> holder_view) \<times> registry" where
  "acquire now later token m owner user display r =
     (let current = live_holder now m r in
      case current of
        Some h \<Rightarrow>
          if lh_owner h \<noteq> owner then ((False, to_dict h), r)
          else let h' = h\<lparr>lh_expires := later + ttl r, lh_user := user, lh_display := display\<rparr>;
                   r1 = schedule_expiry m h' (r\<lparr>locks := AList.update m h' (locks r)\<rparr>)
               in ((True, to_dict h'), r1)
      | None \<Rightarrow>
          let g = (case map_of (generations r) m of None \<Rightarrow> 0 | Some n \<Rightarrow> n) + 1;
              h' = \<lparr>lh_owner = owner, lh_user = user, lh_display = display, lh_token = token,
                    lh_generation = g, lh_expires = later + ttl r\<rparr>;
              r1 = schedule_expiry m h' (r\<lparr>generations := AList.update m g (generations r),
                                           locks := AList.update m h' (locks r)\<rparr>)
          in ((True, to_dict h'), notify m (Some (to_dict h')) None r1))"

definition release ::
  "int \<Rightarrow> string \<Rightarrow> string option \<Rightarrow> bool \<Rightarrow> registry \<Rightarrow> holder_view option \<times> registry" where
  "release now m owner force r =
     (case live_holder now m r of None \<Rightarrow> (None, r)
      | Some h \<Rightarrow>
          if \<not> force \<and> owner \<noteq> None \<and> owner \<noteq> Some (lh_owner h) then (None, r)
          else (Some (to_dict h), notify m None (Some (to_dict h)) (drop_lock m r)))"

definition owned_by :: "string \<Rightarrow> registry \<Rightarrow> (string \<times> holder) list" where
  "owned_by owner r = filter (\<lambda>(m, h). lh_owner h = owner) (locks r)"

definition release_all_for_owner :: "string \<Rightarrow> registry \<Rightarrow> string list \<times> registry" where
  "release_all_for_owner owner r =
     (let released = owned_by owner r;
          r1 = fold (\<lambda>(m, h). drop_lock m) released r
      in (map fst released, fold (\<lambda>(m, h). notify m None (Some (to_dict h))) released r1))"

definition snapshot :: "int \<Rightarrow> registry \<Rightarrow> (string \<times> holder_view) list" where
  "snapshot now r =
     List.map_filter (\<lambda>m. map_option (\<lambda>h. (m, to_dict h)) (live_holder now m r)) (map fst (locks r))"

section \<open>Runs\<close>

text \<open>
  The registry in use: time passes, clients acquire, renew and release, sockets close, and
  timers fire, stale ones too. \<open>issued\<close> counts the tokens handed out.
\<close>

record run_state =
  time :: int
  issued :: nat
  reg :: registry

inductive lock_step :: "(nat \<Rightarrow> string) \<Rightarrow> run_state \<Rightarrow> run_state \<Rightarrow> bool"
  for tok :: "nat \<Rightarrow> string" where
  tick: "time s \<le> t \<Longrightarrow> lock_step tok s (s\<lparr>time := t\<rparr>)"
| acquire: "time s \<le> t \<Longrightarrow> acquire (time s) t (tok (issued s)) m owner user display (reg s) = (a, r) \<Longrightarrow>
    lock_step tok s (s\<lparr>time := t, issued := Suc (issued s), reg := r\<rparr>)"
| release: "release (time s) m owner force (reg s) = (a, r) \<Longrightarrow> lock_step tok s (s\<lparr>reg := r\<rparr>)"
| release_all: "release_all_for_owner owner (reg s) = (ms, r) \<Longrightarrow> lock_step tok s (s\<lparr>reg := r\<rparr>)"
| expire: "lock_step tok s (s\<lparr>reg := expire (time s) m owner exp (reg s)\<rparr>)"

inductive_cases lock_stepE: "lock_step tok s s'"

inductive lock_run :: "(nat \<Rightarrow> string) \<Rightarrow> run_state \<Rightarrow> run_state \<Rightarrow> bool"
  for tok :: "nat \<Rightarrow> string" where
  stay: "lock_run tok s s"
| step: "lock_run tok s s' \<Longrightarrow> lock_step tok s' s'' \<Longrightarrow> lock_run tok s s''"

lemma lock_run_trans: "lock_run tok b c \<Longrightarrow> lock_run tok a b \<Longrightarrow> lock_run tok a c"
  by (induction rule: lock_run.induct) (auto intro: lock_run.step)

definition fresh_run :: "int \<Rightarrow> int \<Rightarrow> run_state" where
  "fresh_run t0 life = \<lparr>time = t0, issued = 0, reg = new_registry life\<rparr>"

section \<open>The dictionary of locks after each operation\<close>

lemma map_of_update: "map_of (AList.update k v xs) j = (if j = k then Some v else map_of xs j)"
  by (simp add: update_conv)

lemma map_of_delete: "map_of (AList.delete k xs) j = (if j = k then None else map_of xs j)"
  by (simp add: delete_conv)

lemma notify_fields [simp]:
  "locks (notify m h p r) = locks r" "generations (notify m h p r) = generations r"
  "timers (notify m h p r) = timers r" "ttl (notify m h p r) = ttl r"
  by (simp_all add: notify_def)

lemma schedule_fields [simp]:
  "locks (schedule_expiry m h r) = locks r" "generations (schedule_expiry m h r) = generations r"
  "notices (schedule_expiry m h r) = notices r" "ttl (schedule_expiry m h r) = ttl r"
  by (simp_all add: schedule_expiry_def)

lemma drop_fields [simp]:
  "map_of (locks (drop_lock m r)) j = (if j = m then None else map_of (locks r) j)"
  "generations (drop_lock m r) = generations r" "notices (drop_lock m r) = notices r"
  "ttl (drop_lock m r) = ttl r"
  by (simp_all add: drop_lock_def map_of_delete)

lemma live_holder_Some:
  "live_holder now m r = Some h \<longleftrightarrow> map_of (locks r) m = Some h \<and> now < lh_expires h"
  by (auto simp: live_holder_def split: option.splits)

lemma fold_drop:
  "map_of (locks (fold (\<lambda>(m, h). drop_lock m) xs r)) j =
     (if j \<in> fst ` set xs then None else map_of (locks r) j)"
  "generations (fold (\<lambda>(m, h). drop_lock m) xs r) = generations r"
  "notices (fold (\<lambda>(m, h). drop_lock m) xs r) = notices r"
  "ttl (fold (\<lambda>(m, h). drop_lock m) xs r) = ttl r"
  by (induction xs arbitrary: r) (auto split: prod.splits)

lemma fold_notify:
  "locks (fold (\<lambda>(m, h). notify m None (Some (to_dict h))) xs r) = locks r"
  "generations (fold (\<lambda>(m, h). notify m None (Some (to_dict h))) xs r) = generations r"
  "ttl (fold (\<lambda>(m, h). notify m None (Some (to_dict h))) xs r) = ttl r"
  "notices (fold (\<lambda>(m, h). notify m None (Some (to_dict h))) xs r) =
     notices r @ map (\<lambda>(m, h). \<lparr>no_memo = m, no_holder = None, no_previous = Some (to_dict h)\<rparr>) xs"
  by (induction xs arbitrary: r) (auto simp: notify_def split: prod.splits)

text \<open>What \<open>acquire\<close> does, in three cases.\<close>

lemma acquire_cases:
  assumes "acquire now later tk m owner user display r = (a, r')"
  obtains (refused) h where "live_holder now m r = Some h" "lh_owner h \<noteq> owner"
      "a = (False, to_dict h)" "r' = r"
  | (renewed) h h' where "live_holder now m r = Some h" "lh_owner h = owner"
      "h' = h\<lparr>lh_expires := later + ttl r, lh_user := user, lh_display := display\<rparr>"
      "a = (True, to_dict h')" "locks r' = AList.update m h' (locks r)"
      "generations r' = generations r" "notices r' = notices r" "ttl r' = ttl r"
  | (granted) h' g where "live_holder now m r = None"
      "g = (case map_of (generations r) m of None \<Rightarrow> 0 | Some n \<Rightarrow> n) + 1"
      "h' = \<lparr>lh_owner = owner, lh_user = user, lh_display = display, lh_token = tk,
             lh_generation = g, lh_expires = later + ttl r\<rparr>"
      "a = (True, to_dict h')" "locks r' = AList.update m h' (locks r)"
      "generations r' = AList.update m g (generations r)"
      "notices r' = notices r @ [\<lparr>no_memo = m, no_holder = Some (to_dict h'), no_previous = None\<rparr>]"
      "ttl r' = ttl r"
proof (cases "live_holder now m r")
  case None
  with assms granted show ?thesis
    by (auto simp: acquire_def Let_def notify_def)
next
  case (Some h)
  show ?thesis
  proof (cases "lh_owner h = owner")
    case True
    with assms Some show ?thesis
      by (intro renewed [of h "h\<lparr>lh_expires := later + ttl r, lh_user := user, lh_display := display\<rparr>"])
        (auto simp: acquire_def Let_def)
  next
    case False
    show ?thesis by (rule refused [OF Some False]) (use assms Some False in \<open>simp_all add: acquire_def\<close>)
  qed
qed

lemma expire_cases:
  obtains (fired) h where "map_of (locks r) m = Some h" "lh_expires h \<le> now"
      "expire now m owner exp r = notify m None (Some (to_dict h)) (drop_lock m r)"
  | (kept) "locks (expire now m owner exp r) = locks r"
      "generations (expire now m owner exp r) = generations r"
      "notices (expire now m owner exp r) = notices r" "ttl (expire now m owner exp r) = ttl r"
proof (cases "\<exists>h. map_of (locks r) m = Some h \<and> lh_owner h = owner \<and> lh_expires h = exp \<and> lh_expires h \<le> now")
  case True
  then obtain h where h: "map_of (locks r) m = Some h" "lh_owner h = owner" "lh_expires h = exp"
    "lh_expires h \<le> now" by blast
  show ?thesis by (rule fired [OF h(1,4)]) (use h in \<open>simp add: expire_def\<close>)
next
  case False
  then have "expire now m owner exp r = r \<or> (\<exists>h. expire now m owner exp r = schedule_expiry m h r)"
    by (auto simp: expire_def split: option.splits)
  then show ?thesis
  proof
    assume "expire now m owner exp r = r"
    then show ?thesis by (intro kept) simp_all
  next
    assume "\<exists>h. expire now m owner exp r = schedule_expiry m h r"
    then show ?thesis by (elim exE, intro kept) simp_all
  qed
qed

lemma release_cases:
  assumes "release now m owner force r = (a, r')"
  obtains (none) "r' = r" "a = None"
  | (freed) h where "live_holder now m r = Some h" "force \<or> owner = None \<or> owner = Some (lh_owner h)"
      "r' = notify m None (Some (to_dict h)) (drop_lock m r)" "a = Some (to_dict h)"
proof (cases "\<exists>h. live_holder now m r = Some h \<and> (force \<or> owner = None \<or> owner = Some (lh_owner h))")
  case True
  then obtain h where h: "live_holder now m r = Some h" "force \<or> owner = None \<or> owner = Some (lh_owner h)"
    by blast
  show ?thesis by (rule freed [OF h]) (use assms h in \<open>auto simp: release_def\<close>)
next
  case False
  then have "release now m owner force r = (None, r)"
    by (simp add: release_def split: option.splits)
  with assms show ?thesis by (intro none) simp_all
qed

section \<open>Invariants of the registry\<close>

definition reg_ok :: "run_state \<Rightarrow> bool" where
  "reg_ok s \<longleftrightarrow> distinct (map fst (locks (reg s))) \<and>
     (\<forall>m h. map_of (locks (reg s)) m = Some h \<longrightarrow>
        map_of (generations (reg s)) m = Some (lh_generation h) \<and>
        lh_expires h \<le> time s + ttl (reg s))"

lemma owned_keys:
  assumes "distinct (map fst (locks r))"
  shows "m \<in> fst ` set (owned_by owner r) \<longleftrightarrow> (\<exists>h. map_of (locks r) m = Some h \<and> lh_owner h = owner)"
  using assms by (force simp: owned_by_def image_iff map_of_eq_Some_iff)

lemma release_all_locks:
  assumes "distinct (map fst (locks r))" "release_all_for_owner owner r = (ms, r')"
  shows "map_of (locks r') m = (case map_of (locks r) m of None \<Rightarrow> None
      | Some h \<Rightarrow> if lh_owner h = owner then None else Some h)"
    and "generations r' = generations r" "ttl r' = ttl r"
proof -
  have r': "r' = fold (\<lambda>(m, h). notify m None (Some (to_dict h))) (owned_by owner r)
      (fold (\<lambda>(m, h). drop_lock m) (owned_by owner r) r)"
    using assms(2) by (simp add: release_all_for_owner_def Let_def)
  have "map_of (locks r') m = (if m \<in> fst ` set (owned_by owner r) then None else map_of (locks r) m)"
    and g: "generations r' = generations r" "ttl r' = ttl r"
    unfolding r' by (simp_all add: fold_drop fold_notify)
  then show "map_of (locks r') m = (case map_of (locks r) m of None \<Rightarrow> None
      | Some h \<Rightarrow> if lh_owner h = owner then None else Some h)"
    unfolding owned_keys [OF assms(1)] by (simp split: option.splits)
  show "generations r' = generations r" "ttl r' = ttl r" by (rule g)+
qed

lemma distinct_release_all:
  "distinct (map fst (locks r)) \<Longrightarrow> release_all_for_owner owner r = (ms, r') \<Longrightarrow> distinct (map fst (locks r'))"
proof -
  have "distinct (map fst (locks r)) \<Longrightarrow>
      distinct (map fst (locks (fold (\<lambda>(m, h). drop_lock m) xs r)))" for xs r
    by (induction xs arbitrary: r) (auto simp: drop_lock_def distinct_delete split: prod.splits)
  then show "distinct (map fst (locks r)) \<Longrightarrow> release_all_for_owner owner r = (ms, r') \<Longrightarrow>
      distinct (map fst (locks r'))"
    by (auto simp: release_all_for_owner_def Let_def fold_notify)
qed

lemma reg_ok_fresh: "reg_ok (fresh_run t0 life)"
  by (simp add: reg_ok_def fresh_run_def new_registry_def)

lemma reg_ok_step: "lock_step tok s s' \<Longrightarrow> reg_ok s \<Longrightarrow> reg_ok s'"
proof (induction rule: lock_step.induct)
  case (tick s t)
  then show ?case by (force simp: reg_ok_def)
next
  case (acquire s t m owner user display a r)
  from acquire(2) show ?case
  proof (cases rule: acquire_cases)
    case refused
    with acquire show ?thesis by (force simp: reg_ok_def)
  next
    case (renewed h h')
    with acquire show ?thesis
      by (force simp: reg_ok_def live_holder_Some map_of_update distinct_update)
  next
    case (granted h' g)
    with acquire show ?thesis
      by (force simp: reg_ok_def map_of_update distinct_update)
  qed
next
  case (release s m owner force a r)
  from release(1) show ?case
    by (cases rule: release_cases)
      (use release(2) in \<open>auto simp: reg_ok_def drop_lock_def map_of_delete distinct_delete split: if_splits\<close>)
next
  case (release_all owner s ms r)
  then show ?case
    using release_all_locks [OF _ release_all(1)] distinct_release_all [OF _ release_all(1)]
    by (auto simp: reg_ok_def split: option.splits if_splits)
next
  case (expire s m owner exp)
  show ?case
    by (cases rule: expire_cases [of "reg s" m "time s" owner exp])
      (use expire in \<open>auto simp: reg_ok_def drop_lock_def map_of_delete distinct_delete split: if_splits\<close>)
qed

lemma reg_ok_run: "lock_run tok s s' \<Longrightarrow> reg_ok s \<Longrightarrow> reg_ok s'"
  by (induction rule: lock_run.induct) (auto intro: reg_ok_step)

lemma time_run: "lock_run tok s s' \<Longrightarrow> time s \<le> time s' \<and> issued s \<le> issued s'"
  by (induction rule: lock_run.induct) (auto elim!: lock_stepE)

section \<open>Fencing\<close>

text \<open>A token is dead for a memo: it was handed out and no live lease of the memo carries it.\<close>

definition dead :: "(nat \<Rightarrow> string) \<Rightarrow> string \<Rightarrow> string \<Rightarrow> run_state \<Rightarrow> bool" where
  "dead tok m tk s \<longleftrightarrow> (\<exists>n < issued s. tk = tok n) \<and>
     (\<forall>h. map_of (locks (reg s)) m = Some h \<longrightarrow> lh_token h = tk \<longrightarrow> lh_expires h \<le> time s)"

lemma dead_step:
  assumes "inj tok" "lock_step tok s s'" "reg_ok s" "dead tok m tk s"
  shows "dead tok m tk s'"
  using assms(2,3,4)
proof (induction rule: lock_step.induct)
  case (tick s t)
  then show ?case by (force simp: dead_def)
next
  case (acquire s t m' owner user display a r)
  have new: "tok (issued s) \<noteq> tk"
    using acquire(4) assms(1) by (auto simp: dead_def inj_eq)
  have old: "\<exists>n < Suc (issued s). tk = tok n" using acquire(4) by (auto simp: dead_def intro: less_SucI)
  from acquire(2) show ?case
  proof (cases rule: acquire_cases)
    case refused
    with acquire old show ?thesis by (force simp: dead_def)
  next
    case (renewed h h')
    with acquire old show ?thesis
      by (force simp: dead_def live_holder_Some map_of_update)
  next
    case (granted h' g)
    with acquire old new show ?thesis by (force simp: dead_def map_of_update)
  qed
next
  case (release s m' owner force a r)
  from release(1) show ?case
    by (cases rule: release_cases) (use release(3) in \<open>auto simp: dead_def split: if_splits\<close>)
next
  case (release_all owner s ms r)
  have "distinct (map fst (locks (reg s)))" using release_all(2) by (simp add: reg_ok_def)
  from release_all_locks(1) [OF this release_all(1)] release_all(3) show ?case
    by (auto simp: dead_def split: option.splits if_splits)
next
  case (expire s m' owner exp)
  show ?case
    by (cases rule: expire_cases [of "reg s" m' "time s" owner exp])
      (use expire in \<open>auto simp: dead_def split: if_splits\<close>)
qed

lemma dead_run:
  assumes "inj tok" "lock_run tok s s'" "reg_ok s" "dead tok m tk s"
  shows "dead tok m tk s'"
  using assms(2,3,4)
proof (induction rule: lock_run.induct)
  case (step s s' s'')
  then show ?case using dead_step [OF assms(1)] reg_ok_run by blast
qed simp

lemma validate_live:
  "validate now m (Some tk) None None r \<longleftrightarrow> tk \<noteq> [] \<and> (\<exists>h. live_holder now m r = Some h \<and> lh_token h = tk)"
  by (auto simp: validate_def split: option.splits)

lemma validate_weaken: "validate now m tk u w r \<Longrightarrow> validate now m tk None None r"
  by (auto simp: validate_def split: option.splits if_splits)

text \<open>C13. A lease token that has stopped validating never validates again, whatever happens to the
  registry: the fence the save path rests on.\<close>

theorem retired_token_never_validates:
  assumes "inj tok" "lock_run tok (fresh_run t0 life) s" "lock_run tok s s'"
    and "n < issued s" "\<not> validate (time s) m (Some (tok n)) None None (reg s)"
  shows "\<not> validate (time s') m (Some (tok n)) user owner (reg s')"
proof (cases "tok n = []")
  case False
  have ok: "reg_ok s" using reg_ok_run [OF assms(2) reg_ok_fresh] .
  have "dead tok m (tok n) s"
    using assms(4,5) False unfolding dead_def validate_live live_holder_Some by force
  then have "dead tok m (tok n) s'" using dead_run [OF assms(1,3) ok] by blast
  then have "\<not> validate (time s') m (Some (tok n)) None None (reg s')"
    unfolding dead_def validate_live live_holder_Some by force
  then show ?thesis using validate_weaken by blast
qed (simp add: validate_def)

section \<open>Generations\<close>

lemma generation_step:
  assumes "lock_step tok s s'" "reg_ok s" "map_of (generations (reg s)) m = Some g"
  shows "\<exists>g'. map_of (generations (reg s')) m = Some g' \<and> g \<le> g'"
  using assms
proof (induction rule: lock_step.induct)
  case (acquire s t m' owner user display a r)
  from acquire(2) show ?case
    by (cases rule: acquire_cases) (use acquire(4) in \<open>auto simp: map_of_update\<close>)
next
  case (release s m' owner force a r)
  from release(1) show ?case by (cases rule: release_cases) (use release(3) in auto)
next
  case (release_all owner s ms r)
  have "distinct (map fst (locks (reg s)))" using release_all(2) by (simp add: reg_ok_def)
  from release_all_locks(2) [OF this release_all(1)] release_all(3) show ?case by simp
next
  case (expire s m' owner exp)
  show ?case
    by (cases rule: expire_cases [of "reg s" m' "time s" owner exp]) (use expire in auto)
qed auto

lemma generation_run:
  assumes "lock_run tok s s'" "reg_ok s" "map_of (generations (reg s)) m = Some g"
  shows "\<exists>g'. map_of (generations (reg s')) m = Some g' \<and> g \<le> g'"
  using assms
proof (induction rule: lock_run.induct)
  case (step s s' s'')
  then obtain g' where "map_of (generations (reg s')) m = Some g'" "g \<le> g'" by blast
  with generation_step [OF step(2) reg_ok_run [OF step(1,4)]] show ?case by force
qed simp

text \<open>A lease granted after an earlier one of the same memo carries a strictly larger generation.\<close>

theorem later_grant_has_higher_generation:
  assumes "lock_run tok (fresh_run t0 life) s" "map_of (locks (reg s)) m = Some h"
    and "lock_run tok s s'" "live_holder (time s') m (reg s') = None"
    and "acquire (time s') t tk m owner user display (reg s') = (a, r)"
  shows "\<exists>h'. map_of (locks r) m = Some h' \<and> fst a \<and> lh_token h' = tk \<and>
    lh_owner h' = owner \<and> lh_generation h < lh_generation h'"
proof -
  have ok: "reg_ok s" using reg_ok_run [OF assms(1) reg_ok_fresh] .
  then have "map_of (generations (reg s)) m = Some (lh_generation h)"
    using assms(2) by (simp add: reg_ok_def)
  from generation_run [OF assms(3) ok this] obtain g where
    "map_of (generations (reg s')) m = Some g" "lh_generation h \<le> g" by blast
  with assms(5) show ?thesis
    by (cases rule: acquire_cases) (use assms(4) in \<open>auto simp: map_of_update\<close>)
qed

section \<open>Exclusion and recovery\<close>

text \<open>While a lease is live, no other owner's acquisition, release or disconnect and no timer,
  stale or not, takes it away.\<close>

theorem live_lease_excludes_others:
  assumes "lock_run tok (fresh_run t0 life) s" "live_holder (time s) m (reg s) = Some h"
    and "owner \<noteq> lh_owner h"
  shows "acquire (time s) t tk m owner user display (reg s) = ((False, to_dict h), reg s) \<and>
    release (time s) m (Some owner) False (reg s) = (None, reg s) \<and>
    map_of (locks (snd (release_all_for_owner owner (reg s)))) m = Some h \<and>
    map_of (locks (expire (time s) m' owner' exp (reg s))) m = Some h"
proof (intro conjI)
  show "acquire (time s) t tk m owner user display (reg s) = ((False, to_dict h), reg s)"
    using assms(2,3) by (simp add: acquire_def)
  show "map_of (locks (expire (time s) m' owner' exp (reg s))) m = Some h"
    using assms(2) by (cases rule: expire_cases [of "reg s" m' "time s" owner' exp])
      (auto simp: live_holder_Some)
  show "release (time s) m (Some owner) False (reg s) = (None, reg s)"
    using assms(2,3) by (simp add: release_def)
  have "distinct (map fst (locks (reg s)))"
    using reg_ok_run [OF assms(1) reg_ok_fresh] by (simp add: reg_ok_def)
  from release_all_locks(1) [OF this, of owner "fst (release_all_for_owner owner (reg s))"
      "snd (release_all_for_owner owner (reg s))" m] assms(2,3)
  show "map_of (locks (snd (release_all_for_owner owner (reg s)))) m = Some h"
    by (simp add: live_holder_Some)
qed

text \<open>C14. Once the time to live has passed without a renewal, anyone can acquire the memo, even if the
  timer never fired.\<close>

theorem abandoned_lease_is_recoverable:
  assumes "lock_run tok (fresh_run t0 life) s" "time s + ttl (reg s) \<le> now"
  shows "\<exists>g r. acquire now t tk m owner user display (reg s) =
    ((True, \<lparr>hv_owner = owner, hv_user = user, hv_display = display, hv_token = tk, hv_generation = g\<rparr>), r)"
proof -
  have "live_holder now m (reg s) = None"
  proof (cases "map_of (locks (reg s)) m")
    case (Some h)
    with reg_ok_run [OF assms(1) reg_ok_fresh] assms(2) show ?thesis
      by (force simp: reg_ok_def live_holder_def)
  qed (simp add: live_holder_def)
  then show ?thesis by (simp add: acquire_def Let_def to_dict_def)
qed

section \<open>What the listeners see\<close>

definition announced :: "string \<Rightarrow> notice list \<Rightarrow> string option" where
  "announced m ns = (case find (\<lambda>n. no_memo n = m) (rev ns) of None \<Rightarrow> None
     | Some n \<Rightarrow> map_option hv_token (no_holder n))"

lemma announced_snoc:
  "announced m (ns @ [n]) = (if no_memo n = m then map_option hv_token (no_holder n) else announced m ns)"
  by (simp add: announced_def)

lemma announced_released:
  "announced m (ns @ map (\<lambda>(m, h). \<lparr>no_memo = m, no_holder = None, no_previous = Some (to_dict h)\<rparr>) xs) =
     (if m \<in> fst ` set xs then None else announced m ns)"
proof (induction xs rule: rev_induct)
  case (snoc x xs)
  then show ?case by (cases x) (auto simp: announced_snoc simp flip: append_assoc)
qed simp

definition heard :: "run_state \<Rightarrow> bool" where
  "heard s \<longleftrightarrow> (\<forall>m. announced m (notices (reg s)) = map_option lh_token (map_of (locks (reg s)) m))"

lemma heard_step:
  assumes "lock_step tok s s'" "reg_ok s" "heard s"
  shows "heard s'"
  using assms
proof (induction rule: lock_step.induct)
  case (acquire s t m owner user display a r)
  from acquire(2) show ?case
    by (cases rule: acquire_cases)
      (use acquire(4) in \<open>auto simp: heard_def map_of_update announced_snoc live_holder_Some to_dict_def\<close>)
next
  case (release s m owner force a r)
  from release(1) show ?case
    by (cases rule: release_cases) (use release(3) in \<open>auto simp: heard_def notify_def announced_snoc\<close>)
next
  case (release_all owner s ms r)
  have d: "distinct (map fst (locks (reg s)))" using release_all(2) by (simp add: reg_ok_def)
  have n: "notices r = notices (reg s) @ map (\<lambda>(m, h). \<lparr>no_memo = m, no_holder = None,
      no_previous = Some (to_dict h)\<rparr>) (owned_by owner (reg s))"
    using release_all(1) by (auto simp: release_all_for_owner_def Let_def fold_notify fold_drop)
  show ?case
    using release_all(3) release_all_locks(1) [OF d release_all(1)] owned_keys [OF d]
    by (auto simp: heard_def n announced_released split: option.splits)
next
  case (expire s m owner exp)
  show ?case
    by (cases rule: expire_cases [of "reg s" m "time s" owner exp])
      (use expire in \<open>auto simp: heard_def notify_def announced_snoc\<close>)
qed (simp add: heard_def)

lemma heard_run: "lock_run tok s s' \<Longrightarrow> reg_ok s \<Longrightarrow> heard s \<Longrightarrow> heard s'"
  by (induction rule: lock_run.induct) (auto intro: heard_step reg_ok_run)

text \<open>The last notification a listener received about a memo names the lease that the registry
  stores for it.\<close>

theorem listeners_know_the_holder:
  assumes "lock_run tok (fresh_run t0 life) s"
  shows "announced m (notices (reg s)) = map_option lh_token (map_of (locks (reg s)) m)"
proof -
  have "heard (fresh_run t0 life)"
    by (simp add: heard_def fresh_run_def new_registry_def announced_def)
  with heard_run [OF assms reg_ok_fresh] show ?thesis by (simp add: heard_def)
qed


section \<open>A sample run\<close>

definition sample_tok :: "nat \<Rightarrow> string" where "sample_tok n = replicate (Suc n) CHR ''t''"

lemma inj_sample_tok: "inj sample_tok"
  by (rule injI) (metis length_replicate nat.inject sample_tok_def)

text \<open>Ann takes the lock at time 0 for ten seconds and gives it back.\<close>

definition ann_holds :: run_state where
  "ann_holds = \<lparr>time = 0, issued = 1, reg =
     snd (acquire 0 0 (sample_tok 0) ''m'' ''ann'' ''u1'' ''Ann'' (new_registry 10))\<rparr>"

definition ann_left :: run_state where
  "ann_left = ann_holds\<lparr>reg := snd (release 0 ''m'' (Some ''ann'') False (reg ann_holds))\<rparr>"

definition ann_lease :: holder where
  "ann_lease = \<lparr>lh_owner = ''ann'', lh_user = ''u1'', lh_display = ''Ann'', lh_token = ''t'',
     lh_generation = 1, lh_expires = 10\<rparr>"

lemma ann_holds_run: "lock_run sample_tok (fresh_run 0 10) ann_holds"
proof -
  obtain a r where r: "acquire 0 0 (sample_tok 0) ''m'' ''ann'' ''u1'' ''Ann'' (new_registry 10) = (a, r)"
    by fastforce
  have "lock_step sample_tok (fresh_run 0 10)
      ((fresh_run 0 10)\<lparr>time := 0, issued := Suc (issued (fresh_run 0 10)), reg := r\<rparr>)"
    by (rule lock_step.acquire) (use r in \<open>simp_all add: fresh_run_def\<close>)
  moreover have "(fresh_run 0 10)\<lparr>time := 0, issued := Suc (issued (fresh_run 0 10)), reg := r\<rparr> = ann_holds"
    by (simp add: fresh_run_def ann_holds_def r)
  ultimately show ?thesis by (metis lock_run.stay lock_run.step)
qed

lemma ann_left_run: "lock_run sample_tok ann_holds ann_left"
proof -
  obtain a r where r: "release (time ann_holds) ''m'' (Some ''ann'') False (reg ann_holds) = (a, r)"
    by fastforce
  have "time ann_holds = 0" by (simp add: ann_holds_def)
  then have "ann_holds\<lparr>reg := r\<rparr> = ann_left" using r by (simp add: ann_left_def)
  with lock_step.release [OF r, of sample_tok] show ?thesis by (metis lock_run.stay lock_run.step)
qed

lemma ann_facts:
  "map_of (locks (reg ann_holds)) ''m'' = Some ann_lease" "live_holder 0 ''m'' (reg ann_holds) = Some ann_lease"
  "time ann_holds = 0" "time ann_left = 0" "issued ann_left = 1" "live_holder 0 ''m'' (reg ann_left) = None"
  by (simp_all add: ann_holds_def ann_left_def ann_lease_def acquire_def new_registry_def live_holder_def Let_def
      notify_def schedule_expiry_def sample_tok_def release_def drop_lock_def)

theorem retired_token_never_validates_witness:
  "\<not> validate (time ann_left) ''m'' (Some (sample_tok 0)) (Some ''u1'') None (reg ann_left)"
  by (rule retired_token_never_validates [OF inj_sample_tok
        lock_run_trans [OF ann_left_run ann_holds_run] lock_run.stay])
    (simp_all add: ann_facts validate_def)

theorem later_grant_has_higher_generation_witness:
  "\<exists>a r h. acquire 0 0 ''t2'' ''m'' ''bob'' ''u2'' ''Bob'' (reg ann_left) = (a, r) \<and>
     map_of (locks r) ''m'' = Some h \<and> lh_owner h = ''bob'' \<and> 1 < lh_generation h"
proof -
  obtain a r where r: "acquire 0 0 ''t2'' ''m'' ''bob'' ''u2'' ''Bob'' (reg ann_left) = (a, r)"
    by fastforce
  from later_grant_has_higher_generation [OF ann_holds_run ann_facts(1) ann_left_run, of 0 "''t2''"
      "''bob''" "''u2''" "''Bob''" a r] r
  show ?thesis by (simp add: ann_facts ann_lease_def) blast
qed

theorem live_lease_excludes_others_witness:
  "acquire 0 0 ''t2'' ''m'' ''bob'' ''u2'' ''Bob'' (reg ann_holds) =
     ((False, to_dict ann_lease), reg ann_holds)"
  using live_lease_excludes_others [OF ann_holds_run, of "''m''" ann_lease "''bob''" 0 "''t2''" "''u2''" "''Bob''"]
  by (simp add: ann_facts) (simp add: ann_lease_def)

theorem abandoned_lease_is_recoverable_witness:
  "\<exists>g r. acquire 10 10 ''t2'' ''m'' ''bob'' ''u2'' ''Bob'' (reg ann_holds) =
     ((True, \<lparr>hv_owner = ''bob'', hv_user = ''u2'', hv_display = ''Bob'', hv_token = ''t2'',
       hv_generation = g\<rparr>), r)"
proof -
  have "time ann_holds + ttl (reg ann_holds) \<le> 10"
    by (simp add: ann_holds_def acquire_def new_registry_def live_holder_def Let_def notify_def schedule_expiry_def)
  from abandoned_lease_is_recoverable [OF ann_holds_run this] show ?thesis by blast
qed

theorem listeners_know_the_holder_witness:
  "announced ''m'' (notices (reg ann_holds)) = Some ''t''"
  using listeners_know_the_holder [OF ann_holds_run, of "''m''"] by (simp add: ann_facts ann_lease_def)

end
