(* ===== verification/Sync_Router.thy ===== *)
theory Sync_Router
  imports Sync_Auth Lock_Registry
begin

text \<open>
  \<^verbatim>\<open>src/routers/sync.py\<close>: the endpoints of the synchronisation. A peer authenticates with
  its service credential, the browser with its session. Every pushed batch is checked row by
  row against the project roles of the account before anything is applied.

  \<open>HttpError\<close> carries the status and the code of the source's detail. The pattern matching
  of request paths and the JSON rendering of replies are the framework's.
\<close>

section \<open>Requests\<close>

record push_body =
  pb_client :: string
  pb_schema :: int
  pb_drift :: bool
  pb_tables :: "(string \<times> string list) list option"
  pb_changes :: "change list"

definition in_chars :: "string \<Rightarrow> char \<Rightarrow> bool" where "in_chars cs c = (c \<in> set cs)"

definition hex_char :: "char \<Rightarrow> bool" where "hex_char = in_chars ''0123456789abcdefABCDEF''"

definition alnum_char :: "char \<Rightarrow> bool" where
  "alnum_char c = (let n = (of_char c :: nat)
     in 48 \<le> n \<and> n \<le> 57 \<or> 65 \<le> n \<and> n \<le> 90 \<or> 97 \<le> n \<and> n \<le> 122)"

text \<open>The pattern of \<open>clientId\<close>: a configured name, a colon and a UUID, which is 36 long.\<close>

definition uuid_pattern :: "(char \<Rightarrow> bool) list" where
  "uuid_pattern = replicate 8 hex_char @ [in_chars ''-''] @ replicate 4 hex_char @ [in_chars ''-''] @
     [in_chars ''12345''] @ replicate 3 hex_char @ [in_chars ''-''] @
     [in_chars ''89abAB''] @ replicate 3 hex_char @ [in_chars ''-''] @ replicate 12 hex_char"

definition valid_client_id :: "string \<Rightarrow> bool" where
  "valid_client_id s =
     (let name = take (length s - 37) s; rest = drop (length s - 37) s
      in 38 \<le> length s \<and> length s \<le> 128 \<and> alnum_char (hd name) \<and>
         list_all (\<lambda>c. alnum_char c \<or> in_chars ''._-'' c) (tl name) \<and>
         list_all2 (\<lambda>p c. p c) (in_chars '':'' # uuid_pattern) rest)"

definition valid_change :: "change \<Rightarrow> bool" where
  "valid_change c =
     ((case ch_rowId c of None \<Rightarrow> False | Some i \<Rightarrow> 1 \<le> cp_count i \<and> cp_count i \<le> 50) \<and>
      (case ch_seq c of None \<Rightarrow> True | Some n \<Rightarrow> 1 \<le> n) \<and>
      (case ch_basePeerSeq c of None \<Rightarrow> True | Some n \<Rightarrow> 0 \<le> n))"

definition valid_push :: "nat \<Rightarrow> push_body \<Rightarrow> bool" where
  "valid_push batch_limit b =
     (valid_client_id (pb_client b) \<and> 1 \<le> length (pb_changes b) \<and>
      length (pb_changes b) \<le> batch_limit \<and> list_all valid_change (pb_changes b))"

section \<open>The principal\<close>

definition auth_response :: "auth_fail \<Rightarrow> exn" where
  "auth_response x =
     (case x of AuthError st why \<Rightarrow> HttpError st why
      | AuthUnavailable why \<Rightarrow> HttpError 503 ''auth_unavailable''
      | AuthCrash why \<Rightarrow> ValueError why)"

definition require_sync_principal ::
  "env \<Rightarrow> auth_cfg \<Rightarrow> auth_env \<Rightarrow> string \<Rightarrow> (string \<times> string) list \<Rightarrow> store \<Rightarrow> auth_state
     \<Rightarrow> (exn + principal) \<times> auth_state" where
  "require_sync_principal e g ae account_setting hs s a =
     (if \<not> ac_serves g then (Inl (HttpError 404 ''sync_peer_api_not_served''), a)
      else case resolve_account_id e account_setting s of
             Inl x \<Rightarrow> (Inl x, a)
           | Inr account \<Rightarrow>
               (case authenticate_headers g ae hs account a of
                  (Inl x, a1) \<Rightarrow> (Inl (auth_response x), a1)
                | (Inr p, a1) \<Rightarrow> (Inr p, a1)))"

section \<open>Schema negotiation of a push\<close>

definition peer_columns ::
  "(string \<times> string list) list option \<Rightarrow> exn + (tbl \<times> string list) list" where
  "peer_columns peer_tables =
     (case peer_tables of None \<Rightarrow> Inr []
      | Some ts \<Rightarrow> sfold (\<lambda>t d. case map_of ts (tbl_name t) of
            None \<Rightarrow> Inr d
          | Some cs \<Rightarrow> if cs = [] then Inr d
              else sbind (intersect_columns t (Some cs)) (\<lambda>ks. Inr (d @ [(t, ks)]))) SYNC_TABLE_ORDER [])"

definition resolve_push_columns :: "push_body \<Rightarrow> exn + (tbl \<times> string list) list" where
  "resolve_push_columns b =
     (if pb_schema b = SCHEMA_VERSION then Inr []
      else if \<not> pb_drift b then Inl (HttpError 409 ''sync_schema_mismatch'')
      else if pb_schema b > SCHEMA_VERSION then Inl (HttpError 409 ''sync_client_schema_ahead'')
      else case peer_columns (pb_tables b) of
             Inl x \<Rightarrow> Inl (HttpError 409 ''sync_schema_negotiation_failed'')
           | Inr cbt \<Rightarrow>
               if \<exists>t \<in> set SYNC_TABLE_ORDER. t \<notin> fst ` set cbt
               then Inl (HttpError 409 ''sync_schema_negotiation_failed'') else Inr cbt)"

section \<open>Roles\<close>

text \<open>
  \<open>_project_role\<close>: the owner is compared by Python, byte for byte; the membership is joined
  by the engine.
\<close>

definition project_role :: "env \<Rightarrow> string \<Rightarrow> string \<Rightarrow> store \<Rightarrow> string option" where
  "project_role e p account s =
     (case fetch_id e Projects p s of
        None \<Rightarrow> None
      | Some pr \<Rightarrow>
          if row_get pr ''owner_id'' = VStr account then Some ''owner''
          else case find (\<lambda>m. sql_eq e (row_get m ''project_id'') (row_get pr ''id'') \<and>
                      col_is e ''user_id'' account m \<and> live m) (tabs s Project_members) of
                 None \<Rightarrow> None
               | Some m \<Rightarrow> row_str m ''role'')"

definition non_blank :: "string option \<Rightarrow> string option" where
  "non_blank x = (if blank x then None else x)"

definition joined_memo :: "env \<Rightarrow> row \<Rightarrow> store \<Rightarrow> row option" where
  "joined_memo e v s = find (\<lambda>m. sql_eq e (row_get m ''id'') (row_get v ''memo_id'')) (tabs s Memos)"

definition existing_project_id :: "env \<Rightarrow> tbl \<Rightarrow> string \<Rightarrow> store \<Rightarrow> string option" where
  "existing_project_id e t i s =
     (case t of
        Projects \<Rightarrow> (case fetch_id e Projects i s of None \<Rightarrow> None | Some r \<Rightarrow> row_str r ''id'')
      | Memo_versions \<Rightarrow>
          (case find (\<lambda>v. id_is e i v \<and> joined_memo e v s \<noteq> None) (tabs s Memo_versions) of
             None \<Rightarrow> None
           | Some v \<Rightarrow> non_blank (row_str (the (joined_memo e v s)) ''project_id''))
      | _ \<Rightarrow> (case fetch_id e t i s of None \<Rightarrow> None
               | Some r \<Rightarrow> non_blank (row_str r ''project_id'')))"

definition memo_project_id ::
  "env \<Rightarrow> val \<Rightarrow> (string \<times> row) list \<Rightarrow> store \<Rightarrow> string option" where
  "memo_project_id e memo_id incoming s =
     (if \<not> truthy memo_id then None
      else let inc = (case memo_id of VStr m \<Rightarrow> map_of incoming m | _ \<Rightarrow> None) in
        if inc \<noteq> None \<and> truthy (row_get (the inc) ''project_id'')
        then Some (py_str (row_get (the inc) ''project_id''))
        else case find (\<lambda>m. sql_eq e (row_get m ''id'') memo_id) (tabs s Memos) of
               None \<Rightarrow> None | Some m \<Rightarrow> row_str m ''project_id'')"

section \<open>Authorising a batch\<close>

definition forbidden :: exn where "forbidden = HttpError 403 ''sync_change_forbidden''"

text \<open>The changes of synchronised tables, each with its row cut down to the agreed columns.\<close>

definition normalized_changes ::
  "(tbl \<times> string list) list \<Rightarrow> change list \<Rightarrow> (tbl \<times> change \<times> row) list" where
  "normalized_changes cbt cs =
     List.map_filter (\<lambda>c. case tbl_of (ch_table c) of None \<Rightarrow> None
        | Some t \<Rightarrow> Some (t, c, filter_row t (case ch_row c of None \<Rightarrow> [] | Some r \<Rightarrow> r) (map_of cbt t))) cs"

text \<open>The dictionary of the non-empty rows of one table by row id; a later one wins.\<close>

definition incoming_rows :: "tbl \<Rightarrow> (tbl \<times> change \<times> row) list \<Rightarrow> (string \<times> row) list" where
  "incoming_rows t ns =
     rev (List.map_filter (\<lambda>(u, c, r). if u = t \<and> r \<noteq> [] then Some (case ch_rowId c of None \<Rightarrow> ''None'' | Some i \<Rightarrow> i, r)
        else None) ns)"

type_synonym role_cache = "(string \<times> string option) list"

definition role_for ::
  "env \<Rightarrow> string \<Rightarrow> (string \<times> row) list \<Rightarrow> store \<Rightarrow> string \<Rightarrow> role_cache
     \<Rightarrow> string option \<times> role_cache" where
  "role_for e account incoming s p cache =
     (if p = [] then (None, cache)
      else case map_of cache p of
             Some r \<Rightarrow> (r, cache)
           | None \<Rightarrow>
               let inc = map_of incoming p;
                   r = (if fetch_id e Projects p s = None \<and> inc \<noteq> None \<and>
                           row_get (the inc) ''owner_id'' = VStr account
                        then Some ''owner'' else project_role e p account s)
               in (r, (p, r) # cache))"

definition has_role :: "string list \<Rightarrow> string option \<Rightarrow> bool" where
  "has_role roles r = (case r of None \<Rightarrow> False | Some x \<Rightarrow> x \<in> set roles)"

text \<open>Each of the projects a change touches needs a role.\<close>

fun need_roles ::
  "env \<Rightarrow> string \<Rightarrow> (string \<times> row) list \<Rightarrow> store \<Rightarrow> string list \<Rightarrow> string list \<Rightarrow> role_cache
     \<Rightarrow> exn + role_cache" where
  "need_roles e account incoming s roles [] cache = Inr cache"
| "need_roles e account incoming s roles (p # ps) cache =
     (let (r, cache1) = role_for e account incoming s p cache
      in if has_role roles r then need_roles e account incoming s roles ps cache1
         else Inl forbidden)"

definition projects_of :: "string option \<Rightarrow> string option \<Rightarrow> string list" where
  "projects_of a b = (case a of None \<Rightarrow> [] | Some x \<Rightarrow> [x]) @ (case b of None \<Rightarrow> [] | Some y \<Rightarrow> [y])"

definition authorize_project ::
  "env \<Rightarrow> string \<Rightarrow> store \<Rightarrow> string \<Rightarrow> row \<Rightarrow> role_cache \<Rightarrow> exn + role_cache" where
  "authorize_project e account s i r cache =
     (case fetch_id e Projects i s of
        None \<Rightarrow> if r = [] \<or> row_get r ''owner_id'' \<noteq> VStr account then Inl forbidden
                else Inr ((i, Some ''owner'') # cache)
      | Some ex \<Rightarrow>
          if project_role e i account s \<noteq> Some ''owner'' then Inl forbidden
          else if row_get r ''owner_id'' \<noteq> VNull \<and> \<not> py_eq (row_get r ''owner_id'') (row_get ex ''owner_id'')
          then Inl forbidden else Inr cache)"

definition authorize_child ::
  "env \<Rightarrow> string \<Rightarrow> (string \<times> row) list \<Rightarrow> store \<Rightarrow> string list \<Rightarrow> string option \<Rightarrow> string option
     \<Rightarrow> role_cache \<Rightarrow> exn + role_cache" where
  "authorize_child e account incoming s roles existing new cache =
     sbind (need_roles e account incoming s roles (projects_of existing new) cache)
       (\<lambda>cache1. if blank new then Inl forbidden else Inr cache1)"

text \<open>\<open>row.get("project_id") or existing_project\<close>\<close>

definition incoming_project :: "row \<Rightarrow> string option \<Rightarrow> string option" where
  "incoming_project r existing =
     (if truthy (row_get r ''project_id'') then Some (py_str (row_get r ''project_id'')) else existing)"

definition required_roles :: "tbl \<Rightarrow> string list" where
  "required_roles t = (if t \<in> {Memos, Memo_versions} then [''owner'', ''editor''] else [''owner''])"

definition authorize_one ::
  "env \<Rightarrow> string \<Rightarrow> (string \<times> row) list \<Rightarrow> (string \<times> row) list \<Rightarrow> store \<Rightarrow> tbl \<times> change \<times> row
     \<Rightarrow> role_cache \<Rightarrow> exn + role_cache" where
  "authorize_one e account ips ims s n cache =
     (case n of (t, c, r) \<Rightarrow>
        if blank (ch_rowId c) then Inl forbidden
        else let i = the (ch_rowId c); existing = existing_project_id e t i s in
          if t = Projects then authorize_project e account s i r cache
          else if t = Memo_versions then
            (let new = memo_project_id e (row_get r ''memo_id'') ims s
             in sbind (need_roles e account ips s (required_roles t) (projects_of existing new) cache)
                  (\<lambda>cache1. if blank new \<and> existing = None then Inl forbidden else Inr cache1))
          else authorize_child e account ips s (required_roles t) existing
                 (incoming_project r existing) cache)"

definition authorize_sync_changes ::
  "env \<Rightarrow> string \<Rightarrow> (tbl \<times> string list) list \<Rightarrow> change list \<Rightarrow> store \<Rightarrow> exn + role_cache" where
  "authorize_sync_changes e account cbt cs s =
     (let ns = normalized_changes cbt cs
      in sfold (authorize_one e account (incoming_rows Projects ns) (incoming_rows Memos ns) s) ns [])"

section \<open>Push\<close>

text \<open>The columns of the pushed rows that this node does not take, by table.\<close>

definition note_dropped ::
  "(tbl \<times> string list) list \<Rightarrow> (string \<times> string list) list \<Rightarrow> change \<Rightarrow> (string \<times> string list) list" where
  "note_dropped cbt d c =
     (case (tbl_of (ch_table c), ch_row c) of
        (Some t, Some r) \<Rightarrow>
          let unknown = filter (\<lambda>k. k \<notin> set (cols_for cbt t)) (map fst r);
              known = (case map_of d (ch_table c) of None \<Rightarrow> [] | Some ks \<Rightarrow> ks)
          in if unknown = [] then d
             else AList.update (ch_table c) (sort_str (remdups (known @ unknown))) d
      | _ \<Rightarrow> d)"

definition dropped_columns ::
  "(tbl \<times> string list) list \<Rightarrow> change list \<Rightarrow> (string \<times> string list) list" where
  "dropped_columns cbt cs = foldl (note_dropped cbt) [] cs"

record push_answer =
  pa_outcome :: outcome
  pa_schema :: int
  pa_client_schema :: int
  pa_match :: bool
  pa_dropped :: "(string \<times> string list) list"
  pa_max_seq :: int
  pa_next_seq :: int
  pa_time :: string

definition push_error :: "exn \<Rightarrow> exn" where
  "push_error x = (case x of ReceiptPayloadMismatch n \<Rightarrow> HttpError 409 ''receipt_payload_mismatch'' | _ \<Rightarrow> x)"

definition apply_push ::
  "env \<Rightarrow> principal \<Rightarrow> (tbl \<times> string list) list \<Rightarrow> push_body \<Rightarrow> store \<Rightarrow> exn + outcome \<times> store" where
  "apply_push e p cbt b s =
     sbind (authorize_sync_changes e (pr_account p) cbt (pb_changes b) s)
       (\<lambda>roles. apply_changes e cbt Client True (Some (pr_account p, pb_client b)) (pb_changes b) s)"

definition push_reply_of ::
  "env \<Rightarrow> push_body \<Rightarrow> (tbl \<times> string list) list \<Rightarrow> outcome \<Rightarrow> store \<Rightarrow> push_answer \<times> store" where
  "push_reply_of e b cbt oc s =
     (let (now, s1) = now_utc e s; m = max_change_seq s
      in (\<lparr>pa_outcome = oc, pa_schema = SCHEMA_VERSION, pa_client_schema = pb_schema b,
           pa_match = (pb_schema b = SCHEMA_VERSION), pa_dropped = dropped_columns cbt (pb_changes b),
           pa_max_seq = m, pa_next_seq = m, pa_time = iso_db now\<rparr>, s1))"

definition sync_push ::
  "env \<Rightarrow> nat \<Rightarrow> principal \<Rightarrow> push_body \<Rightarrow> store \<Rightarrow> (exn + push_answer) \<times> store" where
  "sync_push e batch_limit p b s =
     (if \<not> valid_push batch_limit b then (Inl (HttpError 422 ''validation_error''), s)
      else case resolve_push_columns b of
             Inl x \<Rightarrow> (Inl x, s)
           | Inr cbt \<Rightarrow>
               (case with_connection True (apply_push e p cbt b) s of
                  (Inl x, s1) \<Rightarrow> (Inl (push_error x), s1)
                | (Inr oc, s1) \<Rightarrow> (case push_reply_of e b cbt oc s1 of (r, s2) \<Rightarrow> (Inr r, s2))))"

text \<open>\<open>_notify_sync_changed\<close>: the account's room and the sequence number it is told.\<close>

definition push_notice :: "principal \<Rightarrow> push_answer \<Rightarrow> string \<times> int" where
  "push_notice p r = (pr_account p, pa_max_seq r)"

section \<open>Handshake and feed\<close>

record identity_view =
  iv_account :: string
  iv_login :: "string option"
  iv_display :: "string option"
  iv_email :: "string option"
  iv_permission :: "string option"
  iv_source :: string

definition invited_order :: "row \<Rightarrow> int" where
  "invited_order m = (case row_get m ''invited_at'' of VTime w \<Rightarrow> w | _ \<Rightarrow> 0)"

definition oldest_membership :: "env \<Rightarrow> string \<Rightarrow> store \<Rightarrow> row option" where
  "oldest_membership e account s =
     (case sort_key invited_order
             (select Project_members (\<lambda>m. col_is e ''user_id'' account m \<and> live m) s) of
        [] \<Rightarrow> None | m # ms \<Rightarrow> Some m)"

definition handshake_identity :: "env \<Rightarrow> string \<Rightarrow> store \<Rightarrow> identity_view" where
  "handshake_identity e account s =
     (case get_local_identity e (Some account) None s of
        Some i \<Rightarrow> \<lparr>iv_account = id_account i, iv_login = id_login i, iv_display = id_display i,
           iv_email = id_email i, iv_permission = Some (id_permission i), iv_source = ''local_identity''\<rparr>
      | None \<Rightarrow>
          (case oldest_membership e account s of
             Some m \<Rightarrow> \<lparr>iv_account = str_or (row_str m ''user_id'') [], iv_login = row_str m ''username'',
                iv_display = row_str m ''display_name'', iv_email = row_str m ''email'',
                iv_permission = None, iv_source = ''project_members''\<rparr>
           | None \<Rightarrow> \<lparr>iv_account = account, iv_login = None, iv_display = None, iv_email = None,
                iv_permission = None, iv_source = ''config''\<rparr>))"

record handshake_view =
  hk_schema :: int
  hk_account :: string
  hk_permission :: string
  hk_subject_kind :: string
  hk_time :: string
  hk_owners :: "string list"
  hk_max_seq :: int
  hk_tables :: "(string \<times> string list) list"
  hk_identity :: identity_view
  hk_role :: string

definition sync_handshake :: "env \<Rightarrow> string \<Rightarrow> principal \<Rightarrow> store \<Rightarrow> handshake_view \<times> store" where
  "sync_handshake e role p s =
     (let (now, s1) = now_utc e s
      in (\<lparr>hk_schema = SCHEMA_VERSION, hk_account = pr_account p, hk_permission = pr_permission p,
           hk_subject_kind = pr_kind p, hk_time = iso_db now, hk_owners = distinct_owner_ids e s,
           hk_max_seq = max_change_seq s, hk_tables = declared_tables,
           hk_identity = handshake_identity e (pr_account p) s, hk_role = role\<rparr>, s1))"

record feed_view =
  fv_schema :: int
  fv_changes :: "change list"
  fv_next_seq :: int
  fv_max_seq :: int
  fv_time :: string

definition sync_changes ::
  "env \<Rightarrow> int \<Rightarrow> int \<Rightarrow> principal \<Rightarrow> store \<Rightarrow> (exn + feed_view) \<times> store" where
  "sync_changes e since limit p s =
     (if since < 0 \<or> limit < 1 \<or> 2000 < limit then (Inl (HttpError 422 ''validation_error''), s)
      else let (cs, next) = read_changes e since (nat limit) (pr_account p) [] s;
               (now, s1) = now_utc e s
           in (Inr \<lparr>fv_schema = SCHEMA_VERSION, fv_changes = cs, fv_next_seq = next,
                    fv_max_seq = max_change_seq s, fv_time = iso_db now\<rparr>, s1))"

section \<open>Delegated locks\<close>

definition require_memo_write_access :: "env \<Rightarrow> string \<Rightarrow> string \<Rightarrow> store \<Rightarrow> exn + unit" where
  "require_memo_write_access e m account s =
     (case fetch_id e Memos m s of
        None \<Rightarrow> Inl (HttpError 404 ''Memo not found'')
      | Some r \<Rightarrow>
          if has_role [''owner'', ''editor'']
               (project_role e (str_or (row_str r ''project_id'') []) account s)
          then Inr () else Inl (HttpError 403 ''Access denied''))"

definition peer_owner :: "string \<Rightarrow> string" where "peer_owner k = ''peer:'' @ k"

text \<open>\<open>now\<close> and \<open>later\<close> are the registry's clock readings, \<open>token\<close> the id it draws.\<close>

definition sync_lock_acquire ::
  "env \<Rightarrow> int \<Rightarrow> int \<Rightarrow> string \<Rightarrow> principal \<Rightarrow> string \<Rightarrow> string \<Rightarrow> string \<Rightarrow> string \<Rightarrow> store \<Rightarrow> registry
     \<Rightarrow> (exn + bool \<times> holder_view) \<times> registry" where
  "sync_lock_acquire e now later token p m owner user display s r =
     (case require_memo_write_access e m (pr_account p) s of
        Inl x \<Rightarrow> (Inl x, r)
      | Inr u \<Rightarrow>
          (case acquire now later token m (peer_owner owner) user
                  (if display = [] then user else display) r of
             (ans, r1) \<Rightarrow> (Inr ans, r1)))"

definition sync_lock_release ::
  "env \<Rightarrow> int \<Rightarrow> principal \<Rightarrow> string \<Rightarrow> string \<Rightarrow> store \<Rightarrow> registry \<Rightarrow> (exn + bool) \<times> registry" where
  "sync_lock_release e now p m owner s r =
     (case require_memo_write_access e m (pr_account p) s of
        Inl x \<Rightarrow> (Inl x, r)
      | Inr u \<Rightarrow> (case release now m (Some (peer_owner owner)) False r of
                    (freed, r1) \<Rightarrow> (Inr (freed \<noteq> None), r1)))"

definition sync_lock_holder ::
  "env \<Rightarrow> int \<Rightarrow> principal \<Rightarrow> string \<Rightarrow> store \<Rightarrow> registry \<Rightarrow> exn + holder_view option" where
  "sync_lock_holder e now p m s r =
     sbind (require_memo_write_access e m (pr_account p) s) (\<lambda>u. Inr (current_holder now m r))"

section \<open>Delegated merges\<close>

definition owning_project_id :: "env \<Rightarrow> string \<Rightarrow> string \<Rightarrow> store \<Rightarrow> string option" where
  "owning_project_id e k i s =
     (if k = ''project''
      then case find (\<lambda>r. id_is e i r \<and> live r) (tabs s Projects) of
             None \<Rightarrow> None | Some r \<Rightarrow> row_str r ''id''
      else case find (\<lambda>r. id_is e i r \<and> live r) (tabs s Memos) of
             None \<Rightarrow> None | Some r \<Rightarrow> row_str r ''project_id'')"

definition merge_access :: "env \<Rightarrow> string \<Rightarrow> string \<Rightarrow> store \<Rightarrow> string \<Rightarrow> unit \<Rightarrow> exn + unit" where
  "merge_access e k account s i u =
     (case owning_project_id e k i s of
        None \<Rightarrow> Inl (HttpError 404 ''Not found'')
      | Some p \<Rightarrow>
          if has_role (if k = ''memo'' then [''owner'', ''editor''] else [''owner''])
               (project_role e p account s)
          then Inr () else Inl (HttpError 403 ''Access denied''))"

definition merge_error :: "exn \<Rightarrow> exn" where
  "merge_error x = (case x of MergeErr st m \<Rightarrow> HttpError st m | _ \<Rightarrow> x)"

definition merge_body ::
  "env \<Rightarrow> string \<Rightarrow> string \<Rightarrow> string \<Rightarrow> string \<Rightarrow> store \<Rightarrow> exn + merge_result \<times> store" where
  "merge_body e k loser winner account s =
     sbind (sfold (merge_access e k account s) [loser, winner] ())
       (\<lambda>u. (if k = ''memo'' then merge_memos else merge_projects) e loser winner s)"

definition execute_peer_merge ::
  "env \<Rightarrow> string \<Rightarrow> string \<Rightarrow> string \<Rightarrow> string \<Rightarrow> store \<Rightarrow> (exn + merge_result) \<times> store" where
  "execute_peer_merge e k loser winner account s =
     (case with_connection False (merge_body e k loser winner account) s of
        (Inl x, s1) \<Rightarrow> (Inl (merge_error x), s1) | (Inr m, s1) \<Rightarrow> (Inr m, s1))"

section \<open>Issues of a user\<close>

definition issue_refs :: "issue \<Rightarrow> string list" where
  "issue_refs i = remdups (filter (\<lambda>x. x \<noteq> [])
     ((case is_ref i of None \<Rightarrow> [] | Some x \<Rightarrow> [x]) @ (case is_peer i of None \<Rightarrow> [] | Some x \<Rightarrow> [x])))"

definition id_among :: "env \<Rightarrow> string list \<Rightarrow> row \<Rightarrow> bool" where
  "id_among e refs r = (\<exists>i \<in> set refs. id_is e i r)"

definition issue_project_ids :: "env \<Rightarrow> issue \<Rightarrow> store \<Rightarrow> string option list" where
  "issue_project_ids e i s =
     (case (case is_table i of None \<Rightarrow> None | Some n \<Rightarrow> tbl_of n) of
        None \<Rightarrow> []
      | Some t \<Rightarrow>
          if issue_refs i = [] then []
          else case t of
            Projects \<Rightarrow> map (\<lambda>r. row_str r ''id'') (select Projects (id_among e (issue_refs i)) s)
          | Memo_versions \<Rightarrow>
              List.map_filter (\<lambda>v. map_option (\<lambda>m. row_str m ''project_id'') (joined_memo e v s))
                (select Memo_versions (id_among e (issue_refs i)) s)
          | _ \<Rightarrow> map (\<lambda>r. row_str r ''project_id'') (select t (id_among e (issue_refs i)) s))"

text \<open>An issue of no project is the node's; only its owner sees it.\<close>

definition issue_visible_to_user :: "env \<Rightarrow> user \<Rightarrow> string list \<Rightarrow> store \<Rightarrow> issue \<Rightarrow> bool" where
  "issue_visible_to_user e u visible s i =
     (let ps = issue_project_ids e i s
      in if ps = [] then us_permission u \<in> {Some ''owner'', Some ''superadmin''}
         else list_all (\<lambda>p. p \<in> Some ` set visible) ps)"

definition scoped_issues ::
  "env \<Rightarrow> user \<Rightarrow> string option \<Rightarrow> string option \<Rightarrow> string option \<Rightarrow> bool \<Rightarrow> nat \<Rightarrow> store \<Rightarrow> issue list" where
  "scoped_issues e u k t r include_resolved limit s =
     take limit (filter (issue_visible_to_user e u (visible_project_ids e (us_id u) s) s)
       (list_issues e k t r include_resolved 1000 s))"

definition count_kind :: "(string \<times> nat) list \<Rightarrow> issue \<Rightarrow> (string \<times> nat) list" where
  "count_kind d i = AList.update (is_kind i)
     (Suc (case map_of d (is_kind i) of None \<Rightarrow> 0 | Some n \<Rightarrow> n)) d"

definition scoped_issue_counts :: "env \<Rightarrow> user \<Rightarrow> store \<Rightarrow> (string \<times> nat) list" where
  "scoped_issue_counts e u s =
     foldl count_kind [] (filter (issue_visible_to_user e u (visible_project_ids e (us_id u) s) s)
       (unresolved s))"

record resolve_body =
  rb_ids :: "string list option"
  rb_kind :: "string option"
  rb_table :: "string option"
  rb_ref :: "string option"

definition authorized_issue_ids :: "env \<Rightarrow> resolve_body \<Rightarrow> user \<Rightarrow> store \<Rightarrow> string list" where
  "authorized_issue_ids e b u s =
     map is_id (filter (issue_visible_to_user e u (visible_project_ids e (us_id u) s) s)
       (filter (\<lambda>i. (case rb_ids b of None \<Rightarrow> True | Some js \<Rightarrow>
                       js = [] \<or> (\<exists>j \<in> set js. same_str e (is_id i) j)) \<and>
                    issue_matches e (rb_kind b) (rb_table b) (rb_ref b) i) (unresolved s)))"

section \<open>The endpoints of the browser\<close>

definition ensure_sync_admin :: "user \<Rightarrow> exn + unit" where
  "ensure_sync_admin u =
     (if (case us_permission u of None \<Rightarrow> False | Some p \<Rightarrow> p \<in> set ADMIN_PERMISSIONS) then Inr ()
      else Inl (HttpError 403 ''Admin access required''))"

record node_cfg =
  nc_enabled :: bool
  nc_peer_url :: string
  nc_peer :: string

definition node_role :: "node_cfg \<Rightarrow> string" where
  "node_role n = (if \<not> nc_enabled n then ''disabled''
     else if nc_peer_url n \<noteq> [] then ''client'' else ''server'')"

record sync_status_view =
  sv_enabled :: bool
  sv_role :: string
  sv_paused :: bool
  sv_peer :: string
  sv_peer_url :: "string option"
  sv_schema :: int
  sv_pushed :: int
  sv_pulled :: int
  sv_max_seq :: int
  sv_pending :: nat
  sv_ok_at :: "string option"
  sv_error :: "string option"
  sv_issues :: "(string \<times> nat) list"
  sv_total :: nat
  sv_merge_locked :: bool
  sv_runtime :: "sync_runtime \<times> string option \<times> string option"

text \<open>
  \<open>**runtime\<close> comes last in the dictionary, so its \<open>lastOkAt\<close> and \<open>lastError\<close> replace those
  just taken from the stored state.
\<close>

definition sync_status ::
  "env \<Rightarrow> node_cfg \<Rightarrow> sync_runtime \<Rightarrow> user \<Rightarrow> store \<Rightarrow> sync_status_view" where
  "sync_status e n rt u s =
     (let st = get_sync_state e (nc_peer n) s; counts = scoped_issue_counts e u s;
          shown = runtime_snapshot rt
      in \<lparr>sv_enabled = nc_enabled n, sv_role = node_role n, sv_paused = ps_paused st,
          sv_peer = nc_peer n, sv_peer_url = (if nc_peer_url n = [] then None else Some (nc_peer_url n)),
          sv_schema = SCHEMA_VERSION, sv_pushed = ps_pushed st, sv_pulled = ps_pulled st,
          sv_max_seq = max_change_seq s,
          sv_pending = (if node_role n = ''client''
             then pending_change_count (ps_pushed st) s + pending_sync_retry_count e (nc_peer n) s else 0),
          sv_ok_at = snd (snd shown), sv_error = rt_error (fst shown), sv_issues = counts,
          sv_total = sum_list (map snd counts),
          sv_merge_locked = (node_role n = ''client'' \<and> \<not> rt_online rt), sv_runtime = shown\<rparr>)"

definition sync_issues ::
  "env \<Rightarrow> string option \<Rightarrow> string option \<Rightarrow> string option \<Rightarrow> bool \<Rightarrow> int \<Rightarrow> user \<Rightarrow> store
     \<Rightarrow> exn + issue list \<times> (string \<times> nat) list" where
  "sync_issues e k t r include_resolved limit u s =
     (if limit < 1 \<or> 1000 < limit then Inl (HttpError 422 ''validation_error'')
      else sbind (require_admin u) (\<lambda>v. sbind (ensure_sync_admin u)
        (\<lambda>w. Inr (scoped_issues e u k t r include_resolved (nat limit) s, scoped_issue_counts e u s))))"

definition resolve_visible ::
  "env \<Rightarrow> resolve_body \<Rightarrow> user \<Rightarrow> store \<Rightarrow> exn + (nat \<times> (string \<times> nat) list) \<times> store" where
  "resolve_visible e b u s =
     (let is = authorized_issue_ids e b u s;
          (n, s1) = (if is = [] then (0, s) else resolve_issues e is None None None s)
      in Inr ((n, scoped_issue_counts e u s1), s1))"

definition sync_resolve_issues ::
  "env \<Rightarrow> resolve_body \<Rightarrow> user \<Rightarrow> store \<Rightarrow> (exn + nat \<times> (string \<times> nat) list) \<times> store" where
  "sync_resolve_issues e b u s =
     (case sbind (require_admin u) (\<lambda>v. ensure_sync_admin u) of
        Inl x \<Rightarrow> (Inl x, s)
      | Inr w \<Rightarrow>
          if (case rb_ids b of None \<Rightarrow> True | Some js \<Rightarrow> js = []) \<and> blank (rb_kind b) \<and>
             blank (rb_table b) \<and> blank (rb_ref b)
          then (Inl (HttpError 400 ''issueIds / kind / refTable / refId''), s)
          else with_connection False (resolve_visible e b u) s)"

definition sync_pause :: "env \<Rightarrow> node_cfg \<Rightarrow> bool \<Rightarrow> user \<Rightarrow> store \<Rightarrow> (exn + bool) \<times> store" where
  "sync_pause e n b u s =
     (case sbind (require_admin u) (\<lambda>v. ensure_sync_admin u) of
        Inl x \<Rightarrow> (Inl x, s)
      | Inr w \<Rightarrow> with_connection False (\<lambda>s. Inr (b, set_paused e (nc_peer n) b s)) s)"

definition sync_trigger :: "node_cfg \<Rightarrow> user \<Rightarrow> sync_runtime \<Rightarrow> (exn + unit) \<times> sync_runtime" where
  "sync_trigger n u rt =
     (case sbind (require_admin u) (\<lambda>v. ensure_sync_admin u) of
        Inl x \<Rightarrow> (Inl x, rt)
      | Inr w \<Rightarrow> if node_role n \<noteq> ''client'' then (Inl (HttpError 409 ''not_sync_client''), rt)
                 else (Inr (), request_cycle rt))"

end
