(* ===== verification/Router_Laws.thy ===== *)
theory Router_Laws
  imports Sync_Router Apply_Batch
begin

text \<open>
  What the authorisation of \<^verbatim>\<open>src/routers/sync.py\<close> is worth: a push reaches no row of a project
  in which the account lacks the role, whatever the batch says, and brings none into it.
\<close>

section \<open>A change reaches the row it names\<close>

definition targets :: "env \<Rightarrow> change \<Rightarrow> row \<Rightarrow> bool" where
  "targets e c x = (case ch_rowId c of None \<Rightarrow> False | Some i \<Rightarrow> id_is e i x)"

definition spares :: "(tbl \<Rightarrow> row \<Rightarrow> bool) \<Rightarrow> store \<Rightarrow> store \<Rightarrow> bool" where
  "spares H s s' = (\<forall>u x. x \<in> set (tabs s u) \<longrightarrow> \<not> H u x \<longrightarrow> x \<in> set (tabs s' u))"

abbreviation at_row :: "env \<Rightarrow> tbl \<Rightarrow> string \<Rightarrow> tbl \<Rightarrow> row \<Rightarrow> bool" where
  "at_row e t i u x \<equiv> u = t \<and> id_is e i x"

lemma spares_refl [simp]: "spares H s s"
  by (simp add: spares_def)

lemma spares_trans: "spares H a b \<Longrightarrow> spares H b c \<Longrightarrow> spares H a c"
  by (simp add: spares_def)

lemma spares_same: "tabs s' = tabs s \<Longrightarrow> spares H s s'"
  by (simp add: spares_def)

lemma spares_append: "tabs s' = (tabs s)(u := tabs s u @ xs) \<Longrightarrow> spares H s s'"
  by (simp add: spares_def)

lemma spares_set: "db_set e t (id_is e i) asg s = Inr s' \<Longrightarrow> spares (at_row e t i) s s'"
  by (auto simp: spares_def dest!: db_set_tabs)

lemma spares_update: "update_row e t r cs i s = Inr s' \<Longrightarrow> spares (at_row e t i) s s'"
  by (auto simp: update_row_def Let_def intro: spares_set split: if_splits)

lemma spares_delete:
  assumes "apply_hard_delete e t i ex oc s = Inr (oc', s')"
  shows "spares (at_row e t i) s s'"
proof -
  have "spares (at_row e t i) s (db_delete e t (id_is e i) s)" by (simp add: spares_def)
  moreover have "spares (at_row e t i) s s'" if "db_set e t (id_is e i) asg (s\<lparr>ticks := k\<rparr>) = Inr s'" for asg k
    using spares_set [OF that] by (simp add: spares_def)
  ultimately show ?thesis
    using assms
    by (auto simp: apply_hard_delete_def now_utc_def Let_def split: option.splits if_splits)
qed

lemma spares_duplicates: "detect_duplicates e t i r rec oc s = Inr (oc', s') \<Longrightarrow> spares H s s'"
  by (auto dest!: duplicates_both intro: spares_same)

lemma spares_existing:
  assumes run: "apply_existing e cols sd rec t c i ex inc k oc s = Inr (oc', s')"
  shows "spares (at_row e t i) s s'"
proof (cases "Some k = row_clock ex \<and> rows_equivalent ex inc cols")
  case True
  with run show ?thesis by (auto simp: apply_existing_def)
next
  case False
  obtain dv oc1 s1 where
    conf: "(if dv then record_conflict e t i c ex inc k sd rec oc s else Inr (oc, s)) = Inr (oc1, s1)"
    and fin: "if incoming_wins k (row_clock ex) sd
     then \<exists>s2. update_row e t inc cols i s1 = Inr s2 \<and>
            detect_duplicates e t i inc rec (mark_applied t i oc1) s2 = Inr (oc', s')
     else oc' = mark_skipped oc1 \<and> s' = s1"
    by (rule apply_existing_stages [OF run False])
  have a: "spares (at_row e t i) s s1"
  proof (cases dv)
    case True
    with conf have "record_conflict e t i c ex inc k sd rec oc s = Inr (oc1, s1)" by simp
    from record_conflict_tabs(1) [OF this] show ?thesis by (elim exE) (rule spares_append)
  qed (use conf in simp)
  show ?thesis
  proof (cases "incoming_wins k (row_clock ex) sd")
    case True
    with fin obtain s2 where u: "update_row e t inc cols i s1 = Inr s2"
      "detect_duplicates e t i inc rec (mark_applied t i oc1) s2 = Inr (oc', s')" by auto
    show ?thesis
      using a spares_update [OF u(1)] spares_duplicates [OF u(2)] by (blast intro: spares_trans)
  qed (use a fin in simp)
qed

lemma spares_insert:
  assumes "insert_row e t inc cols s = Inr s1"
    and "detect_duplicates e t i inc rec oc s1 = Inr (oc', s')"
  shows "spares H s s'"
proof (rule spares_trans)
  show "spares H s s1"
    using assms(1) unfolding insert_row_def by (rule spares_append [OF db_insert_tabs])
  show "spares H s1 s'" using assms(2) by (rule spares_duplicates)
qed

lemma spares_decoded:
  "apply_decoded e cols sd rec t c i ex inc oc s = Inr (oc', s') \<Longrightarrow> spares (at_row e t i) s s'"
  by (auto simp: apply_decoded_def split: option.splits intro: spares_existing spares_insert)

lemma spares_one:
  assumes "apply_one e cbt sd rec t c oc s = Inr (oc', s')"
  shows "spares (\<lambda>u x. u = t \<and> targets e c x) s s'"
proof (cases "blank (ch_rowId c)")
  case True
  with assms show ?thesis by (auto simp: apply_one_def)
next
  case False
  then have "targets e c = id_is e (the (ch_rowId c))"
    by (cases "ch_rowId c") (auto simp: targets_def fun_eq_iff)
  with False assms show ?thesis
    unfolding apply_one_def Let_def by (auto split: if_splits intro: spares_delete spares_decoded)
qed

lemma spares_process:
  assumes "process_change e cbt sd rec rcpt (t, c) (oc, s) = Inr (oc', s')"
  shows "spares (\<lambda>u x. u = t \<and> targets e c x) s s'"
proof (cases "apply_one e cbt sd rec t c empty_outcome s")
  case (Inl x)
  with assms show ?thesis
    unfolding process_change_def Let_def
    by (auto dest!: keep_receipt_core split: option.splits if_splits intro: spares_same)
next
  case (Inr p)
  obtain d s1 where p: "p = (d, s1)" by (cases p)
  have "spares (\<lambda>u x. u = t \<and> targets e c x) s s1" using spares_one [OF Inr [unfolded p]] .
  with assms Inr p show ?thesis
    unfolding process_change_def Let_def
    by (auto dest!: keep_receipt_core split: option.splits if_splits simp: spares_def)
qed

lemma batch_reaches_named_rows:
  assumes run: "apply_changes e cbt sd rec rcpt cs s = Inr (oc, s')"
    and x: "x \<in> set (tabs s u)"
    and free: "\<And>c. c \<in> set cs \<Longrightarrow> ch_table c = tbl_name u \<Longrightarrow> \<not> targets e c x"
  shows "x \<in> set (tabs s' u)"
proof -
  have "\<not> (u = fst tc \<and> targets e (snd tc) x)" if "tc \<in> set (grouped cs)" for tc
  proof
    assume h: "u = fst tc \<and> targets e (snd tc) x"
    have "snd tc \<in> set cs \<and> ch_table (snd tc) = tbl_name (fst tc)"
      using that grouped_mem [of "fst tc" "snd tc" cs] by (simp add: tbl_of_Some)
    with h free show False by blast
  qed
  then have "x \<in> set (tabs (snd q) u)"
    if "tc \<in> set (grouped cs)" "x \<in> set (tabs (snd p) u)"
      "process_change e cbt sd rec rcpt tc p = Inr q" for tc p q
    using that spares_process [of e cbt sd rec rcpt "fst tc" "snd tc" "fst p" "snd p" "fst q" "snd q"]
    by (auto simp: spares_def)
  then show ?thesis
    using sfold_invariant [OF run [unfolded apply_changes_def], where P = "\<lambda>p. x \<in> set (tabs (snd p) u)"] x
    by auto
qed

section \<open>What the authorisation asks\<close>

text \<open>
  For a project that is there, the cache holds the account's role in it; only of a project
  the batch itself creates may it know more.
\<close>

definition cache_true :: "env \<Rightarrow> string \<Rightarrow> store \<Rightarrow> role_cache \<Rightarrow> bool" where
  "cache_true e a s cache =
     (\<forall>p r. map_of cache p = Some r \<longrightarrow> fetch_id e Projects p s \<noteq> None \<longrightarrow> r = project_role e p a s)"

definition may :: "env \<Rightarrow> string \<Rightarrow> store \<Rightarrow> tbl \<Rightarrow> string \<Rightarrow> bool" where
  "may e a s t p = (fetch_id e Projects p s \<noteq> None \<longrightarrow> p \<noteq> [] \<longrightarrow>
     has_role (required_roles t) (project_role e p a s))"

lemma role_for_true:
  assumes "cache_true e a s cache" "role_for e a ips s p cache = (r, cache')"
  shows "cache_true e a s cache'"
    and "fetch_id e Projects p s \<noteq> None \<Longrightarrow> p \<noteq> [] \<Longrightarrow> r = project_role e p a s"
  using assms by (auto simp: role_for_def cache_true_def Let_def split: if_splits option.splits)

lemma need_roles_true:
  assumes "cache_true e a s cache" "need_roles e a ips s (required_roles t) ps cache = Inr cache'"
  shows "cache_true e a s cache' \<and> (\<forall>p \<in> set ps. may e a s t p)"
  using assms
proof (induction ps arbitrary: cache)
  case (Cons p ps)
  obtain r c1 where r: "role_for e a ips s p cache = (r, c1)" by (cases "role_for e a ips s p cache")
  note rt = role_for_true [OF Cons.prems(1) r]
  from Cons.prems(2) r have "has_role (required_roles t) r"
    "need_roles e a ips s (required_roles t) ps c1 = Inr cache'"
    by (auto split: if_splits)
  with Cons.IH [OF rt(1)] rt(2) show ?case by (auto simp: may_def)
qed simp

lemma fetch_same: "same_str e p q \<Longrightarrow> fetch_id e t p s = fetch_id e t q s"
proof -
  assume "same_str e p q"
  then have "id_is e p = id_is e q" by (auto simp: fun_eq_iff col_is_iff same_str_def)
  then show ?thesis by (simp add: fetch_id_def)
qed

lemma project_role_same: "same_str e p q \<Longrightarrow> project_role e p a s = project_role e q a s"
  using fetch_same by (simp add: project_role_def)

lemma role_flag [simp]:
  "project_role e p a (s\<lparr>applying := f\<rparr>) = project_role e p a s"
  "row_project_id e t x (s\<lparr>applying := f\<rparr>) = row_project_id e t x s"
  by (simp_all add: project_role_def row_project_id_def fetch_id_def split: option.split tbl.split)

text \<open>Passing a change needs the role in the project its row is in now.\<close>

lemma authorize_one_true:
  assumes cache: "cache_true e a s cache"
    and run: "authorize_one e a ips ims s (t, c, r) cache = Inr cache'"
  shows "cache_true e a s cache'" (is ?A)
    and "\<exists>i. ch_rowId c = Some i \<and> (\<forall>p. existing_project_id e t i s = Some p \<longrightarrow> may e a s t p)" (is ?B)
proof -
  obtain i where i: "ch_rowId c = Some i" "i \<noteq> []"
    using run by (cases "ch_rowId c") (auto simp: authorize_one_def split: if_splits)
  have "?A \<and> ?B"
  proof (cases "t = Projects")
    case True
    have p: "authorize_project e a s i r cache = Inr cache'"
      using run i True by (simp add: authorize_one_def)
    have "may e a s t p" if ex: "existing_project_id e t i s = Some p" for p
    proof -
      obtain pr where pr: "fetch_id e Projects i s = Some pr" "row_str pr ''id'' = Some p"
        using ex True by (auto simp: existing_project_id_def split: option.splits)
      then have "same_str e p i"
        by (auto simp: fetch_id_def row_str_VStr col_is_iff dest!: find_SomeD)
      then have "project_role e p a s = project_role e i a s" by (rule project_role_same)
      moreover have "project_role e i a s = Some ''owner''"
        using p pr by (auto simp: authorize_project_def split: if_splits)
      ultimately show ?thesis using True by (simp add: may_def has_role_def required_roles_def)
    qed
    moreover have ?A
      using p cache by (auto simp: authorize_project_def cache_true_def split: option.splits if_splits)
    ultimately show ?thesis using i by simp
  next
    case False
    let ?ex = "existing_project_id e t i s"
    obtain new where "need_roles e a ips s (required_roles t) (projects_of ?ex new) cache = Inr cache'"
      using run i False
      by (auto simp: authorize_one_def authorize_child_def Let_def split: if_splits)
    from need_roles_true [OF cache this] i show ?thesis by (auto simp: projects_of_def)
  qed
  then show ?A ?B by simp_all
qed

text \<open>Any pass of a loop that ended starts from a state the invariant holds of.\<close>

lemma sfold_pass:
  assumes "sfold f xs s = Inr s'" "x \<in> set xs" "P s"
    and "\<And>x s s'. x \<in> set xs \<Longrightarrow> P s \<Longrightarrow> f x s = Inr s' \<Longrightarrow> P s'"
  shows "\<exists>u v. P u \<and> f x u = Inr v"
  using assms
proof (induction xs arbitrary: s)
  case (Cons y ys)
  obtain u where u: "f y s = Inr u" "sfold f ys u = Inr s'" using Cons.prems(1) by auto
  have "P u" using u(1) Cons.prems(3,4) by (meson list.set_intros(1))
  show ?case
  proof (cases "x = y")
    case False
    with Cons.prems(2) have "x \<in> set ys" by simp
    from Cons.IH [OF u(2) this \<open>P u\<close>] Cons.prems(4) show ?thesis by (meson list.set_intros(2))
  qed (use u Cons.prems(3) in blast)
qed simp

lemma normalized_member:
  "c \<in> set cs \<Longrightarrow> ch_table c = tbl_name t \<Longrightarrow>
     (t, c, filter_row t (case ch_row c of None \<Rightarrow> [] | Some r \<Rightarrow> r) (map_of cbt t))
       \<in> set (normalized_changes cbt cs)"
  by (force simp: normalized_changes_def set_map_filter)

lemma authorized_change:
  assumes run: "authorize_sync_changes e a cbt cs s = Inr roles"
    and c: "c \<in> set cs" "ch_table c = tbl_name t"
  obtains ips ims cache cache' where
    "cache_true e a s cache"
    "authorize_one e a ips ims s (t, c, filter_row t (case ch_row c of None \<Rightarrow> [] | Some r \<Rightarrow> r)
       (map_of cbt t)) cache = Inr cache'"
proof -
  note run' = run [unfolded authorize_sync_changes_def Let_def]
  have nil: "cache_true e a s []" by (simp add: cache_true_def)
  have step: "cache_true e a s cache'"
    if "cache_true e a s cache" "authorize_one e a ips ims s n cache = Inr cache'" for ips ims n cache cache'
    using that by (cases n) (blast intro: authorize_one_true(1))
  show ?thesis
    using sfold_pass [OF run' normalized_member [OF c], where P = "cache_true e a s", OF nil] step that
    by blast
qed

section \<open>Foreign projects\<close>

lemma existing_of_row:
  assumes k: "keys_ok e s" and x: "x \<in> set (tabs s t)" "id_is e i x"
    and p: "row_project_id e t x s = Some p" "p \<noteq> []"
  shows "existing_project_id e t i s = Some p"
proof (cases "t = Memo_versions")
  case True
  have u: "y = x" if "y \<in> set (tabs s Memo_versions)" "id_is e i y" for y
    using fetch_id_unique [OF k, of _ Memo_versions i] that x True by (metis option.inject)
  have j: "joined_memo e x s \<noteq> None" using p True
    by (auto simp: row_project_id_def joined_memo_def split: option.splits)
  have "find (\<lambda>v. id_is e i v \<and> joined_memo e v s \<noteq> None) (tabs s Memo_versions) \<noteq> None"
    using x j True unfolding find_None by blast
  then obtain y where y: "find (\<lambda>v. id_is e i v \<and> joined_memo e v s \<noteq> None) (tabs s Memo_versions) = Some y"
    by blast
  then have "y = x" using u by (auto dest!: find_SomeD)
  with y p True show ?thesis
    by (auto simp: existing_project_id_def row_project_id_def joined_memo_def non_blank_def
        split: option.splits)
next
  case False
  with fetch_id_unique [OF k x] p show ?thesis
    by (cases t) (auto simp: existing_project_id_def row_project_id_def non_blank_def)
qed

lemma parent_there:
  assumes "parents_ok e s" "x \<in> set (tabs s t)" "(''project_id'', Projects) \<in> set (table_parents t)"
    "row_str x ''project_id'' = Some p"
  shows "fetch_id e Projects p s \<noteq> None"
proof -
  have "\<not> parent_absent e s t x" using assms(1,2) by (simp add: parents_ok_def)
  then obtain y where "y \<in> set (tabs s Projects)" "sql_eq e (row_get y ''id'') (row_get x ''project_id'')"
    using assms(3) unfolding parent_absent_def by fastforce
  then show ?thesis using assms(4) by (auto simp: fetch_id_def find_None col_is_def row_str_VStr)
qed

lemma project_there:
  assumes p: "parents_ok e s" and x: "x \<in> set (tabs s t)" "row_project_id e t x s = Some q"
  shows "fetch_id e Projects q s \<noteq> None"
proof (cases t)
  case Projects
  with x show ?thesis
    by (auto simp: row_project_id_def fetch_id_def find_None col_is_def row_str_VStr intro!: bexI [of _ x])
next
  case Memo_versions
  with x obtain m where "m \<in> set (tabs s Memos)" "row_str m ''project_id'' = Some q"
    by (auto simp: row_project_id_def split: option.splits dest: find_SomeD)
  with parent_there [OF p] show ?thesis by auto
qed (use x parent_there [OF p x(1)] in \<open>auto simp: row_project_id_def\<close>)

section \<open>Where the rows of a project come from\<close>

text \<open>
  The rows of table \<open>t\<close> after a step: old ones, ones whose project \<open>V\<close> allows, and rows of \<open>H\<close>
  whose project has not changed.
\<close>

definition origin :: "tbl \<Rightarrow> (val \<Rightarrow> bool) \<Rightarrow> (row \<Rightarrow> bool) \<Rightarrow> store \<Rightarrow> store \<Rightarrow> bool" where
  "origin t V H s s' = (\<forall>x' \<in> set (tabs s' t). x' \<in> set (tabs s t) \<or> V (row_get x' ''project_id'') \<or>
     (\<exists>x \<in> set (tabs s t). H x \<and> row_get x' ''project_id'' = row_get x ''project_id''))"

lemma origin_same: "tabs s' t = tabs s t \<Longrightarrow> origin t V H s s'"
  by (simp add: origin_def)

lemma origin_trans: "origin t V H a b \<Longrightarrow> origin t V H b c \<Longrightarrow> origin t V H a c"
  unfolding origin_def by (metis (no_types, lifting))

lemma update_project_id:
  "row_get (row_update x asg) ''project_id'' = row_get x ''project_id'' \<or>
     (''project_id'', row_get (row_update x asg) ''project_id'') \<in> set asg"
proof (induction asg arbitrary: x)
  case (Cons a asg)
  obtain k v where "a = (k, v)" by (cases a)
  with Cons.IH [of "row_set x k v"] show ?case by (auto split: if_splits)
qed simp

lemma origin_set:
  assumes "db_set e t P asg s = Inr s'" and "\<And>v. (''project_id'', v) \<in> set asg \<Longrightarrow> V v"
    and "\<And>x. P x \<Longrightarrow> H x"
  shows "origin t V H s s'"
  unfolding origin_def
proof
  fix x' assume "x' \<in> set (tabs s' t)"
  then obtain x where x: "x \<in> set (tabs s t)"
    "x' = (if P x then row_update x (touch (sql_now e (ticks s)) t asg) else x)"
    using db_set_tabs [OF assms(1)] by auto
  have "row_get (row_update x (touch (sql_now e (ticks s)) t asg)) ''project_id'' =
      row_get (row_update x asg) ''project_id''" by (rule row_get_touch) simp
  with x update_project_id [of x asg] assms(2,3) show "x' \<in> set (tabs s t) \<or> V (row_get x' ''project_id'') \<or>
     (\<exists>x \<in> set (tabs s t). H x \<and> row_get x' ''project_id'' = row_get x ''project_id'')"
    by (cases "P x") auto
qed

lemma origin_update:
  assumes "update_row e t inc cols i s = Inr s'" "has_col inc ''project_id'' \<Longrightarrow> V (row_get inc ''project_id'')"
  shows "origin t V (id_is e i) s s'"
proof (cases "restrict_row (filter (\<lambda>c. c \<noteq> ''id'') cols) inc = []")
  case True
  with assms(1) show ?thesis by (simp add: update_row_def table_pk_def origin_same)
next
  case False
  with assms(1) have "db_set e t (id_is e i) (restrict_row (filter (\<lambda>c. c \<noteq> ''id'') cols) inc) s = Inr s'"
    by (simp add: update_row_def table_pk_def)
  then show ?thesis by (rule origin_set) (use assms(2) in \<open>auto simp: restrict_row_def\<close>)
qed

lemma origin_insert:
  assumes "insert_row e t inc cols s = Inr s1" "detect_duplicates e t i inc rec oc s1 = Inr (oc', s')"
    and "has_col inc ''project_id'' \<Longrightarrow> V (row_get inc ''project_id'')" "V VNull"
  shows "origin t V H s s'"
proof -
  have "tabs s' t = tabs s t @ [complete_row (sql_now e (ticks s)) t (restrict_row cols inc)]"
    using assms(1,2) by (auto simp: insert_row_def dest!: db_insert_tabs duplicates_both)
  moreover have "V (row_get (complete_row now t (restrict_row cols inc)) ''project_id'')" for now
    using assms(3,4)
    by (auto simp: row_get_complete column_default_def WALL_CLOCK_COLUMNS_def restrict_get)
  ultimately show ?thesis by (simp add: origin_def)
qed

lemma origin_delete:
  assumes "apply_hard_delete e t i ex oc s = Inr (oc', s')"
  shows "origin t V (id_is e i) s s'"
proof -
  have "origin t V (id_is e i) s s'" if "db_set e t (id_is e i) [(''deleted_at'', v), (''updated_at_utc'', w)]
      (s\<lparr>ticks := k\<rparr>) = Inr s'" for v w k
    using origin_set [OF that, of V "id_is e i"] by (simp add: origin_def)
  moreover have "origin t V (id_is e i) s (db_delete e t (id_is e i) s)" by (auto simp: origin_def)
  ultimately show ?thesis
    using assms
    by (auto simp: apply_hard_delete_def now_utc_def Let_def split: option.splits if_splits
        intro: origin_same)
qed

lemma origin_existing:
  assumes run: "apply_existing e cols sd rec t c i ex inc k oc s = Inr (oc', s')"
    and V: "has_col inc ''project_id'' \<Longrightarrow> V (row_get inc ''project_id'')"
  shows "origin t V (id_is e i) s s'"
proof (cases "Some k = row_clock ex \<and> rows_equivalent ex inc cols")
  case True
  with run show ?thesis by (auto simp: apply_existing_def intro: origin_same)
next
  case False
  obtain dv oc1 s1 where
    conf: "(if dv then record_conflict e t i c ex inc k sd rec oc s else Inr (oc, s)) = Inr (oc1, s1)"
    and fin: "if incoming_wins k (row_clock ex) sd
     then \<exists>s2. update_row e t inc cols i s1 = Inr s2 \<and>
            detect_duplicates e t i inc rec (mark_applied t i oc1) s2 = Inr (oc', s')
     else oc' = mark_skipped oc1 \<and> s' = s1"
    by (rule apply_existing_stages [OF run False])
  have a: "origin t V (id_is e i) s s1" using conflict_step_tabs [OF conf] by (rule origin_same)
  show ?thesis
  proof (cases "incoming_wins k (row_clock ex) sd")
    case True
    with fin obtain s2 where u: "update_row e t inc cols i s1 = Inr s2"
      "detect_duplicates e t i inc rec (mark_applied t i oc1) s2 = Inr (oc', s')" by auto
    have "tabs s' t = tabs s2 t" using u(2) by (auto dest!: duplicates_both)
    then show ?thesis
      using a origin_update [where V = V, OF u(1) V] by (blast intro: origin_trans origin_same)
  qed (use a fin in simp)
qed

text \<open>The project a change names for its row, if it names one.\<close>

definition named_project :: "(tbl \<times> string list) list \<Rightarrow> tbl \<Rightarrow> change \<Rightarrow> val \<Rightarrow> bool" where
  "named_project cbt t c v = (v = VNull \<or>
     (\<exists>r. ch_row c = Some r \<and> ''project_id'' \<in> set (cols_for cbt t) \<and> row_get r ''project_id'' = v))"

lemma origin_one:
  assumes run: "apply_one e cbt sd rec t c oc s = Inr (oc', s')" and d: "distinct (cols_for cbt t)"
  shows "origin t (named_project cbt t c) (targets e c) s s'"
proof (cases "blank (ch_rowId c)")
  case True
  with run show ?thesis by (auto simp: apply_one_def intro: origin_same)
next
  case False
  let ?i = "the (ch_rowId c)" and ?V = "named_project cbt t c"
  have H: "targets e c = id_is e ?i"
    using False by (cases "ch_rowId c") (auto simp: targets_def fun_eq_iff)
  show ?thesis
  proof (cases "ch_op c = ''delete'' \<and> ch_row c = None")
    case True
    with run False show ?thesis by (auto simp: apply_one_def Let_def H intro: origin_delete)
  next
    case nd: False
    obtain inc0 where dec: "deserialize_row (cols_for cbt t) (case ch_row c of None \<Rightarrow> [] | Some r \<Rightarrow> r) = Inr inc0"
      and app: "apply_decoded e (cols_for cbt t) sd rec t c ?i (fetch_id e t ?i s)
          (row_set inc0 ''id'' (VStr ?i)) oc s = Inr (oc', s')"
      using run False nd by (auto simp: apply_one_def table_pk_def Let_def split: if_splits)
    have V: "?V (row_get (row_set inc0 ''id'' (VStr ?i)) ''project_id'')"
      if "has_col (row_set inc0 ''id'' (VStr ?i)) ''project_id''"
    proof -
      have h: "''project_id'' \<in> set (cols_for cbt t)"
        "has_col (case ch_row c of None \<Rightarrow> [] | Some r \<Rightarrow> r) ''project_id''"
        using that deserialize_has_col [OF dec] by simp_all
      from deserialize_get [OF dec d this] h show ?thesis
        by (auto simp: named_project_def deserialize_value_def UTC_COLUMNS_def WALL_CLOCK_COLUMNS_def
            split: option.splits)
    qed
    have n: "?V VNull" by (simp add: named_project_def)
    show ?thesis
      unfolding H using app origin_existing [where V = ?V, OF _ V] origin_insert [where V = ?V, OF _ _ V n]
      by (auto simp: apply_decoded_def split: option.splits intro: origin_same)
  qed
qed

lemma origin_process:
  assumes run: "process_change e cbt sd rec rcpt (t, c) (oc, s) = Inr (oc', s')"
    and d: "distinct (cols_for cbt t)"
  shows "origin t (named_project cbt t c) (targets e c) s s'"
proof (cases "apply_one e cbt sd rec t c empty_outcome s")
  case (Inl x)
  with run show ?thesis
    unfolding process_change_def Let_def
    by (auto dest!: keep_receipt_core split: option.splits if_splits intro: origin_same)
next
  case (Inr p)
  obtain k s1 where p: "p = (k, s1)" by (cases p)
  have "origin t (named_project cbt t c) (targets e c) s s1" using origin_one [OF Inr [unfolded p] d] .
  with run Inr p show ?thesis
    unfolding process_change_def Let_def
    by (auto dest!: keep_receipt_core split: option.splits if_splits simp: origin_def)
qed

section \<open>Nothing enters a foreign project\<close>

definition foreign :: "env \<Rightarrow> string \<Rightarrow> store \<Rightarrow> tbl \<Rightarrow> string \<Rightarrow> bool" where
  "foreign e a s t q = (q \<noteq> [] \<and> fetch_id e Projects q s \<noteq> None \<and>
     \<not> has_role (required_roles t) (project_role e q a s))"

lemma foreign_may: "foreign e a s t q \<Longrightarrow> \<not> may e a s t q"
  by (simp add: foreign_def may_def)

lemma row_get_filter:
  "row_get (filter (\<lambda>(k, v). k \<in> K) r) c = (if c \<in> K then row_get r c else VNull)"
  by (induction r) (auto simp: row_get_Cons)

lemma agreed_columns:
  assumes "resolve_push_columns b = Inr cbt"
  shows "distinct (cols_for cbt t)"
    and "c \<in> set (cols_for cbt t) \<Longrightarrow> row_get (filter_row t r (map_of cbt t)) c = row_get r c"
proof -
  have cs: "cs \<noteq> [] \<and> distinct cs" if "map_of cbt t = Some cs" for cs
  proof (cases "pb_tables b")
    case None
    with assms that show ?thesis
      by (auto simp: resolve_push_columns_def peer_columns_def split: if_splits)
  next
    case (Some ts)
    have "(\<forall>(u, ks) \<in> set cbt. ks \<noteq> [] \<and> distinct ks)"
      if "sfold (\<lambda>t d. case map_of ts (tbl_name t) of None \<Rightarrow> Inr d
          | Some cs \<Rightarrow> if cs = [] then Inr d
              else sbind (intersect_columns t (Some cs)) (\<lambda>ks. Inr (d @ [(t, ks)]))) SYNC_TABLE_ORDER [] = Inr cbt"
      by (rule sfold_invariant [OF that]) (fastforce split: option.splits if_splits dest!: intersect_columns_ok)+
    with assms that Some show ?thesis
      by (auto simp: resolve_push_columns_def peer_columns_def split: if_splits sum.splits dest!: map_of_SomeD)
  qed
  show "distinct (cols_for cbt t)" using cs by (auto simp: cols_for_def split: option.splits)
  show "row_get (filter_row t r (map_of cbt t)) c = row_get r c" if "c \<in> set (cols_for cbt t)"
    using cs that by (auto simp: cols_for_def filter_row_def row_get_filter split: option.splits if_splits)
qed

lemma authorized_target:
  assumes k: "keys_ok e s" and p: "parents_ok e s"
    and au: "authorize_sync_changes e a cbt cs s = Inr roles"
    and c: "c \<in> set cs" "ch_table c = tbl_name t" "targets e c x"
    and x: "x \<in> set (tabs s t)" "row_project_id e t x s = Some q" "q \<noteq> []"
  shows "may e a s t q"
proof -
  from authorized_change [OF au c(1,2)] obtain i where i: "ch_rowId c = Some i"
    "\<And>q'. existing_project_id e t i s = Some q' \<Longrightarrow> may e a s t q'"
    by (metis authorize_one_true(2))
  with c(3) have "id_is e i x" by (simp add: targets_def)
  from i(2) [OF existing_of_row [OF k x(1) this x(2,3)]] show ?thesis .
qed

lemma authorized_name:
  assumes au: "authorize_sync_changes e a cbt cs s = Inr roles" and t: "t \<in> {Memos, Project_members}"
    and c: "c \<in> set cs" "ch_table c = tbl_name t"
    and cols: "\<And>r c. c \<in> set (cols_for cbt t) \<Longrightarrow> row_get (filter_row t r (map_of cbt t)) c = row_get r c"
    and q: "named_project cbt t c (VStr q)" "q \<noteq> []"
  shows "may e a s t q"
proof -
  obtain r where r: "ch_row c = Some r" "''project_id'' \<in> set (cols_for cbt t)" "row_get r ''project_id'' = VStr q"
    using q(1) by (auto simp: named_project_def)
  let ?r = "filter_row t r (map_of cbt t)"
  have rq: "row_get ?r ''project_id'' = VStr q" using cols [OF r(2)] r(3) by simp
  then have inc: "incoming_project ?r ex = Some q" for ex using q(2) by (simp add: incoming_project_def)
  obtain ips ims cache cache' where ok: "cache_true e a s cache"
    and one: "authorize_one e a ips ims s (t, c, ?r) cache = Inr cache'"
    by (rule authorized_change [OF au c]) (rule that, assumption, simp add: r(1))
  have "t \<noteq> Projects" "t \<noteq> Memo_versions" using t by auto
  with one obtain i c1 where "need_roles e a ips s (required_roles t)
      (projects_of (existing_project_id e t i s) (Some q)) cache = Inr c1"
    by (auto simp: authorize_one_def authorize_child_def inc Let_def split: if_splits)
  from need_roles_true [OF ok this] show ?thesis by (auto simp: projects_of_def)
qed

lemma batch_enters_no_foreign:
  assumes k: "keys_ok e s" and p: "parents_ok e s" and t: "t \<in> {Memos, Project_members}"
    and au: "authorize_sync_changes e a cbt cs s = Inr roles" and b: "resolve_push_columns b = Inr cbt"
    and run: "apply_changes e cbt sd rec rcpt cs s = Inr (oc, s')"
    and x: "x' \<in> set (tabs s' t)" "row_get x' ''project_id'' = VStr q" "foreign e a s t q"
  shows "x' \<in> set (tabs s t)"
proof -
  let ?I = "\<lambda>w :: outcome \<times> store. \<forall>x \<in> set (tabs (snd w) t). \<forall>q. row_get x ''project_id'' = VStr q \<longrightarrow>
      foreign e a s t q \<longrightarrow> x \<in> set (tabs s t)"
  have step: "?I w'" if tc: "tc \<in> set (grouped cs)" and I: "?I w"
    and pr: "process_change e cbt sd rec rcpt tc w = Inr w'" for tc w w'
  proof -
    obtain u c where uc: "tc = (u, c)" by (cases tc)
    have c: "c \<in> set cs" "ch_table c = tbl_name u" using tc uc by (simp_all add: grouped_mem tbl_of_Some)
    obtain o1 s1 o2 s2 where w: "w = (o1, s1)" "w' = (o2, s2)" by (cases w; cases w')
    note pr' = pr [unfolded uc w]
    show ?thesis
    proof (cases "u = t")
      case False
      with process_tabs [OF pr', of t] t I w show ?thesis by auto
    next
      case True
      note o = origin_process [OF pr' agreed_columns(1) [OF b], unfolded True]
      show ?thesis
      proof (intro ballI allI impI)
        fix y q assume y: "y \<in> set (tabs (snd w') t)" "row_get y ''project_id'' = VStr q" "foreign e a s t q"
        have q: "q \<noteq> []" "\<not> may e a s t q" using y(3) foreign_may by (auto simp: foreign_def)
        from o y(1,2) w consider "y \<in> set (tabs s1 t)" | "named_project cbt t c (VStr q)"
          | x where "x \<in> set (tabs s1 t)" "targets e c x" "row_get x ''project_id'' = VStr q"
          unfolding origin_def by fastforce
        then show "y \<in> set (tabs s t)"
        proof cases
          case 1
          with I y w show ?thesis by auto
        next
          case 2
          with authorized_name [OF au t c(1) _ agreed_columns(2) [OF b]] c(2) True q show ?thesis by blast
        next
          case 3
          with I y(3) w have "x \<in> set (tabs s t)" by auto
          moreover have "row_project_id e t x s = Some q"
            using 3(3) t by (auto simp: row_project_id_def row_str_def)
          ultimately show ?thesis using authorized_target [OF k p au c(1) _ 3(2)] c(2) True q by blast
        qed
      qed
    qed
  qed
  have "?I (oc, s')"
    by (rule sfold_invariant [OF run [unfolded apply_changes_def]]) (use step in auto)
  with x show ?thesis by auto
qed

lemma authorize_flag [simp]: "authorize_sync_changes e a cbt cs (s\<lparr>applying := f\<rparr>) = authorize_sync_changes e a cbt cs s"
proof -
  have "fetch_id e t i (s\<lparr>applying := f\<rparr>) = fetch_id e t i s"
    "existing_project_id e t i (s\<lparr>applying := f\<rparr>) = existing_project_id e t i s"
    "memo_project_id e v ims (s\<lparr>applying := f\<rparr>) = memo_project_id e v ims s"
    "authorize_project e a (s\<lparr>applying := f\<rparr>) = authorize_project e a s"
    "role_for e a ips (s\<lparr>applying := f\<rparr>) = role_for e a ips s" for t i v ims ips
    by (simp_all add: fun_eq_iff fetch_id_def existing_project_id_def joined_memo_def memo_project_id_def
        authorize_project_def role_for_def Let_def split: tbl.split option.split)
  note eq = this
  have needs: "need_roles e a ips (s\<lparr>applying := f\<rparr>) rs ps cache = need_roles e a ips s rs ps cache" for ips rs ps cache
    by (induction ps arbitrary: cache) (simp_all add: eq split: prod.split)
  have "authorize_one e a ips ims (s\<lparr>applying := f\<rparr>) = authorize_one e a ips ims s" for ips ims
    by (simp add: fun_eq_iff authorize_one_def authorize_child_def Let_def eq needs)
  then show ?thesis by (simp add: authorize_sync_changes_def)
qed

text \<open>A push changes the tables only through an authorised batch.\<close>

lemma push_run:
  assumes "sync_push e batch_limit who b s = (ans, s')" "tabs s' \<noteq> tabs s"
  obtains cbt roles oc s1 where "resolve_push_columns b = Inr cbt"
    "authorize_sync_changes e (pr_account who) cbt (pb_changes b) s = Inr roles"
    "apply_changes e cbt Client True (Some (pr_account who, pb_client b)) (pb_changes b)
       (s\<lparr>applying := True\<rparr>) = Inr (oc, s1)" "tabs s' = tabs s1"
  using assms
  by (auto simp: sync_push_def with_connection_def apply_push_def push_reply_of_def now_utc_def Let_def
      split: if_splits sum.splits prod.splits)

lemma flag_sound: "keys_ok e s \<Longrightarrow> keys_ok e (s\<lparr>applying := f\<rparr>)" "parents_ok e s \<Longrightarrow> parents_ok e (s\<lparr>applying := f\<rparr>)"
  by simp_all

text \<open>C21. Whatever a peer pushes, a row of a project in which the account lacks the required role
  stays as it was.\<close>

theorem push_spares_foreign_projects:
  assumes k: "keys_ok e s" and p: "parents_ok e s"
    and run: "sync_push e batch_limit who b s = (ans, s')"
    and x: "x \<in> set (tabs s t)" "row_project_id e t x s = Some q" "q \<noteq> []"
    and foreign: "\<not> has_role (required_roles t) (project_role e q (pr_account who) s)"
  shows "x \<in> set (tabs s' t)"
proof (cases "tabs s' = tabs s")
  case False
  from push_run [OF run this] obtain cbt roles oc s1 where
    au: "authorize_sync_changes e (pr_account who) cbt (pb_changes b) s = Inr roles"
    and app: "apply_changes e cbt Client True (Some (pr_account who, pb_client b)) (pb_changes b)
       (s\<lparr>applying := True\<rparr>) = Inr (oc, s1)" and s': "tabs s' = tabs s1" .
  have "\<not> may e (pr_account who) s t q"
    using project_there [OF p x(1,2)] x(3) foreign by (simp add: may_def)
  then have "\<not> targets e c x" if "c \<in> set (pb_changes b)" "ch_table c = tbl_name t" for c
    using authorized_target [OF k p au that _ x] by blast
  with batch_reaches_named_rows [OF app, of x t] x(1) s' show ?thesis by simp
qed (use x in simp)

text \<open>C22. After a push every memo and membership of a project in which the account lacks the role was
  there before, unchanged: nothing is moved or created into a foreign project.\<close>

theorem push_enters_no_foreign_project:
  assumes k: "keys_ok e s" and p: "parents_ok e s"
    and run: "sync_push e batch_limit who b s = (ans, s')"
    and t: "t = Memos \<or> t = Project_members"
    and x: "x \<in> set (tabs s' t)" "row_get x ''project_id'' = VStr q" "q \<noteq> []"
    and q: "fetch_id e Projects q s \<noteq> None"
    and foreign: "\<not> has_role (required_roles t) (project_role e q (pr_account who) s)"
  shows "x \<in> set (tabs s t)"
proof (cases "tabs s' = tabs s")
  case False
  from push_run [OF run this] obtain cbt roles oc s1 where b: "resolve_push_columns b = Inr cbt"
    and au: "authorize_sync_changes e (pr_account who) cbt (pb_changes b) s = Inr roles"
    and app: "apply_changes e cbt Client True (Some (pr_account who, pb_client b)) (pb_changes b)
       (s\<lparr>applying := True\<rparr>) = Inr (oc, s1)" and s': "tabs s' = tabs s1" .
  let ?s = "s\<lparr>applying := True\<rparr>"
  have au': "authorize_sync_changes e (pr_account who) cbt (pb_changes b) ?s = Inr roles" using au by simp
  have "foreign e (pr_account who) ?s t q" using x(3) q foreign by (simp add: foreign_def fetch_id_def)
  with batch_enters_no_foreign [OF flag_sound(1) [OF k] flag_sound(2) [OF p] _ au' b app] t x(1,2) s'
  show ?thesis by auto
qed (use x in simp)

section \<open>All or nothing\<close>

lemma push_outcome:
  assumes "sync_push e batch_limit who b s = (Inr a, s')"
  obtains cbt s1 where "apply_changes e cbt Client True (Some (pr_account who, pb_client b)) (pb_changes b)
      (s\<lparr>applying := True\<rparr>) = Inr (pa_outcome a, s1)" "receipts s' = receipts s1"
  using assms
  by (auto simp: sync_push_def with_connection_def apply_push_def push_reply_of_def now_utc_def Let_def
      split: if_splits sum.splits prod.splits)

text \<open>C27. A push is answered in full or has done nothing: an error of any kind leaves the whole store
  as it was, an answer names each change once and keeps the receipts well formed.\<close>

theorem push_is_all_or_nothing:
  assumes "sync_push e batch_limit who b s = (ans, s')" "receipts_ok s"
  shows "(case ans of
      Inl x \<Rightarrow> s' = s
    | Inr a \<Rightarrow> mset (map rr_seq (oc_results (pa_outcome a))) = mset (map ch_seq (pb_changes b)) \<and>
        receipts_ok s' \<and> pb_schema b \<le> SCHEMA_VERSION)"
proof (cases ans)
  case (Inl x)
  with assms(1) show ?thesis
    by (auto simp: sync_push_def with_connection_def push_reply_of_def Let_def
        split: if_splits sum.splits prod.splits)
next
  case (Inr a)
  note run = assms(1) [unfolded Inr]
  obtain cbt s1 where app: "apply_changes e cbt Client True (Some (pr_account who, pb_client b)) (pb_changes b)
      (s\<lparr>applying := True\<rparr>) = Inr (pa_outcome a, s1)" and rc: "receipts s' = receipts s1"
    using push_outcome [OF run] .
  have "receipts_ok (s\<lparr>applying := True\<rparr>)" using assms(2) by (simp add: receipts_ok_def)
  from batch_answered [OF app this] rc
  have "mset (map rr_seq (oc_results (pa_outcome a))) = mset (map ch_seq (pb_changes b))" "receipts_ok s'"
    by (simp_all add: receipts_ok_def)
  moreover have "pb_schema b \<le> SCHEMA_VERSION"
    using run by (auto simp: sync_push_def resolve_push_columns_def split: if_splits sum.splits)
  ultimately show ?thesis using Inr by simp
qed

end
