(* ===== verification/Router_Witnesses.thy ===== *)
theory Router_Witnesses
  imports Router_Laws Samples
begin

text \<open>
  Pushes at work: Ann owns the project of memo \<open>m\<close>, Bob the project of memo \<open>n\<close>, and Ann's
  client pushes.
\<close>

definition bobs_project :: row where
  "bobs_project = row_set (sample_project ''q'' ''cave'' 0) ''owner_id'' (VStr ''bob'')"

definition bobs_memo :: row where "bobs_memo = sample_memo ''n'' ''q'' ''plan'' ''secret'' 0"

definition shared_store :: store where
  "shared_store = sample_store [sample_project ''p'' ''home'' 0, bobs_project]
     [sample_memo ''m'' ''p'' ''todo'' ''old'' 0, bobs_memo] []"

definition ann :: principal where
  "ann = \<lparr>pr_account = ''ann'', pr_permission = ''owner'', pr_kind = ''service_credential'',
     pr_subject = ''laptop''\<rparr>"

definition push_of :: "change list \<Rightarrow> push_body" where
  "push_of cs = \<lparr>pb_client = ''laptop:01234567-89ab-4def-8123-456789abcdef'', pb_schema = SCHEMA_VERSION,
     pb_drift = False, pb_tables = None, pb_changes = cs\<rparr>"

definition own_edit :: change where
  "own_edit = row_change 1 Memos ''m'' (sample_memo ''m'' ''p'' ''todo'' ''new'' 5000)"

definition foreign_edit :: change where
  "foreign_edit = row_change 2 Memos ''n'' (sample_memo ''n'' ''p'' ''todo'' ''mine now'' 5000)"

definition pushed :: "change list \<Rightarrow> (exn + push_answer) \<times> store" where
  "pushed cs = sync_push sample_env 100 ann (push_of cs) shared_store"

lemma client_id_ok: "valid_client_id (pb_client (push_of cs))"
proof -
  have "valid_client_id ''laptop:01234567-89ab-4def-8123-456789abcdef''" by code_simp
  then show ?thesis by (simp add: push_of_def)
qed

lemma shared_sound: "keys_ok sample_env shared_store" "parents_ok sample_env shared_store"
proof -
  have "keys_ok sample_env shared_store \<and> parents_ok sample_env shared_store" by code_simp
  then show "keys_ok sample_env shared_store" "parents_ok sample_env shared_store" by blast+
qed

lemma bob_foreign:
  "bobs_memo \<in> set (tabs shared_store Memos)" "row_project_id sample_env Memos bobs_memo shared_store = Some ''q''"
  "row_get bobs_memo ''project_id'' = VStr ''q''" "fetch_id sample_env Projects ''q'' shared_store \<noteq> None"
  "\<not> has_role (required_roles Memos) (project_role sample_env ''q'' (pr_account ann) shared_store)"
proof -
  have "bobs_memo \<in> set (tabs shared_store Memos) \<and> row_project_id sample_env Memos bobs_memo shared_store = Some ''q'' \<and>
    row_get bobs_memo ''project_id'' = VStr ''q'' \<and> fetch_id sample_env Projects ''q'' shared_store \<noteq> None \<and>
    \<not> has_role (required_roles Memos) (project_role sample_env ''q'' (pr_account ann) shared_store)"
    by code_simp
  then show "bobs_memo \<in> set (tabs shared_store Memos)" "row_project_id sample_env Memos bobs_memo shared_store = Some ''q''"
    "row_get bobs_memo ''project_id'' = VStr ''q''" "fetch_id sample_env Projects ''q'' shared_store \<noteq> None"
    "\<not> has_role (required_roles Memos) (project_role sample_env ''q'' (pr_account ann) shared_store)"
    by blast+
qed

theorem push_spares_foreign_projects_witness:
  "bobs_memo \<in> set (tabs (snd (pushed [own_edit, foreign_edit])) Memos)"
proof -
  have "sync_push sample_env 100 ann (push_of [own_edit, foreign_edit]) shared_store =
      (fst (pushed [own_edit, foreign_edit]), snd (pushed [own_edit, foreign_edit]))"
    by (simp add: pushed_def)
  from push_spares_foreign_projects [OF shared_sound this bob_foreign(1,2) _ bob_foreign(5)]
  show ?thesis by simp
qed

text \<open>An accepted push: Ann's memo is rewritten, Bob's is still the only memo of his project.\<close>

lemma accepted_push:
  "ok_with (\<lambda>oc s. oc_applied oc = 1 \<and> bobs_memo \<in> set (tabs s Memos) \<and> length (tabs s Memos) = 2)
     (apply_push sample_env ann [] (push_of [own_edit]) (shared_store\<lparr>applying := True\<rparr>))"
  by code_simp

lemma own_push_valid: "valid_push 100 (push_of [own_edit])"
proof -
  have "valid_change own_edit" by code_simp
  then show ?thesis using client_id_ok [of "[own_edit]"] by (simp add: valid_push_def) (simp add: push_of_def)
qed

lemma accepted_tables:
  assumes "apply_push sample_env ann [] (push_of [own_edit]) (shared_store\<lparr>applying := True\<rparr>) = Inr (oc, s1)"
  shows "tabs (snd (pushed [own_edit])) = tabs s1"
proof -
  have "resolve_push_columns (push_of [own_edit]) = Inr []"
    by (simp add: resolve_push_columns_def push_of_def)
  with assms own_push_valid show ?thesis
    by (simp add: pushed_def sync_push_def with_connection_def push_reply_of_def now_utc_def Let_def)
qed

theorem push_enters_no_foreign_project_witness:
  "bobs_memo \<in> set (tabs (snd (pushed [own_edit])) Memos) \<and> bobs_memo \<in> set (tabs shared_store Memos)"
proof (rule ok_withE [OF accepted_push])
  fix oc s1
  assume "apply_push sample_env ann [] (push_of [own_edit]) (shared_store\<lparr>applying := True\<rparr>) = Inr (oc, s1)"
    "oc_applied oc = 1 \<and> bobs_memo \<in> set (tabs s1 Memos) \<and> length (tabs s1 Memos) = 2"
  then have m: "bobs_memo \<in> set (tabs (snd (pushed [own_edit])) Memos)" using accepted_tables by simp
  have "sync_push sample_env 100 ann (push_of [own_edit]) shared_store =
      (fst (pushed [own_edit]), snd (pushed [own_edit]))"
    by (simp add: pushed_def)
  from push_enters_no_foreign_project [OF shared_sound this _ m bob_foreign(3) _ bob_foreign(4,5)] m
  show ?thesis by simp
qed

theorem push_is_all_or_nothing_witness:
  "\<exists>a. fst (pushed [own_edit]) = Inr a \<and>
     mset (map rr_seq (oc_results (pa_outcome a))) = {#Some 1#}"
proof (rule ok_withE [OF accepted_push])
  fix oc s1
  assume "apply_push sample_env ann [] (push_of [own_edit]) (shared_store\<lparr>applying := True\<rparr>) = Inr (oc, s1)"
  moreover have "resolve_push_columns (push_of [own_edit]) = Inr []"
    by (simp add: resolve_push_columns_def push_of_def)
  ultimately obtain a where a: "fst (pushed [own_edit]) = Inr a"
    using own_push_valid by (simp add: pushed_def sync_push_def with_connection_def push_reply_of_def now_utc_def Let_def)
  then have run: "sync_push sample_env 100 ann (push_of [own_edit]) shared_store = (Inr a, snd (pushed [own_edit]))"
    by (simp add: pushed_def prod_eq_iff)
  have "receipts_ok shared_store"
    by (simp add: receipts_ok_def shared_store_def sample_store_def empty_store_def)
  have c: "pb_changes (push_of [own_edit]) = [own_edit]" by (simp add: push_of_def)
  have q: "ch_seq own_edit = Some 1" by (simp add: own_edit_def row_change_def)
  from push_is_all_or_nothing [OF run \<open>receipts_ok shared_store\<close>] a c q show ?thesis by simp
qed

section \<open>Where the code falls short of its intent\<close>

text \<open>
  The guard on a change of owner lets a NULL through: Carol, a member of role owner, pushes
  Ann's project without an owner, and nobody owns it any more.
\<close>

definition carol :: principal where "carol = ann\<lparr>pr_account := ''carol''\<rparr>"

definition carols_role :: row where
  "carols_role = [(''id'', VStr ''c''), (''project_id'', VStr ''p''), (''user_id'', VStr ''carol''),
     (''username'', VStr ''carol''), (''display_name'', VNull), (''email'', VNull), (''role'', VStr ''owner''),
     (''invited_at'', VTime 0), (''updated_at_utc'', VTime 0), (''deleted_at'', VNull)]"

definition team_store :: store where
  "team_store = (sample_store [sample_project ''p'' ''home'' 0] [] [])
     \<lparr>tabs := (\<lambda>t. []) (Projects := [sample_project ''p'' ''home'' 0], Project_members := [carols_role])\<rparr>"

definition ownerless :: change where
  "ownerless = row_change 1 Projects ''p'' (row_set (sample_project ''p'' ''home'' 5000) ''owner_id'' VNull)"

lemma null_owner_passes:
  "ok_with (\<lambda>oc s. oc_applied oc = 1 \<and> map (\<lambda>r. row_get r ''owner_id'') (tabs s Projects) = [VNull])
     (apply_push sample_env carol [] (push_of [ownerless]) (team_store\<lparr>applying := True\<rparr>))"
  by code_simp

text \<open>The error and the time that the daemon stored are never shown: the runtime's replace them.\<close>

lemma stored_error_is_hidden:
  "sv_error (sync_status e n rt u s) = rt_error rt \<and>
     sv_ok_at (sync_status e n rt u s) = map_option iso_db (rt_ok_at rt)"
  by (simp add: sync_status_def runtime_snapshot_def Let_def)

end
