(* ===== verification/Sync_Daemon.thy ===== *)
theory Sync_Daemon
  imports Peer Access
begin

text \<open>
  \<^verbatim>\<open>src/services/sync_daemon.py\<close>: the client's cycle. A cycle asks the peer for a handshake,
  checks schema, clock and identity, pushes the outbox queue, pulls the feed and stores the
  cursors. Every database section is a transaction of its own and stays committed when a later
  step fails, so a step returns the world on both sides: \<open>(halt + 'a) \<times> world\<close>.

  The peer is a parameter: a state of any type and three operations on it. The background
  tasks and the socket subscription (\<open>start\<close>, \<open>stop\<close>, \<open>_run_socket\<close>) are not modelled beyond
  the wake-up they cause.
\<close>

section \<open>Configuration, messages of the peer\<close>

record daemon_cfg =
  dc_client :: string
  dc_batch :: nat
  dc_skew_limit :: int
  dc_drift :: bool
  dc_poll :: int
  dc_backoff :: int

record handshake =
  hs_schema :: int
  hs_tables :: "(string \<times> string list) list option"
  hs_time :: "string option"
  hs_account :: "string option"
  hs_owners :: "string list"

record feed_reply =
  fr_changes :: "change list"
  fr_next :: "int option"
  fr_max :: "int option"

record wire_result =
  wr_status :: "string option"
  wr_table :: "string option"
  wr_rowId :: "string option"
  wr_reason :: "string option"
  wr_effective :: "string option"

record push_reply =
  pr_applied :: nat
  pr_skipped :: nat
  pr_conflicts :: "conflict list"
  pr_duplicates :: "duplicate list"
  pr_deferred :: "ref_entry list"
  pr_rejected :: "ref_entry list"
  pr_results :: "wire_result list"

record 'p peer_ops =
  po_handshake :: "'p \<Rightarrow> (peer_fail + handshake) \<times> 'p"
  po_changes :: "int \<Rightarrow> nat \<Rightarrow> 'p \<Rightarrow> (peer_fail + feed_reply) \<times> 'p"
  po_push :: "string \<Rightarrow> change list \<Rightarrow> 'p \<Rightarrow> (peer_fail + push_reply) \<times> 'p"

section \<open>Steps of a cycle\<close>

record 'p world =
  wd_store :: store
  wd_runtime :: sync_runtime
  wd_peer :: 'p
  wd_last_cycle :: int
  wd_last_attempt :: int

text \<open>
  What ends a cycle: \<open>SyncPeerUnreachable\<close> or \<open>SyncPeerError\<close>, \<open>SyncBlocked\<close> with its kind,
  message and detail, or any other exception.
\<close>

datatype halt = PeerFailed peer_fail | Blocked string string gate | Crashed exn

fun wbind :: "('e + 'a) \<times> 'w \<Rightarrow> ('a \<Rightarrow> 'w \<Rightarrow> ('e + 'b) \<times> 'w) \<Rightarrow> ('e + 'b) \<times> 'w" where
  "wbind (Inl x, w) f = (Inl x, w)"
| "wbind (Inr a, w) f = f a w"

text \<open>A \<open>for\<close> loop over such steps, threading a value.\<close>

fun wfold :: "('x \<Rightarrow> 'a \<Rightarrow> 'w \<Rightarrow> ('e + 'a) \<times> 'w) \<Rightarrow> 'x list \<Rightarrow> 'a \<Rightarrow> 'w \<Rightarrow> ('e + 'a) \<times> 'w" where
  "wfold f [] a w = (Inr a, w)"
| "wfold f (x # xs) a w = wbind (f x a w) (wfold f xs)"

definition section_of ::
  "bool \<Rightarrow> (store \<Rightarrow> exn + 'a \<times> store) \<Rightarrow> 'p world \<Rightarrow> (halt + 'a) \<times> 'p world" where
  "section_of flag body w =
     (case with_connection flag body (wd_store w) of
        (Inl x, s) \<Rightarrow> (Inl (Crashed x), w\<lparr>wd_store := s\<rparr>)
      | (Inr v, s) \<Rightarrow> (Inr v, w\<lparr>wd_store := s\<rparr>))"

definition ask :: "('p \<Rightarrow> (peer_fail + 'r) \<times> 'p) \<Rightarrow> 'p world \<Rightarrow> (halt + 'r) \<times> 'p world" where
  "ask oper w =
     (case oper (wd_peer w) of
        (Inl x, p) \<Rightarrow> (Inl (PeerFailed x), w\<lparr>wd_peer := p\<rparr>)
      | (Inr r, p) \<Rightarrow> (Inr r, w\<lparr>wd_peer := p\<rparr>))"

definition read_clock :: "env \<Rightarrow> 'p world \<Rightarrow> int \<times> 'p world" where
  "read_clock e w = (case now_utc e (wd_store w) of (now, s) \<Rightarrow> (now, w\<lparr>wd_store := s\<rparr>))"

definition set_runtime :: "(sync_runtime \<Rightarrow> sync_runtime) \<Rightarrow> 'p world \<Rightarrow> 'p world" where
  "set_runtime f w = w\<lparr>wd_runtime := f (wd_runtime w)\<rparr>"

section \<open>The gates\<close>

definition intersect_with ::
  "(string \<times> string list) list option \<Rightarrow> exn + (tbl \<times> string list) list" where
  "intersect_with peer_tables =
     (case peer_tables of None \<Rightarrow> Inr []
      | Some ts \<Rightarrow> sfold (\<lambda>t d. case map_of ts (tbl_name t) of
            None \<Rightarrow> Inr d
          | Some cs \<Rightarrow> if cs = [] then Inr d
              else sbind (intersect_columns t (Some cs)) (\<lambda>ks. Inr (d @ [(t, ks)]))) SYNC_TABLE_ORDER [])"

definition check_schema ::
  "daemon_cfg \<Rightarrow> handshake \<Rightarrow> 'p world \<Rightarrow> (halt + (tbl \<times> string list) list) \<times> 'p world" where
  "check_schema cfg h w =
     (let v = hs_schema h; w1 = set_runtime (\<lambda>r. r\<lparr>rt_peer_schema := Some v\<rparr>) w in
      if v = SCHEMA_VERSION then (Inr [], w1)
      else if v < SCHEMA_VERSION then
        if \<not> dc_drift cfg then (Inl (Blocked ''schema'' ''local schema is ahead'' (SchemaGate SCHEMA_VERSION v)), w1)
        else (case intersect_with (hs_tables h) of Inl x \<Rightarrow> (Inl (Crashed x), w1) | Inr d \<Rightarrow> (Inr d, w1))
      else (Inl (Blocked ''schema'' ''peer schema is ahead'' (SchemaGate SCHEMA_VERSION v)), w1))"

text \<open>The difference of the clocks, in microseconds; \<open>None\<close> when the peer gave no time.\<close>

definition measure_skew :: "env \<Rightarrow> handshake \<Rightarrow> 'p world \<Rightarrow> (halt + int option) \<times> 'p world" where
  "measure_skew e h w =
     (case parse_iso_utc (hs_time h) of
        Inl x \<Rightarrow> (Inl (Crashed x), w)
      | Inr None \<Rightarrow> (Inr None, w)
      | Inr (Some t) \<Rightarrow> (let (now, w1) = read_clock e w in (Inr (Some \<bar>now - t\<bar>), w1)))"

definition clock_block :: "daemon_cfg \<Rightarrow> int \<Rightarrow> halt" where
  "clock_block cfg skew = Blocked ''clock'' ''clock skew over the limit'' (ClockGate skew (dc_skew_limit cfg))"

text \<open>A spike is measured again once; a failed second measurement keeps the block.\<close>

definition note_skew :: "int \<Rightarrow> 'p world \<Rightarrow> 'p world" where
  "note_skew skew w = set_runtime (\<lambda>r. r\<lparr>rt_skew := Some skew\<rparr>) w"

definition recheck_clock ::
  "env \<Rightarrow> daemon_cfg \<Rightarrow> 'p peer_ops \<Rightarrow> int \<Rightarrow> 'p world \<Rightarrow> (halt + unit) \<times> 'p world" where
  "recheck_clock e cfg po skew w =
     (case wbind (ask (po_handshake po) w) (measure_skew e) of
        (Inr (Some again), w1) \<Rightarrow>
          if again \<le> dc_skew_limit cfg * 1000000 then (Inr (), note_skew again w1)
          else (Inl (clock_block cfg again), note_skew again w1)
      | (_, w1) \<Rightarrow> (Inl (clock_block cfg skew), w1))"

definition check_clock ::
  "env \<Rightarrow> daemon_cfg \<Rightarrow> 'p peer_ops \<Rightarrow> handshake \<Rightarrow> 'p world \<Rightarrow> (halt + unit) \<times> 'p world" where
  "check_clock e cfg po h w =
     wbind (measure_skew e h w)
       (\<lambda>m w1. case m of None \<Rightarrow> (Inr (), w1)
        | Some skew \<Rightarrow>
            if skew \<le> dc_skew_limit cfg * 1000000 then (Inr (), note_skew skew w1)
            else recheck_clock e cfg po skew (note_skew skew w1))"

definition check_identity :: "env \<Rightarrow> handshake \<Rightarrow> 'p world \<Rightarrow> (halt + unit) \<times> 'p world" where
  "check_identity e h w =
     (let local_ids = distinct_owner_ids e (wd_store w);
          wrong = filter (\<lambda>i. Some i \<noteq> hs_account h) local_ids
      in if wrong = [] then (Inr (), w)
         else (Inl (Blocked ''identity'' ''local owner ids differ from the peer account''
                (IdentityGate (hs_account h) (hs_owners h) local_ids wrong)), w))"

text \<open>After a healthy cycle the gate issues are stale.\<close>

definition resolve_stale :: "env \<Rightarrow> store \<Rightarrow> store" where
  "resolve_stale e s =
     fold (\<lambda>k s. snd (resolve_issues e [] (Some k) None None s)) [''clock'', ''identity'', ''schema''] s"

section \<open>Pushing\<close>

record push_report =
  pp_rounds :: nat
  pp_applied :: nat
  pp_skipped :: nat
  pp_conflicts :: "conflict list"
  pp_duplicates :: "duplicate list"
  pp_deferred :: "ref_entry list"
  pp_rejected :: "ref_entry list"

definition empty_push_report :: push_report where
  "empty_push_report = \<lparr>pp_rounds = 0, pp_applied = 0, pp_skipped = 0, pp_conflicts = [],
     pp_duplicates = [], pp_deferred = [], pp_rejected = []\<rparr>"

definition merge_push_report :: "push_report \<Rightarrow> push_report \<Rightarrow> push_report" where
  "merge_push_report a b =
     \<lparr>pp_rounds = pp_rounds a + pp_rounds b, pp_applied = pp_applied a + pp_applied b,
      pp_skipped = pp_skipped a + pp_skipped b, pp_conflicts = pp_conflicts a @ pp_conflicts b,
      pp_duplicates = pp_duplicates a @ pp_duplicates b, pp_deferred = pp_deferred a @ pp_deferred b,
      pp_rejected = pp_rejected a @ pp_rejected b\<rparr>"

definition count_reply :: "push_reply \<Rightarrow> push_report \<Rightarrow> push_report" where
  "count_reply r rep =
     rep\<lparr>pp_rounds := Suc (pp_rounds rep), pp_applied := pp_applied rep + pr_applied r,
         pp_skipped := pp_skipped rep + pr_skipped r,
         pp_conflicts := pp_conflicts rep @ pr_conflicts r,
         pp_duplicates := pp_duplicates rep @ pr_duplicates r,
         pp_deferred := pp_deferred rep @ pr_deferred r,
         pp_rejected := pp_rejected rep @ pr_rejected r\<rparr>"

text \<open>The peer's conflicts and duplicates become issues of this node too.\<close>

definition mirror_remote_issues :: "env \<Rightarrow> push_reply \<Rightarrow> store \<Rightarrow> store" where
  "mirror_remote_issues e r s =
     fold (\<lambda>d s. if du_kind d = [] then s
             else snd (record_issue e (du_kind d) (Some (du_table d)) (Some (du_rowId d))
                         (Some (du_peer d)) (PeerDuplicate d) s)) (pr_duplicates r)
       (fold (\<lambda>c s. snd (record_issue e ''conflict'' (Some (cf_table c)) (Some (cf_rowId c)) None
                          (PeerConflict c) s)) (pr_conflicts r) s)"

text \<open>\<open>clock_override or result.get(...)\<close>\<close>

definition remember_clock ::
  "env \<Rightarrow> string \<Rightarrow> string option \<Rightarrow> string option \<Rightarrow> string option \<Rightarrow> int option \<Rightarrow> string option
     \<Rightarrow> store \<Rightarrow> exn + store" where
  "remember_clock e client tab i eff pseq over s =
     (let clk = first_of over eff
      in if blank clk \<or> blank tab \<or> blank i then Inr s
         else set_row_sync_clock e client (the tab) (the i) clk pseq s)"

definition dead_letter ::
  "env \<Rightarrow> string \<Rightarrow> string \<Rightarrow> int \<Rightarrow> string option \<Rightarrow> string option \<Rightarrow> string \<Rightarrow> string option
     \<Rightarrow> store \<Rightarrow> exn + store" where
  "dead_letter e client d n tab i reason shown s =
     sbind (mark_sync_retry_dead e client d n reason s)
       (\<lambda>s1. Inr (snd (record_issue e ''sync_dead_letter'' tab i None (DeadLetter d n shown) s1)))"

definition settled_status :: "string list" where
  "settled_status = [''applied'', ''skipped'', ''unchanged'', ''conflict'']"

definition head_opt :: "'a list \<Rightarrow> 'a option" where
  "head_opt xs = (case xs of [] \<Rightarrow> None | x # ys \<Rightarrow> Some x)"

definition push_failure :: "push_reply \<Rightarrow> string" where
  "push_failure r =
     str_or (first_of (Option.bind (head_opt (pr_results r)) wr_reason)
        (first_of (map_option re_reason (head_opt (pr_deferred r)))
                  (map_option re_reason (head_opt (pr_rejected r)))))
       ''peer did not return a sequence-aware result''"

definition settled_reply :: "push_reply \<Rightarrow> bool" where
  "settled_reply r =
     (case Option.bind (head_opt (pr_results r)) wr_status of None \<Rightarrow> False
      | Some st \<Rightarrow> st \<in> set settled_status)"

text \<open>What one answer does to the queue entry it is about.\<close>

definition settle_push :: "env \<Rightarrow> string \<Rightarrow> retry \<Rightarrow> push_reply \<Rightarrow> store \<Rightarrow> exn + store" where
  "settle_push e client q r s =
     (let s1 = mirror_remote_issues e r s; n = rq_seq q;
          st = Option.bind (head_opt (pr_results r)) wr_status
      in if settled_reply r
         then let w = hd (pr_results r)
              in remember_clock e client (wr_table w) (wr_rowId w) (wr_effective w) None None
                   (delete_sync_retry e client ''push'' n s1)
         else if st = Some ''rejected''
         then let why = str_or (wr_reason (hd (pr_results r))) ''peer rejected change''
              in dead_letter e client ''push'' n (Some (rq_table q)) (rq_rowId q) why (Some why) s1
         else Inr (mark_sync_retry_failed e client ''push'' n (push_failure r) s1))"

definition push_entry ::
  "env \<Rightarrow> daemon_cfg \<Rightarrow> 'p peer_ops \<Rightarrow> string \<Rightarrow> retry \<Rightarrow> push_report \<Rightarrow> 'p world
     \<Rightarrow> (halt + push_report) \<times> 'p world" where
  "push_entry e cfg po cid q rep w =
     wbind (ask (po_push po cid [rq_change q]) w)
       (\<lambda>r w1. wbind
          (section_of False (\<lambda>s. sbind (settle_push e (dc_client cfg) q r s) (\<lambda>s'. Inr ((), s'))) w1)
          (\<lambda>u w2. (Inr (count_reply r rep), w2)))"

definition retry_push_queue ::
  "env \<Rightarrow> daemon_cfg \<Rightarrow> 'p peer_ops \<Rightarrow> 'p world \<Rightarrow> (halt + push_report) \<times> 'p world" where
  "retry_push_queue e cfg po w =
     wbind (section_of False
         (\<lambda>s. let queued = list_sync_retries e (dc_client cfg) ''push'' (dc_batch cfg) s;
                  (ep, s1) = get_client_epoch e (dc_client cfg) s
              in Inr ((queued, dc_client cfg @ '':'' @ ep), s1)) w)
       (\<lambda>(queued, cid) w1. wfold (push_entry e cfg po cid) queued empty_push_report w1)"

text \<open>
  One round of filling the queue: the changes past the watermark are frozen in the queue in the
  transaction that moves the watermark. The result is the number of changes.
\<close>

definition snapshot_round ::
  "env \<Rightarrow> daemon_cfg \<Rightarrow> (tbl \<times> string list) list \<Rightarrow> store \<Rightarrow> exn + nat \<times> store" where
  "snapshot_round e cfg cbt s =
     (let since = ps_pushed (get_sync_state e (dc_client cfg) s);
          (changes, next) = collect_local_changes e since (dc_batch cfg) cbt (Some (dc_client cfg)) s
      in if changes = [] then Inr (0, s)
         else sbind (sfold (\<lambda>c. enqueue_sync_retry e (dc_client cfg) ''push'' c ''pending delivery'') changes s)
           (\<lambda>s1. Inr (length changes, update_sync_state e (dc_client cfg) [LastPushed next] s1)))"

definition MAX_ROUNDS_PER_CYCLE :: nat where "MAX_ROUNDS_PER_CYCLE = 20"

fun snapshot_rounds ::
  "nat \<Rightarrow> env \<Rightarrow> daemon_cfg \<Rightarrow> (tbl \<times> string list) list \<Rightarrow> 'p world \<Rightarrow> (halt + unit) \<times> 'p world" where
  "snapshot_rounds 0 e cfg cbt w = (Inr (), w)"
| "snapshot_rounds (Suc k) e cfg cbt w =
     wbind (section_of False (snapshot_round e cfg cbt) w)
       (\<lambda>n w1. if n = 0 \<or> n < dc_batch cfg then (Inr (), w1) else snapshot_rounds k e cfg cbt w1)"

definition push_rounds ::
  "env \<Rightarrow> daemon_cfg \<Rightarrow> 'p peer_ops \<Rightarrow> (tbl \<times> string list) list \<Rightarrow> 'p world
     \<Rightarrow> (halt + push_report) \<times> 'p world" where
  "push_rounds e cfg po cbt w =
     wbind (retry_push_queue e cfg po w)
       (\<lambda>r1 w1. wbind (snapshot_rounds MAX_ROUNDS_PER_CYCLE e cfg cbt w1)
          (\<lambda>u w2. wbind (retry_push_queue e cfg po w2)
             (\<lambda>r2 w3. (Inr (merge_push_report (merge_push_report empty_push_report r1) r2), w3))))"

section \<open>Pulling\<close>

text \<open>\<open>_add_pull_bases\<close>: the agreed clock is the base of a change that names none.\<close>

definition with_base :: "env \<Rightarrow> string \<Rightarrow> store \<Rightarrow> change \<Rightarrow> change" where
  "with_base e client s c =
     (if ch_base c \<noteq> None \<or> ch_table c = [] \<or> blank (ch_rowId c) then c
      else c\<lparr>ch_base := get_row_sync_clock e client (ch_table c) (the (ch_rowId c)) s\<rparr>)"

text \<open>The dictionaries keyed by sequence number: a later entry replaces an earlier one.\<close>

definition by_seq :: "('a \<Rightarrow> int option) \<Rightarrow> 'a list \<Rightarrow> (int \<times> 'a) list" where
  "by_seq key xs =
     fold (\<lambda>x d. case key x of None \<Rightarrow> d | Some n \<Rightarrow> AList.update n x d) xs []"

fun status_name :: "status \<Rightarrow> string" where
  "status_name Applied = ''applied''"
| "status_name Skipped = ''skipped''"
| "status_name Deferred = ''deferred''"
| "status_name Rejected = ''rejected''"

text \<open>\<open>(change.get("row") or {}).get("updated_at_utc")\<close>\<close>

definition change_clock :: "change \<Rightarrow> string option" where
  "change_clock c = (case ch_row c of None \<Rightarrow> None | Some r \<Rightarrow> row_str r ''updated_at_utc'')"

definition settle_pull ::
  "env \<Rightarrow> string \<Rightarrow> (int \<times> row_result) list \<Rightarrow> int \<times> change \<Rightarrow> store \<Rightarrow> exn + store" where
  "settle_pull e client results nc s =
     (case nc of (n, c) \<Rightarrow>
        case map_of results n of
          None \<Rightarrow> enqueue_sync_retry e client ''pull'' c ''missing sequence-aware apply result'' s
        | Some r \<Rightarrow>
            if rr_status r \<in> {Deferred, Rejected} then
              sbind (enqueue_sync_retry e client ''pull'' c (str_or (rr_reason r) (status_name (rr_status r))) s)
                (\<lambda>s1. if rr_status r = Rejected
                   then dead_letter e client ''pull'' n (Some (ch_table c)) (ch_rowId c)
                          (str_or (rr_reason r) ''local apply rejected change'') (rr_reason r) s1
                   else Inr s1)
            else remember_clock e client (Some (rr_table r)) (rr_rowId r) (rr_effective r) (Some n)
                   (change_clock c) s)"

text \<open>The transaction that applies one page of the feed and moves the cursor.\<close>

definition pull_page ::
  "env \<Rightarrow> daemon_cfg \<Rightarrow> (tbl \<times> string list) list \<Rightarrow> change list \<Rightarrow> int \<Rightarrow> store
     \<Rightarrow> exn + (outcome \<times> change list) \<times> store" where
  "pull_page e cfg cbt changes next s =
     (let based = map (with_base e (dc_client cfg) s) changes
      in sbind (apply_changes e cbt Server True None based s)
        (\<lambda>(oc, s1). sbind (sfold (settle_pull e (dc_client cfg) (by_seq rr_seq (oc_results oc)))
                                 (by_seq ch_seq based) s1)
           (\<lambda>s2. Inr ((oc, based), update_sync_state e (dc_client cfg) [LastPulled next] s2))))"

record pull_report =
  pl_rounds :: nat
  pl_applied :: nat
  pl_skipped :: nat
  pl_conflicts :: "conflict list"
  pl_duplicates :: "duplicate list"
  pl_deferred :: "ref_entry list"
  pl_rejected :: "ref_entry list"
  pl_rows :: "((tbl \<times> string) \<times> row option) list"

definition empty_pull_report :: pull_report where
  "empty_pull_report = \<lparr>pl_rounds = 0, pl_applied = 0, pl_skipped = 0, pl_conflicts = [],
     pl_duplicates = [], pl_deferred = [], pl_rejected = [], pl_rows = []\<rparr>"

text \<open>The applied rows with the row the change carried; the last change of a row counts.\<close>

definition applied_rows :: "change list \<Rightarrow> outcome \<Rightarrow> ((tbl \<times> string) \<times> row option) list" where
  "applied_rows cs oc =
     map (\<lambda>(t, i). ((t, i), case find (\<lambda>c. ch_table c = tbl_name t \<and> ch_rowId c = Some i) (rev cs) of
        None \<Rightarrow> None | Some c \<Rightarrow> ch_row c)) (oc_applied_refs oc)"

definition count_outcome :: "change list \<Rightarrow> outcome \<Rightarrow> pull_report \<Rightarrow> pull_report" where
  "count_outcome cs oc rep =
     rep\<lparr>pl_applied := pl_applied rep + oc_applied oc, pl_skipped := pl_skipped rep + oc_skipped oc,
         pl_conflicts := pl_conflicts rep @ oc_conflicts oc,
         pl_duplicates := pl_duplicates rep @ oc_duplicates oc,
         pl_deferred := pl_deferred rep @ oc_deferred oc,
         pl_rejected := pl_rejected rep @ oc_rejected oc,
         pl_rows := pl_rows rep @ applied_rows cs oc\<rparr>"

definition settle_queued ::
  "env \<Rightarrow> string \<Rightarrow> (int \<times> row_result) list \<Rightarrow> retry \<times> change \<Rightarrow> store \<Rightarrow> exn + store" where
  "settle_queued e client results qc s =
     (case qc of (q, c) \<Rightarrow>
        let n = rq_seq q in
        case map_of results n of
          None \<Rightarrow> Inr (mark_sync_retry_failed e client ''pull'' n ''missing sequence-aware apply result'' s)
        | Some r \<Rightarrow>
            if rr_status r \<in> {Applied, Skipped} then
              remember_clock e client (Some (rr_table r)) (rr_rowId r) (rr_effective r) (Some n)
                (change_clock c) (delete_sync_retry e client ''pull'' n s)
            else if rr_status r = Rejected then
              dead_letter e client ''pull'' n (Some (rq_table q)) (rq_rowId q)
                (str_or (rr_reason r) ''local apply rejected change'') (rr_reason r) s
            else Inr (mark_sync_retry_failed e client ''pull'' n
                        (str_or (rr_reason r) ''missing sequence-aware apply result'') s))"

definition retry_pull_queue ::
  "env \<Rightarrow> daemon_cfg \<Rightarrow> (tbl \<times> string list) list \<Rightarrow> store \<Rightarrow> exn + pull_report \<times> store" where
  "retry_pull_queue e cfg cbt s =
     (let queued = list_sync_retries e (dc_client cfg) ''pull'' (dc_batch cfg) s;
          based = map (\<lambda>q. with_base e (dc_client cfg) s (rq_change q)) queued
      in if queued = [] then Inr (empty_pull_report, s)
         else sbind (apply_changes e cbt Server True None based s)
           (\<lambda>(oc, s1). sbind (sfold (settle_queued e (dc_client cfg) (by_seq rr_seq (oc_results oc)))
                                    (zip queued based) s1)
              (\<lambda>s2. Inr (count_outcome based oc empty_pull_report, s2))))"

text \<open>\<open>int(response.get("nextSeq") or since)\<close>\<close>

definition int_or :: "int option \<Rightarrow> int \<Rightarrow> int" where
  "int_or x d = (case x of None \<Rightarrow> d | Some n \<Rightarrow> if n = 0 then d else n)"

fun pull_loop ::
  "nat \<Rightarrow> env \<Rightarrow> daemon_cfg \<Rightarrow> 'p peer_ops \<Rightarrow> (tbl \<times> string list) list \<Rightarrow> pull_report \<Rightarrow> 'p world
     \<Rightarrow> (halt + pull_report) \<times> 'p world" where
  "pull_loop 0 e cfg po cbt rep w = (Inr rep, w)"
| "pull_loop (Suc k) e cfg po cbt rep w =
     (let since = ps_pulled (get_sync_state e (dc_client cfg) (wd_store w)) in
      wbind (ask (po_changes po since (dc_batch cfg)) w)
        (\<lambda>r w1.
          let next = int_or (fr_next r) since in
          if fr_changes r = [] \<and> next \<le> since then (Inr rep, w1)
          else wbind (section_of True (pull_page e cfg cbt (fr_changes r) next) w1)
            (\<lambda>(oc, based) w2.
              let rep1 = (count_outcome based oc rep)\<lparr>pl_rounds := Suc (pl_rounds rep)\<rparr>
              in if int_or (fr_max r) next \<le> next then (Inr rep1, w2)
                 else pull_loop k e cfg po cbt rep1 w2)))"

definition pull_rounds ::
  "env \<Rightarrow> daemon_cfg \<Rightarrow> 'p peer_ops \<Rightarrow> (tbl \<times> string list) list \<Rightarrow> 'p world
     \<Rightarrow> (halt + pull_report) \<times> 'p world" where
  "pull_rounds e cfg po cbt w =
     wbind (section_of True (retry_pull_queue e cfg cbt) w)
       (\<lambda>rep w1. pull_loop MAX_ROUNDS_PER_CYCLE e cfg po cbt rep w1)"

section \<open>A cycle\<close>

record cycle_report =
  cr_account :: "string option"
  cr_schema :: int
  cr_push :: push_report
  cr_pull :: pull_report

definition finish_cycle :: "env \<Rightarrow> daemon_cfg \<Rightarrow> store \<Rightarrow> exn + unit \<times> store" where
  "finish_cycle e cfg s =
     Inr ((), resolve_stale e (update_sync_state e (dc_client cfg)
       [LastOk (Some (fst (now_utc e s))), LastError None] (snd (now_utc e s))))"

text \<open>What follows the gates: push, pull, and the note that the cycle was healthy.\<close>

definition close_cycle ::
  "env \<Rightarrow> daemon_cfg \<Rightarrow> handshake \<Rightarrow> push_report \<Rightarrow> pull_report \<Rightarrow> 'p world \<Rightarrow> (halt + cycle_report) \<times> 'p world" where
  "close_cycle e cfg h pr pl w =
     wbind (section_of False (finish_cycle e cfg) w)
       (\<lambda>u w1. (Inr \<lparr>cr_account = hs_account h, cr_schema = hs_schema h, cr_push = pr, cr_pull = pl\<rparr>, w1))"

definition exchange ::
  "env \<Rightarrow> daemon_cfg \<Rightarrow> 'p peer_ops \<Rightarrow> handshake \<Rightarrow> (tbl \<times> string list) list \<Rightarrow> 'p world
     \<Rightarrow> (halt + cycle_report) \<times> 'p world" where
  "exchange e cfg po h cbt w =
     wbind (push_rounds e cfg po cbt w)
       (\<lambda>pr w1. wbind (pull_rounds e cfg po cbt w1) (close_cycle e cfg h pr))"

definition cycle_sync ::
  "env \<Rightarrow> daemon_cfg \<Rightarrow> 'p peer_ops \<Rightarrow> 'p world \<Rightarrow> (halt + cycle_report) \<times> 'p world" where
  "cycle_sync e cfg po w =
     wbind (ask (po_handshake po) w)
       (\<lambda>h w1. wbind (check_schema cfg h w1)
       (\<lambda>cbt w2. wbind (check_clock e cfg po h w2)
       (\<lambda>u w3. wbind (check_identity e h w3)
       (\<lambda>u w4. exchange e cfg po h cbt w4))))"

definition store_error :: "env \<Rightarrow> daemon_cfg \<Rightarrow> string \<Rightarrow> 'p world \<Rightarrow> 'p world" where
  "store_error e cfg msg w =
     snd (section_of False
       (\<lambda>s. Inr ((), update_sync_state e (dc_client cfg) [LastError (Some (cp_take 1000 msg))] s)) w)"

definition store_blocked :: "env \<Rightarrow> daemon_cfg \<Rightarrow> string \<Rightarrow> string \<Rightarrow> gate \<Rightarrow> 'p world \<Rightarrow> 'p world" where
  "store_blocked e cfg k msg g w =
     snd (section_of False
       (\<lambda>s. let s1 = update_sync_state e (dc_client cfg) [LastError (Some (cp_take 1000 msg))] s
            in Inr ((), if k \<in> {''schema'', ''clock'', ''identity''}
                        then snd (record_issue e k None None None (GateDetail msg g) s1) else s1)) w)"

text \<open>What a cycle reports: it ran, it was stopped for a reason, or it raised.\<close>

datatype cycle_end = Ran cycle_report | Stopped string string | Raised exn

text \<open>\<open>str(exc)\<close> of \<open>SyncPeerError\<close>; \<open>shown\<close> renders the detail.\<close>

definition rejected_text :: "(json \<Rightarrow> string) \<Rightarrow> int \<Rightarrow> json \<Rightarrow> string" where
  "rejected_text shown st d =
     ''peer rejected request: status='' @ int_str st @ '' detail='' @
       (case d of JStr t \<Rightarrow> t | _ \<Rightarrow> shown d)"

definition run_once ::
  "env \<Rightarrow> (json \<Rightarrow> string) \<Rightarrow> daemon_cfg \<Rightarrow> 'p peer_ops \<Rightarrow> int \<Rightarrow> int \<Rightarrow> 'p world
     \<Rightarrow> cycle_end \<times> 'p world" where
  "run_once e shown cfg po started finished w =
     (case cycle_sync e cfg po (w\<lparr>wd_last_attempt := started\<rparr>) of
        (Inl (PeerFailed (Unreachable why)), w1) \<Rightarrow>
          (Stopped ''offline'' why,
           store_error e cfg (''offline: '' @ why) (set_runtime (mark_offline why) w1))
      | (Inl (Blocked k msg g), w1) \<Rightarrow>
          (let (now, w2) = read_clock e w1
           in (Stopped k msg,
               store_blocked e cfg k msg g (set_runtime (mark_blocked k msg \<circ> mark_online now) w2)))
      | (Inl (PeerFailed (PeerError st d)), w1) \<Rightarrow>
          (let (now, w2) = read_clock e w1; msg = rejected_text shown st d
           in (Stopped ''peer_rejected'' msg,
               store_error e cfg msg (set_runtime (mark_blocked ''peer_rejected'' msg \<circ> mark_online now) w2)))
      | (Inl (Crashed x), w1) \<Rightarrow> (Raised x, w1)
      | (Inr rep, w1) \<Rightarrow>
          (let (t1, w2) = read_clock e (w1\<lparr>wd_last_cycle := finished\<rparr>); (t2, w3) = read_clock e w2
           in (Ran rep, set_runtime (mark_cycle t2 \<circ> clear_blocked \<circ> mark_online t1) w3)))"

definition should_cycle :: "env \<Rightarrow> daemon_cfg \<Rightarrow> int \<Rightarrow> 'p world \<Rightarrow> bool" where
  "should_cycle e cfg now w =
     (let s = wd_store w; st = get_sync_state e (dc_client cfg) s in
      if ps_paused st then False
      else if ps_pushed st < max_change_seq s \<or> 0 < pending_sync_retry_count e (dc_client cfg) s then True
      else if \<not> rt_online (wd_runtime w) then dc_backoff cfg \<le> now - wd_last_attempt w
      else dc_poll cfg \<le> now - wd_last_cycle w)"

text \<open>One pass of the main loop; a triggered pass has been woken up.\<close>

definition tick ::
  "env \<Rightarrow> (json \<Rightarrow> string) \<Rightarrow> daemon_cfg \<Rightarrow> 'p peer_ops \<Rightarrow> bool \<Rightarrow> int \<Rightarrow> int \<Rightarrow> int \<Rightarrow> 'p world
     \<Rightarrow> cycle_end option \<times> 'p world" where
  "tick e shown cfg po triggered now started finished w =
     (let w1 = (if triggered then set_runtime (bind_wake_event False) w else w)
      in if triggered \<or> should_cycle e cfg now w1
         then (case run_once e shown cfg po started finished w1 of (r, w2) \<Rightarrow> (Some r, w2))
         else (None, w1))"

text \<open>Starting and stopping; the wake event of a stopped daemon is set so that the loop ends.\<close>

definition start_daemon :: "bool \<Rightarrow> peer_cfg \<Rightarrow> sync_runtime \<Rightarrow> sync_runtime" where
  "start_daemon client p r =
     (if \<not> client \<or> \<not> configured p then r else (bind_wake_event False r)\<lparr>rt_running := True\<rparr>)"

definition stop_daemon :: "sync_runtime \<Rightarrow> sync_runtime" where
  "stop_daemon r = (request_cycle r)\<lparr>rt_running := False\<rparr>"

text \<open>Seconds before the next attempt to subscribe to the peer's notifications.\<close>

definition socket_delay :: "nat \<Rightarrow> nat" where
  "socket_delay attempt = min (5 * max attempt 1) 60"

section \<open>Telling the open tabs\<close>

datatype tab_event =
    MemoPulled string val val val
  | SyncApplied "((tbl \<times> string) \<times> val) list" "string list" "string list" "conflict list" "duplicate list"

definition row_field :: "row option \<Rightarrow> string \<Rightarrow> val" where
  "row_field r c = (case r of None \<Rightarrow> VNull | Some r \<Rightarrow> row_get r c)"

definition ids_of :: "tbl \<Rightarrow> ((tbl \<times> string) \<times> row option) list \<Rightarrow> string list" where
  "ids_of t rows = map (\<lambda>x. snd (fst x)) (filter (\<lambda>x. fst (fst x) = t) rows)"

definition rebroadcast :: "bool \<Rightarrow> cycle_report \<Rightarrow> tab_event list" where
  "rebroadcast has_server rep =
     (let rows = pl_rows (cr_pull rep) in
      if \<not> has_server \<or> rows = [] then []
      else map (\<lambda>((t, i), r). MemoPulled i (row_field r ''content'') (row_field r ''title'')
                   (row_field r ''updated_at_utc''))
             (filter (\<lambda>x. fst (fst x) = Memos) rows)
           @ [SyncApplied (map (\<lambda>(k, r). (k, row_field r ''updated_at_utc'')) rows)
                (ids_of Memos rows) (ids_of Projects rows)
                (pl_conflicts (cr_pull rep)) (pl_duplicates (cr_pull rep))])"

end
