(* ===== verification/Daemon_Laws.thy ===== *)
theory Daemon_Laws
  imports Sync_Daemon Feed Books Samples
begin

text \<open>
  What a cycle of the daemon keeps, however it ends. The locale \<open>cycle_phases\<close> has the laws of a
  predicate that holds until the cycle pulls and of a weaker one that holds from then on;
  \<open>cycle_invariant\<close> is the case of one predicate. \<open>book_invariant\<close>, \<open>section_invariant\<close> and
  \<open>pull_invariant\<close> derive the laws from the statements the parts of a cycle issue, and
  \<open>daemon_invariant\<close> from a \<open>store_invariant\<close> that does not look at the daemon's own tables. They
  are interpreted for the keys, the parent references, the order of the log, the survival of
  rows, the open issues and the absence of echoes.
\<close>

section \<open>Rules for steps\<close>

lemma wbind_keeps:
  "P (snd m) \<Longrightarrow> (\<And>a w. m = (Inr a, w) \<Longrightarrow> P w \<Longrightarrow> P (snd (f a w))) \<Longrightarrow> P (snd (wbind m f))"
  by (cases m rule: prod.exhaust; cases "fst m") auto

lemma wfold_keeps:
  "P w \<Longrightarrow> (\<And>x a w. x \<in> set xs \<Longrightarrow> P w \<Longrightarrow> P (snd (f x a w))) \<Longrightarrow> P (snd (wfold f xs a w))"
  by (induction xs arbitrary: a w) (auto intro!: wbind_keeps [where P = P])

lemma section_keeps:
  assumes "P w" "\<And>v s. body ((wd_store w)\<lparr>applying := flag\<rparr>) = Inr (v, s) \<Longrightarrow>
      P (w\<lparr>wd_store := s\<lparr>applying := applying (wd_store w)\<rparr>\<rparr>)"
  shows "P (snd (section_of flag body w))"
  using assms by (auto simp: section_of_def with_connection_def split: sum.splits prod.splits)

text \<open>
  A cycle fills the queue before it pulls. \<open>P\<close> holds until the pulling starts and \<open>Q\<close> from then
  on; \<open>C\<close> is what is known of the columns that the schema gate agrees on.
\<close>

locale cycle_phases =
  fixes e :: env and cfg :: daemon_cfg and po :: "'p peer_ops" and P Q :: "'p world \<Rightarrow> bool"
    and C :: "(tbl \<times> string list) list \<Rightarrow> bool"
  assumes weaker: "P w \<Longrightarrow> Q w"
    and agreed: "check_schema cfg h w = (Inr cbt, w') \<Longrightarrow> C cbt"
    and p_runtime: "P w \<Longrightarrow> P (w\<lparr>wd_runtime := r\<rparr>)"
    and p_attempt: "P w \<Longrightarrow> P (w\<lparr>wd_last_attempt := t\<rparr>)"
    and p_clock: "P w \<Longrightarrow> P (snd (read_clock e w))"
    and p_handshake: "P w \<Longrightarrow> P (snd (ask (po_handshake po) w))"
    and p_push: "P w \<Longrightarrow> P (snd (retry_push_queue e cfg po w))"
    and p_snapshot: "P w \<Longrightarrow> C cbt \<Longrightarrow> P (snd (section_of False (snapshot_round e cfg cbt) w))"
    and q_runtime: "Q w \<Longrightarrow> Q (w\<lparr>wd_runtime := r\<rparr>)"
    and q_last_cycle: "Q w \<Longrightarrow> Q (w\<lparr>wd_last_cycle := t\<rparr>)"
    and q_clock: "Q w \<Longrightarrow> Q (snd (read_clock e w))"
    and q_changes: "Q w \<Longrightarrow> Q (snd (ask (po_changes po since n) w))"
    and q_pull_queue: "Q w \<Longrightarrow> Q (snd (section_of True (retry_pull_queue e cfg cbt) w))"
    and q_page: "Q w \<Longrightarrow> Q (snd (section_of True (pull_page e cfg cbt cs next) w))"
    and q_finish: "Q w \<Longrightarrow> Q (snd (section_of False (finish_cycle e cfg) w))"
    and q_error: "Q w \<Longrightarrow> Q (store_error e cfg msg w)"
    and q_blocked: "Q w \<Longrightarrow> Q (store_blocked e cfg k msg g w)"
begin

lemma p_set: "P w \<Longrightarrow> P (set_runtime f w)"
  by (simp add: set_runtime_def p_runtime)

lemma q_set: "Q w \<Longrightarrow> Q (set_runtime f w)"
  by (simp add: set_runtime_def q_runtime)

lemma p_check_schema: "P w \<Longrightarrow> P (snd (check_schema cfg h w))"
  by (auto simp: check_schema_def Let_def p_set split: sum.splits)

lemma p_measure_skew: "P w \<Longrightarrow> P (snd (measure_skew e h w))"
  using p_clock [of w] by (auto simp: measure_skew_def split: sum.splits option.splits prod.splits)

lemma p_recheck_clock:
  assumes "P w"
  shows "P (snd (recheck_clock e cfg po skew w))"
proof -
  obtain m w1 where m: "wbind (ask (po_handshake po) w) (measure_skew e) = (m, w1)" by fastforce
  have "P (snd (wbind (ask (po_handshake po) w) (measure_skew e)))"
    by (rule wbind_keeps [where P = P], rule p_handshake [OF assms]) (rule p_measure_skew)
  then have "P w1" by (simp only: m snd_conv)
  then show ?thesis
    by (cases m) (simp_all add: recheck_clock_def m note_skew_def p_set split: option.split)
qed

lemma p_check_clock: "P w \<Longrightarrow> P (snd (check_clock e cfg po h w))"
  unfolding check_clock_def
  by (rule wbind_keeps [where P = P], erule p_measure_skew)
    (simp add: note_skew_def p_set p_recheck_clock split: option.split)

lemma p_check_identity: "P w \<Longrightarrow> P (snd (check_identity e h w))"
  by (simp add: check_identity_def Let_def)

lemma p_snapshot_rounds: "P w \<Longrightarrow> C cbt \<Longrightarrow> P (snd (snapshot_rounds k e cfg cbt w))"
proof (induction k arbitrary: w)
  case (Suc k)
  show ?case unfolding snapshot_rounds.simps
    by (rule wbind_keeps [where P = P], rule p_snapshot [OF Suc.prems]) (simp add: Suc.IH Suc.prems(2))
qed simp

lemma p_push_rounds: "P w \<Longrightarrow> C cbt \<Longrightarrow> P (snd (push_rounds e cfg po cbt w))"
  unfolding push_rounds_def
  by (rule wbind_keeps [where P = P], erule p_push, rule wbind_keeps [where P = P],
      erule (1) p_snapshot_rounds, rule wbind_keeps [where P = P], erule p_push) simp

text \<open>From \<open>P\<close> to \<open>Q\<close>: the first part keeps \<open>P\<close>, and \<open>Q\<close> holds wherever it stops.\<close>

lemma p_then_q:
  assumes "P (snd m)" "\<And>a w. m = (Inr a, w) \<Longrightarrow> P w \<Longrightarrow> Q (snd (f a w))"
  shows "Q (snd (wbind m f))"
  using assms weaker by (cases m rule: prod.exhaust; cases "fst m") auto

lemma q_pull_loop: "Q w \<Longrightarrow> Q (snd (pull_loop k e cfg po cbt rep w))"
proof (induction k arbitrary: rep w)
  case (Suc k)
  show ?case unfolding pull_loop.simps Let_def
  proof (rule wbind_keeps [where P = Q], rule q_changes [OF Suc.prems])
    fix r w1 assume w1: "Q w1"
    let ?s = "ps_pulled (get_sync_state e (dc_client cfg) (wd_store w))"
    have "Q (snd (wbind (section_of True (pull_page e cfg cbt (fr_changes r) n) w1) f))"
      if "\<And>a w. Q w \<Longrightarrow> Q (snd (f a w))" for n and f :: "outcome \<times> change list \<Rightarrow> 'p world \<Rightarrow> (halt + pull_report) \<times> 'p world"
      by (rule wbind_keeps [where P = Q], rule q_page [OF w1]) (rule that)
    then show "Q (snd (if fr_changes r = [] \<and> int_or (fr_next r) ?s \<le> ?s then (Inr rep, w1)
       else wbind (section_of True (pull_page e cfg cbt (fr_changes r) (int_or (fr_next r) ?s)) w1)
            (\<lambda>(oc, based) w2.
              if int_or (fr_max r) (int_or (fr_next r) ?s) \<le> int_or (fr_next r) ?s
              then (Inr ((count_outcome based oc rep)\<lparr>pl_rounds := Suc (pl_rounds rep)\<rparr>), w2)
              else pull_loop k e cfg po cbt ((count_outcome based oc rep)\<lparr>pl_rounds := Suc (pl_rounds rep)\<rparr>) w2)))"
      using w1 Suc.IH by (simp split: prod.split)
  qed
qed simp

lemma q_pull_rounds: "Q w \<Longrightarrow> Q (snd (pull_rounds e cfg po cbt w))"
  unfolding pull_rounds_def by (rule wbind_keeps [where P = Q], erule q_pull_queue) (erule q_pull_loop)

lemma q_exchange:
  assumes "P w" "C cbt"
  shows "Q (snd (exchange e cfg po h cbt w))"
  unfolding exchange_def close_cycle_def
  by (rule p_then_q, rule p_push_rounds [OF assms], rule wbind_keeps [where P = Q],
      rule q_pull_rounds, erule weaker, rule wbind_keeps [where P = Q], erule q_finish) simp

lemma q_cycle_sync: "P w \<Longrightarrow> Q (snd (cycle_sync e cfg po w))"
  unfolding cycle_sync_def
proof (rule p_then_q, erule p_handshake, rule p_then_q, erule p_check_schema, rule p_then_q, erule p_check_clock,
    rule p_then_q, erule p_check_identity)
  fix h cbt and w1 w2 w4 :: "'p world"
  assume "check_schema cfg h w1 = (Inr cbt, w2)" "P w4"
  then show "Q (snd (exchange e cfg po h cbt w4))" using agreed q_exchange by blast
qed

lemma q_clock': "Q w \<Longrightarrow> read_clock e w = (t, w') \<Longrightarrow> Q w'"
  using q_clock [of w] by simp

lemma run_once:
  assumes "P w"
  shows "Q (snd (run_once e shown cfg po t1 t2 w))"
proof -
  obtain r w1 where run: "cycle_sync e cfg po (w\<lparr>wd_last_attempt := t1\<rparr>) = (r, w1)" by fastforce
  then have w1: "Q w1" using q_cycle_sync [OF p_attempt [OF assms], of t1] by simp
  obtain a w2 where c1: "read_clock e w1 = (a, w2)" by fastforce
  obtain b w3 where c2: "read_clock e (w1\<lparr>wd_last_cycle := t2\<rparr>) = (b, w3)" by fastforce
  obtain c w4 where c3: "read_clock e w3 = (c, w4)" by fastforce
  have "Q w2" "Q w3" "Q w4" using q_clock' w1 q_last_cycle c1 c2 c3 by blast+
  with w1 show ?thesis
    by (auto simp: run_once_def run c1 c2 c3 Let_def split: sum.splits halt.splits peer_fail.splits
        intro: q_error q_blocked q_set)
qed

end

text \<open>An invariant of the whole cycle is the case in which the phases do not differ.\<close>

locale cycle_invariant =
  fixes e :: env and cfg :: daemon_cfg and po :: "'p peer_ops" and P :: "'p world \<Rightarrow> bool"
  assumes runtime: "P w \<Longrightarrow> P (w\<lparr>wd_runtime := r\<rparr>)"
    and attempt: "P w \<Longrightarrow> P (w\<lparr>wd_last_attempt := t\<rparr>)"
    and last_cycle: "P w \<Longrightarrow> P (w\<lparr>wd_last_cycle := t\<rparr>)"
    and clock_read: "P w \<Longrightarrow> P (snd (read_clock e w))"
    and handshake: "P w \<Longrightarrow> P (snd (ask (po_handshake po) w))"
    and changes: "P w \<Longrightarrow> P (snd (ask (po_changes po since n) w))"
    and push_queue: "P w \<Longrightarrow> P (snd (retry_push_queue e cfg po w))"
    and snapshot: "P w \<Longrightarrow> P (snd (section_of False (snapshot_round e cfg cbt) w))"
    and pull_queue: "P w \<Longrightarrow> P (snd (section_of True (retry_pull_queue e cfg cbt) w))"
    and page: "P w \<Longrightarrow> P (snd (section_of True (pull_page e cfg cbt cs next) w))"
    and finish: "P w \<Longrightarrow> P (snd (section_of False (finish_cycle e cfg) w))"
    and error: "P w \<Longrightarrow> P (store_error e cfg msg w)"
    and blocked: "P w \<Longrightarrow> P (store_blocked e cfg k msg g w)"

sublocale cycle_invariant \<subseteq> phases: cycle_phases e cfg po P P "\<lambda>cbt. True"
  by unfold_locales
    (simp_all add: runtime attempt last_cycle clock_read handshake changes push_queue snapshot pull_queue page
      finish error blocked)

context cycle_invariant
begin

lemma run_once: "P w \<Longrightarrow> P (snd (run_once e shown cfg po t1 t2 w))"
  by (rule phases.run_once)

lemma tick: "P w \<Longrightarrow> P (snd (tick e shown cfg po b now t1 t2 w))"
  using run_once phases.p_set by (auto simp: tick_def Let_def split: prod.splits) (metis snd_conv)+

end

section \<open>Invariants of the store\<close>

text \<open>
  The operations of the cycle on the daemon's own tables, for a predicate that does not look at
  them.
\<close>

locale book_invariant =
  fixes e :: env and I :: "store \<Rightarrow> bool"
  assumes ticks: "I s \<Longrightarrow> I (s\<lparr>ticks := k\<rparr>)"
    and ids: "I s \<Longrightarrow> I (s\<lparr>ids := k\<rparr>)"
    and issue: "I s \<Longrightarrow> record_issue e kd tb rf pr dt s = (i, s') \<Longrightarrow> I s'"
    and resolve: "I s \<Longrightarrow> resolve_issues e is kd' tb' rf' s = (m, s') \<Longrightarrow> I s'"
    and retries: "I s \<Longrightarrow> I (s\<lparr>retries := qs\<rparr>)"
    and row_states: "I s \<Longrightarrow> I (s\<lparr>row_states := rs\<rparr>)"
    and peers: "I s \<Longrightarrow> I (s\<lparr>peers := ps\<rparr>)"
begin

lemma ensure: "I s \<Longrightarrow> I (snd (ensure_sync_state e p s))"
  by (auto simp: ensure_sync_state_def Let_def now_utc_def generate_id_def
      intro!: peers ticks ids split: prod.split)

lemma update_state: "I s \<Longrightarrow> I (update_sync_state e p fs s)"
  using ensure by (auto simp: update_sync_state_def Let_def now_utc_def intro!: peers ticks)

lemma epoch: "I s \<Longrightarrow> I (snd (get_client_epoch e p s))"
  using ensure [of s p] by (simp add: get_client_epoch_def Let_def case_prod_beta)

lemma enqueue: "I s \<Longrightarrow> enqueue_sync_retry e p d c why s = Inr s' \<Longrightarrow> I s'"
  by (auto simp: enqueue_sync_retry_def now_utc_def Let_def split: if_splits option.splits
      intro!: retries ticks)

lemma failed: "I s \<Longrightarrow> I (mark_sync_retry_failed e p d n why s)"
  by (auto simp: mark_sync_retry_failed_def now_utc_def Let_def intro!: retries ticks)

lemma dead: "I s \<Longrightarrow> mark_sync_retry_dead e p d n why s = Inr s' \<Longrightarrow> I s'"
  by (auto simp: mark_sync_retry_dead_def now_utc_def Let_def split: if_splits intro!: retries ticks)

lemma settled: "I s \<Longrightarrow> I (delete_sync_retry e p d n s)"
  by (auto simp: delete_sync_retry_def intro!: retries)

lemma remember: "I s \<Longrightarrow> remember_clock e cl tab i eff k over s = Inr s' \<Longrightarrow> I s'"
  by (auto simp: remember_clock_def set_row_sync_clock_def Let_def split: if_splits option.splits
      intro!: row_states)

lemma issue': "I s \<Longrightarrow> I (snd (record_issue e k t r p d s))"
  by (cases "record_issue e k t r p d s") (auto intro: issue)

lemma letter: "I s \<Longrightarrow> dead_letter e cl d n tab i why shown s = Inr s' \<Longrightarrow> I s'"
  unfolding dead_letter_def sbind_Inr using dead issue' by blast

lemma fold_keeps: "I s \<Longrightarrow> (\<And>x s. I s \<Longrightarrow> I (f x s)) \<Longrightarrow> I (fold f xs s)"
  by (induction xs arbitrary: s) auto

lemma mirror: "I s \<Longrightarrow> I (mirror_remote_issues e r s)"
  unfolding mirror_remote_issues_def by (intro fold_keeps) (simp_all add: issue')

lemma settle_push:
  assumes "I s" "settle_push e cl q r s = Inr s'"
  shows "I s'"
proof -
  have m: "I (mirror_remote_issues e r s)" using assms(1) by (rule mirror)
  show ?thesis using assms(2) failed [OF m] letter [OF m] remember [OF settled [OF m]]
    unfolding settle_push_def Let_def by (auto split: if_splits)
qed

lemma snapshot_round:
  assumes "I s" "snapshot_round e cfg cbt s = Inr (n, s')"
  shows "I s'"
proof -
  have loop: "I s1" if "sfold (\<lambda>c. enqueue_sync_retry e p d c why) cs s = Inr s1" for p d why cs s1
    using sfold_invariant [OF that, where P = I] assms(1) enqueue by blast
  show ?thesis
    using assms by (auto simp: snapshot_round_def Let_def split: prod.splits if_splits
        intro!: update_state dest: loop)
qed

lemma resolve': "I s \<Longrightarrow> I (snd (resolve_issues e is k t r s))"
  by (cases "resolve_issues e is k t r s") (auto intro: resolve)

lemma finish_cycle: "I s \<Longrightarrow> finish_cycle e cfg s = Inr (v, s') \<Longrightarrow> I s'"
  by (auto simp: finish_cycle_def resolve_stale_def Let_def now_utc_def
      intro!: resolve' update_state ticks)

end

text \<open>The transactions of a cycle that apply nothing, when the predicate ignores the flag too.\<close>

locale section_invariant = book_invariant +
  assumes flag: "I s \<Longrightarrow> I (s\<lparr>applying := b\<rparr>)"
begin

lemma connection:
  "(\<And>s v s'. I s \<Longrightarrow> f s = Inr (v, s') \<Longrightarrow> I s') \<Longrightarrow> I s \<Longrightarrow> with_connection b f s = (r, s') \<Longrightarrow> I s'"
  by (auto simp: with_connection_def split: sum.splits prod.splits) (metis flag)

text \<open>A section whose body keeps the invariant keeps it.\<close>

lemma in_section:
  assumes "I (wd_store w)" "\<And>s v s'. I s \<Longrightarrow> body s = Inr (v, s') \<Longrightarrow> I s'"
  shows "I (wd_store (snd (section_of fl body w)))"
proof -
  obtain r s' where run: "with_connection fl body (wd_store w) = (r, s')" by fastforce
  have "I s'" using connection [OF _ assms(1) run] assms(2) by blast
  then show ?thesis by (cases r) (simp_all add: section_of_def run)
qed

lemma push_entry:
  fixes w :: "'b world"
  assumes "I (wd_store w)"
  shows "I (wd_store (snd (push_entry e cfg po cid q rep w)))"
  unfolding push_entry_def
proof (rule wbind_keeps [where P = "\<lambda>w. I (wd_store w)"])
  show "I (wd_store (snd (ask (po_push po cid [rq_change q]) w)))"
    using assms by (simp add: ask_def split: prod.split sum.split)
next
  fix r and w1 :: "'b world" assume w1: "I (wd_store w1)"
  show "I (wd_store (snd (wbind (section_of False
      (\<lambda>s. sbind (settle_push e (dc_client cfg) q r s) (\<lambda>s'. Inr ((), s'))) w1)
      (\<lambda>u w2. (Inr (count_reply r rep), w2)))))"
    by (rule wbind_keeps [where P = "\<lambda>w. I (wd_store w)"], rule in_section [OF w1])
      (auto intro: settle_push)
qed

lemma push_queue:
  assumes "I (wd_store w)"
  shows "I (wd_store (snd (retry_push_queue e cfg po w)))"
  unfolding retry_push_queue_def
proof (rule wbind_keeps [where P = "\<lambda>w. I (wd_store w)"], rule in_section [OF assms])
  fix s v s' assume "I s" "(let queued = list_sync_retries e (dc_client cfg) ''push'' (dc_batch cfg) s;
      (ep, s1) = get_client_epoch e (dc_client cfg) s
      in Inr ((queued, dc_client cfg @ '':'' @ ep), s1)) = (Inr (v, s') :: exn + _)"
  then show "I s'" using epoch [of s "dc_client cfg"] by (auto simp: Let_def split: prod.splits)
next
  fix a and w :: "'a world" assume "I (wd_store w)"
  then have "I (wd_store (snd (wfold (push_entry e cfg po cid) qs rep w)))" for cid qs rep
    by (rule wfold_keeps [where P = "\<lambda>w. I (wd_store w)"]) (simp_all add: push_entry)
  then show "I (wd_store (snd ((case a of (queued, cid) \<Rightarrow>
      wfold (push_entry e cfg po cid) queued empty_push_report) w)))" by (simp split: prod.split)
qed

lemma error: "I (wd_store w) \<Longrightarrow> I (wd_store (store_error e cfg msg w))"
  unfolding store_error_def using update_state by (intro in_section) auto

lemma blocked: "I (wd_store w) \<Longrightarrow> I (wd_store (store_blocked e cfg k msg g w))"
  unfolding store_blocked_def
  by (intro in_section) (auto simp: Let_def split: if_splits intro!: issue' update_state)

end

text \<open>The transactions that apply what was pulled, for an invariant of the statements.\<close>

locale pull_invariant = change_invariant +
  assumes retries: "I s \<Longrightarrow> I (s\<lparr>retries := qs\<rparr>)"
    and row_states: "I s \<Longrightarrow> I (s\<lparr>row_states := rs\<rparr>)"
    and peers: "I s \<Longrightarrow> I (s\<lparr>peers := ps\<rparr>)"

sublocale pull_invariant \<subseteq> books: book_invariant e I
  by unfold_locales (erule ticks ids retries row_states peers | erule (1) issue resolve)+

context pull_invariant
begin

lemma settle_pull: "I s \<Longrightarrow> settle_pull e cl rs nc s = Inr s' \<Longrightarrow> I s'"
  by (auto simp: settle_pull_def split: prod.splits option.splits if_splits
      intro: books.enqueue books.remember books.letter)

lemma settle_queued: "I s \<Longrightarrow> settle_queued e cl rs qc s = Inr s' \<Longrightarrow> I s'"
  by (auto simp: settle_queued_def Let_def split: prod.splits option.splits if_splits
      intro: books.failed books.letter books.remember [OF books.settled])

lemma pull_page:
  assumes "I s" "pull_page e cfg cbt cs next s = Inr (v, s')"
  shows "I s'"
proof -
  obtain oc s1 s2 where st: "apply_changes e cbt Server True None
      (map (with_base e (dc_client cfg) s) cs) s = Inr (oc, s1)"
    "sfold (settle_pull e (dc_client cfg) (by_seq rr_seq (oc_results oc)))
       (by_seq ch_seq (map (with_base e (dc_client cfg) s) cs)) s1 = Inr s2"
    "s' = update_sync_state e (dc_client cfg) [LastPulled next] s2"
    using assms(2) by (auto simp: pull_page_def Let_def)
  have "I s1" using assms(1) st(1) apply_changes by blast
  then have "I s2" using sfold_invariant [OF st(2), where P = I] settle_pull by blast
  then show ?thesis using st(3) books.update_state by simp
qed

lemma pull_queue:
  assumes "I s" "retry_pull_queue e cfg cbt s = Inr (v, s')"
  shows "I s'"
proof (cases "list_sync_retries e (dc_client cfg) ''pull'' (dc_batch cfg) s = []")
  case True
  with assms show ?thesis by (simp add: retry_pull_queue_def Let_def)
next
  case False
  with assms(2) obtain cs oc s1 qs where st: "apply_changes e cbt Server True None cs s = Inr (oc, s1)"
    "sfold (settle_queued e (dc_client cfg) (by_seq rr_seq (oc_results oc))) qs s1 = Inr s'"
    by (auto simp: retry_pull_queue_def Let_def)
  have "I s1" using assms(1) st(1) apply_changes by blast
  then show ?thesis using sfold_invariant [OF st(2), where P = I] settle_queued by blast
qed

end

text \<open>Both, for an invariant of the statements that ignores the daemon's tables and the flag.\<close>

locale daemon_invariant = store_invariant +
  assumes retries: "I s \<Longrightarrow> I (s\<lparr>retries := qs\<rparr>)"
    and row_states: "I s \<Longrightarrow> I (s\<lparr>row_states := rs\<rparr>)"
    and peers: "I s \<Longrightarrow> I (s\<lparr>peers := ps\<rparr>)"

sublocale daemon_invariant \<subseteq> pulls: pull_invariant e I
  by unfold_locales (erule retries row_states peers)+

sublocale daemon_invariant \<subseteq> secs: section_invariant e I
  by unfold_locales (rule flag)

sublocale daemon_invariant \<subseteq> cyc: cycle_invariant e cfg po "\<lambda>w. I (wd_store w)" for cfg po
proof
  fix w :: "'a world" assume w: "I (wd_store w)"
  show "I (wd_store (snd (read_clock e w)))"
    using ticks [OF w] by (simp add: read_clock_def now_utc_def)
  show "I (wd_store (snd (ask (po_handshake po) w)))" "I (wd_store (snd (ask (po_changes po since n) w)))"
    for since n using w by (simp_all add: ask_def split: prod.split sum.split)
  show "I (wd_store (snd (retry_push_queue e cfg po w)))" using w by (rule secs.push_queue)
  show "I (wd_store (snd (section_of False (snapshot_round e cfg cbt) w)))" for cbt
    using w pulls.books.snapshot_round by (rule secs.in_section)
  show "I (wd_store (snd (section_of True (retry_pull_queue e cfg cbt) w)))" for cbt
    using w pulls.pull_queue by (rule secs.in_section)
  show "I (wd_store (snd (section_of True (pull_page e cfg cbt cs next) w)))" for cbt cs "next"
    using w pulls.pull_page by (rule secs.in_section)
  show "I (wd_store (snd (section_of False (finish_cycle e cfg) w)))"
    using w pulls.books.finish_cycle by (rule secs.in_section)
  show "I (wd_store (store_error e cfg msg w))" for msg using w by (rule secs.error)
  show "I (wd_store (store_blocked e cfg k msg g w))" for k msg g using w by (rule secs.blocked)
qed simp_all

interpretation keys_cycle: daemon_invariant e "\<lambda>s. enforces_ddl e \<longrightarrow> keys_ok e s" for e
  by unfold_locales (simp_all add: keys_ok_def)

interpretation parents_cycle: daemon_invariant e "\<lambda>s. enforces_ddl e \<longrightarrow> parents_ok e s" for e
  by unfold_locales (simp_all add: parents_ok_def parent_absent_def)

interpretation log_cycle: daemon_invariant e log_ok for e
  by unfold_locales (simp_all add: log_ok_def)

interpretation survival_cycle: daemon_invariant e "survives s0" for e s0
  by unfold_locales (simp_all add: survives_def log_extends_def)

interpretation issues_cycle: daemon_invariant e "issues_ok e" for e
  by unfold_locales (simp_all add: issues_ok_def unresolved_def)

text \<open>A cycle logs nothing but the versions that keep a losing text: what it pulls is not sent back.\<close>

interpretation quiet_pull: pull_invariant e "\<lambda>s. applying s \<and> echoes_nothing s0 s" for e s0
  by unfold_locales (simp_all add: echoes_nothing_def)

interpretation quiet_books: section_invariant e "echoes_nothing s0" for e s0
  by unfold_locales
    (auto simp: echoes_nothing_def record_issue_def resolve_issues_def now_utc_def generate_id_def Let_def
      split: option.splits if_splits)

interpretation quiet: cycle_invariant e cfg po "\<lambda>w. echoes_nothing s0 (wd_store w)" for e cfg po s0
proof
  fix w :: "'a world" assume w: "echoes_nothing s0 (wd_store w)"
  have pulled: "echoes_nothing s0 (wd_store (snd (section_of True body w)))"
    if "\<And>s v s'. applying s \<and> echoes_nothing s0 s \<Longrightarrow> body s = Inr (v, s') \<Longrightarrow> applying s' \<and> echoes_nothing s0 s'"
    for body :: "store \<Rightarrow> exn + 'x \<times> store"
  proof (rule section_keeps [where P = "\<lambda>w. echoes_nothing s0 (wd_store w)", OF w])
    fix v s assume "body ((wd_store w)\<lparr>applying := True\<rparr>) = Inr (v, s)"
    moreover have "echoes_nothing s0 ((wd_store w)\<lparr>applying := True\<rparr>)" using w by (simp add: echoes_nothing_def)
    ultimately have "echoes_nothing s0 s" using that [of "(wd_store w)\<lparr>applying := True\<rparr>" v s] by simp
    then show "echoes_nothing s0 (wd_store (w\<lparr>wd_store := s\<lparr>applying := applying (wd_store w)\<rparr>\<rparr>))"
      by (simp add: echoes_nothing_def)
  qed
  show "echoes_nothing s0 (wd_store (snd (read_clock e w)))"
    using w by (simp add: read_clock_def now_utc_def echoes_nothing_def)
  show "echoes_nothing s0 (wd_store (snd (ask (po_handshake po) w)))"
    "echoes_nothing s0 (wd_store (snd (ask (po_changes po since n) w)))"
    for since n using w by (simp_all add: ask_def split: prod.split sum.split)
  show "echoes_nothing s0 (wd_store (snd (retry_push_queue e cfg po w)))" using w by (rule quiet_books.push_queue)
  show "echoes_nothing s0 (wd_store (snd (section_of False (snapshot_round e cfg cbt) w)))" for cbt
    using w quiet_books.snapshot_round by (rule quiet_books.in_section)
  show "echoes_nothing s0 (wd_store (snd (section_of True (retry_pull_queue e cfg cbt) w)))" for cbt
    by (rule pulled, erule (1) quiet_pull.pull_queue)
  show "echoes_nothing s0 (wd_store (snd (section_of True (pull_page e cfg cbt cs next) w)))" for cbt cs "next"
    by (rule pulled, erule (1) quiet_pull.pull_page)
  show "echoes_nothing s0 (wd_store (snd (section_of False (finish_cycle e cfg) w)))"
    using w quiet_books.finish_cycle by (rule quiet_books.in_section)
  show "echoes_nothing s0 (wd_store (store_error e cfg msg w))" for msg using w by (rule quiet_books.error)
  show "echoes_nothing s0 (wd_store (store_blocked e cfg k msg g w))" for k msg g using w by (rule quiet_books.blocked)
qed simp_all

text \<open>C18. However a cycle ends, no issue is opened twice, the log stays ordered and keeps its entries,
  nothing is logged by the cycle itself except versions that keep a losing text - so what was
  pulled is not pushed back -, and no project, memo or member row disappears (a memo version
  may, at the peer's bare delete); ids stay unique and every row keeps its parent row on an
  engine that enforces the keys of the schema.\<close>

theorem cycle_keeps_store_sound:
  assumes "run_once e shown cfg po t1 t2 w = (r, w')" "enforces_ddl e"
    and "keys_ok e (wd_store w)" "parents_ok e (wd_store w)" "log_ok (wd_store w)"
    and "issues_ok e (wd_store w)"
  shows "keys_ok e (wd_store w') \<and> parents_ok e (wd_store w') \<and> log_ok (wd_store w') \<and>
    issues_ok e (wd_store w') \<and> survives (wd_store w) (wd_store w') \<and>
    echoes_nothing (wd_store w) (wd_store w')"
proof -
  have w': "w' = snd (run_once e shown cfg po t1 t2 w)" using assms(1) by simp
  show ?thesis unfolding w'
    using keys_cycle.cyc.run_once [of e w shown cfg po t1 t2]
      parents_cycle.cyc.run_once [of e w shown cfg po t1 t2]
      log_cycle.cyc.run_once [of w e shown cfg po t1 t2]
      issues_cycle.cyc.run_once [of e w shown cfg po t1 t2]
      survival_cycle.cyc.run_once [of "wd_store w" w e shown cfg po t1 t2]
      quiet.run_once [of "wd_store w" w e shown cfg po t1 t2] assms(2-)
    by simp
qed

section \<open>The cursors\<close>

lemma find_peer_map:
  fixes g :: "peer_state \<Rightarrow> peer_state"
  assumes "\<And>r. ps_peer (g r) = ps_peer r"
  shows "find (\<lambda>r. same_str e (ps_peer r) p) (map g rs) =
    map_option g (find (\<lambda>r. same_str e (ps_peer r) p) rs)"
  by (rule find_map_cong) (simp add: assms)

lemma set_fields_peer [simp]: "ps_peer (fold set_peer_field fs r) = ps_peer r"
proof (induction fs arbitrary: r)
  case (Cons f fs)
  then show ?case by (cases f) simp_all
qed simp

definition cursors :: "env \<Rightarrow> string \<Rightarrow> store \<Rightarrow> int \<times> int \<times> bool" where
  "cursors e p s = (let st = get_sync_state e p s in (ps_pushed st, ps_pulled st, ps_paused st))"

lemma cursors_cong: "peers s' = peers s \<Longrightarrow> cursors e p s' = cursors e p s"
  by (simp add: cursors_def get_sync_state_def)

lemma cursors_ensure: "cursors e p (snd (ensure_sync_state e p s)) = cursors e p s"
proof -
  let ?P = "\<lambda>r. same_str e (ps_peer r) p"
  show ?thesis
  proof (cases "find ?P (peers s)")
    case None
    then show ?thesis
      by (simp add: cursors_def get_sync_state_def ensure_sync_state_def Let_def now_utc_def
          generate_id_def find_append case_prod_beta default_peer_state_def)
  next
    case (Some r)
    then show ?thesis
      by (simp add: cursors_def get_sync_state_def ensure_sync_state_def Let_def now_utc_def
          generate_id_def find_peer_map case_prod_beta)
  qed
qed

lemma ensure_present:
  "find (\<lambda>r. same_str e (ps_peer r) p) (peers (snd (ensure_sync_state e p s))) \<noteq> None"
  by (auto simp: ensure_sync_state_def Let_def now_utc_def generate_id_def find_append case_prod_beta
      find_peer_map split: option.split)

lemma cursors_update:
  assumes "\<And>r. (ps_pushed (fold set_peer_field fs r), ps_pulled (fold set_peer_field fs r),
      ps_paused (fold set_peer_field fs r)) = h (ps_pushed r, ps_pulled r, ps_paused r)" "fs \<noteq> []"
  shows "cursors e p (update_sync_state e p fs s) = h (cursors e p s)"
proof -
  let ?P = "\<lambda>r. same_str e (ps_peer r) p" and ?s = "snd (ensure_sync_state e p s)"
  obtain r where r: "find ?P (peers ?s) = Some r" using ensure_present by blast
  then have "cursors e p ?s = (ps_pushed r, ps_pulled r, ps_paused r)"
    by (simp add: cursors_def get_sync_state_def)
  moreover have "?P r" using r by (auto dest: find_SomeD)
  then have "cursors e p (update_sync_state e p fs s) = h (ps_pushed r, ps_pulled r, ps_paused r)"
    using assms by (simp add: cursors_def get_sync_state_def update_sync_state_def Let_def now_utc_def
        find_peer_map r)
  ultimately show ?thesis by (simp add: cursors_ensure)
qed

lemma cursors_updates [simp]:
  "cursors e p (update_sync_state e p [LastError x] s) = cursors e p s"
  "cursors e p (update_sync_state e p [LastOk y, LastError x] s) = cursors e p s"
  "cursors e p (update_sync_state e p [LastPushed n] s) = (n, snd (cursors e p s))"
  "cursors e p (update_sync_state e p [LastPulled n] s) = (fst (cursors e p s), n, snd (snd (cursors e p s)))"
proof -
  show "cursors e p (update_sync_state e p [LastError x] s) = cursors e p s"
    "cursors e p (update_sync_state e p [LastOk y, LastError x] s) = cursors e p s"
    by (rule cursors_update [where h = "\<lambda>x. x"]; simp)+
  show "cursors e p (update_sync_state e p [LastPushed n] s) = (n, snd (cursors e p s))"
    by (rule cursors_update [where h = "\<lambda>x. (n, snd x)"]; simp)
  show "cursors e p (update_sync_state e p [LastPulled n] s) = (fst (cursors e p s), n, snd (snd (cursors e p s)))"
    by (rule cursors_update [where h = "\<lambda>x. (fst x, n, snd (snd x))"]; simp)
qed

section \<open>The gates\<close>

text \<open>Only the gates stop a cycle as blocked.\<close>

definition unblocked :: "(halt + 'a) \<times> 'w \<Rightarrow> bool" where
  "unblocked m = (case fst m of Inl x \<Rightarrow> (case x of Blocked k t g \<Rightarrow> False | _ \<Rightarrow> True) | Inr v \<Rightarrow> True)"

lemma unblocked_bind:
  "unblocked m \<Longrightarrow> (\<And>a w. unblocked (f a w)) \<Longrightarrow> unblocked (wbind m f)"
  by (cases m rule: prod.exhaust; cases "fst m") (auto simp: unblocked_def)

lemma unblocked_fold: "(\<And>x a w. unblocked (f x a w)) \<Longrightarrow> unblocked (wfold f xs a w)"
proof (induction xs arbitrary: a w)
  case (Cons x xs)
  show ?case unfolding wfold.simps by (rule unblocked_bind, rule Cons.prems) (rule Cons.IH, rule Cons.prems)
qed (simp add: unblocked_def)

lemma unblocked_steps [simp]:
  "unblocked (section_of fl body w)" "unblocked (ask f w')" "unblocked (Inr v, w'')"
  by (auto simp: unblocked_def section_of_def ask_def split: prod.split sum.split)

lemma unblocked_queue: "unblocked (retry_push_queue e cfg po w)"
  unfolding retry_push_queue_def
  by (rule unblocked_bind)
    (auto split: prod.split simp: push_entry_def intro!: unblocked_fold unblocked_bind)

lemma unblocked_snapshots: "unblocked (snapshot_rounds k e cfg cbt w)"
proof (induction k arbitrary: w)
  case (Suc k)
  show ?case unfolding snapshot_rounds.simps by (rule unblocked_bind) (simp_all add: Suc.IH)
qed simp

lemma unblocked_push: "unblocked (push_rounds e cfg po cbt w)"
  unfolding push_rounds_def
  by (rule unblocked_bind, rule unblocked_queue, rule unblocked_bind, rule unblocked_snapshots,
      rule unblocked_bind, rule unblocked_queue) simp

lemma unblocked_pull_loop: "unblocked (pull_loop k e cfg po cbt rep w)"
proof (induction k arbitrary: rep w)
  case (Suc k)
  show ?case unfolding pull_loop.simps Let_def
    by (rule unblocked_bind) (simp_all add: unblocked_bind Suc.IH split: prod.split)
qed simp

lemma unblocked_pull: "unblocked (pull_rounds e cfg po cbt w)"
  unfolding pull_rounds_def by (rule unblocked_bind) (simp_all add: unblocked_pull_loop)

lemma unblocked_exchange: "unblocked (exchange e cfg po h cbt w)"
  unfolding exchange_def close_cycle_def
  by (rule unblocked_bind, rule unblocked_push, rule unblocked_bind, rule unblocked_pull,
      rule unblocked_bind) simp_all

lemma wbind_Inl:
  "wbind m f = (Inl x, w') \<Longrightarrow> m = (Inl x, w') \<or> (\<exists>a w. m = (Inr a, w) \<and> f a w = (Inl x, w'))"
  by (cases m rule: prod.exhaust; cases "fst m") auto

lemma wbind_Inr: "wbind m f = (Inr b, w') \<longleftrightarrow> (\<exists>a w. m = (Inr a, w) \<and> f a w = (Inr b, w'))"
  by (cases m rule: prod.exhaust; cases "fst m") auto

text \<open>The checks read the store: they move the clock, nothing else.\<close>

definition only_ticks :: "store \<Rightarrow> store \<Rightarrow> bool" where
  "only_ticks s s' = (\<exists>k. s' = s\<lparr>ticks := k\<rparr>)"

lemma only_ticks_refl [simp]: "only_ticks s s"
  by (auto simp: only_ticks_def intro: exI [of _ "ticks s"])

lemma only_ticks_trans: "only_ticks a b \<Longrightarrow> only_ticks b c \<Longrightarrow> only_ticks a c"
  by (auto simp: only_ticks_def)

lemma ticks_ask: "only_ticks (wd_store w) (wd_store (snd (ask f w)))"
  by (auto simp: ask_def split: prod.split sum.split)

lemma ticks_clock: "only_ticks (wd_store w) (wd_store (snd (read_clock e w)))"
  by (auto simp: read_clock_def now_utc_def only_ticks_def)

lemma ticks_skew: "only_ticks (wd_store w) (wd_store (snd (measure_skew e h w)))"
  using ticks_clock [of w e] by (auto simp: measure_skew_def split: sum.split option.split prod.split)

lemma ticks_schema: "wd_store (snd (check_schema cfg h w)) = wd_store w"
  by (auto simp: check_schema_def Let_def set_runtime_def split: sum.split)

lemma ticks_check_clock: "only_ticks (wd_store w) (wd_store (snd (check_clock e cfg po h w)))"
proof -
  let ?P = "\<lambda>v. only_ticks (wd_store w) (wd_store v)"
  have note_skew: "?P v \<Longrightarrow> ?P (note_skew k v)" for k v
    by (simp add: note_skew_def set_runtime_def)
  have re: "?P (snd (recheck_clock e cfg po k v))" if "?P v" for k v
  proof -
    obtain m v1 where m: "wbind (ask (po_handshake po) v) (measure_skew e) = (m, v1)" by fastforce
    have "?P (snd (wbind (ask (po_handshake po) v) (measure_skew e)))"
      by (rule wbind_keeps [where P = ?P]) (meson that only_ticks_trans ticks_ask ticks_skew)+
    then have "?P v1" by (simp only: m snd_conv)
    then show ?thesis
      by (cases m) (simp_all add: recheck_clock_def m note_skew split: option.split)
  qed
  show ?thesis unfolding check_clock_def
    by (rule wbind_keeps [where P = ?P], rule ticks_skew)
      (simp add: note_skew re split: option.split)
qed

lemma blocked_schema:
  "check_schema cfg h w = (Inl (Blocked k msg g), w') \<Longrightarrow> k = ''schema''"
  by (auto simp: check_schema_def Let_def split: if_splits sum.splits)

lemma blocked_clock:
  "check_clock e cfg po h w = (Inl (Blocked k msg g), w') \<Longrightarrow> k = ''clock''"
  by (auto simp: check_clock_def recheck_clock_def clock_block_def measure_skew_def dest!: wbind_Inl
      split: if_splits sum.splits option.splits prod.splits)

lemma blocked_identity:
  "check_identity e h w = (r, w') \<Longrightarrow> w' = w \<and> (\<forall>k msg g. r = Inl (Blocked k msg g) \<longrightarrow> k = ''identity'')"
  by (auto simp: check_identity_def Let_def split: if_splits)

lemma unblocked_not: "unblocked m \<Longrightarrow> m \<noteq> (Inl (Blocked k msg g), w)"
  by (auto simp: unblocked_def)

lemma blocked_cycle:
  assumes "cycle_sync e cfg po w = (Inl (Blocked k msg g), w')"
  shows "only_ticks (wd_store w) (wd_store w') \<and> k \<in> {''schema'', ''clock'', ''identity''}"
proof -
  let ?B = "Inl (Blocked k msg g) :: halt + cycle_report"
  from wbind_Inl [OF assms [unfolded cycle_sync_def]] unblocked_not [OF unblocked_steps(2)]
  obtain h w1 where 1: "ask (po_handshake po) w = (Inr h, w1)"
    and r1: "wbind (check_schema cfg h w1)
       (\<lambda>cbt w2. wbind (check_clock e cfg po h w2)
       (\<lambda>u w3. wbind (check_identity e h w3)
       (\<lambda>u w4. exchange e cfg po h cbt w4))) = (?B, w')"
    by blast
  have t1: "only_ticks (wd_store w) (wd_store w1)" using ticks_ask [of w "po_handshake po"] 1 by simp
  from wbind_Inl [OF r1] consider (schema) "check_schema cfg h w1 = (Inl (Blocked k msg g), w')"
    | (later) cbt w2 where "check_schema cfg h w1 = (Inr cbt, w2)"
      "wbind (check_clock e cfg po h w2)
       (\<lambda>u w3. wbind (check_identity e h w3)
       (\<lambda>u w4. exchange e cfg po h cbt w4)) = (?B, w')"
    by blast
  then show ?thesis
  proof cases
    case schema
    with t1 ticks_schema [of cfg h w1] blocked_schema show ?thesis by fastforce
  next
    case later
    then have t2: "only_ticks (wd_store w) (wd_store w2)" using t1 ticks_schema [of cfg h w1] by simp
    obtain u w3 where c: "check_clock e cfg po h w2 = (u, w3)" by fastforce
    then have t3: "only_ticks (wd_store w) (wd_store w3)"
      using only_ticks_trans [OF t2 ticks_check_clock [of w2 e cfg po h]] by simp
    from wbind_Inl [OF later(2)] consider (clock) "check_clock e cfg po h w2 = (Inl (Blocked k msg g), w')"
      | (identity) "check_identity e h w3 = (Inl (Blocked k msg g), w')"
      | (rest) w4 where "exchange e cfg po h cbt w4 = (?B, w')"
      using c by (auto dest!: wbind_Inl)
    then show ?thesis
    proof cases
      case clock
      with t3 c blocked_clock show ?thesis by fastforce
    next
      case identity
      with t3 blocked_identity show ?thesis by fastforce
    next
      case rest
      with unblocked_not [OF unblocked_exchange] show ?thesis by metis
    qed
  qed
qed

lemma recorded_is_open:
  assumes "record_issue e k t r p d s = (i, s')"
  shows "\<exists>j \<in> set (unresolved s'). same_str e (is_kind j) k \<and> is_detail j = d"
proof (cases "find (issue_key_is e k t r p) (issues s)")
  case None
  with assms show ?thesis
    by (auto simp: record_issue_def now_utc_def generate_id_def Let_def unresolved_def)
next
  case (Some y)
  then have y: "y \<in> set (issues s)" "is_resolved y = None" "same_str e (is_kind y) k"
    by (auto dest!: find_SomeD simp: issue_key_is_def)
  let ?w = "utcnow_naive (clock e (ticks s))"
  have "issues s' = map (\<lambda>j. if same_str e (is_id j) (is_id y)
      then j\<lparr>is_detail := d, is_detected := ?w\<rparr> else j) (issues s)"
    using assms Some by (auto simp: record_issue_def now_utc_def Let_def)
  then have "y\<lparr>is_detail := d, is_detected := ?w\<rparr> \<in> set (issues s')" using y(1) by force
  with y show ?thesis by (intro bexI [of _ "y\<lparr>is_detail := d, is_detected := ?w\<rparr>"]) (simp_all add: unresolved_def)
qed

lemma record_issue_frame:
  assumes "record_issue e k t r p d s = (i, s')"
  shows "tabs s' = tabs s \<and> change_log s' = change_log s \<and> auto_seq s' = auto_seq s \<and>
    retries s' = retries s \<and> row_states s' = row_states s \<and> receipts s' = receipts s \<and> peers s' = peers s"
  using assms by (auto simp: record_issue_def now_utc_def generate_id_def Let_def split: option.splits)

lemma update_state_frame:
  "tabs (update_sync_state e p fs s) = tabs s" "change_log (update_sync_state e p fs s) = change_log s"
  "auto_seq (update_sync_state e p fs s) = auto_seq s" "issues (update_sync_state e p fs s) = issues s"
  "retries (update_sync_state e p fs s) = retries s" "row_states (update_sync_state e p fs s) = row_states s"
  "receipts (update_sync_state e p fs s) = receipts s"
  by (simp_all add: update_sync_state_def ensure_sync_state_def now_utc_def generate_id_def Let_def
      case_prod_beta)

text \<open>C19. A cycle stopped by the schema, clock or identity gate leaves rows, log, queue, agreed clocks
  and cursors as they were, and records an open issue with the reason.\<close>

theorem blocked_cycle_moves_nothing:
  assumes "run_once e shown cfg po t1 t2 w = (Stopped k msg, w')" "k \<noteq> ''offline''" "k \<noteq> ''peer_rejected''"
  shows "tabs (wd_store w') = tabs (wd_store w) \<and> change_log (wd_store w') = change_log (wd_store w) \<and>
    retries (wd_store w') = retries (wd_store w) \<and> row_states (wd_store w') = row_states (wd_store w) \<and>
    cursors e (dc_client cfg) (wd_store w') = cursors e (dc_client cfg) (wd_store w) \<and>
    rt_blocked (wd_runtime w') = Some msg \<and>
    (\<exists>j \<in> set (unresolved (wd_store w')). same_str e (is_kind j) k \<and> (\<exists>g. is_detail j = GateDetail msg g))"
proof -
  obtain w1 g where c: "cycle_sync e cfg po (w\<lparr>wd_last_attempt := t1\<rparr>) = (Inl (Blocked k msg g), w1)"
    and w': "w' = store_blocked e cfg k msg g
      (set_runtime (mark_blocked k msg \<circ> mark_online (fst (read_clock e w1))) (snd (read_clock e w1)))"
    using assms by (auto simp: run_once_def Let_def split: prod.splits sum.splits halt.splits peer_fail.splits)
  from blocked_cycle [OF c] have t: "only_ticks (wd_store w) (wd_store (snd (read_clock e w1)))"
    and k: "k \<in> {''schema'', ''clock'', ''identity''}"
    using only_ticks_trans [OF _ ticks_clock [of w1 e], of "wd_store w"] by auto
  from t obtain n where s: "wd_store (snd (read_clock e w1)) = (wd_store w)\<lparr>ticks := n\<rparr>"
    by (auto simp: only_ticks_def)
  let ?s1 = "update_sync_state e (dc_client cfg) [LastError (Some (cp_take 1000 msg))]
      ((wd_store w)\<lparr>ticks := n, applying := False\<rparr>)"
  obtain i s2 where r: "record_issue e k None None None (GateDetail msg g) ?s1 = (i, s2)" by fastforce
  have st: "wd_store w' = s2\<lparr>applying := applying (wd_store w)\<rparr>"
    using k by (auto simp: w' store_blocked_def section_of_def with_connection_def set_runtime_def s Let_def r)
  have rt: "rt_blocked (wd_runtime w') = Some msg"
    by (simp add: w' store_blocked_def section_of_def with_connection_def set_runtime_def mark_blocked_def
        split: prod.split sum.split)
  have "cursors e (dc_client cfg) (wd_store w') = cursors e (dc_client cfg) ?s1"
    by (rule cursors_cong) (simp add: st record_issue_frame [OF r])
  also have "\<dots> = cursors e (dc_client cfg) (wd_store w)"
    unfolding cursors_updates by (rule cursors_cong) simp
  finally have cur: "cursors e (dc_client cfg) (wd_store w') = cursors e (dc_client cfg) (wd_store w)" .
  have "\<exists>j \<in> set (unresolved (wd_store w')). same_str e (is_kind j) k \<and> (\<exists>g. is_detail j = GateDetail msg g)"
    using recorded_is_open [OF r] by (auto simp: st unresolved_def)
  then show ?thesis using record_issue_frame [OF r] cur rt
    by (simp add: st update_state_frame)
qed

text \<open>A paused daemon.\<close>

lemma paused_daemon_stays_idle:
  assumes "ps_paused (get_sync_state e (dc_client cfg) (wd_store w))"
  shows "tick e shown cfg po False now t1 t2 w = (None, w)"
  using assms by (simp add: tick_def should_cycle_def Let_def)

end
