(* ===== verification/Outbox.thy ===== *)
theory Outbox
  imports Daemon_Laws
begin

text \<open>
  The outbox of the client: every local change the watermark has passed is in the queue with its
  payload, is dead-lettered, or was delivered, whatever happens to a cycle. A delivery is
  recognised by a predicate on the state of the peer, of which only this is assumed: an answer
  that settles a change makes it true of the change, and it stays true.
\<close>

section \<open>The queue as a table\<close>

definition retry_key :: "env \<Rightarrow> retry \<Rightarrow> string \<times> string \<times> int" where
  "retry_key e q = (collate e (rq_peer q), collate e (rq_direction q), rq_seq q)"

lemma retry_is_key: "retry_is e p d n q \<longleftrightarrow> retry_key e q = (collate e p, collate e d, n)"
  by (auto simp: retry_is_def retry_key_def same_str_def)

text \<open>The primary key, and the payload an entry was put in with.\<close>

definition queue_ok :: "env \<Rightarrow> store \<Rightarrow> bool" where
  "queue_ok e s \<longleftrightarrow> distinct (map (retry_key e) (retries s)) \<and>
     (\<forall>q \<in> set (retries s). rq_hash q = change_hash e (rq_change q) \<and> ch_seq (rq_change q) = Some (rq_seq q))"

text \<open>The collation tells the directions apart.\<close>

definition apart :: "env \<Rightarrow> bool" where
  "apart e \<longleftrightarrow> distinct (map (collate e) [''push'', ''pull'', ''pushdead'', ''pulldead''])"

text \<open>The payload \<open>h\<close> waits under sequence number \<open>n\<close>, or is kept as a dead letter.\<close>

definition held :: "env \<Rightarrow> string \<Rightarrow> int \<Rightarrow> string \<Rightarrow> store \<Rightarrow> bool" where
  "held e p n h s \<longleftrightarrow> (\<exists>q \<in> set (retries s). rq_hash q = h \<and>
     (retry_is e p ''push'' n q \<or> retry_is e p ''pushdead'' n q))"

text \<open>An operation that keeps the table sound and everything held.\<close>

definition keeps_held :: "env \<Rightarrow> string \<Rightarrow> store \<Rightarrow> store \<Rightarrow> bool" where
  "keeps_held e p s s' \<longleftrightarrow> (queue_ok e s \<longrightarrow> queue_ok e s') \<and> (\<forall>n h. held e p n h s \<longrightarrow> held e p n h s')"

lemma keeps_same: "retries s' = retries s \<Longrightarrow> keeps_held e p s s'"
  by (simp add: keeps_held_def queue_ok_def held_def)

lemma keeps_refl [simp]: "keeps_held e p s s"
  by (simp add: keeps_same)

lemma keeps_trans: "keeps_held e p a b \<Longrightarrow> keeps_held e p b c \<Longrightarrow> keeps_held e p a c"
  by (simp add: keeps_held_def)

lemma keeps_map:
  assumes "retries s' = map f (retries s)"
    and "\<And>q. retry_key e (f q) = retry_key e q \<and> rq_hash (f q) = rq_hash q \<and> rq_change (f q) = rq_change q
      \<and> rq_seq (f q) = rq_seq q"
  shows "keeps_held e p s s'"
  unfolding keeps_held_def
proof (intro conjI impI allI)
  have m: "map (retry_key e \<circ> f) (retries s) = map (retry_key e) (retries s)" using assms(2) by simp
  show "queue_ok e s'" if "queue_ok e s" using that assms(2) by (simp add: queue_ok_def assms(1) m)
  show "held e p n h s'" if "held e p n h s" for n h
    using that assms(2) unfolding held_def retry_is_key assms(1) set_map by fastforce
qed

lemma keeps_failed: "keeps_held e p s (mark_sync_retry_failed e cl d n why s)"
  by (rule keeps_map [where f = "\<lambda>q. if retry_is e cl d n q
      then q\<lparr>rq_attempts := Suc (rq_attempts q), rq_reason := cp_take 1000 why,
             rq_last := utcnow_naive (clock e (ticks s))\<rparr> else q"])
    (auto simp: mark_sync_retry_failed_def now_utc_def Let_def retry_key_def)

lemma keeps_enqueue:
  assumes "enqueue_sync_retry e cl d c why s = Inr s'"
  shows "keeps_held e p s s' \<and> (queue_ok e s \<and> d = ''push'' \<longrightarrow>
    (\<exists>n. ch_seq c = Some n \<and> held e cl n (change_hash e c) s'))"
proof -
  obtain n where n: "ch_seq c = Some n" and d: "d = ''push'' \<or> d = ''pull''"
    using assms by (auto simp: enqueue_sync_retry_def split: if_splits option.splits)
  let ?now = "utcnow_naive (clock e (ticks s))"
  show ?thesis
  proof (cases "find_retry e cl d n s")
    case None
    then obtain r where r: "retries s' = retries s @ [r]" "rq_hash r = change_hash e c" "rq_change r = c"
      "rq_seq r = n" "retry_is e cl d n r"
      using assms n d by (auto simp: enqueue_sync_retry_def now_utc_def Let_def retry_is_def split: if_splits)
    have "retry_key e r \<notin> retry_key e ` set (retries s)"
      using None r(5) unfolding find_retry_def find_None retry_is_key by auto
    then have "queue_ok e s \<longrightarrow> queue_ok e s'" using r n by (auto simp: queue_ok_def)
    moreover have "held e p m h s \<longrightarrow> held e p m h s'" for m h using r(1) by (auto simp: held_def)
    moreover have "d = ''push'' \<longrightarrow> held e cl n (change_hash e c) s'" using r by (auto simp: held_def)
    ultimately show ?thesis using n by (auto simp: keeps_held_def)
  next
    case (Some old)
    then have old: "old \<in> set (retries s)" "retry_is e cl d n old"
      unfolding find_retry_def by (auto dest: find_SomeD)
    have s': "retries s' = map (\<lambda>q. if retry_is e cl d n q
        then q\<lparr>rq_reason := cp_take 1000 why, rq_last := ?now\<rparr> else q) (retries s)"
      "rq_hash old = change_hash e c"
      using assms n d Some by (auto simp: enqueue_sync_retry_def now_utc_def Let_def split: if_splits)
    have k: "keeps_held e q s s'" for q
      by (rule keeps_map [OF s'(1)]) (simp add: retry_key_def)
    have "held e cl n (change_hash e c) s" if "d = ''push''"
      using old s'(2) that by (auto simp: held_def)
    with k n show ?thesis by (auto simp: keeps_held_def)
  qed
qed

definition buries :: "env \<Rightarrow> string \<Rightarrow> string \<Rightarrow> int \<Rightarrow> (retry \<Rightarrow> retry) \<Rightarrow> bool" where
  "buries e cl d n f \<longleftrightarrow> (\<forall>q. rq_hash (f q) = rq_hash q \<and> rq_change (f q) = rq_change q \<and> rq_seq (f q) = rq_seq q \<and>
     (if retry_is e cl d n q then retry_key e (f q) = (collate e cl, collate e (d @ ''dead''), n) else f q = q))"

lemma dead_form:
  assumes "mark_sync_retry_dead e cl d n why s = Inr s'"
  shows "\<exists>f. retries s' = map f (retries s) \<and> buries e cl d n f"
proof -
  let ?f = "\<lambda>q. if retry_is e cl d n q
      then q\<lparr>rq_direction := d @ ''dead'', rq_attempts := Suc (rq_attempts q), rq_reason := cp_take 1000 why,
             rq_last := utcnow_naive (clock e (ticks s))\<rparr> else q"
  have "retries s' = map ?f (retries s)"
    using assms by (auto simp: mark_sync_retry_dead_def now_utc_def Let_def split: if_splits)
  moreover have "buries e cl d n ?f" by (auto simp: buries_def retry_key_def retry_is_def same_str_def)
  ultimately show ?thesis by blast
qed

lemma buriesD:
  assumes "buries e cl d n f"
  shows "rq_hash (f q) = rq_hash q" "rq_change (f q) = rq_change q" "rq_seq (f q) = rq_seq q"
    "retry_is e cl d n q \<Longrightarrow> retry_key e (f q) = (collate e cl, collate e (d @ ''dead''), n)"
    "\<not> retry_is e cl d n q \<Longrightarrow> f q = q"
  using assms unfolding buries_def by (metis (no_types))+

lemma dead_guard:
  "mark_sync_retry_dead e cl d n why s = Inr s' \<Longrightarrow>
    (\<forall>q \<in> set (retries s). \<not> retry_is e cl d n q) \<or> (\<forall>q \<in> set (retries s). \<not> retry_is e cl (d @ ''dead'') n q)"
  by (auto simp: mark_sync_retry_dead_def find_retry_def find_None split: if_splits)

lemma keeps_dead:
  assumes "mark_sync_retry_dead e cl d n why s = Inr s'" "d = ''push'' \<or> d = ''pull''" "apart e"
  shows "keeps_held e p s s'"
proof -
  obtain f where s': "retries s' = map f (retries s)" and f: "buries e cl d n f"
    using dead_form [OF assms(1)] by (elim exE conjE)
  note same = buriesD(1-3) [OF f] and moved = buriesD(4) [OF f] and stay = buriesD(5) [OF f]
  have clash: "retry_key e (f x) \<noteq> retry_key e y"
    if "x \<in> set (retries s)" "y \<in> set (retries s)" "retry_is e cl d n x" for x y
    using dead_guard [OF assms(1)] that moved [OF that(3)] unfolding retry_is_key by metis
  have inj: "retry_key e x = retry_key e y"
    if "x \<in> set (retries s)" "y \<in> set (retries s)" "retry_key e (f x) = retry_key e (f y)" for x y
    using that clash [of x y] clash [of y x] stay
    by (cases "retry_is e cl d n x"; cases "retry_is e cl d n y") (simp_all add: retry_is_key)
  have "distinct (map (retry_key e) (map f (retries s)))" if "distinct (map (retry_key e) (retries s))"
    using that inj unfolding distinct_map map_map inj_on_def comp_def by (metis (no_types, lifting))
  then have ok: "queue_ok e s \<longrightarrow> queue_ok e s'" using same by (simp add: queue_ok_def s')
  have "held e p m h s'" if held: "held e p m h s" for m h
  proof -
    obtain q where q: "q \<in> set (retries s)" "rq_hash q = h"
      "retry_is e p ''push'' m q \<or> retry_is e p ''pushdead'' m q" using held unfolding held_def by blast
    have "retry_is e p ''push'' m (f q) \<or> retry_is e p ''pushdead'' m (f q)"
    proof (cases "retry_is e cl d n q")
      case True
      then have "d = ''push'' \<and> collate e p = collate e cl \<and> m = n"
        using q(3) assms(2,3) by (auto simp: retry_is_key apart_def)
      with moved [OF True] show ?thesis by (simp add: retry_is_key)
    next
      case False
      with stay q(3) show ?thesis by simp
    qed
    with q(1,2) same(1) [of q] show ?thesis
      unfolding held_def s' set_map by (intro bexI [of _ "f q"] imageI) simp_all
  qed
  with ok show ?thesis by (simp add: keeps_held_def)
qed

text \<open>Removing an entry loses only what it stood for.\<close>

lemma keeps_delete:
  assumes "held e p m h s" "\<not> (d = ''push'' \<and> same_str e cl p \<and> m = n)" "d = ''push'' \<or> d = ''pull''" "apart e"
  shows "held e p m h (delete_sync_retry e cl d n s)"
proof -
  obtain q where q: "q \<in> set (retries s)" "rq_hash q = h"
    "retry_is e p ''push'' m q \<or> retry_is e p ''pushdead'' m q" using assms(1) unfolding held_def by blast
  then have "\<not> retry_is e cl d n q"
    using assms(2-) by (auto simp: retry_is_def apart_def same_str_def)
  with q show ?thesis by (auto simp: held_def delete_sync_retry_def)
qed

lemma queue_ok_delete: "queue_ok e s \<Longrightarrow> queue_ok e (delete_sync_retry e cl d n s)"
  by (auto simp: queue_ok_def delete_sync_retry_def distinct_map_filter)

section \<open>The steps of a cycle on the queue\<close>

text \<open>Applying changes leaves the queue and the cursors alone.\<close>

definition desk_kept :: "store \<Rightarrow> store \<Rightarrow> bool" where
  "desk_kept s0 s \<longleftrightarrow> retries s = retries s0 \<and> peers s = peers s0"

lemma desk_books: "same_books s s' \<Longrightarrow> desk_kept s0 s \<Longrightarrow> desk_kept s0 s'"
  by (simp add: same_books_def desk_kept_def)

interpretation desk: store_invariant e "desk_kept s0" for e s0
proof
  show "desk_kept s0 s'" if "desk_kept s0 s" "record_issue e k t r p d s = (i, s')" for s s' k t r p d i
    by (rule issue_blind(1) [where I = "desk_kept s0", OF _ _ _ that]) (simp_all add: desk_kept_def)
  show "desk_kept s0 s'" if "desk_kept s0 s" "resolve_issues e is k t r s = (m, s')" for s s' "is" k t r m
    by (rule issue_blind(2) [where I = "desk_kept s0", OF _ _ _ that]) (simp_all add: desk_kept_def)
  show "desk_kept s0 s'"
    if "desk_kept s0 s" "change_log_enabled (db_insert e Memo_versions r) s = Inr s'" for s s' r
    by (rule logged_insert [where I = "desk_kept s0", OF _ _ that])
      (auto simp: desk_kept_def same_books_def dest: db_insert_books)
  show "desk_kept s0 (db_delete e Memo_versions P s)" if "desk_kept s0 s" for s P
    using that by (rule desk_books [OF db_delete_books])
qed (auto simp: desk_kept_def same_books_def dest: db_insert_books db_update_books)

text \<open>New log entries lie past everything logged so far.\<close>

definition log_beyond :: "store \<Rightarrow> store \<Rightarrow> bool" where
  "log_beyond s0 s \<longleftrightarrow> auto_seq s0 \<le> auto_seq s \<and>
     (\<exists>ls. change_log s = change_log s0 @ ls \<and> (\<forall>l \<in> set ls. auto_seq s0 < le_seq l))"

lemma log_beyond_refl [simp]: "log_beyond s s"
  by (simp add: log_beyond_def)

lemma log_beyond_trans: "log_beyond a b \<Longrightarrow> log_beyond b c \<Longrightarrow> log_beyond a c"
  by (fastforce simp: log_beyond_def)

lemma log_beyond_change: "log_beyond s0 s \<Longrightarrow> log_beyond s0 (log_change e t o' i s)"
  by (auto simp: log_beyond_def log_change_def)

lemma log_beyond_changes: "log_beyond s0 s \<Longrightarrow> log_beyond s0 (log_changes e t o' is s)"
  by (induction "is" arbitrary: s) (auto simp: log_beyond_change)

lemma log_beyond_fields [simp]:
  "log_beyond s0 (s\<lparr>tabs := x\<rparr>) = log_beyond s0 s" "log_beyond s0 (s\<lparr>ticks := k\<rparr>) = log_beyond s0 s"
  "log_beyond s0 (s\<lparr>ids := k\<rparr>) = log_beyond s0 s" "log_beyond s0 (s\<lparr>issues := is\<rparr>) = log_beyond s0 s"
  "log_beyond s0 (s\<lparr>receipts := rs\<rparr>) = log_beyond s0 s"
  "log_beyond s0 (s\<lparr>articles := as\<rparr>) = log_beyond s0 s"
  "log_beyond s0 (s\<lparr>applying := b\<rparr>) = log_beyond s0 s"
  "log_beyond s0 (s\<lparr>retries := qs\<rparr>) = log_beyond s0 s"
  "log_beyond s0 (s\<lparr>row_states := rs'\<rparr>) = log_beyond s0 s"
  "log_beyond s0 (s\<lparr>peers := ps\<rparr>) = log_beyond s0 s"
  by (simp_all add: log_beyond_def)

lemma log_beyond_insert: "log_beyond s0 s \<Longrightarrow> db_insert e t r s = Inr s' \<Longrightarrow> log_beyond s0 s'"
  by (auto simp: db_insert_def Let_def intro!: log_beyond_change split: option.splits)

interpretation beyond: daemon_invariant e "log_beyond s0" for e s0
proof
  show "log_beyond s0 s'" if "log_beyond s0 s" "record_issue e k t r p d s = (i, s')" for s s' k t r p d i
    by (rule issue_blind(1) [where I = "log_beyond s0", OF _ _ _ that]) simp_all
  show "log_beyond s0 s'" if "log_beyond s0 s" "resolve_issues e is k t r s = (m, s')" for s s' "is" k t r m
    by (rule issue_blind(2) [where I = "log_beyond s0", OF _ _ _ that]) simp_all
  show "log_beyond s0 s'"
    if "log_beyond s0 s" "change_log_enabled (db_insert e Memo_versions r) s = Inr s'" for s s' r
    by (rule logged_insert [where I = "log_beyond s0", OF _ _ that]) (auto intro: log_beyond_insert)
  show "log_beyond s0 s'" if "log_beyond s0 s" "db_update e t P asg s = Inr (n, s')" for s t P asg n s'
    using that by (auto simp: db_update_def Let_def intro!: log_beyond_changes split: option.splits)
  show "log_beyond s0 (db_delete e Memo_versions P s)" if "log_beyond s0 s" for s P
    using that by (auto simp: db_delete_def intro!: log_beyond_changes)
qed (auto intro: log_beyond_insert)

lemma remember_frame:
  "remember_clock e cl tab i eff k over s = Inr s' \<Longrightarrow> retries s' = retries s \<and> peers s' = peers s"
  by (auto simp: remember_clock_def set_row_sync_clock_def Let_def split: if_splits option.splits)

lemma mirror_frame:
  "retries (mirror_remote_issues e r s) = retries s" "peers (mirror_remote_issues e r s) = peers s"
proof -
  have rec: "retries (snd (record_issue e k t i p d s)) = retries s \<and>
      peers (snd (record_issue e k t i p d s)) = peers s" for k t i p d s
    using record_issue_frame by (cases "record_issue e k t i p d s") fastforce
  have "retries (fold f xs s) = retries s \<and> peers (fold f xs s) = peers s"
    if "\<And>x s. retries (f x s) = retries s \<and> peers (f x s) = peers s" for f :: "'x \<Rightarrow> store \<Rightarrow> store" and xs s
    by (induction xs arbitrary: s) (simp_all add: that)
  from this [of "\<lambda>c s. snd (record_issue e ''conflict'' (Some (cf_table c)) (Some (cf_rowId c)) None
      (PeerConflict c) s)"]
    this [of "\<lambda>d s. if du_kind d = [] then s else snd (record_issue e (du_kind d) (Some (du_table d))
      (Some (du_rowId d)) (Some (du_peer d)) (PeerDuplicate d) s)"]
  show "retries (mirror_remote_issues e r s) = retries s" "peers (mirror_remote_issues e r s) = peers s"
    by (simp_all add: mirror_remote_issues_def rec)
qed

lemma letter_keeps:
  assumes "dead_letter e cl d n tab i why shown s = Inr s'" "d = ''push'' \<or> d = ''pull''" "apart e"
  shows "keeps_held e p s s' \<and> peers s' = peers s"
proof -
  obtain s1 where s1: "mark_sync_retry_dead e cl d n why s = Inr s1"
    "s' = snd (record_issue e ''sync_dead_letter'' tab i None (DeadLetter d n shown) s1)"
    using assms(1) by (auto simp: dead_letter_def)
  obtain j where "record_issue e ''sync_dead_letter'' tab i None (DeadLetter d n shown) s1 = (j, s')"
    using s1(2) by (metis prod.collapse)
  from record_issue_frame [OF this] have "retries s' = retries s1" "peers s' = peers s1" by auto
  moreover have "peers s1 = peers s"
    using s1(1) by (auto simp: mark_sync_retry_dead_def now_utc_def Let_def split: if_splits)
  ultimately show ?thesis
    using keeps_dead [OF s1(1) assms(2,3), of p] keeps_same keeps_trans by metis
qed

lemma delete_or:
  assumes "held e p m h s" "apart e"
  shows "held e p m h (delete_sync_retry e p ''push'' n s) \<or>
    m = n \<and> (\<exists>q \<in> set (retries s). retry_is e p ''push'' n q \<and> rq_hash q = h)"
proof -
  obtain q where q: "q \<in> set (retries s)" "rq_hash q = h"
    "retry_is e p ''push'' m q \<or> retry_is e p ''pushdead'' m q" using assms(1) unfolding held_def by blast
  show ?thesis
  proof (cases "retry_is e p ''push'' n q")
    case True
    with q assms(2) show ?thesis by (auto simp: retry_is_key apart_def)
  next
    case False
    with q show ?thesis by (auto simp: held_def delete_sync_retry_def)
  qed
qed

lemma settle_push_keeps:
  assumes "settle_push e cl q r s = Inr s'" "apart e"
  shows "(queue_ok e s \<longrightarrow> queue_ok e s') \<and> peers s' = peers s \<and>
    (\<forall>n h. held e cl n h s \<longrightarrow> held e cl n h s' \<or> settled_reply r \<and> n = rq_seq q \<and>
       (\<exists>x \<in> set (retries s). retry_is e cl ''push'' n x \<and> rq_hash x = h))"
proof -
  let ?m = "mirror_remote_issues e r s"
  have m: "keeps_held e cl s ?m" by (rule keeps_same) (rule mirror_frame)
  show ?thesis
  proof (cases "settled_reply r")
    case True
    then obtain tab i eff where "remember_clock e cl tab i eff None None
        (delete_sync_retry e cl ''push'' (rq_seq q) ?m) = Inr s'"
      using assms(1) by (auto simp: settle_push_def Let_def)
    from remember_frame [OF this] have s': "keeps_held e cl (delete_sync_retry e cl ''push'' (rq_seq q) ?m) s'"
      "peers s' = peers s" by (auto intro: keeps_same simp: delete_sync_retry_def mirror_frame)
    have "held e cl n h s' \<or> n = rq_seq q \<and> (\<exists>x \<in> set (retries s). retry_is e cl ''push'' n x \<and> rq_hash x = h)"
      if "held e cl n h s" for n h
      using that m s'(1) delete_or [of e cl n h ?m "rq_seq q"] assms(2)
      unfolding keeps_held_def mirror_frame by blast
    with m s' queue_ok_delete True show ?thesis unfolding keeps_held_def by blast
  next
    case False
    then have "keeps_held e cl ?m s' \<and> peers s' = peers ?m"
      using assms letter_keeps [of e cl "''push''"] keeps_failed [of e cl ?m cl "''push''"]
      by (auto simp: settle_push_def Let_def mark_sync_retry_failed_def now_utc_def split: if_splits)
    then show ?thesis using m by (auto simp: keeps_held_def mirror_frame)
  qed
qed

text \<open>Settling never puts a payload into the queue.\<close>

definition no_new_push :: "env \<Rightarrow> string \<Rightarrow> store \<Rightarrow> store \<Rightarrow> bool" where
  "no_new_push e cl s s' \<longleftrightarrow> (\<forall>x \<in> set (retries s'). \<forall>n. retry_is e cl ''push'' n x \<longrightarrow>
     (\<exists>y \<in> set (retries s). retry_is e cl ''push'' n y \<and> rq_hash y = rq_hash x))"

lemma no_new_dead:
  assumes "dead_letter e cl ''push'' n tab i why shown s = Inr s'" "apart e"
  shows "no_new_push e cl s s'"
proof -
  obtain s1 where s1: "mark_sync_retry_dead e cl ''push'' n why s = Inr s1"
    "s' = snd (record_issue e ''sync_dead_letter'' tab i None (DeadLetter ''push'' n shown) s1)"
    using assms(1) by (auto simp: dead_letter_def)
  obtain j where "record_issue e ''sync_dead_letter'' tab i None (DeadLetter ''push'' n shown) s1 = (j, s')"
    using s1(2) by (metis prod.collapse)
  then have r: "retries s' = retries s1" using record_issue_frame by blast
  obtain f where f: "retries s1 = map f (retries s)" "buries e cl ''push'' n f"
    using dead_form [OF s1(1)] by (elim exE conjE)
  show ?thesis unfolding no_new_push_def r f(1)
  proof (intro ballI allI impI)
    fix x k assume "x \<in> set (map f (retries s))" and k: "retry_is e cl ''push'' k x"
    then obtain y where y: "y \<in> set (retries s)" "x = f y" by auto
    have "\<not> retry_is e cl ''push'' n y"
      using buriesD(4) [OF f(2), of y] k assms(2) by (auto simp: y(2) retry_is_key apart_def)
    with buriesD(5) [OF f(2)] y k show "\<exists>y \<in> set (retries s). retry_is e cl ''push'' k y \<and> rq_hash y = rq_hash x" by auto
  qed
qed

lemma settle_push_old:
  assumes "settle_push e cl q r s = Inr s'" "apart e"
  shows "no_new_push e cl s s'"
proof -
  let ?m = "mirror_remote_issues e r s"
  have fail: "no_new_push e cl ?m (mark_sync_retry_failed e cl ''push'' n why ?m)" for n why
    by (auto simp: no_new_push_def mark_sync_retry_failed_def now_utc_def Let_def retry_is_def)
  have old: "no_new_push e cl s t" if "no_new_push e cl ?m t" for t
    using that by (simp add: no_new_push_def mirror_frame)
  have gone: "no_new_push e cl s s'"
    if "remember_clock e cl tab i eff None None (delete_sync_retry e cl ''push'' (rq_seq q) ?m) = Inr s'"
    for tab i eff
    using remember_frame [OF that] by (auto simp: no_new_push_def delete_sync_retry_def mirror_frame)
  from assms(1) consider tab i eff where
      "remember_clock e cl tab i eff None None (delete_sync_retry e cl ''push'' (rq_seq q) ?m) = Inr s'"
    | tab i why shown where "dead_letter e cl ''push'' (rq_seq q) tab i why shown ?m = Inr s'"
    | why where "s' = mark_sync_retry_failed e cl ''push'' (rq_seq q) why ?m"
    by (auto simp: settle_push_def Let_def split: if_splits)
  then show ?thesis
  proof cases
    case 1
    then show ?thesis by (rule gone)
  next
    case 2
    then show ?thesis by (intro old no_new_dead assms(2))
  next
    case 3
    show ?thesis unfolding 3 by (intro old fail)
  qed
qed

lemma enqueue_peers: "enqueue_sync_retry e cl d c why s = Inr s' \<Longrightarrow> peers s' = peers s"
  by (auto simp: enqueue_sync_retry_def now_utc_def Let_def split: if_splits option.splits)

lemma enqueue_log:
  "enqueue_sync_retry e cl d c why s = Inr s' \<Longrightarrow> change_log s' = change_log s \<and> auto_seq s' = auto_seq s"
  by (auto simp: enqueue_sync_retry_def now_utc_def Let_def split: if_splits option.splits)

lemma settle_pull_keeps:
  assumes "settle_pull e cl rs nc s = Inr s'" "apart e"
  shows "keeps_held e p s s' \<and> peers s' = peers s"
proof -
  obtain n c where nc: "nc = (n, c)" by (cases nc)
  show ?thesis
  proof (cases "map_of rs n")
    case None
    then show ?thesis using assms(1) keeps_enqueue enqueue_peers by (force simp: settle_pull_def nc)
  next
    case (Some r)
    show ?thesis
    proof (cases "rr_status r \<in> {Deferred, Rejected}")
      case True
      then obtain s1 where s1: "enqueue_sync_retry e cl ''pull'' c
          (str_or (rr_reason r) (status_name (rr_status r))) s = Inr s1"
        "s' = s1 \<or> dead_letter e cl ''pull'' n (Some (ch_table c)) (ch_rowId c)
          (str_or (rr_reason r) ''local apply rejected change'') (rr_reason r) s1 = Inr s'"
        using assms(1) Some by (auto simp: settle_pull_def nc split: if_splits)
      have "keeps_held e p s1 s' \<and> peers s' = peers s1" using s1(2) letter_keeps assms(2) by fastforce
      then show ?thesis using keeps_enqueue [OF s1(1), of p] enqueue_peers [OF s1(1)] keeps_trans by metis
    next
      case False
      then show ?thesis using assms(1) Some keeps_same
        by (auto simp: settle_pull_def nc dest!: remember_frame)
    qed
  qed
qed

lemma settle_queued_keeps:
  assumes "settle_queued e cl rs qc s = Inr s'" "apart e"
  shows "keeps_held e p s s' \<and> peers s' = peers s"
proof -
  obtain q c where qc: "qc = (q, c)" by (cases qc)
  have failed: "keeps_held e p s (mark_sync_retry_failed e cl d n why s) \<and>
      peers (mark_sync_retry_failed e cl d n why s) = peers s" for d n why
    using keeps_failed by (simp add: mark_sync_retry_failed_def now_utc_def Let_def)
  have del: "keeps_held e p s (delete_sync_retry e cl ''pull'' (rq_seq q) s)"
    using queue_ok_delete keeps_delete [of e p _ _ s "''pull''" cl] assms(2) by (auto simp: keeps_held_def)
  have settled: "keeps_held e p s s' \<and> peers s' = peers s"
    if r: "remember_clock e cl tab i eff k over (delete_sync_retry e cl ''pull'' (rq_seq q) s) = Inr s'" for tab i eff k over
  proof -
    note f = remember_frame [OF r]
    have "peers s' = peers s" using f by (simp add: delete_sync_retry_def)
    with keeps_trans [OF del keeps_same] f show ?thesis by blast
  qed
  show ?thesis
  proof (cases "map_of rs (rq_seq q)")
    case None
    then show ?thesis using assms(1) failed by (auto simp: settle_queued_def qc Let_def)
  next
    case (Some r)
    show ?thesis
    proof (cases "rr_status r")
      case Deferred
      then show ?thesis using assms(1) Some failed by (auto simp: settle_queued_def qc Let_def)
    next
      case Rejected
      then show ?thesis using assms Some letter_keeps [of e cl "''pull''"]
        by (simp add: settle_queued_def qc Let_def)
    qed (use assms(1) Some settled in \<open>auto simp: settle_queued_def qc Let_def\<close>)
  qed
qed

text \<open>The transactions of a cycle that do not deliver anything.\<close>

lemma applied_keeps:
  assumes "apply_changes e cbt sd rec rcpt cs s = Inr (oc, s')"
  shows "keeps_held e p s s' \<and> peers s' = peers s"
proof -
  have "desk_kept s s'" using desk.apply_changes [OF _ assms] by (simp add: desk_kept_def)
  then show ?thesis by (simp add: desk_kept_def keeps_same)
qed

lemma sfold_keeps_held:
  assumes "sfold f xs s = Inr s'"
    and "\<And>x s s'. f x s = Inr s' \<Longrightarrow> keeps_held e p s s' \<and> peers s' = peers s"
  shows "keeps_held e p s s' \<and> peers s' = peers s"
  using sfold_invariant [OF assms(1), where P = "\<lambda>t. keeps_held e p s t \<and> peers t = peers s"]
    assms(2) keeps_trans by (metis keeps_refl)

lemma pull_page_keeps:
  assumes "pull_page e cfg cbt cs next s = Inr (v, s')" "apart e"
  shows "keeps_held e p s s' \<and> (\<exists>t. peers t = peers s \<and> peers s' = peers (update_sync_state e (dc_client cfg) [LastPulled next] t))"
proof -
  obtain oc s1 s2 where st: "apply_changes e cbt Server True None
      (map (with_base e (dc_client cfg) s) cs) s = Inr (oc, s1)"
    "sfold (settle_pull e (dc_client cfg) (by_seq rr_seq (oc_results oc)))
       (by_seq ch_seq (map (with_base e (dc_client cfg) s) cs)) s1 = Inr s2"
    "s' = update_sync_state e (dc_client cfg) [LastPulled next] s2"
    using assms(1) by (auto simp: pull_page_def Let_def)
  have "keeps_held e p s s2 \<and> peers s2 = peers s"
    using applied_keeps [OF st(1), of p] sfold_keeps_held [OF st(2), of e p] settle_pull_keeps [OF _ assms(2)]
      keeps_trans by metis
  moreover have "keeps_held e p s2 s'" by (rule keeps_same) (simp add: st(3) update_state_frame)
  ultimately show ?thesis using st(3) keeps_trans by blast
qed

lemma pull_queue_keeps:
  assumes "retry_pull_queue e cfg cbt s = Inr (v, s')" "apart e"
  shows "keeps_held e p s s' \<and> peers s' = peers s"
proof (cases "list_sync_retries e (dc_client cfg) ''pull'' (dc_batch cfg) s = []")
  case True
  with assms show ?thesis by (simp add: retry_pull_queue_def Let_def)
next
  case False
  with assms(1) obtain cs oc s1 qs where st: "apply_changes e cbt Server True None cs s = Inr (oc, s1)"
    "sfold (settle_queued e (dc_client cfg) (by_seq rr_seq (oc_results oc))) qs s1 = Inr s'"
    by (auto simp: retry_pull_queue_def Let_def)
  show ?thesis
    using applied_keeps [OF st(1), of p] sfold_keeps_held [OF st(2), of e p] settle_queued_keeps [OF _ assms(2)]
      keeps_trans by metis
qed

section \<open>The world\<close>

text \<open>What is assumed of the peer and of the record of deliveries.\<close>

definition honest :: "'p peer_ops \<Rightarrow> (change \<Rightarrow> 'p \<Rightarrow> bool) \<Rightarrow> bool" where
  "honest po del \<longleftrightarrow>
     (\<forall>c p. del c p \<longrightarrow> del c (snd (po_handshake po p)) \<and> (\<forall>since n. del c (snd (po_changes po since n p)))
        \<and> (\<forall>cid cs. del c (snd (po_push po cid cs p)))) \<and>
     (\<forall>cid c p r p'. po_push po cid [c] p = (Inr r, p') \<longrightarrow> settled_reply r \<longrightarrow> del c p')"

definition accounted ::
  "env \<Rightarrow> string \<Rightarrow> (change \<Rightarrow> 'p \<Rightarrow> bool) \<Rightarrow> int \<Rightarrow> string \<Rightarrow> 'p world \<Rightarrow> bool" where
  "accounted e cl del n h w \<longleftrightarrow> held e cl n h (wd_store w) \<or>
     (\<exists>c. ch_seq c = Some n \<and> change_hash e c = h \<and> del c (wd_peer w))"

text \<open>A step that loses nothing of the outbox and does not move the push watermark.\<close>

definition lossless :: "env \<Rightarrow> string \<Rightarrow> (change \<Rightarrow> 'p \<Rightarrow> bool) \<Rightarrow> 'p world \<Rightarrow> 'p world \<Rightarrow> bool" where
  "lossless e cl del w w' \<longleftrightarrow> (queue_ok e (wd_store w) \<longrightarrow> queue_ok e (wd_store w') \<and>
     (\<forall>n h. accounted e cl del n h w \<longrightarrow> accounted e cl del n h w')) \<and>
     fst (cursors e cl (wd_store w')) = fst (cursors e cl (wd_store w))"

lemma lossless_refl [simp]: "lossless e cl del w w"
  by (simp add: lossless_def)

lemma lossless_trans: "lossless e cl del a b \<Longrightarrow> lossless e cl del b c \<Longrightarrow> lossless e cl del a c"
  by (simp add: lossless_def)

lemma lossless_store:
  assumes "keeps_held e cl (wd_store w) (wd_store w')" "wd_peer w' = wd_peer w"
    and "fst (cursors e cl (wd_store w')) = fst (cursors e cl (wd_store w))"
  shows "lossless e cl del w w'"
  using assms by (auto simp: lossless_def accounted_def keeps_held_def)

lemma lossless_section:
  assumes "\<And>s v s'. body s = Inr (v, s') \<Longrightarrow>
      keeps_held e cl s s' \<and> fst (cursors e cl s') = fst (cursors e cl s)"
  shows "lossless e cl del w (snd (section_of fl body w))"
proof (cases "body ((wd_store w)\<lparr>applying := fl\<rparr>)")
  case (Inl x)
  then show ?thesis by (intro lossless_store) (simp_all add: section_of_def with_connection_def)
next
  case (Inr b)
  obtain v s' where b: "b = (v, s')" by (cases b)
  let ?s = "(wd_store w)\<lparr>applying := fl\<rparr>"
  have k: "keeps_held e cl ?s s'" "fst (cursors e cl s') = fst (cursors e cl ?s)"
    using assms [of ?s v s'] Inr b by auto
  have c: "cursors e cl (t\<lparr>applying := z\<rparr>) = cursors e cl t" for t z by (rule cursors_cong) simp
  have "keeps_held e cl (wd_store w) ?s" "keeps_held e cl s' (s'\<lparr>applying := applying (wd_store w)\<rparr>)"
    by (simp_all add: keeps_same)
  with k(1) have "keeps_held e cl (wd_store w) (s'\<lparr>applying := applying (wd_store w)\<rparr>)"
    using keeps_trans by blast
  with k(2) show ?thesis
    by (intro lossless_store) (simp_all add: section_of_def with_connection_def Inr b c)
qed

lemma lossless_ask:
  assumes "\<And>c p. del c p \<Longrightarrow> del c (snd (f p))"
  shows "lossless e cl del w (snd (ask f w))"
  using assms [of _ "wd_peer w"]
  by (auto simp: lossless_def accounted_def ask_def split: prod.split sum.split) 

lemma page_cursor:
  assumes "peers t = peers s" "peers s' = peers (update_sync_state e cl [LastPulled next] t)"
  shows "fst (cursors e cl s') = fst (cursors e cl s)"
  using cursors_cong [OF assms(1), of e cl] cursors_cong [OF assms(2), of e cl] by simp

subsection \<open>Emptying the queue\<close>

text \<open>The entries read at the start are those the table has, as long as it has them.\<close>

definition listed :: "env \<Rightarrow> retry list \<Rightarrow> store \<Rightarrow> bool" where
  "listed e qs s \<longleftrightarrow> (\<forall>q \<in> set qs. rq_hash q = change_hash e (rq_change q) \<and>
     ch_seq (rq_change q) = Some (rq_seq q))"

definition matched :: "env \<Rightarrow> string \<Rightarrow> retry list \<Rightarrow> store \<Rightarrow> bool" where
  "matched e cl qs s \<longleftrightarrow> (\<forall>q \<in> set qs. \<forall>r \<in> set (retries s). retry_is e cl ''push'' (rq_seq q) r \<longrightarrow>
     rq_hash r = change_hash e (rq_change q))"

lemma matched_old: "matched e cl qs s \<Longrightarrow> no_new_push e cl s s' \<Longrightarrow> matched e cl qs s'"
  unfolding matched_def no_new_push_def by metis

lemma push_entry_lossless:
  fixes w :: "'p world"
  assumes hon: "honest po del" and ap: "apart e" and q: "q \<in> set qs" "listed e qs s0"
    and ok: "queue_ok e (wd_store w)" "matched e (dc_client cfg) qs (wd_store w)"
  shows "lossless e (dc_client cfg) del w (snd (push_entry e cfg po cid q rep w)) \<and>
    queue_ok e (wd_store (snd (push_entry e cfg po cid q rep w))) \<and>
    matched e (dc_client cfg) qs (wd_store (snd (push_entry e cfg po cid q rep w)))"
proof -
  let ?cl = "dc_client cfg"
  obtain a p where push: "po_push po cid [rq_change q] (wd_peer w) = (a, p)" by fastforce
  let ?w1 = "w\<lparr>wd_peer := p\<rparr>"
  have l1: "lossless e ?cl del w ?w1"
    using lossless_ask [of del "po_push po cid [rq_change q]" e ?cl w] hon push
    by (auto simp: honest_def ask_def split: sum.splits)
  show ?thesis
  proof (cases a)
    case (Inl x)
    then show ?thesis using l1 ok by (simp add: push_entry_def ask_def push)
  next
    case (Inr r)
    let ?body = "\<lambda>s. sbind (settle_push e ?cl q r s) (\<lambda>s'. Inr ((), s'))"
    have w': "snd (push_entry e cfg po cid q rep w) = snd (section_of False ?body ?w1)"
      by (cases "section_of False ?body ?w1" rule: prod.exhaust; cases "fst (section_of False ?body ?w1)")
        (simp_all add: push_entry_def ask_def push Inr)
    let ?s = "(wd_store w)\<lparr>applying := False\<rparr>"
    show ?thesis
    proof (cases "settle_push e ?cl q r ?s")
      case (Inl x)
      then show ?thesis using l1 ok by (simp add: w' section_of_def with_connection_def)
    next
      case (Inr t)
      let ?w2 = "?w1\<lparr>wd_store := t\<lparr>applying := applying (wd_store w)\<rparr>\<rparr>"
      have w2: "snd (push_entry e cfg po cid q rep w) = ?w2"
        by (simp add: w' section_of_def with_connection_def Inr)
      have st: "queue_ok e ?s" "matched e ?cl qs ?s" using ok by (simp_all add: queue_ok_def matched_def)
      note k = settle_push_keeps [OF Inr ap]
      have "queue_ok e t" using k st(1) by blast
      then have ok2: "queue_ok e (wd_store ?w2)" by (simp add: queue_ok_def)
      have m2: "matched e ?cl qs (wd_store ?w2)"
        using matched_old [OF st(2) settle_push_old [OF Inr ap]] by (simp add: matched_def)
      have acc: "accounted e ?cl del n h ?w2" if acc: "accounted e ?cl del n h ?w1" for n h
      proof (cases "held e ?cl n h ?s")
        case True
        with k consider "held e ?cl n h t"
          | x where "settled_reply r" "n = rq_seq q" "x \<in> set (retries ?s)" "retry_is e ?cl ''push'' n x" "rq_hash x = h"
          by blast
        then show ?thesis
        proof cases
          case 1
          then show ?thesis by (simp add: accounted_def held_def)
        next
          case 2
          have "change_hash e (rq_change q) = h" using st(2) q(1) 2 by (auto simp: matched_def)
          moreover have "ch_seq (rq_change q) = Some n" using q 2(2) by (auto simp: listed_def)
          moreover have "del (rq_change q) p" using hon push Inr 2(1) \<open>a = Inr r\<close> unfolding honest_def by blast
          ultimately show ?thesis by (auto simp: accounted_def)
        qed
      next
        case False
        with acc show ?thesis by (auto simp: accounted_def held_def)
      qed
      have cur: "cursors e ?cl (wd_store ?w2) = cursors e ?cl (wd_store w)"
        by (rule cursors_cong) (use k in simp)
      show ?thesis unfolding w2 using ok2 m2 l1 acc cur ok(1) by (auto simp: lossless_def)
    qed
  qed
qed

lemma key_unique:
  assumes "queue_ok e s" "x \<in> set (retries s)" "y \<in> set (retries s)" "retry_key e x = retry_key e y"
  shows "x = y"
  using assms unfolding queue_ok_def distinct_map inj_on_def by blast

lemma list_retries_mem:
  "q \<in> set (list_sync_retries e p d limit s) \<Longrightarrow>
     q \<in> set (retries s) \<and> same_str e (rq_peer q) p \<and> same_str e (rq_direction q) d"
  by (auto simp: list_sync_retries_def dest: in_set_takeD)

lemma listed_matched:
  assumes "queue_ok e s"
  shows "listed e (list_sync_retries e cl ''push'' k s) s" "matched e cl (list_sync_retries e cl ''push'' k s) s"
proof -
  show "listed e (list_sync_retries e cl ''push'' k s) s"
    using assms list_retries_mem unfolding listed_def queue_ok_def by blast
  show "matched e cl (list_sync_retries e cl ''push'' k s) s" unfolding matched_def
  proof (intro ballI impI)
    fix q x assume q: "q \<in> set (list_sync_retries e cl ''push'' k s)" and x: "x \<in> set (retries s)"
      "retry_is e cl ''push'' (rq_seq q) x"
    have "retry_key e x = retry_key e q"
      using list_retries_mem [OF q] x(2) by (simp add: retry_is_key retry_key_def same_str_def)
    then have "x = q" using key_unique [OF assms x(1)] list_retries_mem [OF q] by blast
    then show "rq_hash x = change_hash e (rq_change q)" using assms x(1) by (simp add: queue_ok_def)
  qed
qed

lemma push_queue_lossless:
  fixes w :: "'p world"
  assumes hon: "honest po del" and ap: "apart e" and ok: "queue_ok e (wd_store w)"
  shows "lossless e (dc_client cfg) del w (snd (retry_push_queue e cfg po w))"
proof -
  let ?cl = "dc_client cfg"
  let ?body = "\<lambda>s. let queued = list_sync_retries e ?cl ''push'' (dc_batch cfg) s;
        (ep, s1) = get_client_epoch e ?cl s
      in Inr ((queued, ?cl @ '':'' @ ep), s1) :: exn + (retry list \<times> string) \<times> store"
  have ep: "retries (snd (get_client_epoch e ?cl s)) = retries s"
    "cursors e ?cl (snd (get_client_epoch e ?cl s)) = cursors e ?cl s" for s
    using cursors_ensure [of e ?cl s]
    by (simp_all add: get_client_epoch_def ensure_sync_state_def now_utc_def generate_id_def Let_def case_prod_beta)
  have sec: "lossless e ?cl del w (snd (section_of False ?body w))"
    by (rule lossless_section) (auto simp: Let_def ep keeps_same split: prod.splits
        dest!: arg_cong [where f = snd] arg_cong [where f = projr])
  obtain a w1 where run: "section_of False ?body w = (a, w1)" by fastforce
  show ?thesis
  proof (cases a)
    case (Inl x)
    then show ?thesis using sec run by (simp add: retry_push_queue_def)
  next
    case (Inr v)
    obtain qs cid where v: "v = (qs, cid)" by (cases v)
    let ?s = "(wd_store w)\<lparr>applying := False\<rparr>"
    have qs: "qs = list_sync_retries e ?cl ''push'' (dc_batch cfg) ?s" "retries (wd_store w1) = retries (wd_store w)"
      using run ep(1) [of ?s] by (auto simp: section_of_def with_connection_def Let_def Inr v split: prod.splits)
    have ok': "queue_ok e ?s" using ok by (simp add: queue_ok_def)
    have l: "listed e qs ?s" "matched e ?cl qs (wd_store w1)" "queue_ok e (wd_store w1)"
      using listed_matched [OF ok'] ok qs(2) by (simp_all add: qs(1) matched_def queue_ok_def)
    let ?Q = "\<lambda>v. lossless e ?cl del w1 v \<and> queue_ok e (wd_store v) \<and> matched e ?cl qs (wd_store v)"
    have "?Q (snd (wfold (push_entry e cfg po cid) qs empty_push_report w1))"
    proof (rule wfold_keeps [where P = ?Q])
      show "?Q w1" using l by simp
      fix q rep v assume q: "q \<in> set qs" and v: "?Q v"
      from push_entry_lossless [OF hon ap q l(1), of v cfg cid rep] v
      show "?Q (snd (push_entry e cfg po cid q rep v))" using lossless_trans by blast
    qed
    then have "lossless e ?cl del w1 (snd (retry_push_queue e cfg po w))"
      using run by (simp add: retry_push_queue_def Inr v)
    with sec run show ?thesis using lossless_trans by auto
  qed
qed

subsection \<open>Filling the queue\<close>

text \<open>The change that stands for a log entry: the same row, at least as new.\<close>

definition stands_for :: "log_entry \<Rightarrow> change \<Rightarrow> int \<Rightarrow> bool" where
  "stands_for l c n \<longleftrightarrow> ch_table c = le_table l \<and> ch_rowId c = Some (le_row l) \<and> ch_seq c = Some n \<and> le_seq l \<le> n"

text \<open>
  The payload of a change, frozen in the store \<open>s\<close>: the current row in the columns the schema gate
  agreed on, all of them unless drift is allowed, under the operation of the log entry it names;
  a deletion without a row only if the row is gone.
\<close>

definition agreed_columns :: "daemon_cfg \<Rightarrow> (tbl \<times> string list) list \<Rightarrow> bool" where
  "agreed_columns cfg cbt \<longleftrightarrow> cbt = [] \<or> dc_drift cfg \<and> (\<exists>ts. intersect_with ts = Inr cbt)"

definition frozen :: "env \<Rightarrow> daemon_cfg \<Rightarrow> store \<Rightarrow> change \<Rightarrow> bool" where
  "frozen e cfg s c \<longleftrightarrow> (\<exists>cbt t m. agreed_columns cfg cbt \<and> m \<in> set (change_log s) \<and> le_table m = tbl_name t \<and>
     ch_seq c = Some (le_seq m) \<and> ch_table c = tbl_name t \<and> ch_rowId c = Some (le_row m) \<and>
     (case fetch_id e t (le_row m) s of
        None \<Rightarrow> ch_row c = None \<and> ch_op c = ''delete''
      | Some r \<Rightarrow> ch_row c = Some (serialize_row (cols_for cbt t) r) \<and> ch_op c = op_name (le_op m)))"

lemma frozen_cong: "tabs s' = tabs s \<Longrightarrow> change_log s' = change_log s \<Longrightarrow> frozen e cfg s' c = frozen e cfg s c"
  by (simp add: frozen_def fetch_id_def)

lemma gate_agrees: "check_schema cfg h w = (Inr cbt, w') \<Longrightarrow> agreed_columns cfg cbt"
  by (auto simp: check_schema_def agreed_columns_def Let_def split: if_splits sum.splits)

lemma outbox_change_frozen:
  assumes "m \<in> set (change_log s)" "log_key m = Some (t, i)" "agreed_columns cfg cbt"
  shows "frozen e cfg s (outbox_change e cbt p s ((t, i), m))"
proof -
  have m: "le_table m = tbl_name t" "le_row m = i" using assms(2) tbl_of_Some by (auto simp: log_key_def split: option.splits)
  then show ?thesis using assms(1,3) unfolding frozen_def
    by (intro exI [of _ cbt] exI [of _ t] exI [of _ m])
      (auto simp: outbox_change_def Let_def serialize_restrict split: option.split)
qed

lemma collected:
  assumes "collect_local_changes e since k cbt p s = (cs, nxt)" "log_ok s" "agreed_columns cfg cbt"
    and "l \<in> set (change_log s)" "since < le_seq l" "le_seq l \<le> nxt"
  shows "\<exists>c \<in> set cs. \<exists>n. stands_for l c n \<and> frozen e cfg s c"
proof -
  let ?w = "log_window since k s"
  have nxt: "nxt = next_seq since ?w" using assms(1)
    by (auto simp: collect_local_changes_def Let_def next_seq_def split: if_splits)
  have l: "l \<in> set ?w" using log_window_upto [OF assms(2,4,5)] assms(6) nxt by blast
  then have cs: "set cs = outbox_change e cbt p s ` set (latest_entries ?w)" using assms(1)
    by (auto simp: collect_local_changes_def Let_def split: if_splits)
  obtain t where t: "tbl_of (le_table l) = Some t" "tbl_name t = le_table l"
    using assms(2,4) tbl_of_Some by (auto simp: log_ok_def is_sync_table_def)
  then have "log_key l = Some (t, le_row l)" by (simp add: log_key_def)
  from latest_entries_max [OF log_window_sorted l this] obtain m where
    m: "((t, le_row l), m) \<in> set (latest_entries ?w)" "le_seq l \<le> le_seq m" by blast
  let ?c = "outbox_change e cbt p s ((t, le_row l), m)"
  have "stands_for l ?c (le_seq m)" using m(2) t(2) by (simp add: stands_for_def outbox_change_def Let_def)
  moreover have "frozen e cfg s ?c"
    using latest_entries_mem [OF m(1)] log_window_mem outbox_change_frozen assms(3) by blast
  ultimately show ?thesis using m(1) cs by blast
qed

lemma enqueue_all:
  assumes "sfold (\<lambda>c. enqueue_sync_retry e cl ''push'' c why) cs s = Inr s'" "queue_ok e s"
  shows "keeps_held e p s s' \<and> queue_ok e s' \<and> peers s' = peers s \<and>
    (\<forall>c \<in> set cs. \<exists>n. ch_seq c = Some n \<and> held e cl n (change_hash e c) s')"
  using assms
proof (induction cs arbitrary: s)
  case (Cons c cs)
  then obtain s1 where s1: "enqueue_sync_retry e cl ''push'' c why s = Inr s1"
    "sfold (\<lambda>c. enqueue_sync_retry e cl ''push'' c why) cs s1 = Inr s'" by auto
  note k = keeps_enqueue [OF s1(1)]
  have ok: "queue_ok e s1" using k [of p] Cons.prems(2) by (simp add: keeps_held_def)
  note ih = Cons.IH [OF s1(2) ok]
  obtain n where n: "ch_seq c = Some n" "held e cl n (change_hash e c) s1" using k Cons.prems(2) by blast
  have "\<forall>n h. held e cl n h s1 \<longrightarrow> held e cl n h s'"
  proof -
    have "keeps_held e cl s1 s'"
      by (rule sfold_keeps_held [OF s1(2), THEN conjunct1])
        (simp add: keeps_enqueue enqueue_peers)
    then show ?thesis by (simp add: keeps_held_def)
  qed
  with n ih k [of p] enqueue_peers [OF s1(1)] show ?case using keeps_trans by auto
qed simp

section \<open>A whole cycle\<close>

definition covered ::
  "env \<Rightarrow> string \<Rightarrow> (change \<Rightarrow> 'p \<Rightarrow> bool) \<Rightarrow> (change \<Rightarrow> bool) \<Rightarrow> int \<Rightarrow> 'p world \<Rightarrow> bool" where
  "covered e cl del W since w \<longleftrightarrow> (\<forall>l \<in> set (change_log (wd_store w)).
     since < le_seq l \<longrightarrow> le_seq l \<le> fst (cursors e cl (wd_store w)) \<longrightarrow>
     (\<exists>c n. stands_for l c n \<and> W c \<and> accounted e cl del n (change_hash e c) w))"

definition outbox_inv ::
  "env \<Rightarrow> string \<Rightarrow> (change \<Rightarrow> 'p \<Rightarrow> bool) \<Rightarrow> (change \<Rightarrow> bool) \<Rightarrow> int \<Rightarrow> (int \<times> string) set \<Rightarrow> 'p world \<Rightarrow> bool" where
  "outbox_inv e cl del W since S w \<longleftrightarrow> queue_ok e (wd_store w) \<and> log_ok (wd_store w) \<and>
     fst (cursors e cl (wd_store w)) \<le> auto_seq (wd_store w) \<and>
     (\<forall>(n, h) \<in> S. accounted e cl del n h w) \<and> covered e cl del W since w"

lemma inv_step:
  assumes inv: "outbox_inv e cl del W since S w" and step: "lossless e cl del w w'"
    and log: "log_beyond (wd_store w) (wd_store w')" "log_ok (wd_store w')"
  shows "outbox_inv e cl del W since S w'"
proof -
  have ok: "queue_ok e (wd_store w')" and cur: "fst (cursors e cl (wd_store w')) = fst (cursors e cl (wd_store w))"
    and acc: "\<And>n h. accounted e cl del n h w \<Longrightarrow> accounted e cl del n h w'"
    using inv step by (auto simp: outbox_inv_def lossless_def)
  have le: "fst (cursors e cl (wd_store w)) \<le> auto_seq (wd_store w)" using inv by (simp add: outbox_inv_def)
  have "covered e cl del W since w'" unfolding covered_def cur
  proof (intro ballI impI)
    fix l assume l: "l \<in> set (change_log (wd_store w'))" "since < le_seq l" "le_seq l \<le> fst (cursors e cl (wd_store w))"
    have "l \<in> set (change_log (wd_store w))" using l(1,3) log(1) le by (fastforce simp: log_beyond_def)
    then show "\<exists>c n. stands_for l c n \<and> W c \<and> accounted e cl del n (change_hash e c) w'"
      using inv l(2,3) acc unfolding outbox_inv_def covered_def by blast
  qed
  with inv ok cur acc le log show ?thesis by (auto simp: outbox_inv_def log_beyond_def)
qed

lemma inv_snapshot:
  fixes w :: "'p world"
  assumes inv: "outbox_inv e (dc_client cfg) del W since S w" and cbt: "agreed_columns cfg cbt"
    and W: "\<And>c. frozen e cfg (wd_store w) c \<Longrightarrow> W c"
  shows "outbox_inv e (dc_client cfg) del W since S (snd (section_of False (snapshot_round e cfg cbt) w))"
proof (cases "snapshot_round e cfg cbt ((wd_store w)\<lparr>applying := False\<rparr>)")
  case (Inl x)
  then show ?thesis using inv by (simp add: section_of_def with_connection_def)
next
  case (Inr v)
  obtain n t where v: "v = (n, t)" by (cases v)
  let ?cl = "dc_client cfg" and ?s = "(wd_store w)\<lparr>applying := False\<rparr>"
  let ?w = "w\<lparr>wd_store := t\<lparr>applying := applying (wd_store w)\<rparr>\<rparr>"
  have run: "snd (section_of False (snapshot_round e cfg cbt) w) = ?w"
    by (simp add: section_of_def with_connection_def Inr v)
  have applied: "cursors e ?cl (x\<lparr>applying := b\<rparr>) = cursors e ?cl x" for x b by (rule cursors_cong) simp
  obtain cs nxt where col: "collect_local_changes e (fst (cursors e ?cl ?s)) (dc_batch cfg) cbt (Some ?cl) ?s = (cs, nxt)"
    by fastforce
  have since: "fst (cursors e ?cl x) = ps_pushed (get_sync_state e ?cl x)" for x
    by (simp add: cursors_def Let_def)
  show ?thesis
  proof (cases "cs = []")
    case True
    then have "t = ?s" using Inr col by (simp add: snapshot_round_def Let_def since v)
    then show ?thesis using inv by (simp add: run)
  next
    case False
    then obtain s1 where s1: "sfold (\<lambda>c. enqueue_sync_retry e ?cl ''push'' c ''pending delivery'') cs ?s = Inr s1"
      "t = update_sync_state e ?cl [LastPushed nxt] s1"
      using Inr col by (auto simp: snapshot_round_def Let_def since v)
    have ok: "queue_ok e ?s" "log_ok ?s" using inv by (simp_all add: outbox_inv_def queue_ok_def)
    note enq = enqueue_all [OF s1(1) ok(1)]
    have fold_log: "change_log s1 = change_log ?s \<and> auto_seq s1 = auto_seq ?s"
      by (rule sfold_invariant [OF s1(1), where P = "\<lambda>x. change_log x = change_log ?s \<and> auto_seq x = auto_seq ?s"])
        (auto dest: enqueue_log)
    have wt: "change_log (wd_store ?w) = change_log (wd_store w)" "auto_seq (wd_store ?w) = auto_seq (wd_store w)"
      "fst (cursors e ?cl (wd_store ?w)) = nxt" "retries (wd_store ?w) = retries s1" "wd_peer ?w = wd_peer w"
      using fold_log by (simp_all add: s1(2) update_state_frame applied)
    have held: "held e ?cl k h (wd_store ?w) = held e ?cl k h s1" for k h by (simp add: held_def s1(2) update_state_frame)
    have acc: "accounted e ?cl del k h ?w" if "accounted e ?cl del k h w" for k h
      using that enq [of ?cl] unfolding accounted_def held keeps_held_def wt(5) by (auto simp: held_def)
    have ls: "log_window (fst (cursors e ?cl ?s)) (dc_batch cfg) ?s \<noteq> []"
      "nxt = next_seq (fst (cursors e ?cl ?s)) (log_window (fst (cursors e ?cl ?s)) (dc_batch cfg) ?s)"
      using col False by (auto simp: collect_local_changes_def Let_def split: if_splits)
    then obtain m where m: "m \<in> set (change_log ?s)" "nxt = le_seq m" using next_seq_mem log_window_mem by metis
    then have le: "nxt \<le> auto_seq (wd_store w)" using ok(2) by (auto simp: log_ok_def)
    have "covered e ?cl del W since ?w" unfolding covered_def wt(1,3)
    proof (intro ballI impI)
      fix l assume l: "l \<in> set (change_log (wd_store w))" "since < le_seq l" "le_seq l \<le> nxt"
      show "\<exists>c k. stands_for l c k \<and> W c \<and> accounted e ?cl del k (change_hash e c) ?w"
      proof (cases "le_seq l \<le> fst (cursors e ?cl (wd_store w))")
        case True
        with l inv acc show ?thesis unfolding outbox_inv_def covered_def by blast
      next
        case False
        then obtain c k where c: "c \<in> set cs" "stands_for l c k" "frozen e cfg ?s c"
          using collected [OF col ok(2) cbt, of l] l by (auto simp: applied)
        have "frozen e cfg (wd_store w) c"
          using c(3) frozen_cong [of ?s "wd_store w" e cfg c] by simp
        then have "W c" by (rule W)
        from c(1) obtain k' where "ch_seq c = Some k'" "held e ?cl k' (change_hash e c) s1" using enq by blast
        with c(2) have "accounted e ?cl del k (change_hash e c) ?w"
          unfolding accounted_def held by (simp add: stands_for_def)
        with c(2) \<open>W c\<close> show ?thesis by blast
      qed
    qed
    moreover have "queue_ok e (wd_store ?w)" using enq by (simp add: queue_ok_def s1(2) update_state_frame)
    moreover have "log_ok (wd_store ?w)" using inv wt by (simp add: outbox_inv_def log_ok_def)
    ultimately show ?thesis using inv acc le wt unfolding run outbox_inv_def by auto
  qed
qed

text \<open>Until the pulling starts, rows and log are those the cycle found.\<close>

definition same_rows_log :: "store \<Rightarrow> store \<Rightarrow> bool" where
  "same_rows_log s0 s = (tabs s = tabs s0 \<and> change_log s = change_log s0)"

interpretation rows_found: section_invariant e "same_rows_log s0" for e s0
  by unfold_locales (auto simp: same_rows_log_def resolve_issues_def now_utc_def Let_def split: if_splits dest: record_issue_quiet)

text \<open>What each step keeps, whatever payloads \<open>W\<close> asks for.\<close>

lemma outbox_steps:
  fixes w :: "'p world"
  assumes I_def: "I = (\<lambda>w. honest po del \<longrightarrow> apart e \<longrightarrow> outbox_inv e (dc_client cfg) del W since S w)"
    and I: "I w"
  shows "I (w\<lparr>wd_runtime := r\<rparr>)" "I (w\<lparr>wd_last_attempt := t\<rparr>)" "I (w\<lparr>wd_last_cycle := t\<rparr>)"
    "I (snd (read_clock e w))" "I (snd (ask (po_handshake po) w))" "I (snd (ask (po_changes po k n) w))"
    "I (snd (retry_push_queue e cfg po w))" "I (snd (section_of True (retry_pull_queue e cfg cbt) w))"
    "I (snd (section_of True (pull_page e cfg cbt cs nxt) w))" "I (snd (section_of False (finish_cycle e cfg) w))"
    "I (store_error e cfg msg w)" "I (store_blocked e cfg kd msg g w)"
proof -
  note I = I [unfolded I_def]
  let ?cl = "dc_client cfg" and ?I = "\<lambda>w. honest po del \<longrightarrow> apart e \<longrightarrow> outbox_inv e (dc_client cfg) del W since S w"
  have "?I (w\<lparr>wd_runtime := r\<rparr>)" "?I (w\<lparr>wd_last_attempt := t\<rparr>)" "?I (w\<lparr>wd_last_cycle := t\<rparr>)"
    using I by (simp_all add: outbox_inv_def covered_def accounted_def)
  then show "I (w\<lparr>wd_runtime := r\<rparr>)" "I (w\<lparr>wd_last_attempt := t\<rparr>)" "I (w\<lparr>wd_last_cycle := t\<rparr>)" by (simp_all add: I_def)
  have grow: "I w'" if "honest po del \<Longrightarrow> apart e \<Longrightarrow> queue_ok e (wd_store w) \<Longrightarrow> lossless e ?cl del w w'"
    "log_beyond (wd_store w) (wd_store w) \<Longrightarrow> log_beyond (wd_store w) (wd_store w')"
    "log_ok (wd_store w) \<Longrightarrow> log_ok (wd_store w')" for w'
    using that I inv_step [of e ?cl del W since S w w'] unfolding I_def outbox_inv_def by auto
  have same: "lossless e ?cl del w w'" if "retries (wd_store w') = retries (wd_store w)" "wd_peer w' = wd_peer w"
    "cursors e ?cl (wd_store w') = cursors e ?cl (wd_store w)" for w'
    using that by (intro lossless_store keeps_same) simp_all
  show "I (snd (read_clock e w))"
  proof (rule grow)
    show "lossless e ?cl del w (snd (read_clock e w))"
      by (rule same) (auto simp: read_clock_def now_utc_def intro: cursors_cong)
  qed (erule beyond.cyc.clock_read, erule log_cycle.cyc.clock_read)
  have stays: "del c (snd (po_handshake po p))" "del c (snd (po_changes po k n p))"
    if "honest po del" "del c p" for c p k n using that unfolding honest_def by blast+
  show "I (snd (ask (po_handshake po) w))"
    by (rule grow, rule lossless_ask, erule (1) stays(1), erule beyond.cyc.handshake, erule log_cycle.cyc.handshake)
  show "I (snd (ask (po_changes po k n) w))"
    by (rule grow, rule lossless_ask, erule (1) stays(2), erule beyond.cyc.changes, erule log_cycle.cyc.changes)
  show "I (snd (retry_push_queue e cfg po w))"
    by (rule grow, erule (2) push_queue_lossless, erule beyond.cyc.push_queue, erule log_cycle.cyc.push_queue)
  show "I (snd (section_of True (retry_pull_queue e cfg cbt) w))"
    by (rule grow, rule lossless_section)
      (metis pull_queue_keeps cursors_cong, erule beyond.cyc.pull_queue, erule log_cycle.cyc.pull_queue)
  show "I (snd (section_of True (pull_page e cfg cbt cs nxt) w))"
    by (rule grow, rule lossless_section)
      (metis pull_page_keeps page_cursor, erule beyond.cyc.page, erule log_cycle.cyc.page)
  have res: "retries (snd (resolve_issues e [] k None None s)) = retries s \<and>
      peers (snd (resolve_issues e [] k None None s)) = peers s" for k s
    by (simp add: resolve_issues_def Let_def now_utc_def)
  show "I (snd (section_of False (finish_cycle e cfg) w))"
  proof (rule grow, rule lossless_section)
    fix s s' :: store and v assume "finish_cycle e cfg s = Inr (v, s')"
    then obtain a n where s': "s' = resolve_stale e (update_sync_state e ?cl [LastOk (Some a), LastError None] (s\<lparr>ticks := n\<rparr>))"
      by (auto simp: finish_cycle_def now_utc_def Let_def)
    have r: "retries s' = retries s" "peers s' = peers (update_sync_state e ?cl [LastOk (Some a), LastError None] (s\<lparr>ticks := n\<rparr>))"
      by (simp_all add: s' resolve_stale_def res update_state_frame)
    then show "keeps_held e ?cl s s' \<and> fst (cursors e ?cl s') = fst (cursors e ?cl s)"
      using cursors_cong [OF r(2), of e ?cl] cursors_cong [of "s\<lparr>ticks := n\<rparr>" s e ?cl] by (simp add: keeps_same)
  qed (erule beyond.cyc.finish, erule log_cycle.cyc.finish)
  show "I (store_error e cfg msg w)"
    unfolding store_error_def
    by (rule grow, rule lossless_section) (auto simp: update_state_frame keeps_same
        intro: beyond.cyc.error [unfolded store_error_def] log_cycle.cyc.error [unfolded store_error_def])
  show "I (store_blocked e cfg kd msg g w)"
  proof (rule grow)
    show "lossless e ?cl del w (store_blocked e cfg kd msg g w)" unfolding store_blocked_def
    proof (rule lossless_section)
      fix s s' :: store and v
      let ?s1 = "update_sync_state e ?cl [LastError (Some (cp_take 1000 msg))] s"
      assume "(let s1 = ?s1 in Inr ((), if kd \<in> {''schema'', ''clock'', ''identity''}
          then snd (record_issue e kd None None None (GateDetail msg g) s1) else s1)) = (Inr (v, s') :: exn + _)"
      moreover obtain i s2 where "record_issue e kd None None None (GateDetail msg g) ?s1 = (i, s2)" by fastforce
      moreover note record_issue_frame [OF this]
      ultimately have "retries s' = retries s" "peers s' = peers ?s1"
        by (auto simp: Let_def update_state_frame split: if_splits)
      then show "keeps_held e ?cl s s' \<and> fst (cursors e ?cl s') = fst (cursors e ?cl s)"
        using cursors_cong [of s' ?s1 e ?cl] by (simp add: keeps_same)
    qed
  qed (erule beyond.cyc.blocked, erule log_cycle.cyc.blocked)
qed

interpretation outbox: cycle_phases e cfg po
    "\<lambda>w. (honest po del \<longrightarrow> apart e \<longrightarrow> outbox_inv e (dc_client cfg) del (frozen e cfg s0) since S w) \<and>
       same_rows_log s0 (wd_store w)"
    "\<lambda>w. honest po del \<longrightarrow> apart e \<longrightarrow> outbox_inv e (dc_client cfg) del (frozen e cfg s0) since S w"
    "agreed_columns cfg"
    for e cfg and po :: "'p peer_ops" and del since S s0
proof
  let ?I = "\<lambda>w. honest po del \<longrightarrow> apart e \<longrightarrow> outbox_inv e (dc_client cfg) del (frozen e cfg s0) since S w"
  show "agreed_columns cfg cbt" if "check_schema cfg h w = (Inr cbt, w')" for h cbt and w w' :: "'p world"
    using that by (rule gate_agrees)
  fix w :: "'p world"
  {
    assume I: "?I w"
    note st = outbox_steps [OF refl I]
    show "?I (w\<lparr>wd_runtime := r\<rparr>)" for r by (rule st)
    show "?I (w\<lparr>wd_last_cycle := t\<rparr>)" for t by (rule st)
    show "?I (snd (read_clock e w))" by (rule st)
    show "?I (snd (ask (po_changes po k n) w))" for k n by (rule st)
    show "?I (snd (section_of True (retry_pull_queue e cfg cbt) w))" for cbt by (rule st)
    show "?I (snd (section_of True (pull_page e cfg cbt cs nxt) w))" for cbt cs nxt by (rule st)
    show "?I (snd (section_of False (finish_cycle e cfg) w))" by (rule st)
    show "?I (store_error e cfg msg w)" for msg by (rule st)
    show "?I (store_blocked e cfg k msg g w)" for k msg g by (rule st)
  next
    assume "?I w \<and> same_rows_log s0 (wd_store w)"
    then have I: "?I w" and R: "same_rows_log s0 (wd_store w)" by blast+
    note st = outbox_steps [OF refl I]
    show "?I w" by (rule I)
    have R1: "same_rows_log s0 (wd_store (snd (read_clock e w)))"
      using R by (simp add: same_rows_log_def read_clock_def now_utc_def)
    have R2: "same_rows_log s0 (wd_store (snd (ask (po_handshake po) w)))"
      using R by (simp add: ask_def split: prod.split sum.split)
    note R3 = rows_found.push_queue [OF R, where cfg = cfg and po = po]
    show "?I (w\<lparr>wd_runtime := r\<rparr>) \<and> same_rows_log s0 (wd_store (w\<lparr>wd_runtime := r\<rparr>))" for r
      using st(1) [of r] R by simp
    show "?I (w\<lparr>wd_last_attempt := t\<rparr>) \<and> same_rows_log s0 (wd_store (w\<lparr>wd_last_attempt := t\<rparr>))" for t
      using st(2) [of t] R by simp
    show "?I (snd (read_clock e w)) \<and> same_rows_log s0 (wd_store (snd (read_clock e w)))"
      by (rule conjI [OF st(4) R1])
    show "?I (snd (ask (po_handshake po) w)) \<and> same_rows_log s0 (wd_store (snd (ask (po_handshake po) w)))"
      by (rule conjI [OF st(5) R2])
    show "?I (snd (retry_push_queue e cfg po w)) \<and> same_rows_log s0 (wd_store (snd (retry_push_queue e cfg po w)))"
      by (rule conjI [OF st(7) R3])
    show "?I (snd (section_of False (snapshot_round e cfg cbt) w)) \<and>
        same_rows_log s0 (wd_store (snd (section_of False (snapshot_round e cfg cbt) w)))"
      if "agreed_columns cfg cbt" for cbt
    proof (intro conjI impI)
      assume "honest po del" "apart e"
      with I have "outbox_inv e (dc_client cfg) del (frozen e cfg s0) since S w" by blast
      then show "outbox_inv e (dc_client cfg) del (frozen e cfg s0) since S
          (snd (section_of False (snapshot_round e cfg cbt) w))"
        by (rule inv_snapshot [OF _ that]) (use R in \<open>simp add: same_rows_log_def frozen_cong [of "wd_store w" s0]\<close>)
    qed (rule rows_found.in_section [OF R], erule (1) rows_found.snapshot_round)
  }
qed

text \<open>C17. However a cycle ends - finished, offline, rejected, blocked or crashed - for every log entry
  that the push watermark has passed, a change of the same row, at least as new, still waits
  in the queue, is kept as a dead letter, or was delivered to the peer, and so is every change
  that was waiting before. Its payload is the row as the cycle found it, in all synchronised
  columns (in those both sides know under schema drift), or a bare delete if the row was gone.\<close>

theorem no_local_change_is_lost:
  assumes "run_once e shown cfg po t1 t2 w = (r, w')" "honest po del" "apart e"
    and "queue_ok e (wd_store w)" "log_ok (wd_store w)"
    and "fst (cursors e (dc_client cfg) (wd_store w)) \<le> auto_seq (wd_store w)"
  shows "(\<forall>n h. held e (dc_client cfg) n h (wd_store w) \<longrightarrow> accounted e (dc_client cfg) del n h w') \<and>
    (\<forall>l \<in> set (change_log (wd_store w')). fst (cursors e (dc_client cfg) (wd_store w)) < le_seq l \<longrightarrow>
       le_seq l \<le> fst (cursors e (dc_client cfg) (wd_store w')) \<longrightarrow>
       (\<exists>c n. stands_for l c n \<and> frozen e cfg (wd_store w) c \<and> accounted e (dc_client cfg) del n (change_hash e c) w')) \<and>
    queue_ok e (wd_store w') \<and>
    fst (cursors e (dc_client cfg) (wd_store w')) \<le> auto_seq (wd_store w')"
proof -
  let ?S = "{(n, h). held e (dc_client cfg) n h (wd_store w)}"
  let ?since = "fst (cursors e (dc_client cfg) (wd_store w))"
  have "outbox_inv e (dc_client cfg) del (frozen e cfg (wd_store w)) ?since ?S w"
    using assms(4-6) by (auto simp: outbox_inv_def covered_def accounted_def)
  then have "outbox_inv e (dc_client cfg) del (frozen e cfg (wd_store w)) ?since ?S w'"
    using outbox.run_once [of po del e cfg "wd_store w" ?since ?S w shown t1 t2] assms(1-3)
    by (simp add: same_rows_log_def)
  then show ?thesis by (auto simp: outbox_inv_def covered_def)
qed

end
