(* ===== verification/Daemon_Witnesses.thy ===== *)
theory Daemon_Witnesses
  imports Outbox
begin

text \<open>The properties of the daemon at concrete cycles, against a peer that keeps what it is sent.\<close>

section \<open>A peer\<close>

definition sample_hello :: handshake where
  "sample_hello = \<lparr>hs_schema = SCHEMA_VERSION, hs_tables = None, hs_time = Some ''2023-11-14T22:13:20.000Z'',
     hs_account = Some ''ann'', hs_owners = [''ann'']\<rparr>"

definition sample_answer :: "change list \<Rightarrow> push_reply" where
  "sample_answer cs = \<lparr>pr_applied = length cs, pr_skipped = 0, pr_conflicts = [], pr_duplicates = [],
     pr_deferred = [], pr_rejected = [], pr_results = map (\<lambda>c. \<lparr>wr_status = Some ''applied'',
       wr_table = Some (ch_table c), wr_rowId = ch_rowId c, wr_reason = None,
       wr_effective = Some ''2023-11-14T22:13:20.000Z''\<rparr>) cs\<rparr>"

definition sample_peer :: "handshake \<Rightarrow> change list peer_ops" where
  "sample_peer h = \<lparr>po_handshake = (\<lambda>p. (Inr h, p)),
     po_changes = (\<lambda>since n p. (Inr \<lparr>fr_changes = [], fr_next = Some since, fr_max = Some since\<rparr>, p)),
     po_push = (\<lambda>cid cs p. (Inr (sample_answer cs), p @ cs))\<rparr>"

definition sample_cfg :: daemon_cfg where
  "sample_cfg = \<lparr>dc_client = ''laptop'', dc_batch = 10, dc_skew_limit = 60, dc_drift = False,
     dc_poll = 30, dc_backoff = 15\<rparr>"

definition edited_store :: store where
  "edited_store = (memo_node ''new'' 1000000)\<lparr>change_log := [\<lparr>le_seq = 1, le_table = ''memos'', le_row = ''m'',
     le_op = Update, le_at = 0\<rparr>], auto_seq := 1\<rparr>"

definition sample_world :: "change list world" where
  "sample_world = \<lparr>wd_store = edited_store, wd_runtime = fresh_runtime, wd_peer = [], wd_last_cycle = 0,
     wd_last_attempt = 0\<rparr>"

definition shown_json :: "json \<Rightarrow> string" where "shown_json j = ''json''"

definition ran_with :: "('p world \<Rightarrow> bool) \<Rightarrow> cycle_end \<times> 'p world \<Rightarrow> bool" where
  "ran_with P m = (case fst m of Ran r \<Rightarrow> P (snd m) | _ \<Rightarrow> False)"

definition stopped_with :: "string \<Rightarrow> cycle_end \<times> 'p world \<Rightarrow> bool" where
  "stopped_with k m = (case fst m of Stopped j msg \<Rightarrow> j = k | _ \<Rightarrow> False)"

lemma ran_withE:
  assumes "ran_with P m"
  obtains r w where "m = (Ran r, w)" "P w"
  using assms by (cases m; cases "fst m") (auto simp: ran_with_def)

lemma stopped_withE:
  assumes "stopped_with k m"
  obtains msg w where "m = (Stopped k msg, w)"
  using assms by (cases m; cases "fst m") (auto simp: stopped_with_def)

lemma sample_honest: "honest (sample_peer h) (\<lambda>c p. c \<in> set p)"
  by (auto simp: honest_def sample_peer_def)

lemma sample_apart: "apart sample_env"
  by (simp add: apart_def sample_env_def lax_env_def)

lemma edited_ok:
  "queue_ok sample_env edited_store" "log_ok edited_store"
  "fst (cursors sample_env ''laptop'' edited_store) \<le> auto_seq edited_store"
  "keys_ok sample_env edited_store" "parents_ok sample_env edited_store" "issues_ok sample_env edited_store"
proof -
  show "queue_ok sample_env edited_store" "log_ok edited_store"
    "fst (cursors sample_env ''laptop'' edited_store) \<le> auto_seq edited_store"
    "issues_ok sample_env edited_store"
    by (simp_all add: queue_ok_def log_ok_def cursors_def get_sync_state_def default_peer_state_def
        issues_ok_def unresolved_def edited_store_def memo_node_def sample_store_def empty_store_def
        is_sync_table_def tbl_of_def SYNC_TABLE_ORDER_def)
  have "keys_ok sample_env edited_store \<and> parents_ok sample_env edited_store" by code_simp
  then show "keys_ok sample_env edited_store" "parents_ok sample_env edited_store" by blast+
qed

lemma sample_cycle:
  obtains r w where "run_once sample_env shown_json sample_cfg (sample_peer sample_hello) 1 2 sample_world = (Ran r, w)"
    "fst (cursors sample_env ''laptop'' (wd_store w)) = 1" "length (retries (wd_store w)) = 0"
    "length (change_log (wd_store w)) = 1" "le_seq (hd (change_log (wd_store w))) = 1"
proof -
  have "ran_with (\<lambda>w. fst (cursors sample_env ''laptop'' (wd_store w)) = 1 \<and> length (retries (wd_store w)) = 0 \<and>
      length (change_log (wd_store w)) = 1 \<and> le_seq (hd (change_log (wd_store w))) = 1)
    (run_once sample_env shown_json sample_cfg (sample_peer sample_hello) 1 2 sample_world)" by code_simp
  then show ?thesis using that by (elim ran_withE conjE)
qed

section \<open>The witnesses\<close>

theorem cycle_keeps_store_sound_witness:
  "\<exists>r w. run_once sample_env shown_json sample_cfg (sample_peer sample_hello) 1 2 sample_world = (Ran r, w) \<and>
     keys_ok sample_env (wd_store w) \<and> parents_ok sample_env (wd_store w) \<and> log_ok (wd_store w)"
proof -
  obtain r w where run: "run_once sample_env shown_json sample_cfg (sample_peer sample_hello) 1 2 sample_world = (Ran r, w)"
    by (rule sample_cycle)
  have st: "wd_store sample_world = edited_store" by (simp add: sample_world_def)
  from cycle_keeps_store_sound [OF run sample_enforces_ddl, unfolded st, OF edited_ok(4,5,2,6)] run
  show ?thesis by blast
qed

theorem no_local_change_is_lost_witness:
  "\<exists>r w c n. run_once sample_env shown_json sample_cfg (sample_peer sample_hello) 1 2 sample_world = (Ran r, w) \<and>
     retries (wd_store w) = [] \<and> stands_for (hd (change_log (wd_store w))) c n \<and>
     frozen sample_env sample_cfg edited_store c \<and>
     (\<exists>d. ch_seq d = Some n \<and> change_hash sample_env d = change_hash sample_env c \<and> d \<in> set (wd_peer w))"
proof -
  obtain r w where run: "run_once sample_env shown_json sample_cfg (sample_peer sample_hello) 1 2 sample_world = (Ran r, w)"
    and w: "fst (cursors sample_env ''laptop'' (wd_store w)) = 1" "length (retries (wd_store w)) = 0"
    "length (change_log (wd_store w)) = 1" "le_seq (hd (change_log (wd_store w))) = 1"
    by (rule sample_cycle)
  have st: "wd_store sample_world = edited_store" "dc_client sample_cfg = ''laptop''"
    by (simp_all add: sample_world_def sample_cfg_def)
  have zero: "fst (cursors sample_env ''laptop'' edited_store) = 0"
    by (simp add: cursors_def get_sync_state_def default_peer_state_def edited_store_def memo_node_def
        sample_store_def empty_store_def)
  have l: "hd (change_log (wd_store w)) \<in> set (change_log (wd_store w))" using w(3) by (cases "change_log (wd_store w)") auto
  have q: "retries (wd_store w) = []" using w(2) by simp
  from no_local_change_is_lost [OF run sample_honest sample_apart, unfolded st, OF edited_ok(1-3)] l w(1,4) zero
  obtain c n where "stands_for (hd (change_log (wd_store w))) c n" "frozen sample_env sample_cfg edited_store c"
    "accounted sample_env ''laptop'' (\<lambda>c p. c \<in> set p) n (change_hash sample_env c) w" by fastforce
  with run q show ?thesis unfolding accounted_def held_def by fastforce
qed

definition late_hello :: handshake where
  "late_hello = sample_hello\<lparr>hs_schema := SCHEMA_VERSION + 1\<rparr>"

theorem blocked_cycle_moves_nothing_witness:
  "\<exists>msg w. run_once sample_env shown_json sample_cfg (sample_peer late_hello) 1 2 sample_world =
     (Stopped ''schema'' msg, w) \<and> tabs (wd_store w) = tabs edited_store \<and>
     cursors sample_env ''laptop'' (wd_store w) = cursors sample_env ''laptop'' edited_store"
proof -
  have "stopped_with ''schema'' (run_once sample_env shown_json sample_cfg (sample_peer late_hello) 1 2 sample_world)"
    by code_simp
  then obtain msg w where run: "run_once sample_env shown_json sample_cfg (sample_peer late_hello) 1 2 sample_world =
     (Stopped ''schema'' msg, w)" by (rule stopped_withE)
  have "''schema'' \<noteq> ''offline''" "''schema'' \<noteq> ''peer_rejected''" by simp_all
  from blocked_cycle_moves_nothing [OF run this] run show ?thesis
    by (auto simp: sample_world_def sample_cfg_def)
qed

definition paused_world :: "change list world" where
  "paused_world = sample_world\<lparr>wd_store := set_paused sample_env ''laptop'' True edited_store\<rparr>"

lemma paused_daemon_stays_idle_witness:
  "tick sample_env shown_json sample_cfg (sample_peer sample_hello) False 100 1 2 paused_world = (None, paused_world)"
proof (rule paused_daemon_stays_idle)
  show "ps_paused (get_sync_state sample_env (dc_client sample_cfg) (wd_store paused_world))" by code_simp
qed

end
