(* ===== verification/Two_Nodes.thy ===== *)
theory Two_Nodes
  imports Apply_Batch Outbox Sync_Router Daemon_Witnesses
begin

text \<open>
  Both ends of the synchronisation at once: the daemon of \<^verbatim>\<open>src/services/sync_daemon.py\<close> on a
  client, the endpoints of \<^verbatim>\<open>src/routers/sync.py\<close> on a server, and a network in between that
  loses requests and replies as it likes. The server has a clock and identifiers of its own;
  both nodes compute the same hash of a change.
\<close>

section \<open>A server behind a network\<close>

datatype fate = Arrives | RequestLost | ReplyLost

record server =
  sn_store :: store
  sn_step :: nat

definition wire_of :: "row_result \<Rightarrow> wire_result" where
  "wire_of r = \<lparr>wr_status = Some (status_name (rr_status r)), wr_table = Some (rr_table r),
     wr_rowId = rr_rowId r, wr_reason = rr_reason r, wr_effective = rr_effective r\<rparr>"

definition reply_of :: "push_answer \<Rightarrow> push_reply" where
  "reply_of a = (let oc = pa_outcome a in
     \<lparr>pr_applied = oc_applied oc, pr_skipped = oc_skipped oc, pr_conflicts = oc_conflicts oc,
      pr_duplicates = oc_duplicates oc, pr_deferred = oc_deferred oc, pr_rejected = oc_rejected oc,
      pr_results = map wire_of (oc_results oc)\<rparr>)"

definition hello_of :: "handshake_view \<Rightarrow> Sync_Daemon.handshake" where
  "hello_of h = \<lparr>hs_schema = hk_schema h, hs_tables = Some (hk_tables h), hs_time = Some (hk_time h),
     hs_account = Some (hk_account h), hs_owners = hk_owners h\<rparr>"

definition page_of :: "feed_view \<Rightarrow> feed_reply" where
  "page_of f = \<lparr>fr_changes = fv_changes f, fr_next = Some (fv_next_seq f), fr_max = Some (fv_max_seq f)\<rparr>"

definition http_status :: "exn \<Rightarrow> int" where
  "http_status x = (case x of HttpError st m \<Rightarrow> st | _ \<Rightarrow> 500)"

text \<open>What the client sees of an endpoint that answers \<open>r\<close> and leaves the store \<open>s\<close>.\<close>

definition over_network ::
  "fate \<Rightarrow> (exn + 'a) \<Rightarrow> store \<Rightarrow> server \<Rightarrow> (peer_fail + 'a) \<times> server" where
  "over_network f r s p =
     (let p1 = p\<lparr>sn_step := Suc (sn_step p)\<rparr> in
      case f of
        RequestLost \<Rightarrow> (Inl (Unreachable ''timeout''), p1)
      | ReplyLost \<Rightarrow> (Inl (Unreachable ''timeout''), p1\<lparr>sn_store := s\<rparr>)
      | Arrives \<Rightarrow>
          (case r of Inl x \<Rightarrow> Inl (PeerError (http_status x) JNull) | Inr a \<Rightarrow> Inr a, p1\<lparr>sn_store := s\<rparr>))"

text \<open>The body that \<open>sync_peer.push\<close> sends.\<close>

definition pushed_body :: "string \<Rightarrow> change list \<Rightarrow> push_body" where
  "pushed_body cid cs = \<lparr>pb_client = cid, pb_schema = SCHEMA_VERSION, pb_drift = False,
     pb_tables = None, pb_changes = cs\<rparr>"

definition map_reply :: "('a \<Rightarrow> 'b) \<Rightarrow> (peer_fail + 'a) \<times> server \<Rightarrow> (peer_fail + 'b) \<times> server" where
  "map_reply f m = (case fst m of Inl x \<Rightarrow> Inl x | Inr a \<Rightarrow> Inr (f a), snd m)"

definition server_ops :: "env \<Rightarrow> nat \<Rightarrow> principal \<Rightarrow> (nat \<Rightarrow> fate) \<Rightarrow> server peer_ops" where
  "server_ops e lim who fate = \<lparr>
     po_handshake = (\<lambda>p. case sync_handshake e ''server'' who (sn_store p) of
        (h, s) \<Rightarrow> map_reply hello_of (over_network (fate (sn_step p)) (Inr h) s p)),
     po_changes = (\<lambda>since n p. case sync_changes e since (int n) who (sn_store p) of
        (r, s) \<Rightarrow> map_reply page_of (over_network (fate (sn_step p)) r s p)),
     po_push = (\<lambda>cid cs p. case sync_push e lim who (pushed_body cid cs) (sn_store p) of
        (r, s) \<Rightarrow> map_reply reply_of (over_network (fate (sn_step p)) r s p))\<rparr>"

section \<open>The server keeps what it acknowledged\<close>

definition settled_outcome :: "outcome \<Rightarrow> bool" where
  "settled_outcome d = (\<exists>x xs. oc_results d = x # xs \<and> rr_status x \<in> {Applied, Skipped})"

text \<open>The server has a receipt of exactly this payload, applied or found to be no news.\<close>

definition acknowledged :: "env \<Rightarrow> int \<Rightarrow> string \<Rightarrow> store \<Rightarrow> bool" where
  "acknowledged e n h s = (\<exists>a cl d. get_sync_receipt e a cl n s = Some (h, d) \<and> settled_outcome d)"

definition on_server :: "env \<Rightarrow> change \<Rightarrow> server \<Rightarrow> bool" where
  "on_server e c p = (case ch_seq c of None \<Rightarrow> True
     | Some n \<Rightarrow> acknowledged e n (change_hash e c) (sn_store p))"

lemma receipts_kept:
  assumes "apply_changes e cbt sd rec rcpt cs s = Inr (oc, s')" "get_receipt e k s = Some w"
  shows "get_receipt e k s' = Some w"
proof -
  have "get_receipt e k (snd q) = Some w"
    if "get_receipt e k (snd p) = Some w" "process_change e cbt sd rec rcpt tc p = Inr q" for tc p q
    using that process_keeps_receipts [of e cbt sd rec rcpt "fst tc" "snd tc" "fst p" "snd p" "fst q" "snd q"]
    by simp
  with sfold_invariant [OF assms(1) [unfolded apply_changes_def], where P = "\<lambda>p. get_receipt e k (snd p) = Some w"]
  show ?thesis using assms(2) by auto
qed

lemma receipt_cong: "receipts s' = receipts s \<Longrightarrow> get_sync_receipt e a cl n s' = get_sync_receipt e a cl n s"
  by (simp add: get_sync_receipt_def)

lemma push_kept:
  assumes "sync_push e lim who b s = (r, s')" "get_sync_receipt e a cl n s = Some w"
  shows "get_sync_receipt e a cl n s' = Some w"
proof -
  have "get_sync_receipt e a cl n s1 = Some w"
    if "apply_changes e cbt Client True rcpt (pb_changes b) (s\<lparr>applying := True\<rparr>) = Inr (oc, s1)" for cbt oc s1 rcpt
    using receipts_kept [OF that, of "(a, cl, n)" w] assms(2) by (simp add: get_sync_receipt_def)
  with assms show ?thesis
    by (auto simp: sync_push_def with_connection_def apply_push_def push_reply_of_def now_utc_def Let_def
        get_sync_receipt_def split: if_splits sum.splits prod.splits)
qed

text \<open>One change, applied or skipped, has its receipt.\<close>

lemma settled_receipt:
  assumes run: "apply_changes e cbt sd rec (Some (a, cl)) [c] s = Inr (oc, s')"
    and ok: "a \<noteq> []" "cl \<noteq> []" "ch_seq c = Some n" and st: "settled_outcome oc"
  shows "\<exists>d. get_sync_receipt e a cl n s' = Some (change_hash e c, d) \<and> settled_outcome d"
proof (cases "tbl_of (ch_table c)")
  case None
  then have "oc = reject_change c ''unknown_table'' empty_outcome"
    using run by (auto simp: apply_changes_def grouped_def is_sync_table_def SYNC_TABLE_ORDER_def)
  with st show ?thesis
    by (simp add: settled_outcome_def reject_change_def add_result_def reject_result_def empty_outcome_def)
next
  case (Some t)
  have key: "receipt_key (Some (a, cl)) c = Some (a, cl, n)" using ok by (simp add: receipt_key_def)
  have "grouped [c] = [(t, c)]"
    using Some by (cases t) (simp_all add: grouped_def SYNC_TABLE_ORDER_def)
  with run Some have "process_change e cbt sd rec (Some (a, cl)) (t, c) (empty_outcome, s) = Inr (oc, s')"
    by (simp add: apply_changes_def is_sync_table_def)
  then show ?thesis
  proof (cases rule: process_cases)
    case (replay k d)
    with key st show ?thesis by (auto simp: settled_outcome_def empty_outcome_def)
  next
    case (fresh d r)
    have res: "oc_results oc = [r]" using fresh(1,2) by (simp add: empty_outcome_def)
    with st have "rr_status r \<in> {Applied, Skipped}" by (simp add: settled_outcome_def)
    with fresh(5) key obtain s1 where "put_receipt e (a, cl, n) (change_hash e c, d) s1 = Inr s'" by auto
    from receipts.put_get [OF this] fresh(2) \<open>rr_status r \<in> _\<close>
    show ?thesis by (auto simp: settled_outcome_def)
  qed
qed

lemma settled_push:
  assumes run: "sync_push e lim who (pushed_body cid [c]) s = (Inr a, s')"
    and who: "pr_account who \<noteq> []" and n: "ch_seq c = Some n"
    and st: "settled_outcome (pa_outcome a)"
  shows "acknowledged e n (change_hash e c) s'"
proof -
  have v: "valid_push lim (pushed_body cid [c])"
    using run by (auto simp: sync_push_def split: if_splits)
  have col: "resolve_push_columns (pushed_body cid [c]) = Inr []"
    by (simp add: resolve_push_columns_def pushed_body_def)
  obtain s1 where ap: "apply_changes e [] Client True (Some (pr_account who, cid)) [c] (s\<lparr>applying := True\<rparr>)
      = Inr (pa_outcome a, s1)" and s1: "receipts s' = receipts s1"
    using run v col
    by (auto simp: sync_push_def with_connection_def apply_push_def push_reply_of_def now_utc_def Let_def
        pushed_body_def split: sum.splits prod.splits)
  have "cid \<noteq> []" using v by (auto simp: valid_push_def valid_client_id_def pushed_body_def)
  from settled_receipt [OF ap who this n st] show ?thesis
    unfolding acknowledged_def receipt_cong [OF s1] by blast
qed

lemma settled_wire: "settled_reply (reply_of a) \<Longrightarrow> settled_outcome (pa_outcome a)"
proof -
  assume h: "settled_reply (reply_of a)"
  then obtain x xs where x: "oc_results (pa_outcome a) = x # xs"
    by (cases "oc_results (pa_outcome a)") (auto simp: settled_reply_def reply_of_def head_opt_def Let_def)
  with h have "status_name (rr_status x) \<in> set settled_status"
    by (auto simp: settled_reply_def reply_of_def head_opt_def Let_def wire_of_def)
  with x show ?thesis by (cases "rr_status x") (auto simp: settled_outcome_def settled_status_def)
qed

lemma on_server_stays:
  assumes "\<And>a cl n w. get_sync_receipt e a cl n (sn_store p) = Some w \<Longrightarrow>
      get_sync_receipt e a cl n s = Some w" "on_server e c p"
  shows "on_server e c (snd (map_reply g (over_network f r s p)))"
  using assms
  by (auto simp: on_server_def acknowledged_def map_reply_def over_network_def Let_def split: fate.splits option.splits)
    blast+

text \<open>Whatever the network does, a settled reply is only given for a change the server keeps.\<close>

lemma server_honest:
  assumes "pr_account who \<noteq> []"
  shows "honest (server_ops e lim who fate) (on_server e)"
  unfolding honest_def
proof (intro conjI allI impI)
  fix c p assume d: "on_server e c p"
  have t: "get_sync_receipt e a cl n (s\<lparr>ticks := k\<rparr>) = get_sync_receipt e a cl n s" for a cl n s k
    by (simp add: get_sync_receipt_def)
  have s: "snd (case q of (r, s) \<Rightarrow> map_reply g (over_network f r s p)) =
      snd (map_reply g (over_network f (fst q) (snd q) p))" for q :: "(exn + 'z) \<times> store" and g :: "'z \<Rightarrow> 'y" and f
    by (cases q) simp
  have s': "snd (case q of (h, s) \<Rightarrow> map_reply g (over_network f (Inr h) s p)) =
      snd (map_reply g (over_network f (Inr (fst q)) (snd q) p))" for q :: "'z \<times> store" and g :: "'z \<Rightarrow> 'y" and f
    by (cases q) simp
  show "on_server e c (snd (po_handshake (server_ops e lim who fate) p))"
    unfolding server_ops_def peer_ops.simps s'
    by (rule on_server_stays [OF _ d]) (simp add: sync_handshake_def now_utc_def t)
  show "on_server e c (snd (po_changes (server_ops e lim who fate) since n p))" for since n
    unfolding server_ops_def peer_ops.simps s
    by (rule on_server_stays [OF _ d]) (simp add: sync_changes_def now_utc_def t split: prod.split)
  show "on_server e c (snd (po_push (server_ops e lim who fate) cid cs p))" for cid cs
    unfolding server_ops_def peer_ops.simps s
    by (rule on_server_stays [OF _ d]) (rule push_kept, rule prod.collapse [symmetric])
next
  fix cid c p r p'
  assume push: "po_push (server_ops e lim who fate) cid [c] p = (Inr r, p')" and st: "settled_reply r"
  obtain ans s where q: "sync_push e lim who (pushed_body cid [c]) (sn_store p) = (ans, s)"
    by (cases "sync_push e lim who (pushed_body cid [c]) (sn_store p)")
  with push obtain a where a: "ans = Inr a" "r = reply_of a" "sn_store p' = s"
    by (auto simp: server_ops_def map_reply_def over_network_def Let_def split: fate.splits sum.splits)
  with st have "settled_outcome (pa_outcome a)" by (simp add: settled_wire)
  with settled_push [OF q [unfolded a(1)] assms] a(3) show "on_server e c p'"
    by (auto simp: on_server_def split: option.split)
qed

section \<open>No change is lost between the nodes\<close>

text \<open>The change of number \<open>n\<close> and hash \<open>h\<close> waits on the client or is acknowledged by the server.\<close>

definition safe :: "env \<Rightarrow> string \<Rightarrow> env \<Rightarrow> int \<Rightarrow> string \<Rightarrow> server world \<Rightarrow> bool" where
  "safe e cl srv n h w = (held e cl n h (wd_store w) \<or> acknowledged srv n h (sn_store (wd_peer w)))"

lemma accounted_safe:
  "change_hash srv = change_hash e \<Longrightarrow> accounted e cl (on_server srv) n h w \<Longrightarrow> safe e cl srv n h w"
  by (auto simp: accounted_def safe_def on_server_def)

text \<open>C20. A daemon and a server over a network that may lose any request and any reply: however a
  cycle ends, for every log entry past the watermark a change of its row, at least as new and
  with the row as the cycle found it as its payload, waits in the client's queue, is a dead
  letter, or the server holds a receipt with the hash of this payload and an outcome applied
  or skipped.\<close>

theorem two_nodes_lose_no_change:
  assumes run: "run_once e shown cfg (server_ops srv lim who fate) t1 t2 w = (r, w')"
    and hash: "change_hash srv = change_hash e" and who: "pr_account who \<noteq> []" and ap: "apart e"
    and ok: "queue_ok e (wd_store w)" "log_ok (wd_store w)"
      "fst (cursors e (dc_client cfg) (wd_store w)) \<le> auto_seq (wd_store w)"
  shows "(\<forall>n h. held e (dc_client cfg) n h (wd_store w) \<longrightarrow> safe e (dc_client cfg) srv n h w') \<and>
    (\<forall>l \<in> set (change_log (wd_store w')). fst (cursors e (dc_client cfg) (wd_store w)) < le_seq l \<longrightarrow>
       le_seq l \<le> fst (cursors e (dc_client cfg) (wd_store w')) \<longrightarrow>
       (\<exists>c n. stands_for l c n \<and> frozen e cfg (wd_store w) c \<and> safe e (dc_client cfg) srv n (change_hash e c) w'))"
proof -
  let ?S = "{(n, h). held e (dc_client cfg) n h (wd_store w)}"
  let ?since = "fst (cursors e (dc_client cfg) (wd_store w))"
  have "outbox_inv e (dc_client cfg) (on_server srv) (frozen e cfg (wd_store w)) ?since ?S w"
    using ok by (auto simp: outbox_inv_def covered_def accounted_def)
  then have "outbox_inv e (dc_client cfg) (on_server srv) (frozen e cfg (wd_store w)) ?since ?S w'"
    using outbox.run_once [of "server_ops srv lim who fate" "on_server srv" e cfg "wd_store w" ?since ?S w shown t1 t2]
      run server_honest [OF who] ap by (simp add: same_rows_log_def)
  then show ?thesis
    using accounted_safe [OF hash] by (auto simp: outbox_inv_def covered_def) blast+
qed

section \<open>A cycle against a server\<close>

text \<open>The client edited memo \<open>m\<close>; the server still has the old text.\<close>

definition epoch_env :: env where
  "epoch_env = sample_env\<lparr>uuid := (\<lambda>n. ''01234567-89ab-4def-8123-456789abcdef'')\<rparr>"

definition laptop :: principal where
  "laptop = \<lparr>pr_account = ''ann'', pr_permission = ''owner'', pr_kind = ''service_credential'',
     pr_subject = ''laptop''\<rparr>"

definition net_world :: "server world" where
  "net_world = \<lparr>wd_store = edited_store, wd_runtime = fresh_runtime,
     wd_peer = \<lparr>sn_store = memo_node ''old'' 0, sn_step = 0\<rparr>, wd_last_cycle = 0, wd_last_attempt = 0\<rparr>"

definition net_ops :: "server peer_ops" where
  "net_ops = server_ops sample_env 100 laptop (\<lambda>n. Arrives)"

lemma net_cycle:
  obtains r w where "run_once epoch_env shown_json sample_cfg net_ops 1 2 net_world = (Ran r, w)"
    "fst (cursors epoch_env ''laptop'' (wd_store w)) = 1" "length (retries (wd_store w)) = 0"
    "length (change_log (wd_store w)) = 1" "le_seq (hd (change_log (wd_store w))) = 1"
    "length (receipts (sn_store (wd_peer w))) = 1"
proof -
  have "ran_with (\<lambda>w. fst (cursors epoch_env ''laptop'' (wd_store w)) = 1 \<and> length (retries (wd_store w)) = 0 \<and>
      length (change_log (wd_store w)) = 1 \<and> le_seq (hd (change_log (wd_store w))) = 1 \<and>
      length (receipts (sn_store (wd_peer w))) = 1)
    (run_once epoch_env shown_json sample_cfg net_ops 1 2 net_world)" by code_simp
  then show ?thesis using that by (elim ran_withE conjE)
qed

theorem two_nodes_lose_no_change_witness:
  "\<exists>r w c n. run_once epoch_env shown_json sample_cfg net_ops 1 2 net_world = (Ran r, w) \<and>
     retries (wd_store w) = [] \<and> stands_for (hd (change_log (wd_store w))) c n \<and>
     frozen epoch_env sample_cfg edited_store c \<and> acknowledged sample_env n (change_hash epoch_env c) (sn_store (wd_peer w))"
proof -
  obtain r w where run: "run_once epoch_env shown_json sample_cfg net_ops 1 2 net_world = (Ran r, w)"
    and w: "fst (cursors epoch_env ''laptop'' (wd_store w)) = 1" "length (retries (wd_store w)) = 0"
    "length (change_log (wd_store w)) = 1" "le_seq (hd (change_log (wd_store w))) = 1"
    by (rule net_cycle)
  have st: "wd_store net_world = edited_store" "dc_client sample_cfg = ''laptop''"
    by (simp_all add: net_world_def sample_cfg_def)
  have zero: "fst (cursors epoch_env ''laptop'' edited_store) = 0"
    by (simp add: cursors_def get_sync_state_def default_peer_state_def edited_store_def memo_node_def
        sample_store_def empty_store_def)
  have env: "change_hash sample_env = change_hash epoch_env" "apart epoch_env" "pr_account laptop \<noteq> []"
    "queue_ok epoch_env edited_store" "fst (cursors epoch_env ''laptop'' edited_store) \<le> auto_seq edited_store"
    using zero by (simp_all add: epoch_env_def apart_def sample_env_def lax_env_def laptop_def queue_ok_def
        edited_store_def memo_node_def sample_store_def empty_store_def)
  have l: "hd (change_log (wd_store w)) \<in> set (change_log (wd_store w))"
    using w(3) by (cases "change_log (wd_store w)") auto
  have q: "retries (wd_store w) = []" using w(2) by simp
  from two_nodes_lose_no_change [OF run [unfolded net_ops_def] env(1,3,2), unfolded st, OF env(4) edited_ok(2) env(5)]
    l w(1,4) zero
  obtain c n where "stands_for (hd (change_log (wd_store w))) c n" "frozen epoch_env sample_cfg edited_store c"
    "safe epoch_env ''laptop'' sample_env n (change_hash epoch_env c) w" by fastforce
  with run q show ?thesis unfolding safe_def held_def by fastforce
qed

end
