(* ===== verification/Rows.thy ===== *)
theory Rows
  imports Daemon_Laws
begin

text \<open>
  The type of a stored row: every synchronised column of its table, no column twice, and a value in the columns
  the schema declares NOT NULL (\<^verbatim>\<open>src/connectors/__init__.py\<close>). It is one more invariant of the
  statements, so every operation and every cycle keeps it.
\<close>

definition row_typed :: "tbl \<Rightarrow> row \<Rightarrow> bool" where
  "row_typed t r = (set (table_columns t) \<subseteq> fst ` set r \<and> distinct (map fst r) \<and>
     (\<forall>c \<in> set (not_null_columns t). row_get r c \<noteq> VNull))"

definition rows_typed :: "store \<Rightarrow> bool" where
  "rows_typed s = (\<forall>t. \<forall>r \<in> set (tabs s t). row_typed t r)"

lemma all_columns_distinct: "distinct (all_columns t)"
  by (cases t) (simp_all add: all_columns_def)

lemma keys_row_set: "fst ` set (row_set r c v) = insert c (fst ` set r)"
  by (simp add: row_set_def dom_update)

lemma keys_row_update: "fst ` set r \<subseteq> fst ` set (row_update r asg)"
proof (induction asg arbitrary: r)
  case (Cons a asg)
  obtain c v where "a = (c, v)" by (cases a)
  with Cons.IH [of "row_set r c v"] show ?case by (auto simp: keys_row_set)
qed simp

lemma distinct_row_update: "distinct (map fst r) \<Longrightarrow> distinct (map fst (row_update r asg))"
proof (induction asg arbitrary: r)
  case (Cons a asg)
  obtain c v where "a = (c, v)" by (cases a)
  with Cons show ?case by (simp add: row_set_def distinct_update)
qed simp

lemma complete_keys: "map fst (complete_row now t r) = all_columns t"
  by (simp add: complete_row_def comp_def)

lemma rows_typed_insert:
  assumes e: "enforces_ddl e" and s: "rows_typed s" and ins: "db_insert e t r s = Inr s'"
  shows "rows_typed s'"
proof -
  let ?r = "complete_row (sql_now e (ticks s)) t r"
  have "\<forall>c \<in> set (not_null_columns t). row_get ?r c \<noteq> VNull"
    using db_insert_ddl [OF e ins] by (auto simp: ddl_refuse_ins_def split: if_splits)
  then have "row_typed t ?r"
    using complete_keys [of "sql_now e (ticks s)" t r] all_columns_distinct [of t]
    by (auto simp: row_typed_def all_columns_def simp flip: set_map)
  with s show ?thesis by (auto simp: rows_typed_def db_insert_tabs [OF ins])
qed

lemma rows_typed_update:
  assumes e: "enforces_ddl e" and s: "rows_typed s" and upd: "db_update e t P asg s = Inr (n, s')"
  shows "rows_typed s'"
  unfolding rows_typed_def db_update_tabs [THEN conjunct1, OF upd]
proof (intro allI ballI)
  fix u r' assume r': "r' \<in> set (((tabs s)(t := map (\<lambda>r. if P r then row_update r (touch (sql_now e (ticks s)) t asg)
      else r) (tabs s t))) u)"
  show "row_typed u r'"
  proof (cases "r' \<in> set (tabs s u)")
    case False
    with r' obtain r where r: "u = t" "r \<in> set (tabs s t)" "P r"
      "r' = row_update r (touch (sql_now e (ticks s)) t asg)" by (auto split: if_splits)
    have "\<forall>c \<in> set (not_null_columns t). row_get r' c \<noteq> VNull"
      using db_update_ddl [OF e upd r(2,3)] r(4) by (auto simp: ddl_refuse_upd_def split: if_splits)
    moreover have "row_typed t r" using s r(2) by (simp add: rows_typed_def)
    ultimately show ?thesis
      using r(1,4) keys_row_update [of r "touch (sql_now e (ticks s)) t asg"] distinct_row_update
      by (auto simp: row_typed_def)
  qed (use s in \<open>simp add: rows_typed_def\<close>)
qed

lemma rows_typed_fields [simp]:
  "rows_typed (s\<lparr>ticks := k\<rparr>) = rows_typed s" "rows_typed (s\<lparr>ids := k\<rparr>) = rows_typed s"
  "rows_typed (s\<lparr>issues := is\<rparr>) = rows_typed s" "rows_typed (s\<lparr>receipts := rs\<rparr>) = rows_typed s"
  "rows_typed (s\<lparr>articles := as\<rparr>) = rows_typed s" "rows_typed (s\<lparr>applying := b\<rparr>) = rows_typed s"
  "rows_typed (s\<lparr>retries := qs\<rparr>) = rows_typed s" "rows_typed (s\<lparr>row_states := xs\<rparr>) = rows_typed s"
  "rows_typed (s\<lparr>peers := ps\<rparr>) = rows_typed s"
  by (simp_all add: rows_typed_def)

lemma rows_typed_delete: "rows_typed s \<Longrightarrow> rows_typed (db_delete e t P s)"
  by (auto simp: rows_typed_def)

interpretation typed: daemon_invariant e "\<lambda>s. enforces_ddl e \<longrightarrow> rows_typed s" for e
proof
  show "enforces_ddl e \<longrightarrow> rows_typed s'"
    if "enforces_ddl e \<longrightarrow> rows_typed s" "record_issue e k t r p d s = (i, s')" for s s' k t r p d i
    by (rule issue_blind(1) [where I = "\<lambda>s. enforces_ddl e \<longrightarrow> rows_typed s", OF _ _ _ that]) simp_all
  show "enforces_ddl e \<longrightarrow> rows_typed s'"
    if "enforces_ddl e \<longrightarrow> rows_typed s" "resolve_issues e is k t r s = (m, s')" for s s' "is" k t r m
    by (rule issue_blind(2) [where I = "\<lambda>s. enforces_ddl e \<longrightarrow> rows_typed s", OF _ _ _ that]) simp_all
  show "enforces_ddl e \<longrightarrow> rows_typed s'"
    if "enforces_ddl e \<longrightarrow> rows_typed s" "change_log_enabled (db_insert e Memo_versions r) s = Inr s'"
    for s s' r
    by (rule logged_insert [where I = "\<lambda>s. enforces_ddl e \<longrightarrow> rows_typed s", OF _ _ that])
      (auto intro: rows_typed_insert)
qed (auto intro: rows_typed_insert rows_typed_update rows_typed_delete)

end
