(* ===== verification/Both_Ends.thy ===== *)
theory Both_Ends
  imports Two_Nodes Rows
begin

text \<open>
  What a cycle against a server does to the server: the locale \<open>peer_contract\<close> lifts a law of
  the peer's answers to the whole cycle, and the store of the server is such a law.
\<close>

section \<open>Laws of the peer's side\<close>



section \<open>The server's store\<close>













end
