(* ===== verification/Requests.thy ===== *)
theory Requests
  imports Both_Ends
begin

text \<open>
  How much one cycle of the daemon asks of its peer. A meter that one request raises by at most
  one counts them; the bound on a cycle follows from the fuel of the loops and the page size.
\<close>

definition spends :: "('p \<Rightarrow> nat) \<Rightarrow> nat \<Rightarrow> 'p world \<Rightarrow> 'b \<times> 'p world \<Rightarrow> bool" where
  "spends meter n w m = (meter (wd_peer (snd m)) \<le> meter (wd_peer w) + n)"

lemma spends_bind:
  assumes "spends meter a w m" "\<And>x w1. m = (Inr x, w1) \<Longrightarrow> spends meter b w1 (f x w1)"
  shows "spends meter (a + b) w (wbind m f)"
proof (cases m)
  case (Pair r w1)
  show ?thesis
  proof (cases r)
    case (Inr x)
    with Pair assms(2) have "spends meter b w1 (f x w1)" by blast
    with Pair Inr assms(1) show ?thesis by (simp add: spends_def)
  qed (use Pair assms(1) in \<open>simp add: spends_def\<close>)
qed

lemma spends_none: "wd_peer (snd m) = wd_peer w \<Longrightarrow> spends meter n w m"
  by (simp add: spends_def)

lemma spends_more: "spends meter a w m \<Longrightarrow> a \<le> b \<Longrightarrow> spends meter b w m"
  by (simp add: spends_def)

lemma spends_fold:
  assumes "\<And>x a w. spends meter 1 w (f x a w)"
  shows "spends meter (length xs) w (wfold f xs a w)"
proof (induction xs arbitrary: a w)
  case (Cons x xs)
  have "spends meter (1 + length xs) w (wbind (f x a w) (wfold f xs))"
    by (rule spends_bind [OF assms]) (rule Cons.IH)
  then show ?case by simp
qed (simp add: spends_none)

text \<open>What stays on this node costs nothing.\<close>

lemma local_steps [simp]:
  "wd_peer (snd (section_of b body w)) = wd_peer w" "wd_peer (snd (read_clock e w)) = wd_peer w"
  "wd_peer (snd (check_schema cfg h w)) = wd_peer w" "wd_peer (snd (measure_skew e h w)) = wd_peer w"
  "wd_peer (snd (check_identity e h w)) = wd_peer w" "wd_peer (note_skew k w) = wd_peer w"
  "wd_peer (set_runtime f w) = wd_peer w"
  by (auto simp: section_of_def read_clock_def check_schema_def measure_skew_def check_identity_def
      note_skew_def set_runtime_def Let_def split: prod.split sum.split option.split)

lemma snapshot_local: "wd_peer (snd (snapshot_rounds k e cfg cbt w)) = wd_peer w"
proof (induction k arbitrary: w)
  case (Suc k)
  obtain r w1 where s: "section_of False (snapshot_round e cfg cbt) w = (r, w1)" by fastforce
  then have "wd_peer w1 = wd_peer w" by (metis local_steps(1) snd_conv)
  with s Suc.IH show ?case by (cases r) simp_all
qed simp

lemma errors_local [simp]:
  "wd_peer (store_error e cfg msg w) = wd_peer w" "wd_peer (store_blocked e cfg k msg g w) = wd_peer w"
  by (simp_all add: store_error_def store_blocked_def)

lemma clock_local: "read_clock e w = (t, w') \<Longrightarrow> wd_peer w' = wd_peer w"
  using local_steps(2) [of e w] by simp

lemma run_once_peer:
  assumes run: "cycle_sync e cfg po (w\<lparr>wd_last_attempt := t1\<rparr>) = (r, w1)"
  shows "wd_peer (snd (run_once e shown cfg po t1 t2 w)) = wd_peer w1"
proof -
  obtain a w2 where c1: "read_clock e w1 = (a, w2)" by fastforce
  obtain b w3 where c2: "read_clock e (w1\<lparr>wd_last_cycle := t2\<rparr>) = (b, w3)" by fastforce
  obtain c w4 where c3: "read_clock e w3 = (c, w4)" by fastforce
  show ?thesis
    using clock_local [OF c1] clock_local [OF c2] clock_local [OF c3]
    by (simp add: run_once_def run c1 c2 c3 Let_def split: sum.split halt.split peer_fail.split)
qed

locale metered_peer =
  fixes po :: "'p peer_ops" and meter :: "'p \<Rightarrow> nat"
  assumes handshake: "meter (snd (po_handshake po p)) \<le> Suc (meter p)"
    and changes: "meter (snd (po_changes po since n p)) \<le> Suc (meter p)"
    and push: "meter (snd (po_push po cid cs p)) \<le> Suc (meter p)"
begin

lemma asked: "(\<And>p. meter (snd (f p)) \<le> Suc (meter p)) \<Longrightarrow> spends meter 1 w (ask f w)"
proof -
  assume "\<And>p. meter (snd (f p)) \<le> Suc (meter p)"
  then have "meter (snd (f (wd_peer w))) \<le> Suc (meter (wd_peer w))" .
  then show ?thesis by (auto simp: spends_def ask_def split: prod.split sum.split)
qed

lemma entry: "spends meter 1 w (push_entry e cfg po cid q rep w)"
proof -
  have "spends meter (1 + 0) w (push_entry e cfg po cid q rep w)"
    unfolding push_entry_def
    by (rule spends_bind, rule asked [OF push], rule spends_bind [where a = 0 and b = 0, simplified])
      (simp_all add: spends_none)
  then show ?thesis by simp
qed

lemma queue: "spends meter (dc_batch cfg) w (retry_push_queue e cfg po w)"
proof -
  have "spends meter (0 + dc_batch cfg) w (retry_push_queue e cfg po w)"
    unfolding retry_push_queue_def
  proof (rule spends_bind)
    fix a w1
    assume "section_of False (\<lambda>s. let queued = list_sync_retries e (dc_client cfg) ''push'' (dc_batch cfg) s;
        (ep, s1) = get_client_epoch e (dc_client cfg) s in Inr ((queued, dc_client cfg @ '':'' @ ep), s1)) w = (Inr a, w1)"
    then have "length (fst a) \<le> dc_batch cfg"
      by (auto simp: section_of_def with_connection_def Let_def list_sync_retries_def split: prod.splits)
    moreover have "spends meter (length (fst a)) w1 (wfold (push_entry e cfg po (snd a)) (fst a) empty_push_report w1)"
      by (rule spends_fold) (rule entry)
    ultimately show "spends meter (dc_batch cfg) w1 ((case a of (queued, cid) \<Rightarrow>
        wfold (push_entry e cfg po cid) queued empty_push_report) w1)"
      by (cases a) (auto intro: spends_more)
  qed (simp add: spends_none)
  then show ?thesis by simp
qed

lemma pushing: "spends meter (2 * dc_batch cfg) w (push_rounds e cfg po cbt w)"
proof -
  have "spends meter (dc_batch cfg + (0 + (dc_batch cfg + 0))) w (push_rounds e cfg po cbt w)"
    unfolding push_rounds_def
    by (rule spends_bind [OF queue], rule spends_bind, rule spends_none [OF snapshot_local],
        rule spends_bind [OF queue]) (simp add: spends_none)
  then show ?thesis by (simp add: mult_2)
qed

lemma pulling: "spends meter k w (pull_loop k e cfg po cbt rep w)"
proof (induction k arbitrary: rep w)
  case (Suc k)
  let ?s = "ps_pulled (get_sync_state e (dc_client cfg) (wd_store w))"
  have "spends meter (1 + k) w (pull_loop (Suc k) e cfg po cbt rep w)"
    unfolding pull_loop.simps Let_def
  proof (rule spends_bind, rule asked [OF changes])
    fix r w1
    have "spends meter (0 + k) w1 (wbind (section_of True (pull_page e cfg cbt (fr_changes r) n) w1) f)"
      if "\<And>a w. spends meter k w (f a w)" for n and f :: "outcome \<times> change list \<Rightarrow> 'p world \<Rightarrow> (halt + pull_report) \<times> 'p world"
      by (rule spends_bind) (simp_all add: spends_none that)
    then show "spends meter k w1 (if fr_changes r = [] \<and> int_or (fr_next r) ?s \<le> ?s then (Inr rep, w1)
       else wbind (section_of True (pull_page e cfg cbt (fr_changes r) (int_or (fr_next r) ?s)) w1)
            (\<lambda>(oc, based) w2.
              if int_or (fr_max r) (int_or (fr_next r) ?s) \<le> int_or (fr_next r) ?s
              then (Inr ((count_outcome based oc rep)\<lparr>pl_rounds := Suc (pl_rounds rep)\<rparr>), w2)
              else pull_loop k e cfg po cbt ((count_outcome based oc rep)\<lparr>pl_rounds := Suc (pl_rounds rep)\<rparr>) w2))"
      using Suc.IH by (simp add: spends_none split: prod.split)
  qed
  then show ?case by simp
qed (simp add: spends_none)

lemma rechecking: "spends meter 1 w (recheck_clock e cfg po skew w)"
proof -
  have "spends meter (1 + 0) w (wbind (ask (po_handshake po) w) (measure_skew e))"
    by (rule spends_bind, rule asked [OF handshake]) (simp add: spends_none)
  then show ?thesis
    by (auto simp: recheck_clock_def spends_def split: prod.split sum.split option.split)
qed

lemma clock_gate: "spends meter 1 w (check_clock e cfg po h w)"
proof -
  have n: "spends meter 1 w1 (recheck_clock e cfg po k (note_skew k w1))" for k w1
    using rechecking [of "note_skew k w1"] by (simp add: spends_def)
  have "spends meter (0 + 1) w (check_clock e cfg po h w)"
    unfolding check_clock_def
    by (rule spends_bind) (simp_all add: spends_none n [simplified] split: option.split)
  then show ?thesis by simp
qed

lemma cycle: "spends meter (2 * dc_batch cfg + MAX_ROUNDS_PER_CYCLE + 2) w (cycle_sync e cfg po w)"
proof -
  have ex: "spends meter (2 * dc_batch cfg + (0 + MAX_ROUNDS_PER_CYCLE + (0 + 0))) w1 (exchange e cfg po h cbt w1)" for h cbt w1
    unfolding exchange_def pull_rounds_def close_cycle_def
    by (rule spends_bind [OF pushing], rule spends_bind, rule spends_bind, simp add: spends_none, rule pulling,
        rule spends_bind) (simp_all add: spends_none)
  have "spends meter (1 + (0 + (1 + (0 + (2 * dc_batch cfg + (0 + MAX_ROUNDS_PER_CYCLE + (0 + 0))))))) w (cycle_sync e cfg po w)"
    unfolding cycle_sync_def
    by (rule spends_bind [OF asked [OF handshake]], rule spends_bind, simp add: spends_none,
        rule spends_bind [OF clock_gate], rule spends_bind, simp add: spends_none, rule ex)
  then show ?thesis by (simp add: spends_def)
qed

lemma run_once:
  "meter (wd_peer (snd (run_once e shown cfg po t1 t2 w))) \<le>
     meter (wd_peer w) + 2 * dc_batch cfg + MAX_ROUNDS_PER_CYCLE + 2"
proof -
  obtain r w1 where run: "cycle_sync e cfg po (w\<lparr>wd_last_attempt := t1\<rparr>) = (r, w1)" by fastforce
  have "meter (wd_peer w1) \<le> meter (wd_peer w) + (2 * dc_batch cfg + MAX_ROUNDS_PER_CYCLE + 2)"
    using cycle [of cfg "w\<lparr>wd_last_attempt := t1\<rparr>" e] run by (simp add: spends_def)
  moreover have "wd_peer (snd (run_once e shown cfg po t1 t2 w)) = wd_peer w1"
    by (rule run_once_peer [OF run])
  ultimately show ?thesis by simp
qed

end

section \<open>A server counts its requests\<close>

lemma over_network_step [simp]: "sn_step (snd (map_reply g (over_network f r s p))) = Suc (sn_step p)"
  by (simp add: map_reply_def over_network_def Let_def split: fate.split)

interpretation requests: metered_peer "server_ops e lim who fate" sn_step for e lim who fate
  by unfold_locales (simp_all add: server_ops_def split: prod.split)

text \<open>C26. One cycle sends a server no more than twice the batch size plus 22 requests, however the
  server answers, whatever the network loses and however the cycle ends.\<close>

theorem cycle_requests_are_bounded:
  "run_once e shown cfg (server_ops srv lim who fate) t1 t2 w = (r, w') \<Longrightarrow>
     sn_step (wd_peer w') \<le> sn_step (wd_peer w) + 2 * dc_batch cfg + 22"
  using requests.run_once [of e shown cfg srv lim who fate t1 t2 w]
  by (simp add: MAX_ROUNDS_PER_CYCLE_def)

theorem cycle_requests_are_bounded_witness:
  "\<exists>r w. run_once epoch_env shown_json sample_cfg net_ops 1 2 net_world = (Ran r, w) \<and>
     length (receipts (sn_store (wd_peer w))) = 1 \<and> sn_step (wd_peer w) \<le> 42"
proof (rule net_cycle)
  fix r w assume run: "run_once epoch_env shown_json sample_cfg net_ops 1 2 net_world = (Ran r, w)"
    and n: "length (receipts (sn_store (wd_peer w))) = 1"
  from cycle_requests_are_bounded [OF run [unfolded net_ops_def]] run n show ?thesis
    by (simp add: sample_cfg_def net_world_def)
qed

end
