(* ===== verification/Lock_Spec.thy ===== *)
theory Lock_Spec
  imports Lock_Registry
begin

text \<open>
  What the lock registry promises, without its dictionaries, timers and notices: a partial map
  from memos to leases, of which only the live ones exist, and a count of the leases a memo had.
  The specification says of every call what it answers and what it does. The registry gives the
  same answers, call by call; a timer that fires, in time or late, is invisible.
\<close>

section \<open>Calls and answers\<close>

text \<open>
  \<open>Waits\<close> and \<open>Acquires\<close> carry the time that passes, \<open>Fires\<close> is a timer set for an owner and an
  expiry, stale ones too.
\<close>

datatype lock_call =
    Waits nat
  | Acquires nat string string string string
  | Releases string "string option" bool
  | Leaves string
  | Fires string string int
  | Asks string
  | Validates string "string option" "string option" "string option"

datatype answer =
    Nothing_said
  | Lease bool holder_view
  | Freed "holder_view option"
  | Ended "string set"
  | Held "holder_view option"
  | Valid bool

section \<open>The specification\<close>

record lease_state =
  lt_time :: int
  lt_issued :: nat
  lt_counts :: "string \<Rightarrow> nat"
  lt_leases :: "string \<Rightarrow> holder option"

definition alive :: "int \<Rightarrow> (string \<Rightarrow> holder option) \<Rightarrow> string \<Rightarrow> holder option" where
  "alive t L m = (case L m of None \<Rightarrow> None | Some h \<Rightarrow> if lh_expires h \<le> t then None else Some h)"

text \<open>\<open>life\<close> is the time to live; a granted lease gets the next token, a renewed one keeps its own.\<close>

fun lease_serve :: "(nat \<Rightarrow> string) \<Rightarrow> int \<Rightarrow> lock_call \<Rightarrow> lease_state \<Rightarrow> answer \<times> lease_state" where
  "lease_serve tok life (Waits d) a =
     (Nothing_said, a\<lparr>lt_time := lt_time a + int d, lt_leases := alive (lt_time a + int d) (lt_leases a)\<rparr>)"
| "lease_serve tok life (Acquires d m owner user display) a =
     (let t = lt_time a + int d; b = a\<lparr>lt_time := t, lt_issued := Suc (lt_issued a)\<rparr> in
      case lt_leases a m of
        None \<Rightarrow>
          (let n = lt_counts a m + 1;
               h = \<lparr>lh_owner = owner, lh_user = user, lh_display = display, lh_token = tok (lt_issued a),
                    lh_generation = n, lh_expires = t + life\<rparr>
           in (Lease True (to_dict h),
               b\<lparr>lt_counts := (lt_counts a)(m := n), lt_leases := alive t ((lt_leases a)(m \<mapsto> h))\<rparr>))
      | Some h \<Rightarrow>
          if lh_owner h \<noteq> owner then (Lease False (to_dict h), b\<lparr>lt_leases := alive t (lt_leases a)\<rparr>)
          else let h' = h\<lparr>lh_expires := t + life, lh_user := user, lh_display := display\<rparr>
               in (Lease True (to_dict h'), b\<lparr>lt_leases := alive t ((lt_leases a)(m \<mapsto> h'))\<rparr>))"
| "lease_serve tok life (Releases m owner force) a =
     (case lt_leases a m of
        None \<Rightarrow> (Freed None, a)
      | Some h \<Rightarrow>
          if force \<or> owner = None \<or> owner = Some (lh_owner h)
          then (Freed (Some (to_dict h)), a\<lparr>lt_leases := (lt_leases a)(m := None)\<rparr>)
          else (Freed None, a))"
| "lease_serve tok life (Leaves owner) a =
     (Ended {m. \<exists>h. lt_leases a m = Some h \<and> lh_owner h = owner},
      a\<lparr>lt_leases := (\<lambda>m. case lt_leases a m of None \<Rightarrow> None
                       | Some h \<Rightarrow> if lh_owner h = owner then None else Some h)\<rparr>)"
| "lease_serve tok life (Fires m owner exp) a = (Nothing_said, a)"
| "lease_serve tok life (Asks m) a = (Held (map_option to_dict (lt_leases a m)), a)"
| "lease_serve tok life (Validates m token user owner) a =
     (Valid (\<exists>h. lt_leases a m = Some h \<and> token = Some (lh_token h) \<and> lh_token h \<noteq> [] \<and>
         (user = None \<or> user = Some (lh_user h)) \<and> (owner = None \<or> owner = Some (lh_owner h))), a)"

fun lease_serves :: "(nat \<Rightarrow> string) \<Rightarrow> int \<Rightarrow> lock_call list \<Rightarrow> lease_state \<Rightarrow> answer list \<times> lease_state" where
  "lease_serves tok life [] a = ([], a)"
| "lease_serves tok life (c # cs) a =
     (let (x, b) = lease_serve tok life c a; (xs, d) = lease_serves tok life cs b in (x # xs, d))"

definition no_leases :: "int \<Rightarrow> lease_state" where
  "no_leases t = \<lparr>lt_time = t, lt_issued = 0, lt_counts = (\<lambda>m. 0), lt_leases = (\<lambda>m. None)\<rparr>"

section \<open>The registry serving the same calls\<close>

text \<open>\<open>release_all_for_owner\<close> also clears entries whose time is over; they are not leases any more.\<close>

fun serve :: "(nat \<Rightarrow> string) \<Rightarrow> lock_call \<Rightarrow> run_state \<Rightarrow> answer \<times> run_state" where
  "serve tok (Waits d) s = (Nothing_said, s\<lparr>time := time s + int d\<rparr>)"
| "serve tok (Acquires d m owner user display) s =
     (case acquire (time s) (time s + int d) (tok (issued s)) m owner user display (reg s) of
        ((ok, v), r) \<Rightarrow> (Lease ok v, s\<lparr>time := time s + int d, issued := Suc (issued s), reg := r\<rparr>))"
| "serve tok (Releases m owner force) s =
     (case release (time s) m owner force (reg s) of (v, r) \<Rightarrow> (Freed v, s\<lparr>reg := r\<rparr>))"
| "serve tok (Leaves owner) s =
     (case release_all_for_owner owner (reg s) of
        (ms, r) \<Rightarrow> (Ended (set (filter (\<lambda>m. live_holder (time s) m (reg s) \<noteq> None) ms)), s\<lparr>reg := r\<rparr>))"
| "serve tok (Fires m owner exp) s = (Nothing_said, s\<lparr>reg := expire (time s) m owner exp (reg s)\<rparr>)"
| "serve tok (Asks m) s = (Held (current_holder (time s) m (reg s)), s)"
| "serve tok (Validates m token user owner) s = (Valid (validate (time s) m token user owner (reg s)), s)"

fun serves :: "(nat \<Rightarrow> string) \<Rightarrow> lock_call list \<Rightarrow> run_state \<Rightarrow> answer list \<times> run_state" where
  "serves tok [] s = ([], s)"
| "serves tok (c # cs) s = (let (x, s1) = serve tok c s; (xs, s2) = serves tok cs s1 in (x # xs, s2))"

section \<open>The registry seen as the specification\<close>

definition counts_of :: "registry \<Rightarrow> string \<Rightarrow> nat" where
  "counts_of r m = (case map_of (generations r) m of None \<Rightarrow> 0 | Some n \<Rightarrow> n)"

definition leases_of :: "run_state \<Rightarrow> lease_state" where
  "leases_of s = \<lparr>lt_time = time s, lt_issued = issued s, lt_counts = counts_of (reg s),
     lt_leases = alive (time s) (map_of (locks (reg s)))\<rparr>"

lemma alive_holder: "alive t (map_of (locks r)) m = live_holder t m r"
  by (simp add: alive_def live_holder_def split: option.splits)

lemma alive_later: "t \<le> t' \<Longrightarrow> alive t' (alive t L) = alive t' L"
  by (auto simp: alive_def fun_eq_iff split: option.splits)

lemma alive_update: "t \<le> t' \<Longrightarrow> alive t' ((alive t L)(m := x)) = alive t' (L(m := x))"
  by (auto simp: alive_def fun_eq_iff split: option.splits)

lemma alive_drop: "(alive t L)(m := None) = alive t (L(m := None))"
  by (auto simp: alive_def fun_eq_iff)

lemma locks_update: "map_of (AList.update m h xs) = (map_of xs)(m \<mapsto> h)"
  by (simp add: fun_eq_iff map_of_update)

lemma locks_drop: "map_of (locks (drop_lock m r)) = (map_of (locks r))(m := None)"
  by (simp add: fun_eq_iff)

lemma counts_update:
  "generations r' = AList.update m n (generations r) \<Longrightarrow> counts_of r' = (counts_of r)(m := n)"
  by (simp add: counts_of_def fun_eq_iff map_of_update)

lemma counts_same: "generations r' = generations r \<Longrightarrow> counts_of r' = counts_of r"
  by (simp add: counts_of_def fun_eq_iff)

lemmas view_simps = leases_of_def alive_holder alive_later alive_update locks_update Let_def

text \<open>A call of the registry is the call of the specification.\<close>

definition served :: "(nat \<Rightarrow> string) \<Rightarrow> lock_call \<Rightarrow> run_state \<Rightarrow> bool" where
  "served tok c s = (lease_serve tok (ttl (reg s)) c (leases_of s) =
     (fst (serve tok c s), leases_of (snd (serve tok c s))))"

lemma acquire_served: "served tok (Acquires d m owner user display) s"
proof -
  obtain ok v r where acq: "acquire (time s) (time s + int d) (tok (issued s)) m owner user display (reg s) = ((ok, v), r)"
    by (metis prod.collapse)
  from acq show ?thesis
  proof (cases rule: acquire_cases)
    case (refused h)
    then show ?thesis using acq by (simp add: served_def view_simps)
  next
    case (renewed h h')
    then show ?thesis using acq counts_same [OF renewed(6)] by (simp add: served_def view_simps)
  next
    case (granted h' g)
    have "counts_of (reg s) m + 1 = g" using granted(2) by (simp add: counts_of_def)
    then show ?thesis using granted(1,3-6) acq counts_update [OF granted(6)]
      by (simp add: served_def view_simps)
  qed
qed

lemma release_served: "served tok (Releases m owner force) s"
proof (cases "live_holder (time s) m (reg s)")
  case (Some h)
  have "counts_of (notify m None v (drop_lock m (reg s))) = counts_of (reg s)" for v
    by (rule counts_same) simp
  with Some show ?thesis
    by (auto simp: served_def release_def view_simps alive_drop locks_drop)
qed (simp add: served_def release_def view_simps)

lemma leave_served:
  assumes "distinct (map fst (locks (reg s)))"
  shows "served tok (Leaves owner) s"
proof -
  obtain ms r where run: "release_all_for_owner owner (reg s) = (ms, r)" by fastforce
  have ms: "set ms = {m. \<exists>h. map_of (locks (reg s)) m = Some h \<and> lh_owner h = owner}"
    using run owned_keys [OF assms] by (auto simp: release_all_for_owner_def Let_def image_iff)
  note r = release_all_locks [OF assms run]
  have "alive (time s) (map_of (locks r)) = (\<lambda>m. case live_holder (time s) m (reg s) of None \<Rightarrow> None
      | Some h \<Rightarrow> if lh_owner h = owner then None else Some h)"
    by (auto simp: fun_eq_iff alive_def live_holder_def r(1) split: option.splits)
  moreover have "{m. \<exists>h. live_holder (time s) m (reg s) = Some h \<and> lh_owner h = owner} =
      set (filter (\<lambda>m. live_holder (time s) m (reg s) \<noteq> None) ms)"
    by (auto simp: ms live_holder_Some)
  ultimately show ?thesis
    using run counts_same [OF r(2)] by (simp add: served_def view_simps)
qed

lemma fire_served: "served tok (Fires m owner exp) s"
proof (rule expire_cases [of "reg s" m "time s" owner exp])
  fix h assume h: "map_of (locks (reg s)) m = Some h" "lh_expires h \<le> time s"
    "expire (time s) m owner exp (reg s) = notify m None (Some (to_dict h)) (drop_lock m (reg s))"
  have "alive (time s) ((map_of (locks (reg s)))(m := None)) = alive (time s) (map_of (locks (reg s)))"
    using h(1,2) by (auto simp: alive_def fun_eq_iff)
  moreover have "counts_of (notify m None (Some (to_dict h)) (drop_lock m (reg s))) = counts_of (reg s)"
    by (rule counts_same) simp
  ultimately show ?thesis by (simp add: served_def leases_of_def h(3) locks_drop)
next
  assume l: "locks (expire (time s) m owner exp (reg s)) = locks (reg s)"
    and g: "generations (expire (time s) m owner exp (reg s)) = generations (reg s)"
  show ?thesis by (simp add: served_def leases_of_def l counts_same [OF g])
qed

lemma validate_served: "served tok (Validates m token user owner) s"
  by (auto simp: served_def validate_def view_simps blank_def split: option.splits)

lemma call_served:
  assumes "reg_ok s"
  shows "served tok c s"
proof (cases c)
  case (Waits d)
  then show ?thesis by (simp add: served_def view_simps)
next
  case (Leaves owner)
  then show ?thesis using leave_served assms by (simp add: reg_ok_def)
next
  case (Asks m)
  then show ?thesis by (simp add: served_def view_simps current_holder_def)
qed (simp_all add: acquire_served release_served fire_served validate_served)

text \<open>A call is a step of the registry, or changes nothing.\<close>

lemma serve_step: "snd (serve tok c s) = s \<or> lock_step tok s (snd (serve tok c s))"
  by (cases c) (auto intro: lock_step.intros split: prod.splits)

lemma ttl_expire [simp]: "ttl (expire now m owner exp r) = ttl r"
  by (simp add: expire_def split: option.split)

lemma ttl_step: "lock_step tok s s' \<Longrightarrow> ttl (reg s') = ttl (reg s)"
  by (induction rule: lock_step.induct)
    (auto elim!: acquire_cases release_cases simp: release_all_for_owner_def Let_def fold_drop fold_notify)

lemma serve_keeps: "reg_ok s \<Longrightarrow> reg_ok (snd (serve tok c s)) \<and> ttl (reg (snd (serve tok c s))) = ttl (reg s)"
  using serve_step [of tok c s] reg_ok_step ttl_step by metis

lemma calls_served:
  "reg_ok s \<Longrightarrow> lease_serves tok (ttl (reg s)) cs (leases_of s) =
     (fst (serves tok cs s), leases_of (snd (serves tok cs s)))"
proof (induction cs arbitrary: s)
  case (Cons c cs)
  obtain x s1 where 1: "serve tok c s = (x, s1)" by fastforce
  obtain xs s2 where 2: "serves tok cs s1 = (xs, s2)" by fastforce
  have s1: "reg_ok s1" "ttl (reg s1) = ttl (reg s)" using serve_keeps [OF Cons.prems, of tok c] 1 by simp_all
  have "lease_serve tok (ttl (reg s)) c (leases_of s) = (x, leases_of s1)"
    using call_served [OF Cons.prems, of tok c] 1 by (simp add: served_def)
  moreover have "lease_serves tok (ttl (reg s)) cs (leases_of s1) = (xs, leases_of s2)"
    using Cons.IH [OF s1(1)] s1(2) 2 by simp
  ultimately show ?case using 1 2 by simp
qed simp

text \<open>C24. The lock registry refines an abstract specification of leases, a map of the live ones and a
  count per memo: for every list of calls - acquire, renew, release, leave, validate, ask,
  time passing, timers firing late or stale - it gives exactly the answers of the
  specification, tokens and generations included, and its live leases are those of the
  specification. There a held memo is refused to another owner, only the owner (or force)
  gives it back, and no timer ends a lease that was renewed.\<close>

theorem registry_refines_leases:
  assumes "serves tok cs (fresh_run t0 life) = (answers, s)"
  shows "lease_serves tok life cs (no_leases t0) = (answers, leases_of s)"
proof -
  have "leases_of (fresh_run t0 life) = no_leases t0" "ttl (reg (fresh_run t0 life)) = life"
    by (simp_all add: leases_of_def no_leases_def fresh_run_def new_registry_def alive_def counts_of_def fun_eq_iff)
  with calls_served [OF reg_ok_fresh, of tok t0 life cs] assms show ?thesis by simp
qed

text \<open>Ann holds the memo, Ben is refused and cannot give it back, and gets it once Ann has left.\<close>

definition shift :: "lock_call list" where
  "shift = [Acquires 1 ''m'' ''ann'' ''u1'' ''Ann'', Acquires 1 ''m'' ''ben'' ''u2'' ''Ben'',
     Releases ''m'' (Some ''ben'') False, Fires ''m'' ''ann'' 11, Validates ''m'' (Some ''t'') None None,
     Leaves ''ann'', Acquires 0 ''m'' ''ben'' ''u2'' ''Ben'']"

definition heard_of :: "string \<Rightarrow> string \<Rightarrow> string \<Rightarrow> string \<Rightarrow> nat \<Rightarrow> holder_view" where
  "heard_of owner user display token n = \<lparr>hv_owner = owner, hv_user = user, hv_display = display,
     hv_token = token, hv_generation = n\<rparr>"

definition shift_answers :: "answer list" where
  "shift_answers = [Lease True (heard_of ''ann'' ''u1'' ''Ann'' ''t'' 1),
     Lease False (heard_of ''ann'' ''u1'' ''Ann'' ''t'' 1), Freed None, Nothing_said, Valid True,
     Ended {''m''}, Lease True (heard_of ''ben'' ''u2'' ''Ben'' ''ttt'' 2)]"

theorem registry_refines_leases_witness:
  "fst (lease_serves sample_tok 10 shift (no_leases 0)) = shift_answers"
proof -
  obtain answers s where run: "serves sample_tok shift (fresh_run 0 10) = (answers, s)" by fastforce
  have "fst (serves sample_tok shift (fresh_run 0 10)) = shift_answers" by code_simp
  with registry_refines_leases [OF run] run show ?thesis by simp
qed

end
