(* ===== verification/Realtime.thy ===== *)
theory Realtime
  imports Sync_Auth Lock_Registry
begin

text \<open>
  \<^verbatim>\<open>src/services/realtime.py\<close>: the hub between the browsers' sockets, the lock registry and the
  other node. A handler runs to its end before the next one, except that others may act while a
  screen share waits for the database (\<open>start_screen_share\<close>); what the source schedules on the
  event loop, the notices of the registry and the closing of a session's sockets, waits in
  \<open>hb_pending\<close> and is carried out by \<open>run_pending\<close>, after any number of handlers. What a handler
  sends is appended to \<open>hb_fx\<close>. Socket.IO, the session service and the network are parameters;
  readings of \<open>monotonic()\<close> are in microseconds. Python's sets keep the order of insertion here.
\<close>

section \<open>State\<close>

datatype target = ToSocket string | ToRoom string "string option" | ToAll

datatype effect =
    Emit string "(string \<times> json) list" target
  | EnterRoom string string
  | LeaveRoom string string
  | CloseSocket string
  | Raised string

datatype task = LockChanged string json | DropSession string

record user_info =
  ui_id :: string
  ui_name :: string
  ui_permission :: "string option"

record share =
  sh_user :: string
  sh_name :: string
  sh_socket :: string

type_synonym sets = "(string \<times> string list) list"

record hub =
  hb_rooms :: sets
  hb_users :: "(string \<times> user_info) list"
  hb_memos :: sets
  hb_locks :: sets
  hb_leases :: "((string \<times> string) \<times> string \<times> int) list"
  hb_shares :: "(string \<times> share) list"
  hb_projects :: sets
  hb_sessions :: "(string \<times> string) list"
  hb_session_sockets :: sets
  hb_offline :: "(string \<times> bool) list"
  hb_watched :: "string list"
  hb_peers :: "(string \<times> string) list"
  hb_loop :: bool
  hb_available :: bool
  hb_quarantine :: int
  hb_registry :: registry
  hb_runtime :: sync_runtime
  hb_event :: nat
  hb_pending :: "task list"
  hb_fx :: "effect list"

record hub_cfg =
  hc_client :: string
  hc_daemon :: bool
  hc_ttl :: int
  hc_peer :: peer_cfg

record hub_env =
  he_mono :: "nat \<Rightarrow> int"
  he_token :: "nat \<Rightarrow> string"
  he_send :: "nat \<Rightarrow> string \<times> string \<times> json \<times> (string \<times> string) list \<Rightarrow> string + json_response"
  he_shown :: "json \<Rightarrow> string"

definition SYNC_ROOM_PREFIX :: string where "SYNC_ROOM_PREFIX = ''sync:''"
definition ORIGIN_SYNC_PULL :: string where "ORIGIN_SYNC_PULL = ''sync-pull''"

definition sync_room :: "string \<Rightarrow> string" where "sync_room account = SYNC_ROOM_PREFIX @ account"
definition memo_room :: "string \<Rightarrow> string" where "memo_room m = ''memo:'' @ m"
definition project_room :: "string \<Rightarrow> string" where "project_room p = ''project:'' @ p"

definition new_hub :: "bool \<Rightarrow> registry \<Rightarrow> sync_runtime \<Rightarrow> hub" where
  "new_hub socketio locks0 run =
     \<lparr>hb_rooms = [], hb_users = [], hb_memos = [], hb_locks = [], hb_leases = [], hb_shares = [],
      hb_projects = [], hb_sessions = [], hb_session_sockets = [], hb_offline = [], hb_watched = [],
      hb_peers = [], hb_loop = False, hb_available = socketio, hb_quarantine = 0,
      hb_registry = locks0, hb_runtime = run, hb_event = 0, hb_pending = [], hb_fx = []\<rparr>"

text \<open>A dictionary of sets: \<open>d.get(k, set())\<close>, \<open>d[k].add(x)\<close> and \<open>d[k].discard(x)\<close>.\<close>

definition members :: "sets \<Rightarrow> string \<Rightarrow> string list" where
  "members d k = (case map_of d k of None \<Rightarrow> [] | Some xs \<Rightarrow> xs)"

definition put_in :: "string \<Rightarrow> string \<Rightarrow> sets \<Rightarrow> sets" where
  "put_in k x d = AList.update k (List.insert x (members d k)) d"

definition take_out :: "string \<Rightarrow> string \<Rightarrow> sets \<Rightarrow> sets" where
  "take_out k x d = AList.update k (removeAll x (members d k)) d"

definition emit :: "string \<Rightarrow> (string \<times> json) list \<Rightarrow> target \<Rightarrow> hub \<Rightarrow> hub" where
  "emit ev fs to h = h\<lparr>hb_fx := hb_fx h @ [Emit ev fs to]\<rparr>"

definition effect :: "effect \<Rightarrow> hub \<Rightarrow> hub" where
  "effect f h = h\<lparr>hb_fx := hb_fx h @ [f]\<rparr>"

definition monotonic :: "hub_env \<Rightarrow> hub \<Rightarrow> int \<times> hub" where
  "monotonic v h = (he_mono v (hb_event h), h\<lparr>hb_event := Suc (hb_event h)\<rparr>)"

text \<open>\<open>str(value)\<close> of a JSON value, and \<open>str(data.get(key))\<close> when there is one.\<close>

definition json_str :: "hub_env \<Rightarrow> json \<Rightarrow> string" where
  "json_str v j = (case j of JStr s \<Rightarrow> s | _ \<Rightarrow> he_shown v j)"

definition get_id :: "hub_env \<Rightarrow> json \<Rightarrow> string \<Rightarrow> string option" where
  "get_id v data k =
     (if json_truthy (json_get data k) then Some (json_str v (json_get data k)) else None)"

definition opt_json :: "string option \<Rightarrow> json" where
  "opt_json x = (case x of None \<Rightarrow> JNull | Some s \<Rightarrow> JStr s)"

definition view_json :: "holder_view \<Rightarrow> json" where
  "view_json x = JObj [(''ownerKey'', JStr (hv_owner x)), (''userId'', JStr (hv_user x)),
     (''displayName'', JStr (hv_display x)), (''leaseToken'', JStr (hv_token x)),
     (''generation'', JInt (int (hv_generation x)))]"

definition view_or_null :: "holder_view option \<Rightarrow> json" where
  "view_or_null x = (case x of None \<Rightarrow> JNull | Some y \<Rightarrow> view_json y)"

text \<open>
  A change of the registry: \<open>_on_lock_change\<close> schedules its notices once a loop is bound.
\<close>

definition set_registry :: "registry \<Rightarrow> hub \<Rightarrow> hub" where
  "set_registry r h =
     h\<lparr>hb_registry := r,
       hb_pending := hb_pending h @
         (if hb_loop h \<and> hb_available h
          then map (\<lambda>n. LockChanged (no_memo n) (view_or_null (no_holder n)))
                 (drop (length (notices (hb_registry h))) (notices r))
          else [])\<rparr>"

section \<open>Sessions of browsers\<close>

definition info_of :: "user \<Rightarrow> user_info" where
  "info_of u = \<lparr>ui_id = us_id u, ui_name = str_or (us_display u) (str_or (us_username u) (us_id u)),
     ui_permission = us_permission u\<rparr>"

definition register_browser_socket :: "string \<Rightarrow> string \<Rightarrow> user \<Rightarrow> bool \<Rightarrow> hub \<Rightarrow> hub" where
  "register_browser_socket sid session u allow h =
     h\<lparr>hb_users := AList.update sid (info_of u) (hb_users h),
       hb_memos := AList.update sid [] (hb_memos h),
       hb_projects := AList.update sid [] (hb_projects h),
       hb_locks := AList.update sid [] (hb_locks h),
       hb_leases := filter (\<lambda>((s, m), l). s \<noteq> sid) (hb_leases h),
       hb_sessions := AList.update sid session (hb_sessions h),
       hb_session_sockets := put_in session sid (hb_session_sockets h),
       hb_offline := AList.update sid allow (hb_offline h),
       hb_watched := List.insert sid (hb_watched h)\<rparr>"

text \<open>The watching task is cancelled, unless it is the one that runs, which ends by itself.\<close>

definition forget_socket_session :: "string \<Rightarrow> hub \<Rightarrow> hub" where
  "forget_socket_session sid h =
     (let h1 = (case map_of (hb_sessions h) sid of
             None \<Rightarrow> h
           | Some ses \<Rightarrow>
               (let left = take_out ses sid (hb_session_sockets h)
                in h\<lparr>hb_sessions := AList.delete sid (hb_sessions h),
                     hb_session_sockets :=
                       (if map_of (hb_session_sockets h) ses = None then hb_session_sockets h
                        else if members left ses = [] then AList.delete ses left else left)\<rparr>))
      in h1\<lparr>hb_offline := AList.delete sid (hb_offline h1),
            hb_watched := removeAll sid (hb_watched h1)\<rparr>)"

text \<open>\<open>sio.disconnect\<close> makes Socket.IO call the \<open>disconnect\<close> handler later.\<close>

definition disconnect_browser_socket :: "string \<Rightarrow> hub \<Rightarrow> hub" where
  "disconnect_browser_socket sid h =
     effect (CloseSocket sid)
       (forget_socket_session sid (h\<lparr>hb_users := AList.delete sid (hb_users h)\<rparr>))"

definition disconnect_session_sockets :: "string \<Rightarrow> hub \<Rightarrow> hub" where
  "disconnect_session_sockets ses h = fold disconnect_browser_socket (members (hb_session_sockets h) ses) h"

definition on_session_invalidated :: "string \<Rightarrow> hub \<Rightarrow> hub" where
  "on_session_invalidated ses h =
     (if \<not> hb_loop h \<or> \<not> hb_available h then h
      else h\<lparr>hb_pending := hb_pending h @ [DropSession ses]\<rparr>)"

text \<open>\<open>validated\<close> is what the session service answers for the socket's session.\<close>

definition revalidate_browser_session ::
  "(string \<Rightarrow> bool \<Rightarrow> user option) \<Rightarrow> string \<Rightarrow> hub \<Rightarrow> bool \<times> hub" where
  "revalidate_browser_session validated sid h =
     (case map_of (hb_sessions h) sid of
        None \<Rightarrow> (False, h)
      | Some ses \<Rightarrow>
          (case validated ses (map_of (hb_offline h) sid = Some True) of
             None \<Rightarrow> (False, disconnect_browser_socket sid h)
           | Some u \<Rightarrow> (True, h\<lparr>hb_users := AList.update sid (info_of u) (hb_users h)\<rparr>)))"


section \<open>Access\<close>

definition socket_user :: "user_info \<Rightarrow> user" where
  "socket_user u = \<lparr>us_id = ui_id u, us_login = None, us_username = None, us_display = None,
     us_name = None, us_email = None, us_permission = ui_permission u\<rparr>"

definition can_access_memo :: "env \<Rightarrow> string \<Rightarrow> user_info \<Rightarrow> bool \<Rightarrow> store \<Rightarrow> bool" where
  "can_access_memo e m u require_write s =
     (case find (\<lambda>r. id_is e m r \<and> live r) (tabs s Memos) of
        None \<Rightarrow> False
      | Some r \<Rightarrow>
          (if require_write then can_write_project else check_project_membership)
            e (str_or (row_str r ''project_id'') []) (socket_user u) s)"

definition can_access_project :: "env \<Rightarrow> string \<Rightarrow> user_info \<Rightarrow> bool \<Rightarrow> store \<Rightarrow> bool" where
  "can_access_project e p u require_write s =
     (find (\<lambda>r. id_is e p r \<and> live r) (tabs s Projects) \<noteq> None \<and>
      (if require_write then can_write_project else check_project_membership) e p (socket_user u) s)"

section \<open>Locks, here or at the peer\<close>

definition owner_key :: "hub_cfg \<Rightarrow> string \<Rightarrow> string" where
  "owner_key g sid = hc_client g @ '':'' @ sid"

text \<open>
  \<open>_delegate_lock\<close>: None is the answer when the lock is managed here. An error is the message of
  \<open>LockDelegationError\<close>.
\<close>

definition delegate_lock ::
  "hub_cfg \<Rightarrow> hub_env \<Rightarrow> string \<times> string \<times> json \<Rightarrow> hub
     \<Rightarrow> (string + (string \<times> json) list option) \<times> hub" where
  "delegate_lock g v req h =
     (if \<not> hc_daemon g then (Inr None, h)
      else if \<not> rt_online (hb_runtime h) then
        (case monotonic v h of (now, h1) \<Rightarrow>
           if now < hb_quarantine h then
             (Inl ''remote lock outcome is uncertain; wait for its lease to expire'', h1)
           else if rt_error_kind (hb_runtime h) \<noteq> Some ''offline'' then
             (Inl ''offline lock mode is not established yet'', h1)
           else (Inr None, h1))
      else if \<not> configured (hc_peer g) then (Inl ''sync peer is not configured'', h)
      else case call (he_send v (hb_event h)) (hc_peer g) req of
             Inr fs \<Rightarrow> (Inr (Some fs), h\<lparr>hb_event := Suc (hb_event h), hb_quarantine := 0\<rparr>)
           | Inl (Unreachable why) \<Rightarrow>
               (case monotonic v (h\<lparr>hb_event := Suc (hb_event h),
                      hb_runtime := mark_offline (''lock delegation failed: '' @ why) (hb_runtime h)\<rparr>) of
                  (now, h1) \<Rightarrow>
                    (Inl ''sync peer is unreachable'', h1\<lparr>hb_quarantine := now + hc_ttl g * 1000000\<rparr>))
           | Inl (PeerError st d) \<Rightarrow>
               (Inl ''sync peer rejected the lock request'', h\<lparr>hb_event := Suc (hb_event h)\<rparr>))"

definition field :: "(string \<times> json) list \<Rightarrow> string \<Rightarrow> json" where
  "field fs k = json_get (JObj fs) k"

definition resolve_lock_holder :: "hub_cfg \<Rightarrow> hub_env \<Rightarrow> string \<Rightarrow> hub \<Rightarrow> (string + json) \<times> hub" where
  "resolve_lock_holder g v m h =
     (case delegate_lock g v (lock_holder_request m) h of
        (Inl why, h1) \<Rightarrow> (Inl why, h1)
      | (Inr (Some fs), h1) \<Rightarrow> (Inr (field fs ''holder''), h1)
      | (Inr None, h1) \<Rightarrow>
          (case monotonic v h1 of (now, h2) \<Rightarrow>
             (Inr (view_or_null (current_holder now m (hb_registry h2))), h2)))"

text \<open>The lease tokens a socket was given, each with the moment the hub stops trusting it.\<close>

definition drop_claim :: "string \<Rightarrow> string \<Rightarrow> hub \<Rightarrow> hub" where
  "drop_claim sid m h =
     h\<lparr>hb_locks := take_out sid m (hb_locks h), hb_leases := AList.delete (sid, m) (hb_leases h)\<rparr>"

definition clear_socket_lease_state :: "string \<Rightarrow> hub \<Rightarrow> hub" where
  "clear_socket_lease_state m h = fold (\<lambda>sid. drop_claim sid m) (map fst (hb_locks h)) h"

definition reconcile_one :: "hub_cfg \<Rightarrow> string \<Rightarrow> string \<Rightarrow> string \<Rightarrow> string \<Rightarrow> hub \<Rightarrow> hub" where
  "reconcile_one g m owner token sid h =
     (if m \<in> set (members (hb_locks h) sid) \<and>
         (owner \<noteq> owner_key g sid \<and> owner \<noteq> ''peer:'' @ owner_key g sid \<or>
          (case map_of (hb_leases h) (sid, m) of None \<Rightarrow> True | Some (t, d) \<Rightarrow> t \<noteq> token))
      then drop_claim sid m h else h)"

definition reconcile_socket_lease_state :: "hub_cfg \<Rightarrow> string \<Rightarrow> string \<Rightarrow> string \<Rightarrow> hub \<Rightarrow> hub" where
  "reconcile_socket_lease_state g m owner token h =
     fold (reconcile_one g m owner token) (map fst (hb_locks h)) h"

definition after_prefix :: "string \<Rightarrow> string \<Rightarrow> string option" where
  "after_prefix p s = (if take (length p) s = p then Some (drop (length p) s) else None)"

definition owner_socket :: "hub_cfg \<Rightarrow> string \<Rightarrow> string option" where
  "owner_socket g owner =
     (case after_prefix (hc_client g @ '':'') owner of
        Some sid \<Rightarrow> Some sid
      | None \<Rightarrow> after_prefix (''peer:'' @ hc_client g @ '':'') owner)"

text \<open>\<open>str(holder.get(k) or "")\<close>\<close>

definition text_field :: "hub_env \<Rightarrow> json \<Rightarrow> string \<Rightarrow> string" where
  "text_field v j k = (if json_truthy (json_get j k) then json_str v (json_get j k) else [])"

definition emit_lock_state :: "hub_cfg \<Rightarrow> hub_env \<Rightarrow> string \<Rightarrow> json \<Rightarrow> hub \<Rightarrow> hub" where
  "emit_lock_state g v m j h =
     (if \<not> hb_available h then h
      else if j = JNull then
        emit ''memoUnlocked'' [(''memoId'', JStr m)] (ToRoom (memo_room m) None)
          (clear_socket_lease_state m h)
      else if \<not> is_object j then effect (Raised ''AttributeError'') h
      else let owner = text_field v j ''ownerKey'' in
        emit ''memoLocked''
          [(''memoId'', JStr m), (''displayName'', json_get j ''displayName''),
           (''userId'', json_get j ''userId'')]
          (ToRoom (memo_room m) (owner_socket g owner))
          (reconcile_socket_lease_state g m owner (text_field v j ''leaseToken'') h))"

definition broadcast_lock_change :: "hub_cfg \<Rightarrow> hub_env \<Rightarrow> string \<Rightarrow> json \<Rightarrow> hub \<Rightarrow> hub" where
  "broadcast_lock_change g v m j h =
     fold (\<lambda>account. emit ''syncLockChanged'' [(''memoId'', JStr m), (''holder'', j)]
                       (ToRoom (sync_room account) None))
       (remdups (map snd (hb_peers h))) (emit_lock_state g v m j h)"

text \<open>The event loop takes up the oldest scheduled task.\<close>

definition run_pending :: "hub_cfg \<Rightarrow> hub_env \<Rightarrow> hub \<Rightarrow> hub" where
  "run_pending g v h =
     (case hb_pending h of
        [] \<Rightarrow> h
      | LockChanged m j # ts \<Rightarrow> broadcast_lock_change g v m j (h\<lparr>hb_pending := ts\<rparr>)
      | DropSession ses # ts \<Rightarrow> disconnect_session_sockets ses (h\<lparr>hb_pending := ts\<rparr>))"

section \<open>Taking and giving back a lock\<close>

definition renew_after_ms :: "hub_cfg \<Rightarrow> int" where
  "renew_after_ms g = max (hc_ttl g * 1000 div 3) 1000"

definition trust_span :: "hub_cfg \<Rightarrow> int" where
  "trust_span g = max (hc_ttl g * 750000) 1000000"

definition local_acquire ::
  "hub_env \<Rightarrow> string \<Rightarrow> string \<Rightarrow> user_info \<Rightarrow> hub \<Rightarrow> (bool \<times> json) \<times> hub" where
  "local_acquire v m owner u h =
     (let (now, h1) = monotonic v h; (later, h2) = monotonic v h1 in
      case acquire now later (he_token v (hb_event h)) m owner (ui_id u) (ui_name u) (hb_registry h2) of
        ((ok, x), r) \<Rightarrow> ((ok, view_json x), set_registry r h2))"

text \<open>What follows the answer: the claim of the socket, its token, and who is told.\<close>

definition settle_acquire ::
  "hub_cfg \<Rightarrow> hub_env \<Rightarrow> string \<Rightarrow> string \<Rightarrow> user_info \<Rightarrow> bool \<Rightarrow> bool \<times> json \<Rightarrow> hub \<Rightarrow> hub" where
  "settle_acquire g v sid m u renewal answer h =
     (case answer of (ok, j) \<Rightarrow>
        if \<not> is_object j then
          effect (Raised ''AttributeError'')
            (if ok then h\<lparr>hb_locks := put_in sid m (hb_locks h)\<rparr> else drop_claim sid m h)
        else if \<not> ok then
          emit ''lockDenied''
            [(''memoId'', JStr m), (''lockedBy'', json_get j ''displayName''),
             (''lockedByUserId'', json_get j ''userId'')] (ToSocket sid) (drop_claim sid m h)
        else if text_field v j ''leaseToken'' = [] then
          emit ''lockDenied''
            [(''memoId'', JStr m), (''reason'', JStr ''invalid_lease''),
             (''message'', JStr ''lock service did not issue a lease token'')] (ToSocket sid)
            (h\<lparr>hb_locks := take_out sid m (put_in sid m (hb_locks h))\<rparr>)
        else let (now, h1) = monotonic v (h\<lparr>hb_locks := put_in sid m (hb_locks h)\<rparr>);
                 token = text_field v j ''leaseToken'';
                 h2 = h1\<lparr>hb_leases := AList.update (sid, m) (token, now + trust_span g) (hb_leases h1)\<rparr>;
                 grant = [(''memoId'', JStr m), (''leaseToken'', JStr token),
                   (''generation'', json_get j ''generation''), (''renewAfterMs'', JInt (renew_after_ms g))]
             in if renewal then emit ''lockLeaseRenewed'' grant (ToSocket sid) h2
                else emit ''lockAcquired'' grant (ToSocket sid)
                       (emit ''memoLocked''
                          [(''memoId'', JStr m), (''displayName'', JStr (ui_name u)),
                           (''userId'', JStr (ui_id u))] (ToRoom (memo_room m) (Some sid)) h2))"

definition acquire_lock ::
  "env \<Rightarrow> hub_cfg \<Rightarrow> hub_env \<Rightarrow> string \<Rightarrow> string \<Rightarrow> bool \<Rightarrow> store \<Rightarrow> hub \<Rightarrow> hub" where
  "acquire_lock e g v sid m renewal s h =
     (case map_of (hb_users h) sid of
        None \<Rightarrow> h
      | Some u \<Rightarrow>
          if m \<notin> set (members (hb_memos h) sid) \<or> \<not> can_access_memo e m u True s then
            emit ''lockDenied'' [(''memoId'', JStr m), (''reason'', JStr ''access_denied'')]
              (ToSocket sid) h
          else case delegate_lock g v
                      (lock_acquire_request m (owner_key g sid) (ui_id u) (ui_name u)) h of
                 (Inl why, h1) \<Rightarrow>
                   emit ''lockDenied''
                     [(''memoId'', JStr m), (''lockedBy'', JStr ''sync server connection error''),
                      (''lockedByUserId'', JNull), (''reason'', JStr ''delegation_unavailable''),
                      (''message'', JStr why)] (ToSocket sid) h1
               | (Inr (Some fs), h1) \<Rightarrow>
                   settle_acquire g v sid m u renewal
                     (json_truthy (field fs ''acquired''),
                      if json_truthy (field fs ''holder'') then field fs ''holder'' else JObj []) h1
               | (Inr None, h1) \<Rightarrow>
                   (case local_acquire v m (owner_key g sid) u h1 of
                      (answer, h2) \<Rightarrow> settle_acquire g v sid m u renewal answer h2))"

definition release_lock :: "hub_cfg \<Rightarrow> hub_env \<Rightarrow> string \<Rightarrow> string \<Rightarrow> hub \<Rightarrow> hub" where
  "release_lock g v sid m h =
     (if m \<notin> set (members (hb_locks h) sid) then h
      else case delegate_lock g v (lock_release_request m (owner_key g sid)) h of
             (Inl why, h1) \<Rightarrow>
               emit ''lockReleaseFailed'' [(''memoId'', JStr m), (''message'', JStr why)] (ToSocket sid) h1
           | (Inr None, h1) \<Rightarrow>
               (case monotonic v h1 of (now, h2) \<Rightarrow>
                  (case release now m (Some (owner_key g sid)) False (hb_registry h2) of
                     (freed, r) \<Rightarrow> drop_claim sid m (set_registry r h2)))
           | (Inr (Some fs), h1) \<Rightarrow>
               if \<not> json_truthy (field fs ''released'') then
                 emit ''lockReleaseFailed''
                   [(''memoId'', JStr m), (''message'', JStr ''lock is not owned by this socket'')]
                   (ToSocket sid) (drop_claim sid m h1)
               else emit_lock_state g v m JNull (drop_claim sid m h1))"

definition leave_memo :: "hub_cfg \<Rightarrow> hub_env \<Rightarrow> string \<Rightarrow> string \<Rightarrow> hub \<Rightarrow> hub" where
  "leave_memo g v sid m h =
     (let h1 = effect (LeaveRoom sid (memo_room m)) h;
          rooms = take_out m sid (hb_rooms h1);
          h2 = h1\<lparr>hb_rooms := (if members rooms m = [] then AList.delete m rooms else rooms),
                  hb_memos := take_out sid m (hb_memos h1)\<rparr>
      in release_lock g v sid m h2)"

section \<open>What a lease is good for\<close>

definition socket_owns_valid_lease :: "hub_cfg \<Rightarrow> hub_env \<Rightarrow> string \<Rightarrow> string \<Rightarrow> hub \<Rightarrow> bool \<times> hub" where
  "socket_owns_valid_lease g v sid m h =
     (case map_of (hb_users h) sid of
        None \<Rightarrow> (False, h)
      | Some u \<Rightarrow>
          if m \<notin> set (members (hb_memos h) sid) \<or> m \<notin> set (members (hb_locks h) sid) then (False, h)
          else case map_of (hb_leases h) (sid, m) of
                 None \<Rightarrow> (False, h)
               | Some (token, until) \<Rightarrow>
                   (case monotonic v h of (now, h1) \<Rightarrow>
                      if until \<le> now then (False, h1)
                      else if hc_daemon g then (True, h1)
                      else case monotonic v h1 of (now', h2) \<Rightarrow>
                             (validate now' m (Some token) (Some (ui_id u)) (Some (owner_key g sid))
                                (hb_registry h2), h2)))"

fun rest_lease_among ::
  "hub_cfg \<Rightarrow> hub_env \<Rightarrow> string \<Rightarrow> string \<Rightarrow> string \<Rightarrow> (string \<times> user_info) list \<Rightarrow> hub \<Rightarrow> bool \<times> hub" where
  "rest_lease_among g v m user token [] h = (False, h)"
| "rest_lease_among g v m user token ((sid, u) # us) h =
     (if ui_id u \<noteq> user then rest_lease_among g v m user token us h
      else case map_of (hb_leases h) (sid, m) of
             None \<Rightarrow> rest_lease_among g v m user token us h
           | Some (t, until) \<Rightarrow>
               if t \<noteq> token then rest_lease_among g v m user token us h
               else (case monotonic v h of (now, h1) \<Rightarrow>
                 if until \<le> now then rest_lease_among g v m user token us h1
                 else case socket_owns_valid_lease g v sid m h1 of
                        (ok, h2) \<Rightarrow> if ok then (True, h2)
                                   else rest_lease_among g v m user token us h2))"

definition validate_rest_lease ::
  "hub_cfg \<Rightarrow> hub_env \<Rightarrow> string \<Rightarrow> string \<Rightarrow> string option \<Rightarrow> hub \<Rightarrow> bool \<times> hub" where
  "validate_rest_lease g v m user token h =
     (if blank token then (False, h) else rest_lease_among g v m user (the token) (hb_users h) h)"


section \<open>Sockets come and go\<close>

text \<open>\<open>_extract_headers\<close>: the headers of the ASGI scope, or the \<open>HTTP_\<close> entries of the environ.\<close>

definition extract_headers ::
  "(string \<times> string) list \<Rightarrow> (string \<times> string) list \<Rightarrow> (string \<times> string) list" where
  "extract_headers scope environ =
     (let hs = normalize_headers scope in
      if hs \<noteq> [] then hs
      else foldl (\<lambda>d (k, x). case after_prefix ''HTTP_'' k of
                     None \<Rightarrow> d
                   | Some n \<Rightarrow> AList.update
                       (lower (map (\<lambda>c. if c = CHR ''_'' then CHR ''-'' else c) n)) x d) [] environ)"

text \<open>Only a \<open>TypeError\<close> of the comparison escapes; every other failure means no peer.\<close>

definition authenticate_peer_socket ::
  "env \<Rightarrow> auth_cfg \<Rightarrow> auth_env \<Rightarrow> string \<Rightarrow> (string \<times> string) list \<Rightarrow> store \<Rightarrow> auth_state
     \<Rightarrow> (string + string option) \<times> auth_state" where
  "authenticate_peer_socket e ac ae configured_account hs s a =
     (if \<not> ac_serves ac \<or> header hs KEY_HEADER = [] then (Inr None, a)
      else case resolve_account_id e configured_account s of
             Inl x \<Rightarrow> (Inr None, a)
           | Inr account \<Rightarrow>
               (case authenticate_headers ac ae hs account a of
                  (Inl (AuthCrash m), a1) \<Rightarrow> (Inl m, a1)
                | (Inl x, a1) \<Rightarrow> (Inr None, a1)
                | (Inr p, a1) \<Rightarrow> (Inr (Some (pr_account p)), a1)))"

text \<open>
  \<open>connect\<close>: \<open>session\<close> is the valid session of the cookie, if any, and \<open>allow\<close> whether the
  connection may outlive an unreachable authentication service.
\<close>

definition connect ::
  "env \<Rightarrow> auth_cfg \<Rightarrow> auth_env \<Rightarrow> string \<Rightarrow> string \<Rightarrow> (string \<times> string) list \<Rightarrow> (string \<times> user) option
     \<Rightarrow> bool \<Rightarrow> store \<Rightarrow> auth_state \<Rightarrow> hub \<Rightarrow> bool \<times> auth_state \<times> hub" where
  "connect e ac ae configured_account sid hs session allow s a h =
     (let h1 = h\<lparr>hb_loop := True\<rparr> in
      case session of
        Some (ses, u) \<Rightarrow> (True, a, register_browser_socket sid ses u allow h1)
      | None \<Rightarrow>
          (case authenticate_peer_socket e ac ae configured_account hs s a of
             (Inl m, a1) \<Rightarrow> (False, a1, effect (Raised m) h1)
           | (Inr None, a1) \<Rightarrow> (False, a1, h1)
           | (Inr (Some account), a1) \<Rightarrow>
               (True, a1,
                emit ''syncSubscribed'' [(''accountId'', JStr account)] (ToSocket sid)
                  (effect (EnterRoom sid (sync_room account))
                    (h1\<lparr>hb_peers := AList.update sid account (hb_peers h1)\<rparr>)))))"

definition share_stopped :: "string \<Rightarrow> hub \<Rightarrow> hub" where
  "share_stopped p h =
     emit ''screenShareStopped'' [(''projectId'', JStr p)] (ToRoom (project_room p) None) h"

definition stop_screen_share :: "string \<Rightarrow> hub \<Rightarrow> hub" where
  "stop_screen_share p h = share_stopped p (h\<lparr>hb_shares := AList.delete p (hb_shares h)\<rparr>)"

definition disconnect :: "hub_cfg \<Rightarrow> hub_env \<Rightarrow> string \<Rightarrow> hub \<Rightarrow> hub" where
  "disconnect g v sid h =
     (if map_of (hb_peers h) sid \<noteq> None then h\<lparr>hb_peers := AList.delete sid (hb_peers h)\<rparr>
      else let h1 = fold (leave_memo g v sid) (members (hb_memos h) sid) h;
               stopped = map fst (filter (\<lambda>(p, sh). sh_socket sh = sid) (hb_shares h1));
               h2 = fold share_stopped stopped
                      (h1\<lparr>hb_shares := filter (\<lambda>(p, sh). sh_socket sh \<noteq> sid) (hb_shares h1)\<rparr>);
               h3 = fold (release_lock g v sid) (members (hb_locks h2) sid) h2
           in forget_socket_session sid
                (h3\<lparr>hb_users := AList.delete sid (hb_users h3),
                    hb_memos := AList.delete sid (hb_memos h3),
                    hb_projects := AList.delete sid (hb_projects h3),
                    hb_locks := AList.delete sid (hb_locks h3),
                    hb_leases := filter (\<lambda>((i, m), l). i \<noteq> sid) (hb_leases h3)\<rparr>))"

section \<open>Projects and their shared screen\<close>

definition sharer_json :: "share \<Rightarrow> json" where
  "sharer_json sh = JObj [(''userId'', JStr (sh_user sh)), (''displayName'', JStr (sh_name sh))]"

definition join_project ::
  "env \<Rightarrow> hub_env \<Rightarrow> string \<Rightarrow> json \<Rightarrow> store \<Rightarrow> hub \<Rightarrow> hub" where
  "join_project e v sid data s h =
     (case get_id v data ''projectId'' of
        None \<Rightarrow> h
      | Some p \<Rightarrow>
          (case map_of (hb_users h) sid of
             Some u \<Rightarrow>
               if can_access_project e p u False s then
                 emit ''screenShareStatus''
                   [(''projectId'', JStr p), (''isSharing'', JBool (map_of (hb_shares h) p \<noteq> None)),
                    (''sharer'', case map_of (hb_shares h) p of None \<Rightarrow> JNull | Some sh \<Rightarrow> sharer_json sh)]
                   (ToSocket sid)
                   (effect (EnterRoom sid (project_room p))
                     (h\<lparr>hb_projects := put_in sid p (hb_projects h)\<rparr>))
               else emit ''projectAccessDenied'' [(''projectId'', JStr p)] (ToSocket sid) h
           | None \<Rightarrow> emit ''projectAccessDenied'' [(''projectId'', JStr p)] (ToSocket sid) h))"

definition leave_project :: "hub_env \<Rightarrow> string \<Rightarrow> json \<Rightarrow> hub \<Rightarrow> hub" where
  "leave_project v sid data h =
     (case get_id v data ''projectId'' of
        None \<Rightarrow> h
      | Some p \<Rightarrow>
          if p \<notin> set (members (hb_projects h) sid) then h
          else let h1 = effect (LeaveRoom sid (project_room p))
                     (h\<lparr>hb_projects := take_out sid p (hb_projects h)\<rparr>)
               in case map_of (hb_shares h) p of
                    None \<Rightarrow> h1
                  | Some sh \<Rightarrow> if sh_socket sh = sid then stop_screen_share p h1 else h1)"

text \<open>
  The membership of the socket is checked before the handler waits for the database, the share
  of the project after it: \<open>between\<close> is what other handlers do to the hub meanwhile.
\<close>

definition start_screen_share ::
  "env \<Rightarrow> hub_env \<Rightarrow> string \<Rightarrow> json \<Rightarrow> store \<Rightarrow> (hub \<Rightarrow> hub) \<Rightarrow> hub \<Rightarrow> bool \<times> hub" where
  "start_screen_share e v sid data s between h =
     (case get_id v data ''projectId'' of
        None \<Rightarrow> (False, h)
      | Some p \<Rightarrow>
          let denied = (\<lambda>h. (False, emit ''screenShareDenied'' [(''projectId'', JStr p)] (ToSocket sid) h)) in
          case map_of (hb_users h) sid of
            None \<Rightarrow> denied h
          | Some u \<Rightarrow>
              if p \<notin> set (members (hb_projects h) sid) then denied h
              else let h1 = between h in
                if \<not> can_access_project e p u True s then denied h1
                else if (case map_of (hb_shares h1) p of None \<Rightarrow> False | Some x \<Rightarrow> sh_socket x \<noteq> sid)
                then denied h1
                else let sh = \<lparr>sh_user = ui_id u, sh_name = ui_name u, sh_socket = sid\<rparr> in
                   (True, emit ''screenShareStarted''
                      [(''projectId'', JStr p), (''sharer'', sharer_json sh)]
                      (ToRoom (project_room p) None)
                      (h1\<lparr>hb_shares := AList.update p sh (hb_shares h1)\<rparr>)))"

definition stop_share :: "hub_env \<Rightarrow> string \<Rightarrow> json \<Rightarrow> hub \<Rightarrow> hub" where
  "stop_share v sid data h =
     (case get_id v data ''projectId'' of
        None \<Rightarrow> h
      | Some p \<Rightarrow>
          if p \<notin> set (members (hb_projects h) sid) then h
          else case map_of (hb_shares h) p of
                 None \<Rightarrow> h
               | Some sh \<Rightarrow> if sh_socket sh \<noteq> sid then h else stop_screen_share p h)"

section \<open>Memos\<close>

definition has_key :: "json \<Rightarrow> string \<Rightarrow> bool" where
  "has_key j k = (case j of JObj fs \<Rightarrow> map_of fs k \<noteq> None | _ \<Rightarrow> False)"

definition join_memo ::
  "env \<Rightarrow> hub_cfg \<Rightarrow> hub_env \<Rightarrow> string \<Rightarrow> json \<Rightarrow> store \<Rightarrow> hub \<Rightarrow> hub" where
  "join_memo e g v sid data s h =
     (case get_id v data ''memoId'' of
        None \<Rightarrow> h
      | Some m \<Rightarrow>
          (case map_of (hb_users h) sid of
             None \<Rightarrow> emit ''memoAccessDenied'' [(''memoId'', JStr m)] (ToSocket sid) h
           | Some u \<Rightarrow>
               if \<not> can_access_memo e m u False s then
                 emit ''memoAccessDenied'' [(''memoId'', JStr m)] (ToSocket sid) h
               else let h1 = effect (EnterRoom sid (memo_room m))
                          (h\<lparr>hb_rooms := put_in m sid (hb_rooms h), hb_memos := put_in sid m (hb_memos h)\<rparr>)
                    in case resolve_lock_holder g v m h1 of
                         (found, h2) \<Rightarrow>
                           (let j = (case found of Inl why \<Rightarrow> JNull | Inr x \<Rightarrow> x) in
                            if json_truthy j \<and> \<not> is_object j then effect (Raised ''TypeError'') h2
                            else if json_truthy j \<and> \<not> (has_key j ''displayName'' \<and> has_key j ''userId'')
                            then effect (Raised ''KeyError'') h2
                            else emit ''lockStatus''
                              [(''memoId'', JStr m),
                               (''lockedBy'', json_get j ''displayName''),
                               (''lockedByUserId'', json_get j ''userId''),
                               (''available'', JBool (case found of Inl why \<Rightarrow> False | Inr x \<Rightarrow> True))]
                              (ToSocket sid) h2)))"

definition leave_memo_event :: "hub_cfg \<Rightarrow> hub_env \<Rightarrow> string \<Rightarrow> json \<Rightarrow> hub \<Rightarrow> hub" where
  "leave_memo_event g v sid data h =
     (case get_id v data ''memoId'' of None \<Rightarrow> h | Some m \<Rightarrow> leave_memo g v sid m h)"

definition lock_memo ::
  "env \<Rightarrow> hub_cfg \<Rightarrow> hub_env \<Rightarrow> string \<Rightarrow> json \<Rightarrow> store \<Rightarrow> hub \<Rightarrow> hub" where
  "lock_memo e g v sid data s h =
     (case get_id v data ''memoId'' of
        None \<Rightarrow> h
      | Some m \<Rightarrow> if m \<notin> set (members (hb_memos h) sid) then h else acquire_lock e g v sid m False s h)"

definition renew_memo_lock ::
  "env \<Rightarrow> hub_cfg \<Rightarrow> hub_env \<Rightarrow> string \<Rightarrow> json \<Rightarrow> store \<Rightarrow> hub \<Rightarrow> hub" where
  "renew_memo_lock e g v sid data s h =
     (case get_id v data ''memoId'' of
        None \<Rightarrow> h
      | Some m \<Rightarrow> if m \<notin> set (members (hb_locks h) sid) then h else acquire_lock e g v sid m True s h)"

definition unlock_memo :: "hub_cfg \<Rightarrow> hub_env \<Rightarrow> string \<Rightarrow> json \<Rightarrow> hub \<Rightarrow> hub" where
  "unlock_memo g v sid data h =
     (case get_id v data ''memoId'' of
        None \<Rightarrow> h
      | Some m \<Rightarrow> if m \<notin> set (members (hb_locks h) sid) then h else release_lock g v sid m h)"

definition broadcast_memo_update ::
  "env \<Rightarrow> hub_cfg \<Rightarrow> hub_env \<Rightarrow> string \<Rightarrow> json \<Rightarrow> store \<Rightarrow> hub \<Rightarrow> bool \<times> hub" where
  "broadcast_memo_update e g v sid data s h =
     (case get_id v data ''memoId'' of
        None \<Rightarrow> (False, h)
      | Some m \<Rightarrow>
          (case map_of (hb_users h) sid of
             None \<Rightarrow> (False, h)
           | Some u \<Rightarrow>
               if m \<notin> set (members (hb_memos h) sid) then (False, h)
               else case socket_owns_valid_lease g v sid m h of
                      (ok, h1) \<Rightarrow>
                        if \<not> ok \<or> \<not> can_access_memo e m u True s then (False, h1)
                        else (True, emit ''memoContentUpdated''
                          [(''memoId'', JStr m),
                           (''content'', case data of JObj fs \<Rightarrow>
                              (case map_of fs ''content'' of None \<Rightarrow> JStr [] | Some x \<Rightarrow> x) | _ \<Rightarrow> JNull),
                           (''title'', json_get data ''title''), (''origin'', JStr ''peer-editor'')]
                          (ToRoom (memo_room m) (Some sid)) h1)))"

section \<open>Notices of the synchronisation\<close>

definition emit_sync_changed :: "string \<Rightarrow> int \<Rightarrow> hub \<Rightarrow> hub" where
  "emit_sync_changed account seq h =
     (if \<not> hb_available h then h
      else emit ''syncChanged'' [(''accountId'', JStr account), (''maxSeq'', JInt seq)]
             (ToRoom (sync_room account) None) h)"

definition emit_sync_applied :: "(string \<times> json) list \<Rightarrow> hub \<Rightarrow> hub" where
  "emit_sync_applied payload h = (if \<not> hb_available h then h else emit ''syncApplied'' payload ToAll h)"

definition emit_memo_pulled ::
  "string \<Rightarrow> string option \<Rightarrow> string option \<Rightarrow> string option \<Rightarrow> hub \<Rightarrow> hub" where
  "emit_memo_pulled m content title at_utc h =
     (if \<not> hb_available h then h
      else emit ''memoContentUpdated''
        [(''memoId'', JStr m), (''content'', JStr (str_or content [])), (''title'', opt_json title),
         (''origin'', JStr ORIGIN_SYNC_PULL), (''updatedAtUtc'', opt_json at_utc)]
        (ToRoom (memo_room m) None) h)"

end
