(* ===== verification/Memo_Api.thy ===== *)
theory Memo_Api
  imports Realtime
begin

text \<open>
  \<^verbatim>\<open>src/routers/memos.py\<close>: the browser's own memos. Saving one needs the write role, a live edit
  lease of the hub and, when the editor says what it started from, that very revision. A reply
  is the dictionary the endpoint returns; \<open>sha\<close> stands for SHA-256 of the canonical JSON of
  content, id and \<open>updatedAtUtc\<close>. \<open>FOR UPDATE\<close> has no effect on a sequential model.
\<close>

section \<open>Views\<close>

text \<open>\<open>isoformat()\<close> of a naive datetime: the fraction only when there is one.\<close>

definition isoformat :: "int \<Rightarrow> string" where
  "isoformat w =
     (case date_of w of (y, m, d) \<Rightarrow>
        digs 4 y @ ''-'' @ digs 2 m @ ''-'' @ digs 2 d @ ''T'' @
        digs 2 (hour_of w) @ '':'' @ digs 2 (minute_of w) @ '':'' @ digs 2 (second_of w) @
        (if w mod 1000000 = 0 then [] else ''.'' @ digs 6 (w mod 1000000)))"

definition stamp :: "row \<Rightarrow> string \<Rightarrow> exn + val" where
  "stamp r c = (case row_get r c of VTime t \<Rightarrow> Inr (VStr (isoformat t))
     | _ \<Rightarrow> Inl (AttributeError ''isoformat''))"

definition utc_stamp :: "row \<Rightarrow> val" where
  "utc_stamp r = (case row_clock r of None \<Rightarrow> VNull | Some t \<Rightarrow> VStr (iso_db t))"

type_synonym revision = "val \<times> val \<times> val \<Rightarrow> string"

definition memo_revision :: "revision \<Rightarrow> row \<Rightarrow> string" where
  "memo_revision sha r = sha (row_get r ''content'', row_get r ''id'', utc_stamp r)"

definition serialize_memo :: "revision \<Rightarrow> row \<Rightarrow> exn + row" where
  "serialize_memo sha r =
     sbind (stamp r ''created_at'') (\<lambda>created. sbind (stamp r ''updated_at'') (\<lambda>updated.
       Inr [(''id'', row_get r ''id''), (''projectId'', row_get r ''project_id''),
            (''createdBy'', row_get r ''created_by''), (''title'', row_get r ''title''),
            (''content'', row_get r ''content''), (''status'', row_get r ''status''),
            (''createdAt'', created), (''updatedAt'', updated), (''updatedAtUtc'', utc_stamp r),
            (''revision'', VStr (memo_revision sha r))]))"

definition serialize_version_summary :: "row \<Rightarrow> exn + row" where
  "serialize_version_summary r =
     sbind (stamp r ''created_at'') (\<lambda>created.
       Inr [(''id'', row_get r ''id''), (''memoId'', row_get r ''memo_id''),
            (''version'', row_get r ''version''), (''note'', row_get r ''note''),
            (''createdAt'', created), (''updatedAtUtc'', utc_stamp r)])"

definition serialize_version :: "row \<Rightarrow> exn + row" where
  "serialize_version r =
     sbind (stamp r ''created_at'') (\<lambda>created.
       Inr [(''id'', row_get r ''id''), (''memoId'', row_get r ''memo_id''),
            (''content'', row_get r ''content''), (''version'', row_get r ''version''),
            (''note'', row_get r ''note''), (''createdAt'', created), (''updatedAtUtc'', utc_stamp r)])"

text \<open>A list comprehension over a function that may raise.\<close>

fun collect :: "('a \<Rightarrow> exn + 'b) \<Rightarrow> 'a list \<Rightarrow> exn + 'b list" where
  "collect f [] = Inr []"
| "collect f (x # xs) = sbind (f x) (\<lambda>y. sbind (collect f xs) (\<lambda>ys. Inr (y # ys)))"

section \<open>Guards\<close>

definition live_row :: "env \<Rightarrow> tbl \<Rightarrow> string \<Rightarrow> store \<Rightarrow> row option" where
  "live_row e t i s = find (\<lambda>r. id_is e i r \<and> live r) (tabs s t)"

definition require_live_project :: "env \<Rightarrow> string \<Rightarrow> store \<Rightarrow> exn + row" where
  "require_live_project e p s =
     (case live_row e Projects p s of None \<Rightarrow> Inl (HttpError 404 ''Project not found'') | Some r \<Rightarrow> Inr r)"

definition project_of :: "row \<Rightarrow> string" where
  "project_of r = str_or (row_str r ''project_id'') []"

definition require_memo :: "env \<Rightarrow> string \<Rightarrow> store \<Rightarrow> exn + row" where
  "require_memo e m s =
     (case live_row e Memos m s of None \<Rightarrow> Inl (HttpError 404 ''Memo not found'') | Some r \<Rightarrow> Inr r)"

definition allowed :: "bool \<Rightarrow> exn + unit" where
  "allowed ok = (if ok then Inr () else Inl (HttpError 403 ''Access denied''))"

definition require_memo_write_lease ::
  "hub_cfg \<Rightarrow> hub_env \<Rightarrow> string \<Rightarrow> string \<Rightarrow> string option \<Rightarrow> hub option \<Rightarrow> (exn + unit) \<times> hub option" where
  "require_memo_write_lease g v m user token server =
     (case server of
        None \<Rightarrow> (Inl (HttpError 503 ''memo_realtime_unavailable''), server)
      | Some h \<Rightarrow>
          if \<not> hb_available h then (Inl (HttpError 503 ''memo_realtime_unavailable''), server)
          else case validate_rest_lease g v m user token h of
                 (ok, h1) \<Rightarrow>
                   (if ok then Inr () else Inl (HttpError 409 ''memo_lease_required''), Some h1))"

section \<open>Reading\<close>

definition created_key :: "row \<Rightarrow> int" where
  "created_key r = (case row_get r ''created_at'' of VTime t \<Rightarrow> t | _ \<Rightarrow> 0)"

definition get_project_memos :: "env \<Rightarrow> revision \<Rightarrow> string \<Rightarrow> user \<Rightarrow> store \<Rightarrow> exn + row list" where
  "get_project_memos e sha p u s =
     sbind (require_live_project e p s) (\<lambda>x.
     sbind (allowed (check_project_membership e p u s)) (\<lambda>x.
       collect (serialize_memo sha)
         (sort_key (\<lambda>r. - created_key r)
           (filter (\<lambda>r. col_is e ''project_id'' p r \<and> live r) (tabs s Memos)))))"

definition readable_memo :: "env \<Rightarrow> string \<Rightarrow> user \<Rightarrow> store \<Rightarrow> exn + row" where
  "readable_memo e m u s =
     sbind (require_memo e m s) (\<lambda>r.
     sbind (allowed (check_project_membership e (project_of r) u s)) (\<lambda>x. Inr r))"

definition get_memo :: "env \<Rightarrow> revision \<Rightarrow> string \<Rightarrow> user \<Rightarrow> store \<Rightarrow> exn + row" where
  "get_memo e sha m u s = sbind (readable_memo e m u s) (serialize_memo sha)"

definition version_key :: "row \<Rightarrow> int" where
  "version_key r = (case row_get r ''version'' of VInt n \<Rightarrow> n | _ \<Rightarrow> 0)"

definition get_memo_versions :: "env \<Rightarrow> string \<Rightarrow> bool \<Rightarrow> user \<Rightarrow> store \<Rightarrow> exn + row list" where
  "get_memo_versions e m include_content u s =
     sbind (readable_memo e m u s) (\<lambda>r.
       collect (if include_content then serialize_version else serialize_version_summary)
         (sort_key (\<lambda>r. - version_key r) (memo_versions_of e m s)))"

definition get_memo_version :: "env \<Rightarrow> string \<Rightarrow> int \<Rightarrow> user \<Rightarrow> store \<Rightarrow> exn + row" where
  "get_memo_version e m n u s =
     sbind (readable_memo e m u s) (\<lambda>r.
       case sort_key (\<lambda>r. - created_key r)
              (filter (\<lambda>r. sql_eq e (row_get r ''version'') (VInt n)) (memo_versions_of e m s)) of
         [] \<Rightarrow> Inl (HttpError 404 ''Version not found'')
       | r # rs \<Rightarrow> serialize_version r)"

section \<open>Creating\<close>

text \<open>The guard against equal titles is on this path only; a synchronised memo passes it by.\<close>

definition create_memo_body ::
  "env \<Rightarrow> revision \<Rightarrow> string \<Rightarrow> int \<Rightarrow> int \<Rightarrow> string \<Rightarrow> string \<Rightarrow> user \<Rightarrow> store \<Rightarrow> exn + row \<times> store" where
  "create_memo_body e sha mid now utc p title u s =
     sbind (require_live_project e p s) (\<lambda>x.
     sbind (allowed (can_write_project e p u s)) (\<lambda>x.
       case find (\<lambda>r. col_is e ''project_id'' p r \<and> col_is e ''title'' title r \<and> live r) (tabs s Memos) of
         Some r \<Rightarrow> Inl (HttpError 409 (''existingMemoId: '' @ row_id r))
       | None \<Rightarrow>
           (let r = [(''id'', VStr mid), (''project_id'', VStr p), (''created_by'', VStr (us_id u)),
                     (''title'', VStr title), (''content'', VStr []), (''status'', VInt 0),
                     (''created_at'', VTime now), (''updated_at'', VTime now),
                     (''updated_at_utc'', VTime utc)]
            in sbind (db_insert e Memos r s) (\<lambda>s1.
               sbind (serialize_memo sha r) (\<lambda>view. Inr (view, s1))))))"

definition create_memo ::
  "env \<Rightarrow> revision \<Rightarrow> string \<Rightarrow> string \<Rightarrow> user \<Rightarrow> store \<Rightarrow> (exn + row) \<times> store" where
  "create_memo e sha p title u s =
     (let (mid, s1) = generate_id e s; (now, s2) = now_local e s1; (utc, s3) = now_utc e s2
      in with_connection False (create_memo_body e sha mid now utc p title u) s3)"

section \<open>Saving\<close>

text \<open>The old text becomes the next version, if there is any.\<close>

definition keep_version :: "env \<Rightarrow> string \<Rightarrow> row \<Rightarrow> int \<Rightarrow> int \<Rightarrow> store \<Rightarrow> exn + store" where
  "keep_version e m memo now utc s =
     (if \<not> truthy (row_get memo ''content'') then Inr s
      else let (vid, s1) = generate_id e s
           in db_insert e Memo_versions
                [(''id'', VStr vid), (''memo_id'', VStr m), (''content'', row_get memo ''content''),
                 (''version'', VInt (next_version e m s)), (''note'', VNull), (''created_at'', VTime now),
                 (''updated_at_utc'', VTime utc)] s1)"

definition save_memo ::
  "env \<Rightarrow> revision \<Rightarrow> string \<Rightarrow> row \<Rightarrow> string \<Rightarrow> string option \<Rightarrow> store \<Rightarrow> exn + row \<times> store" where
  "save_memo e sha m memo content base s =
     (if base \<noteq> None \<and> base \<noteq> Some (memo_revision sha memo)
      then Inl (HttpError 409 ''memo_content_conflict'')
      else let (now, s1) = now_local e s; (utc, s2) = now_utc e s1
           in sbind (keep_version e m memo now utc s2) (\<lambda>s3.
              sbind (db_set e Memos (id_is e m)
                 [(''content'', VStr content), (''updated_at'', VTime now), (''updated_at_utc'', VTime utc)] s3)
              (\<lambda>s4. case live_row e Memos m s4 of
                 None \<Rightarrow> Inl (AttributeError ''NoneType'')
               | Some r \<Rightarrow> sbind (serialize_memo sha r) (\<lambda>view. Inr (view, s4)))))"

definition writable_memo :: "env \<Rightarrow> string \<Rightarrow> user \<Rightarrow> store \<Rightarrow> exn + row" where
  "writable_memo e m u s =
     sbind (require_memo e m s) (\<lambda>r.
     sbind (allowed (can_write_project e (project_of r) u s)) (\<lambda>x. Inr r))"

definition update_memo ::
  "env \<Rightarrow> hub_cfg \<Rightarrow> hub_env \<Rightarrow> revision \<Rightarrow> string \<Rightarrow> string \<Rightarrow> string option \<Rightarrow> string option \<Rightarrow> user
     \<Rightarrow> hub option \<times> store \<Rightarrow> (exn + row) \<times> hub option \<times> store" where
  "update_memo e g v sha m content base token u w =
     (case w of (server, s) \<Rightarrow>
        case writable_memo e m u s of
          Inl x \<Rightarrow> (Inl x, server, s)
        | Inr memo \<Rightarrow>
            (case require_memo_write_lease g v m (us_id u) token server of
               (Inl x, server1) \<Rightarrow> (Inl x, server1, s)
             | (Inr ok, server1) \<Rightarrow>
                 (case with_connection False (save_memo e sha m memo content base) s of
                    (ans, s1) \<Rightarrow> (ans, server1, s1))))"

section \<open>Merging and deleting\<close>

definition mergeable_memo :: "env \<Rightarrow> user \<Rightarrow> store \<Rightarrow> string \<Rightarrow> unit \<Rightarrow> exn + unit" where
  "mergeable_memo e u s m x =
     (case live_row e Memos m s of
        None \<Rightarrow> Inl (HttpError 404 (''Memo not found: '' @ m))
      | Some r \<Rightarrow> allowed (can_manage_project e (project_of r) u s))"

definition as_http :: "exn \<Rightarrow> exn" where
  "as_http x = (case x of MergeErr st m \<Rightarrow> HttpError st m | _ \<Rightarrow> x)"

definition merge_memo_into ::
  "env \<Rightarrow> (json \<Rightarrow> string) \<Rightarrow> bool \<Rightarrow> peer_cfg \<Rightarrow> (string \<times> string \<times> json \<Rightarrow> peer_fail + (string \<times> json) list)
     \<Rightarrow> string \<Rightarrow> string \<Rightarrow> user \<Rightarrow> sync_runtime \<times> store \<Rightarrow> (exn + merged) \<times> sync_runtime \<times> store" where
  "merge_memo_into e shown client p remote loser winner u w =
     (case sfold (mergeable_memo e u (snd w)) [loser, winner] () of
        Inl x \<Rightarrow> (Inl x, w)
      | Inr ok \<Rightarrow>
          (case run_merge e shown client p remote ''memo'' loser winner w of
             (Inl x, w1) \<Rightarrow> (Inl (as_http x), w1)
           | (Inr r, w1) \<Rightarrow> (Inr r, w1)))"

definition tombstone_at :: "int \<Rightarrow> row" where
  "tombstone_at utc = [(''deleted_at'', VTime utc), (''updated_at_utc'', VTime utc)]"

text \<open>The join keeps a memo only together with its project.\<close>

definition delete_memo_body :: "env \<Rightarrow> string \<Rightarrow> user \<Rightarrow> store \<Rightarrow> exn + unit \<times> store" where
  "delete_memo_body e m u s =
     (case find (\<lambda>r. id_is e m r \<and> live r \<and> fetch_id e Projects (project_of r) s \<noteq> None) (tabs s Memos) of
        None \<Rightarrow> Inl (HttpError 404 ''Memo not found'')
      | Some r \<Rightarrow>
          sbind (allowed (can_manage_project e (project_of r) u s)) (\<lambda>x.
            let (utc, s1) = now_utc e s
            in sbind (db_set e Memos (id_is e m) (tombstone_at utc) s1) (\<lambda>s2. Inr ((), s2))))"

definition delete_memo :: "env \<Rightarrow> string \<Rightarrow> user \<Rightarrow> store \<Rightarrow> (exn + unit) \<times> store" where
  "delete_memo e m u s = with_connection False (delete_memo_body e m u) s"

definition bulk_delete_one :: "env \<Rightarrow> user \<Rightarrow> int \<Rightarrow> string \<Rightarrow> nat \<times> store \<Rightarrow> exn + nat \<times> store" where
  "bulk_delete_one e u utc m w =
     (case w of (n, s) \<Rightarrow>
        case live_row e Memos m s of
          None \<Rightarrow> Inr (n, s)
        | Some r \<Rightarrow>
            if \<not> can_manage_project e (project_of r) u s then Inr (n, s)
            else sbind (db_update e Memos (\<lambda>r. id_is e m r \<and> live r) (tombstone_at utc) s)
                   (\<lambda>(k, s1). Inr (n + k, s1)))"

definition bulk_delete_body :: "env \<Rightarrow> string list \<Rightarrow> user \<Rightarrow> store \<Rightarrow> exn + nat \<times> store" where
  "bulk_delete_body e ms u s =
     (let (utc, s1) = now_utc e s in sfold (bulk_delete_one e u utc) ms (0, s1))"

definition bulk_delete_memos :: "env \<Rightarrow> string list \<Rightarrow> user \<Rightarrow> store \<Rightarrow> (exn + nat) \<times> store" where
  "bulk_delete_memos e ms u s =
     (case require_admin u of
        Inl x \<Rightarrow> (Inl x, s)
      | Inr u' \<Rightarrow>
          if ms = [] then (Inl (HttpError 400 ''memoIds cannot be empty''), s)
          else with_connection False (bulk_delete_body e ms u) s)"

end
