(* ===== verification/Hub_Laws.thy ===== *)
theory Hub_Laws
  imports Realtime Samples
begin

text \<open>
  The hub in use: a step relation over its handlers, its scheduled tasks and what others do to
  the lock registry and the runtime; what stays true in every hub reached in this way; and what a
  socket that closes leaves behind.
\<close>

section \<open>Runs\<close>

text \<open>
  A socket gets an id that no connected socket has. \<open>registry\<close> stands for the delegated locks of
  the other node and for the timers, \<open>runtime\<close> for the daemon. Handlers do not overlap here.
\<close>

inductive hub_step :: "env \<Rightarrow> hub_cfg \<Rightarrow> hub_env \<Rightarrow> hub \<Rightarrow> hub \<Rightarrow> bool" for e g v where
  connect: "map_of (hb_projects h) sid = None \<Longrightarrow>
    connect e ac ae account sid hs session allow s a h = (ok, a', h') \<Longrightarrow> hub_step e g v h h'"
| disconnect: "hub_step e g v h (disconnect g v sid h)"
| revalidate: "revalidate_browser_session validated sid h = (ok, h') \<Longrightarrow> hub_step e g v h h'"
| invalidated: "hub_step e g v h (on_session_invalidated ses h)"
| join_project: "hub_step e g v h (join_project e v sid data s h)"
| leave_project: "hub_step e g v h (leave_project v sid data h)"
| start_share: "start_screen_share e v sid data s (\<lambda>h. h) h = (ok, h') \<Longrightarrow> hub_step e g v h h'"
| stop_share: "hub_step e g v h (stop_share v sid data h)"
| join_memo: "hub_step e g v h (join_memo e g v sid data s h)"
| leave_memo: "hub_step e g v h (leave_memo_event g v sid data h)"
| lock: "hub_step e g v h (lock_memo e g v sid data s h)"
| renew: "hub_step e g v h (renew_memo_lock e g v sid data s h)"
| unlock: "hub_step e g v h (unlock_memo g v sid data h)"
| update: "broadcast_memo_update e g v sid data s h = (ok, h') \<Longrightarrow> hub_step e g v h h'"
| lock_state: "hub_step e g v h (emit_lock_state g v m j h)"
| rest_lease: "validate_rest_lease g v m user token h = (ok, h') \<Longrightarrow> hub_step e g v h h'"
| pending: "hub_step e g v h (run_pending g v h)"
| registry: "hub_step e g v h (set_registry r h)"
| runtime: "hub_step e g v h (h\<lparr>hb_runtime := rt\<rparr>)"

inductive_cases hub_stepE: "hub_step e g v h h'"

inductive hub_run :: "env \<Rightarrow> hub_cfg \<Rightarrow> hub_env \<Rightarrow> hub \<Rightarrow> hub \<Rightarrow> bool" for e g v where
  stay: "hub_run e g v h h"
| step: "hub_run e g v h h1 \<Longrightarrow> hub_step e g v h1 h2 \<Longrightarrow> hub_run e g v h h2"

section \<open>Users, projects and shares\<close>

text \<open>A socket has one user; a project has one sharer, whose socket is in the project.\<close>

definition hub_sound :: "hub \<Rightarrow> bool" where
  "hub_sound h = (distinct (map fst (hb_users h)) \<and> distinct (map fst (hb_shares h)) \<and>
     (\<forall>p sh. (p, sh) \<in> set (hb_shares h) \<longrightarrow> p \<in> set (members (hb_projects h) (sh_socket sh))))"

text \<open>Most handlers leave these alone.\<close>

definition desk :: "hub \<Rightarrow> (string \<times> user_info) list \<times> (string \<times> share) list \<times> sets" where
  "desk h = (hb_users h, hb_shares h, hb_projects h)"

lemma hub_sound_desk: "desk h' = desk h \<Longrightarrow> hub_sound h \<Longrightarrow> hub_sound h'"
  by (simp add: desk_def hub_sound_def)

named_theorems desk_simps

lemma desk_basic [desk_simps, simp]:
  "desk (emit ev fs to h) = desk h" "desk (effect f h) = desk h" "desk (set_registry r h) = desk h"
  "desk (drop_claim sid m h) = desk h" "desk (h\<lparr>hb_locks := x\<rparr>) = desk h"
  "desk (h\<lparr>hb_leases := l\<rparr>) = desk h" "desk (h\<lparr>hb_quarantine := q\<rparr>) = desk h"
  "desk (h\<lparr>hb_event := n\<rparr>) = desk h" "desk (h\<lparr>hb_runtime := rt\<rparr>) = desk h"
  "desk (h\<lparr>hb_pending := ts\<rparr>) = desk h" "desk (h\<lparr>hb_memos := x\<rparr>) = desk h"
  "desk (h\<lparr>hb_rooms := x\<rparr>) = desk h" "desk (h\<lparr>hb_peers := ps\<rparr>) = desk h" "desk (h\<lparr>hb_loop := b\<rparr>) = desk h"
  by (simp_all add: desk_def emit_def effect_def set_registry_def drop_claim_def)

lemma desk_mono: "monotonic v h = (n, h1) \<Longrightarrow> desk h1 = desk h"
  by (auto simp: monotonic_def)

lemma desk_fold: "(\<And>x h. desk (f x h) = desk h) \<Longrightarrow> desk (fold f xs h) = desk h"
  by (induction xs arbitrary: h) auto

lemma desk_clear [simp]: "desk (clear_socket_lease_state m h) = desk h"
  by (simp add: clear_socket_lease_state_def desk_fold)

lemma desk_reconcile [simp]: "desk (reconcile_socket_lease_state g m ow tk h) = desk h"
  unfolding reconcile_socket_lease_state_def by (rule desk_fold) (simp add: reconcile_one_def)

lemma desk_lock_state [simp]: "desk (emit_lock_state g v m j h) = desk h"
  by (simp add: emit_lock_state_def Let_def)

lemma desk_broadcast [simp]: "desk (broadcast_lock_change g v m j h) = desk h"
  by (simp add: broadcast_lock_change_def desk_fold)

lemma desk_delegate: "delegate_lock g v req h = (r, h1) \<Longrightarrow> desk h1 = desk h"
  by (auto simp: delegate_lock_def desk_mono split: if_splits prod.splits sum.splits peer_fail.splits
      dest: desk_mono)

lemma desk_holder: "resolve_lock_holder g v m h = (r, h1) \<Longrightarrow> desk h1 = desk h"
  by (auto simp: resolve_lock_holder_def split: prod.splits sum.splits option.splits
      dest!: desk_delegate desk_mono)

lemma desk_settle [simp]: "desk (settle_acquire g v sid m u ren ans h) = desk h"
  by (auto simp: settle_acquire_def Let_def desk_mono split: prod.splits dest!: desk_mono)

lemma desk_local: "local_acquire v m ow u h = (ans, h1) \<Longrightarrow> desk h1 = desk h"
  by (auto simp: local_acquire_def Let_def split: prod.splits dest!: desk_mono)

lemma desk_acquire [simp]: "desk (acquire_lock e g v sid m ren s h) = desk h"
  by (auto simp: acquire_lock_def split: option.splits prod.splits sum.splits
      dest!: desk_delegate desk_local)

lemma desk_release [simp]: "desk (release_lock g v sid m h) = desk h"
  by (auto simp: release_lock_def split: option.splits prod.splits sum.splits
      dest!: desk_delegate desk_mono)

lemma desk_leave [simp]: "desk (leave_memo g v sid m h) = desk h"
proof -
  have "desk (h\<lparr>hb_rooms := a, hb_memos := b\<rparr>) = desk h" for a b h by (simp add: desk_def)
  then show ?thesis by (simp add: leave_memo_def Let_def)
qed

lemma desk_owns: "socket_owns_valid_lease g v sid m h = (ok, h1) \<Longrightarrow> desk h1 = desk h"
  by (auto simp: socket_owns_valid_lease_def split: option.splits prod.splits if_splits dest!: desk_mono)

lemma desk_rest: "rest_lease_among g v m user tk us h = (ok, h1) \<Longrightarrow> desk h1 = desk h"
proof (induction us arbitrary: h user)
  case (Cons a us)
  obtain sid u where a: "a = (sid, u)" by (cases a)
  show ?case using Cons.prems
    by (auto simp: a split: option.splits prod.splits if_splits dest!: Cons.IH desk_mono desk_owns)
qed simp

lemma desk_stopped [simp]: "desk (share_stopped p h) = desk h"
  by (simp add: share_stopped_def)

section \<open>The steps that touch them\<close>

lemma members_simps:
  "members (put_in k x d) j = (if j = k then List.insert x (members d k) else members d j)"
  "members (take_out k x d) j = (if j = k then removeAll x (members d k) else members d j)"
  "members (AList.update k xs d) j = (if j = k then xs else members d j)"
  "members (AList.delete k d) j = (if j = k then [] else members d j)"
  by (simp_all add: members_def put_in_def take_out_def update_conv delete_conv)

lemma delete_subset: "set (AList.delete k xs) \<subseteq> set xs"
  by (auto simp: AList.delete_eq)

lemma update_subset: "set (AList.update k x xs) \<subseteq> insert (k, x) (set xs)"
  by (induction xs) auto

lemma sound_parts:
  assumes "hub_sound h" "distinct (map fst (hb_users h'))" "distinct (map fst (hb_shares h'))"
    and "\<And>p sh. (p, sh) \<in> set (hb_shares h') \<Longrightarrow> p \<in> set (members (hb_projects h') (sh_socket sh))"
  shows "hub_sound h'"
  using assms by (auto simp: hub_sound_def)

lemma sound_stop: "hub_sound h \<Longrightarrow> hub_sound (stop_screen_share p h)"
  using delete_subset [of p "hb_shares h"]
  by (auto simp: hub_sound_def stop_screen_share_def share_stopped_def emit_def distinct_delete)

lemma sound_forget:
  "hub_sound h \<Longrightarrow> hub_sound (forget_socket_session sid h)"
  by (rule hub_sound_desk)
    (auto simp: forget_socket_session_def desk_def Let_def split: option.splits)

lemma sound_close: "hub_sound h \<Longrightarrow> hub_sound (disconnect_browser_socket sid h)"
proof -
  assume h: "hub_sound h"
  then have "hub_sound (h\<lparr>hb_users := AList.delete sid (hb_users h)\<rparr>)"
    by (simp add: hub_sound_def distinct_delete)
  from sound_forget [OF this, of sid] show ?thesis
    unfolding disconnect_browser_socket_def by (rule hub_sound_desk [rotated]) simp
qed

lemma sound_fold: "(\<And>x h. hub_sound h \<Longrightarrow> hub_sound (f x h)) \<Longrightarrow> hub_sound h \<Longrightarrow> hub_sound (fold f xs h)"
  by (induction xs arbitrary: h) auto

lemma sound_pending:
  assumes "hub_sound h"
  shows "hub_sound (run_pending g v h)"
proof (cases "hb_pending h")
  case (Cons x ts)
  have h: "hub_sound (h\<lparr>hb_pending := ts\<rparr>)" using assms by (rule hub_sound_desk [rotated]) simp
  show ?thesis
  proof (cases x)
    case (LockChanged m j)
    then show ?thesis using h by (auto simp: run_pending_def Cons elim!: hub_sound_desk [rotated])
  next
    case (DropSession ses)
    then show ?thesis using sound_fold [OF sound_close h]
      by (simp add: run_pending_def Cons disconnect_session_sockets_def)
  qed
qed (simp add: run_pending_def assms)

lemma sound_connect:
  assumes "hub_sound h" "map_of (hb_projects h) sid = None"
    and "connect e ac ae account sid hs session allow s a h = (ok, a', h')"
  shows "hub_sound h'"
proof (cases session)
  case None
  then have "desk h' = desk h"
    using assms(3) by (auto simp: connect_def Let_def desk_def effect_def emit_def
        split: prod.splits sum.splits option.splits)
  then show ?thesis using assms(1) by (rule hub_sound_desk)
next
  case (Some x)
  obtain ses u where "x = (ses, u)" by (cases x)
  then have h': "h' = register_browser_socket sid ses u allow (h\<lparr>hb_loop := True\<rparr>)"
    using assms(3) Some by (simp add: connect_def Let_def)
  have "members (hb_projects h) sid = []" using assms(2) by (simp add: members_def)
  then have "sh_socket sh \<noteq> sid" if "(p, sh) \<in> set (hb_shares h)" for p sh
    using assms(1) that by (fastforce simp: hub_sound_def)
  then show ?thesis using assms(1)
    by (auto simp: h' hub_sound_def register_browser_socket_def members_simps distinct_update)
qed

lemma sound_disconnect:
  assumes "hub_sound h"
  shows "hub_sound (disconnect g v sid h)"
proof (cases "map_of (hb_peers h) sid")
  case None
  define h1 where "h1 = fold (leave_memo g v sid) (members (hb_memos h) sid) h"
  define gone where "gone = map fst (filter (\<lambda>(p, sh). sh_socket sh = sid) (hb_shares h1))"
  define h2 where "h2 = fold share_stopped gone
     (h1\<lparr>hb_shares := filter (\<lambda>(p, sh). sh_socket sh \<noteq> sid) (hb_shares h1)\<rparr>)"
  define h3 where "h3 = fold (release_lock g v sid) (members (hb_locks h2) sid) h2"
  have d1: "desk h1 = desk h" unfolding h1_def by (rule desk_fold) simp
  have "desk h2 = desk (h1\<lparr>hb_shares := filter (\<lambda>(p, sh). sh_socket sh \<noteq> sid) (hb_shares h1)\<rparr>)"
    unfolding h2_def by (rule desk_fold) simp
  moreover have "desk h3 = desk h2" unfolding h3_def by (rule desk_fold) simp
  ultimately have d3: "hb_users h3 = hb_users h" "hb_projects h3 = hb_projects h"
    "hb_shares h3 = filter (\<lambda>(p, sh). sh_socket sh \<noteq> sid) (hb_shares h)"
    using d1 by (simp_all add: desk_def)
  have "disconnect g v sid h = forget_socket_session sid
      (h3\<lparr>hb_users := AList.delete sid (hb_users h3), hb_memos := AList.delete sid (hb_memos h3),
          hb_projects := AList.delete sid (hb_projects h3), hb_locks := AList.delete sid (hb_locks h3),
          hb_leases := filter (\<lambda>((i, m), l). i \<noteq> sid) (hb_leases h3)\<rparr>)"
    using None by (simp add: disconnect_def h1_def gone_def h2_def h3_def Let_def)
  also have "hub_sound \<dots>"
    using assms
    by (intro sound_forget) (auto simp: hub_sound_def d3 distinct_delete distinct_map_filter members_simps)
  finally show ?thesis .
next
  case (Some account)
  then show ?thesis using assms by (auto simp: disconnect_def intro: hub_sound_desk [rotated])
qed


lemma sound_join_project: "hub_sound h \<Longrightarrow> hub_sound (join_project e v sid data s h)"
  by (auto simp: join_project_def hub_sound_def effect_def emit_def members_simps split: option.splits)

lemma sound_leave_project:
  assumes "hub_sound h"
  shows "hub_sound (leave_project v sid data h)"
proof (cases "get_id v data ''projectId''")
  case (Some p)
  let ?h = "effect (LeaveRoom sid (project_room p)) (h\<lparr>hb_projects := take_out sid p (hb_projects h)\<rparr>)"
  show ?thesis
  proof (cases "\<exists>sh. map_of (hb_shares h) p = Some sh \<and> sh_socket sh = sid")
    case True
    then obtain sh where sh: "map_of (hb_shares h) p = Some sh" "sh_socket sh = sid" by blast
    have "(q, x) \<in> set (AList.delete p (hb_shares h)) \<Longrightarrow> q \<noteq> p \<and> (q, x) \<in> set (hb_shares h)" for q x
      by (auto simp: AList.delete_eq)
    then have "hub_sound (stop_screen_share p ?h)"
      using assms by (auto simp: hub_sound_def stop_screen_share_def share_stopped_def emit_def effect_def
          distinct_delete members_simps)
    then show ?thesis using Some sh assms by (simp add: leave_project_def Let_def)
  next
    case False
    have "hub_sound ?h"
      using assms False by (auto simp: hub_sound_def effect_def members_simps)
    then show ?thesis using Some False assms by (auto simp: leave_project_def Let_def split: option.splits)
  qed
qed (simp add: leave_project_def assms)

lemma sound_start:
  assumes "hub_sound h" "start_screen_share e v sid data s (\<lambda>h. h) h = (ok, h')"
  shows "hub_sound h'"
proof -
  have "hub_sound (emit ev fs to (h\<lparr>hb_shares := AList.update p sh (hb_shares h)\<rparr>))"
    if "p \<in> set (members (hb_projects h) (sh_socket sh))" for ev fs to p sh
    using assms(1) that update_subset [of p sh "hb_shares h"]
    by (auto simp: hub_sound_def emit_def distinct_update)
  moreover have "hub_sound (emit ev fs to h)" for ev fs to
    using assms(1) by (rule hub_sound_desk [rotated]) simp
  ultimately show ?thesis using assms
    by (auto simp: start_screen_share_def Let_def split: option.splits if_splits)
qed

lemma sound_desk: "hub_sound h \<Longrightarrow> desk h' = desk h \<Longrightarrow> hub_sound h'"
  by (rule hub_sound_desk)

lemma sound_revalidate:
  assumes "hub_sound h" "revalidate_browser_session validated sid h = (ok, h')"
  shows "hub_sound h'"
  using assms sound_close [OF assms(1)]
  by (auto simp: revalidate_browser_session_def hub_sound_def distinct_update split: option.splits)

lemma sound_step:
  assumes "hub_step e g v h h'" "hub_sound h"
  shows "hub_sound h'"
  using assms
proof cases
  case (update sid data s ok)
  then show ?thesis using assms(2)
    by (auto simp: broadcast_memo_update_def split: option.splits prod.splits if_splits
        dest!: desk_owns intro: sound_desk)
next
  case (rest_lease m user token ok)
  then show ?thesis using assms(2)
    by (auto simp: validate_rest_lease_def split: if_splits dest!: desk_rest intro: sound_desk)
next
  case (join_memo sid data s)
  have "desk h' = desk h"
  proof -
    have "desk (h\<lparr>hb_rooms := a, hb_memos := b\<rparr>) = desk h" for a b by (simp add: desk_def)
    then show ?thesis unfolding join_memo(1)
      by (auto simp: join_memo_def Let_def split: option.splits prod.splits sum.splits dest!: desk_holder)
  qed
  with assms(2) show ?thesis by (rule sound_desk)
next
  case (stop_share sid data)
  then show ?thesis using assms(2)
    by (auto simp: stop_share_def intro: sound_stop split: option.splits)
qed (auto simp: leave_memo_event_def lock_memo_def renew_memo_lock_def unlock_memo_def
      on_session_invalidated_def split: option.splits
    intro: sound_connect [OF assms(2)] sound_disconnect [OF assms(2)] sound_revalidate [OF assms(2)]
      sound_join_project [OF assms(2)] sound_leave_project [OF assms(2)] sound_start [OF assms(2)]
      sound_pending [OF assms(2)] sound_desk [OF assms(2)] assms(2))

lemma sound_run: "hub_run e g v h h' \<Longrightarrow> hub_sound h \<Longrightarrow> hub_sound h'"
  by (induction rule: hub_run.induct) (auto intro: sound_step)

text \<open>
  While handlers do not overlap, a socket has one user, a project has one sharer, and the sharer's
  socket is in the project.
\<close>

theorem hub_stays_sound:
  assumes "hub_run e g v (new_hub socketio locks0 rt0) h"
  shows "hub_sound h"
  using assms by (rule sound_run) (simp add: new_hub_def hub_sound_def)


section \<open>A socket that closes\<close>


text \<open>The other sockets keep theirs.\<close>

definition spares_others :: "string \<Rightarrow> hub \<Rightarrow> hub \<Rightarrow> bool" where
  "spares_others sid h h' =
     ((\<forall>i. i \<noteq> sid \<longrightarrow> map_of (hb_users h') i = map_of (hb_users h) i \<and>
        map_of (hb_projects h') i = map_of (hb_projects h) i \<and> map_of (hb_memos h') i = map_of (hb_memos h) i \<and>
        map_of (hb_locks h') i = map_of (hb_locks h) i \<and>
        (\<forall>m. map_of (hb_leases h') (i, m) = map_of (hb_leases h) (i, m))) \<and>
      (\<forall>p sh. sh_socket sh \<noteq> sid \<longrightarrow> ((p, sh) \<in> set (hb_shares h') \<longleftrightarrow> (p, sh) \<in> set (hb_shares h))))"

text \<open>The registry has no lease of the socket on the memo, or one whose time was over.\<close>

definition given_up :: "hub_cfg \<Rightarrow> hub_env \<Rightarrow> string \<Rightarrow> string \<Rightarrow> hub \<Rightarrow> bool" where
  "given_up g v sid m h = (\<forall>x. map_of (locks (hb_registry h)) m = Some x \<longrightarrow> lh_owner x = owner_key g sid \<longrightarrow>
     lh_expires x \<le> he_mono v (hb_event h))"


text \<open>What leaving memos and releasing locks does, as a relation that composes.\<close>

definition sheds :: "hub_cfg \<Rightarrow> hub_env \<Rightarrow> string \<Rightarrow> hub \<Rightarrow> hub \<Rightarrow> bool" where
  "sheds g v sid h k = (desk k = desk h \<and> spares_others sid h k \<and> hb_event h \<le> hb_event k \<and>
     set (hb_fx h) \<subseteq> set (hb_fx k) \<and>
     (\<forall>m. given_up g v sid m h \<longrightarrow> given_up g v sid m k) \<and>
     (\<forall>m x. map_of (locks (hb_registry h)) m = Some x \<longrightarrow> lh_owner x \<noteq> owner_key g sid \<longrightarrow>
        map_of (locks (hb_registry k)) m = Some x) \<and>
     (\<forall>m \<in> set (members (hb_locks h) sid). m \<in> set (members (hb_locks k) sid) \<or> given_up g v sid m k) \<and>
     set (members (hb_locks k) sid) \<subseteq> set (members (hb_locks h) sid) \<and>
     (\<forall>m. sid \<notin> set (members (hb_rooms h) m) \<longrightarrow> sid \<notin> set (members (hb_rooms k) m)))"

lemma spares_others_refl [simp]: "spares_others sid h h"
  by (simp add: spares_others_def)


lemma sheds_refl [simp]: "sheds g v sid h h"
  by (simp add: sheds_def)










lemma forget_fields [simp]:
  "hb_users (forget_socket_session sid h) = hb_users h" "hb_projects (forget_socket_session sid h) = hb_projects h"
  "hb_memos (forget_socket_session sid h) = hb_memos h" "hb_locks (forget_socket_session sid h) = hb_locks h"
  "hb_leases (forget_socket_session sid h) = hb_leases h" "hb_shares (forget_socket_session sid h) = hb_shares h"
  "hb_rooms (forget_socket_session sid h) = hb_rooms h" "hb_fx (forget_socket_session sid h) = hb_fx h"
  "hb_registry (forget_socket_session sid h) = hb_registry h" "hb_event (forget_socket_session sid h) = hb_event h"
  "map_of (hb_sessions (forget_socket_session sid h)) sid = None"
  "map_of (hb_offline (forget_socket_session sid h)) sid = None"
  "sid \<notin> set (hb_watched (forget_socket_session sid h))"
  by (auto simp: forget_socket_session_def Let_def delete_conv split: option.splits)




section \<open>A shared screen\<close>

text \<open>Ann connects, joins her project and shares her screen.\<close>

definition ann_user :: user where
  "ann_user = \<lparr>us_id = ''ann'', us_login = None, us_username = None, us_display = Some ''Ann'',
     us_name = None, us_email = None, us_permission = Some ''owner''\<rparr>"

definition server_cfg :: hub_cfg where
  "server_cfg = \<lparr>hc_client = ''node'', hc_daemon = False, hc_ttl = 120, hc_peer = make_peer [] [] []\<rparr>"

definition tick_env :: hub_env where
  "tick_env = \<lparr>he_mono = (\<lambda>n. int n * 1000), he_token = (\<lambda>n. ''lease-'' @ nat_str n),
     he_send = (\<lambda>n r. Inl ''no route''), he_shown = (\<lambda>j. ''?'')\<rparr>"

definition connected_hub :: hub where
  "connected_hub = register_browser_socket ''one'' ''session'' ann_user False
     (new_hub True (new_registry 120000000) fresh_runtime\<lparr>hb_loop := True\<rparr>)"

definition joined_hub :: hub where
  "joined_hub = join_project sample_env tick_env ''one'' (JObj [(''projectId'', JStr ''p'')])
     (memo_node ''old'' 0) connected_hub"

definition sharing_hub :: hub where
  "sharing_hub = snd (start_screen_share sample_env tick_env ''one'' (JObj [(''projectId'', JStr ''p'')])
     (memo_node ''old'' 0) (\<lambda>h. h) joined_hub)"

lemma ann_shares: "map fst (hb_shares sharing_hub) = [''p'']"
  by code_simp

lemma sharing_reachable:
  "hub_run sample_env server_cfg tick_env (new_hub True (new_registry 120000000) fresh_runtime) sharing_hub"
proof -
  have "connect sample_env ac ae [] ''one'' [] (Some (''session'', ann_user)) False s a
      (new_hub True (new_registry 120000000) fresh_runtime) = (True, a, connected_hub)" for ac ae s a
    by (simp add: connect_def connected_hub_def)
  from hub_step.connect [OF _ this]
  have "hub_step sample_env server_cfg tick_env (new_hub True (new_registry 120000000) fresh_runtime) connected_hub"
    by (simp add: new_hub_def)
  moreover have "hub_step sample_env server_cfg tick_env connected_hub joined_hub"
    unfolding joined_hub_def by (rule hub_step.join_project)
  moreover have "hub_step sample_env server_cfg tick_env joined_hub sharing_hub"
    unfolding sharing_hub_def by (rule hub_step.start_share) (rule prod.collapse [symmetric])
  ultimately show ?thesis by (blast intro: hub_run.intros)
qed

theorem hub_stays_sound_witness:
  "hub_sound sharing_hub \<and> map fst (hb_shares sharing_hub) = [''p'']"
  using hub_stays_sound [OF sharing_reachable] ann_shares by simp


text \<open>
  A socket that closes while its request to share waits for the database: the share is written
  after the socket was cleaned up, and names a socket that is in no project and has no user.
\<close>

definition orphaned_hub :: hub where
  "orphaned_hub = snd (start_screen_share sample_env tick_env ''one'' (JObj [(''projectId'', JStr ''p'')])
     (memo_node ''old'' 0) (disconnect server_cfg tick_env ''one'') joined_hub)"

lemma share_outlives_its_socket:
  "map fst (hb_shares orphaned_hub) = [''p'']"
  "map sh_socket (map snd (hb_shares orphaned_hub)) = [''one'']"
  "map_of (hb_users orphaned_hub) ''one'' = None" "members (hb_projects orphaned_hub) ''one'' = []"
  by code_simp+

end
