(* ===== verification/Memo_Laws.thy ===== *)
theory Memo_Laws
  imports Memo_Api Hub_Laws Samples
begin

text \<open>
  What the browser's endpoints for memos guarantee: a save is fenced by the lease and loses no
  text, and an error leaves the store as it was.
\<close>

section \<open>The lease behind a save\<close>

lemma monotonic_frame:
  "monotonic v h = (now, h1) \<Longrightarrow>
     now = he_mono v (hb_event h) \<and> hb_event h1 = Suc (hb_event h) \<and> hb_registry h1 = hb_registry h \<and>
     hb_users h1 = hb_users h \<and> hb_leases h1 = hb_leases h \<and> hb_memos h1 = hb_memos h \<and>
     hb_locks h1 = hb_locks h"
  by (auto simp: monotonic_def)

definition only_reads :: "hub \<Rightarrow> hub \<Rightarrow> bool" where
  "only_reads h h' = (hb_event h \<le> hb_event h' \<and> hb_registry h' = hb_registry h \<and>
     hb_users h' = hb_users h \<and> hb_leases h' = hb_leases h \<and> hb_memos h' = hb_memos h \<and> hb_locks h' = hb_locks h)"

lemma only_reads_refl [simp]: "only_reads h h"
  by (simp add: only_reads_def)

lemma only_reads_trans: "only_reads h h1 \<Longrightarrow> only_reads h1 h2 \<Longrightarrow> only_reads h h2"
  by (simp add: only_reads_def)

lemma only_reads_mono: "monotonic v h = (now, h1) \<Longrightarrow> only_reads h h1"
  by (drule monotonic_frame) (simp add: only_reads_def)

text \<open>The lease of \<open>m\<close> that the registry holds at the \<open>i\<close>-th event.\<close>

definition leased :: "hub_env \<Rightarrow> nat \<Rightarrow> string \<Rightarrow> hub \<Rightarrow> holder \<Rightarrow> bool" where
  "leased v i m h lease =
     (hb_event h \<le> i \<and> live_holder (he_mono v i) m (hb_registry h) = Some lease)"

lemma leased_later: "leased v i m h' lease \<Longrightarrow> only_reads h h' \<Longrightarrow> leased v i m h lease"
  by (simp add: leased_def only_reads_def)

text \<open>
  What lets a save of \<open>user\<close> with \<open>token\<close> pass: a socket of the user that has the memo open and
  locked, with the token as its claim, not run out at the \<open>i\<close>-th event; and, where the node
  issues the leases itself, the live lease of the registry with this token, user and owner.
\<close>

definition fences :: "hub_cfg \<Rightarrow> hub_env \<Rightarrow> string \<Rightarrow> string \<Rightarrow> string \<Rightarrow> hub \<Rightarrow> string \<Rightarrow> bool" where
  "fences g v m user token h sid =
     (\<exists>u d i. map_of (hb_users h) sid = Some u \<and> ui_id u = user \<and>
        m \<in> set (members (hb_memos h) sid) \<and> m \<in> set (members (hb_locks h) sid) \<and>
        map_of (hb_leases h) (sid, m) = Some (token, d) \<and> hb_event h \<le> i \<and> he_mono v i < d \<and>
        (\<not> hc_daemon g \<longrightarrow> (\<exists>j lease. leased v j m h lease \<and> lh_token lease = token \<and>
           lh_user lease = user \<and> lh_owner lease = owner_key g sid)))"

lemma fences_later:
  assumes "fences g v m user token h' sid" "only_reads h h'"
  shows "fences g v m user token h sid"
proof -
  have same: "hb_users h' = hb_users h" "hb_leases h' = hb_leases h" "hb_memos h' = hb_memos h"
    "hb_locks h' = hb_locks h" "hb_event h \<le> hb_event h'"
    using assms(2) by (simp_all add: only_reads_def)
  obtain u d i where w: "map_of (hb_users h) sid = Some u" "ui_id u = user" "m \<in> set (members (hb_memos h) sid)"
    "m \<in> set (members (hb_locks h) sid)" "map_of (hb_leases h) (sid, m) = Some (token, d)" "hb_event h' \<le> i"
    "he_mono v i < d"
    and r: "\<not> hc_daemon g \<longrightarrow> (\<exists>j lease. leased v j m h' lease \<and> lh_token lease = token \<and>
           lh_user lease = user \<and> lh_owner lease = owner_key g sid)"
    using assms(1) unfolding fences_def same(1-4) by blast
  have "\<not> hc_daemon g \<longrightarrow> (\<exists>j lease. leased v j m h lease \<and> lh_token lease = token \<and>
           lh_user lease = user \<and> lh_owner lease = owner_key g sid)"
    using r leased_later [OF _ assms(2)] by blast
  moreover have "hb_event h \<le> i" using same(5) w(6) by (rule order_trans)
  ultimately show ?thesis using w(1-5,7) unfolding fences_def by blast
qed

lemma owns_lease:
  assumes "socket_owns_valid_lease g v sid m h = (ok, h')"
  shows "only_reads h h' \<and> (ok \<longrightarrow> (\<exists>u token d i. map_of (hb_users h) sid = Some u \<and>
     m \<in> set (members (hb_memos h) sid) \<and> m \<in> set (members (hb_locks h) sid) \<and>
     map_of (hb_leases h) (sid, m) = Some (token, d) \<and> hb_event h \<le> i \<and> he_mono v i < d \<and>
     (\<not> hc_daemon g \<longrightarrow> (\<exists>j lease. leased v j m h lease \<and> lh_token lease = token \<and>
        lh_user lease = ui_id u \<and> lh_owner lease = owner_key g sid))))"
proof (cases "map_of (hb_leases h) (sid, m)")
  case None
  then show ?thesis using assms by (auto simp: socket_owns_valid_lease_def split: option.splits if_splits)
next
  case (Some l)
  obtain token d where l: "l = (token, d)" by (cases l)
  show ?thesis
  proof (cases "map_of (hb_users h) sid = None \<or> m \<notin> set (members (hb_memos h) sid) \<or> m \<notin> set (members (hb_locks h) sid)")
    case True
    then show ?thesis using assms by (auto simp: socket_owns_valid_lease_def split: option.splits)
  next
    case False
    then obtain u where u: "map_of (hb_users h) sid = Some u" by auto
    obtain now h1 where c: "monotonic v h = (now, h1)" by fastforce
    obtain now' h2 where c': "monotonic v h1 = (now', h2)" by fastforce
    note r = only_reads_mono [OF c] and r' = only_reads_trans [OF only_reads_mono [OF c] only_reads_mono [OF c']]
    have n: "now = he_mono v (hb_event h)" "now' = he_mono v (hb_event h1)" "hb_event h \<le> hb_event h1"
      using c c' by (auto simp: monotonic_def)
    have run: "(ok, h') = (if d \<le> now then (False, h1) else if hc_daemon g then (True, h1)
        else (validate now' m (Some token) (Some (ui_id u)) (Some (owner_key g sid)) (hb_registry h2), h2))"
      using assms False u Some l c c'
      by (cases "d \<le> now"; cases "hc_daemon g") (simp_all add: socket_owns_valid_lease_def)
    have v: "\<exists>j lease. leased v j m h lease \<and> lh_token lease = token \<and>
        lh_user lease = ui_id u \<and> lh_owner lease = owner_key g sid"
      if "validate now' m (Some token) (Some (ui_id u)) (Some (owner_key g sid)) (hb_registry h2)"
      using that r' n(2,3) unfolding only_reads_def
      by (intro exI [of _ "hb_event h1"]) (auto simp: validate_def leased_def split: if_splits option.splits)
    have "only_reads h h'" using run r r' by (auto split: if_splits)
    moreover have "he_mono v (hb_event h) < d \<and> (\<not> hc_daemon g \<longrightarrow> (\<exists>j lease. leased v j m h lease \<and>
        lh_token lease = token \<and> lh_user lease = ui_id u \<and> lh_owner lease = owner_key g sid))" if ok
      using run v n(1) that by (auto split: if_splits)
    ultimately show ?thesis using u Some l False by blast
  qed
qed

lemma rest_lease:
  assumes "rest_lease_among g v m user token us h = (True, h')"
    and "\<And>sid u. (sid, u) \<in> set us \<Longrightarrow> map_of (hb_users h) sid = Some u"
  shows "\<exists>sid. fences g v m user token h sid"
  using assms
proof (induction us arbitrary: h)
  case (Cons a us)
  obtain sid u where a: "a = (sid, u)" by (cases a)
  have later: ?case
    if "rest_lease_among g v m user token us h1 = (True, h')" "only_reads h h1" for h1
  proof -
    have "\<And>sid u. (sid, u) \<in> set us \<Longrightarrow> map_of (hb_users h1) sid = Some u"
      using Cons.prems(2) that(2) by (simp add: only_reads_def)
    from Cons.IH [OF that(1) this] fences_later [OF _ that(2)] show ?thesis by blast
  qed
  show ?case
  proof (cases "ui_id u = user \<and> (\<exists>d. map_of (hb_leases h) (sid, m) = Some (token, d))")
    case False
    then have "rest_lease_among g v m user token us h = (True, h')"
      using Cons.prems(1) by (auto simp: a split: if_splits option.splits)
    then show ?thesis by (rule later) simp
  next
    case True
    then obtain d where u: "ui_id u = user" and l: "map_of (hb_leases h) (sid, m) = Some (token, d)" by blast
    obtain now h1 where c: "monotonic v h = (now, h1)" by fastforce
    note r1 = only_reads_mono [OF c]
    obtain ok h2 where o': "socket_owns_valid_lease g v sid m h1 = (ok, h2)" by fastforce
    note own = owns_lease [OF o']
    have nxt: "if d \<le> now then rest_lease_among g v m user token us h1 = (True, h')
       else ok \<or> rest_lease_among g v m user token us h2 = (True, h')"
      using Cons.prems(1) by (auto simp: a u l c o' split: if_splits)
    have user: "map_of (hb_users h1) sid = Some u" "map_of (hb_leases h1) (sid, m) = Some (token, d)"
      using Cons.prems(2) r1 l by (simp_all add: a only_reads_def)
    show ?thesis
    proof (cases "d > now \<and> ok")
      case True
      with own user u have "fences g v m user token h1 sid" unfolding fences_def by auto
      with fences_later [OF _ r1] show ?thesis by blast
    next
      case False
      then show ?thesis
        using nxt later [of h1] later [of h2] r1 only_reads_trans [OF r1] own by (auto split: if_splits)
    qed
  qed
qed simp

section \<open>A save in the store\<close>

lemma kept_version:
  assumes "keep_version e m memo now utc s = Inr s'"
  shows "(\<forall>t. t \<noteq> Memo_versions \<longrightarrow> tabs s' t = tabs s t) \<and>
    (truthy (row_get memo ''content'') \<longrightarrow> (\<exists>w \<in> set (memo_versions_of e m s').
       row_get w ''content'' = row_get memo ''content'' \<and> row_get w ''version'' = VInt (next_version e m s)))
    \<and> set (tabs s Memo_versions) \<subseteq> set (tabs s' Memo_versions)"
proof (cases "truthy (row_get memo ''content'')")
  case False
  then show ?thesis using assms by (simp add: keep_version_def)
next
  case True
  let ?r = "[(''id'', VStr (uuid e (ids s))), (''memo_id'', VStr m), (''content'', row_get memo ''content''),
     (''version'', VInt (next_version e m s)), (''note'', VNull), (''created_at'', VTime now),
     (''updated_at_utc'', VTime utc)]"
  let ?c = "complete_row (sql_now e (ticks s)) Memo_versions ?r"
  have "tabs s' = (tabs s)(Memo_versions := tabs s Memo_versions @ [?c])"
    using assms True db_insert_tabs [of e Memo_versions ?r "s\<lparr>ids := Suc (ids s)\<rparr>" s']
    by (simp add: keep_version_def generate_id_def)
  moreover have "row_get ?c ''memo_id'' = VStr m" "row_get ?c ''content'' = row_get memo ''content''"
    "row_get ?c ''version'' = VInt (next_version e m s)"
    by (simp_all add: row_get_complete row_get_Cons has_col_Cons all_columns_def)
  moreover from this have "col_is e ''memo_id'' m ?c" by (simp add: col_is_iff)
  ultimately show ?thesis by (auto simp: memo_versions_of_def select_def)
qed

lemma clocked_tabs [simp]:
  "now_local e s = (n, s1) \<Longrightarrow> tabs s1 = tabs s" "now_utc e s = (n, s1) \<Longrightarrow> tabs s1 = tabs s"
  by (auto simp: now_local_def now_utc_def)

lemma saved_row:
  fixes now utc :: int and e :: env and content :: string
  defines "asg \<equiv> [(''content'', VStr content), (''updated_at'', VTime now), (''updated_at_utc'', VTime utc)]"
  shows "row_get (row_update r (touch k Memos asg)) ''content'' = VStr content"
    and "id_is e m (row_update r (touch k Memos asg)) = id_is e m r"
  by (simp_all add: row_get_touch asg_def col_is_def)

text \<open>What a successful save leaves in the tables.\<close>

definition saved :: "env \<Rightarrow> string \<Rightarrow> row \<Rightarrow> string \<Rightarrow> store \<Rightarrow> store \<Rightarrow> bool" where
  "saved e m memo content s s' =
     ((\<forall>r \<in> set (tabs s' Memos). id_is e m r \<longrightarrow> row_get r ''content'' = VStr content) \<and>
      filter (\<lambda>r. \<not> id_is e m r) (tabs s' Memos) = filter (\<lambda>r. \<not> id_is e m r) (tabs s Memos) \<and>
      (truthy (row_get memo ''content'') \<longrightarrow> (\<exists>w \<in> set (memo_versions_of e m s').
         row_get w ''content'' = row_get memo ''content'' \<and>
         row_get w ''version'' = VInt (next_version e m s))) \<and>
      set (tabs s Memo_versions) \<subseteq> set (tabs s' Memo_versions) \<and>
      tabs s' Projects = tabs s Projects \<and> tabs s' Project_members = tabs s Project_members)"

lemma filter_map_other:
  "(\<And>x. P x \<Longrightarrow> P (f x)) \<Longrightarrow> filter (\<lambda>x. \<not> P x) (map (\<lambda>x. if P x then f x else x) xs) = filter (\<lambda>x. \<not> P x) xs"
  by (induction xs) auto

lemma save_memo_saves:
  assumes "save_memo e sha m memo content base s = Inr (view, s')"
  shows "(base = None \<or> base = Some (memo_revision sha memo)) \<and> saved e m memo content s s'"
proof -
  obtain now s1 where n: "now_local e s = (now, s1)" by fastforce
  obtain utc s2 where u: "now_utc e s1 = (utc, s2)" by fastforce
  let ?asg = "[(''content'', VStr content), (''updated_at'', VTime now), (''updated_at_utc'', VTime utc)]"
  obtain s3 where k: "keep_version e m memo now utc s2 = Inr s3"
    and d: "db_set e Memos (id_is e m) ?asg s3 = Inr s'"
    and b: "base = None \<or> base = Some (memo_revision sha memo)"
    using assms by (auto simp: save_memo_def n u split: if_splits option.splits)
  have t: "tabs s2 = tabs s" using n u by simp
  then have nv: "next_version e m s2 = next_version e m s"
    by (simp add: next_version_def memo_versions_of_def select_def)
  note k = kept_version [OF k, unfolded t nv]
  note d = db_set_tabs [OF d]
  let ?f = "\<lambda>r. row_update r (touch (sql_now e (ticks s3)) Memos ?asg)"
  have m: "tabs s' Memos = map (\<lambda>r. if id_is e m r then ?f r else r) (tabs s Memos)"
    and o': "\<And>x. x \<noteq> Memos \<Longrightarrow> tabs s' x = tabs s3 x" using d k by simp_all
  have "\<forall>r \<in> set (tabs s' Memos). id_is e m r \<longrightarrow> row_get r ''content'' = VStr content"
    by (auto simp: m saved_row)
  moreover have "filter (\<lambda>r. \<not> id_is e m r) (tabs s' Memos) = filter (\<lambda>r. \<not> id_is e m r) (tabs s Memos)"
    unfolding m by (rule filter_map_other) (simp add: saved_row)
  moreover have "memo_versions_of e m s' = memo_versions_of e m s3"
    by (simp add: memo_versions_of_def select_def o')
  ultimately show ?thesis using b k by (simp add: saved_def o')
qed

lemma saved_flag:
  "saved e m memo content (s\<lparr>applying := b\<rparr>) s' \<Longrightarrow> saved e m memo content s (s'\<lparr>applying := c\<rparr>)"
  by (simp add: saved_def memo_versions_of_def select_def next_version_def)

section \<open>The save endpoint\<close>

lemma update_memo_error:
  "update_memo e g v sha m content base token u (server, s) = (Inl x, server', s') \<Longrightarrow> s' = s"
  by (auto simp: update_memo_def split: sum.splits prod.splits dest: with_connection_error)

lemma rest_lease_hub:
  assumes "validate_rest_lease g v m user token h = (True, h')" "distinct (map fst (hb_users h))"
  shows "\<exists>t sid. token = Some t \<and> t \<noteq> [] \<and> fences g v m user t h sid"
proof -
  have b: "\<not> blank token" and r: "rest_lease_among g v m user (the token) (hb_users h) h = (True, h')"
    using assms(1) by (auto simp: validate_rest_lease_def split: if_splits)
  have "map_of (hb_users h) sid = Some x" if "(sid, x) \<in> set (hb_users h)" for sid x
    using that assms(2) by simp
  from rest_lease [OF r this] b show ?thesis by (cases token) (auto simp: blank_def)
qed

text \<open>C28. A save goes through only for a member with the write role, with a token that is the claim,
  not yet run out, of a socket of this user which has the memo open and locked - on a node
  that issues the leases itself also the token of the live lease the registry holds for this
  user and socket -, and only on top of the revision it names, if it names one; it replaces
  the text of this memo alone and keeps the old text as the next version, and a refused save
  changes nothing.\<close>

theorem save_is_fenced:
  assumes "update_memo e g v sha m content base token u (Some h, s) = (ans, server, s')"
    and "distinct (map fst (hb_users h))"
  shows "case ans of Inl x \<Rightarrow> s' = s
    | Inr view \<Rightarrow> \<exists>memo t sid. live_row e Memos m s = Some memo \<and>
        can_write_project e (project_of memo) u s \<and>
        token = Some t \<and> t \<noteq> [] \<and> fences g v m (us_id u) t h sid \<and>
        (base = None \<or> base = Some (memo_revision sha memo)) \<and> saved e m memo content s s'"
proof (cases ans)
  case (Inl x)
  then show ?thesis using assms(1) by (simp add: update_memo_error)
next
  case (Inr view)
  obtain memo h1 where w: "writable_memo e m u s = Inr memo"
    and l: "validate_rest_lease g v m (us_id u) token h = (True, h1)"
    and c: "with_connection False (save_memo e sha m memo content base) s = (Inr view, s')"
    using assms(1)
    by (auto simp: Inr update_memo_def require_memo_write_lease_def split: sum.splits prod.splits if_splits)
  obtain s1 where k: "save_memo e sha m memo content base (s\<lparr>applying := False\<rparr>) = Inr (view, s1)"
    and s': "s' = s1\<lparr>applying := applying s\<rparr>"
    using c by (auto simp: with_connection_def split: sum.splits)
  have "saved e m memo content s s'"
    using save_memo_saves [OF k] saved_flag by (auto simp: s')
  moreover have "live_row e Memos m s = Some memo" "can_write_project e (project_of memo) u s"
    using w by (auto simp: writable_memo_def require_memo_def allowed_def split: option.splits if_splits)
  ultimately show ?thesis
    using Inr rest_lease_hub [OF l assms(2)] save_memo_saves [OF k] by auto
qed

section \<open>A save at work\<close>

text \<open>Ann opens memo \<open>m\<close>, takes the lock and saves.\<close>

definition opened :: "store \<Rightarrow> string \<Rightarrow> user \<Rightarrow> hub \<Rightarrow> hub" where
  "opened s sid u h =
     lock_memo sample_env server_cfg tick_env sid (JObj [(''memoId'', JStr ''m'')]) s
       (join_memo sample_env server_cfg tick_env sid (JObj [(''memoId'', JStr ''m'')]) s
         (register_browser_socket sid (''session-'' @ sid) u False (h\<lparr>hb_loop := True\<rparr>)))"

definition ann_hub :: hub where
  "ann_hub = opened (memo_node ''old'' 0) ''one'' ann_user
     (new_hub True (new_registry 120000000) fresh_runtime)"

definition plain_sha :: revision where
  "plain_sha = (\<lambda>(a, b, c). py_str a @ ''/'' @ py_str c)"

definition ann_save :: "(exn + row) \<times> hub option \<times> store" where
  "ann_save = update_memo sample_env server_cfg tick_env plain_sha ''m'' ''new''
     (Some (plain_sha (VStr ''old'', VStr ''m'', VStr (iso_db 0)))) (Some ''lease-1'') ann_user
     (Some ann_hub, memo_node ''old'' 0)"

lemma ann_saves: "value_with (\<lambda>v. row_get v ''content'' = VStr ''new'') (fst ann_save)"
  by code_simp

lemma ann_users: "distinct (map fst (hb_users ann_hub))"
  by code_simp

theorem save_is_fenced_witness:
  "\<exists>memo sid. live_row sample_env Memos ''m'' (memo_node ''old'' 0) = Some memo \<and>
     fences server_cfg tick_env ''m'' ''ann'' ''lease-1'' ann_hub sid \<and>
     saved sample_env ''m'' memo ''new'' (memo_node ''old'' 0) (snd (snd ann_save))"
proof (rule value_withE [OF ann_saves])
  fix view assume "fst ann_save = Inr view"
  then have run: "update_memo sample_env server_cfg tick_env plain_sha ''m'' ''new''
     (Some (plain_sha (VStr ''old'', VStr ''m'', VStr (iso_db 0)))) (Some ''lease-1'') ann_user
     (Some ann_hub, memo_node ''old'' 0) = (Inr view, fst (snd ann_save), snd (snd ann_save))"
    by (simp add: ann_save_def prod_eq_iff)
  from save_is_fenced [OF run ann_users, unfolded sum.case] obtain memo t sid
    where "live_row sample_env Memos ''m'' (memo_node ''old'' 0) = Some memo"
      "fences server_cfg tick_env ''m'' (us_id ann_user) t ann_hub sid" "Some ''lease-1'' = Some t"
      "saved sample_env ''m'' memo ''new'' (memo_node ''old'' 0) (snd (snd ann_save))" by blast
  moreover have "us_id ann_user = ''ann''" by (simp add: ann_user_def)
  ultimately show ?thesis by auto
qed


section \<open>A late notice takes a claim away\<close>

text \<open>
  Ann unlocks, Bob locks before the event loop has carried out the notice of the unlock: the
  notice then clears the claims of every socket on the memo, Bob's too. The registry still
  names Bob, but his saves are refused and his renewals and his unlock are ignored.
\<close>

definition bob_user :: user where
  "bob_user = ann_user\<lparr>us_id := ''bob'', us_display := Some ''Bob''\<rparr>"

definition overtaken_hub :: hub where
  "overtaken_hub =
     run_pending server_cfg tick_env
       (opened (memo_node ''old'' 0) ''two'' bob_user
         (unlock_memo server_cfg tick_env ''one'' (JObj [(''memoId'', JStr ''m'')])
           (run_pending server_cfg tick_env ann_hub)))"

definition bobs_lease :: "hub \<Rightarrow> bool" where
  "bobs_lease h =
     (case current_holder (he_mono tick_env (hb_event h)) ''m'' (hb_registry h) of None \<Rightarrow> False
      | Some x \<Rightarrow> hv_owner x = ''node:two'' \<and>
          \<not> fst (validate_rest_lease server_cfg tick_env ''m'' ''bob'' (Some (hv_token x)) h) \<and>
          hb_event (unlock_memo server_cfg tick_env ''two'' (JObj [(''memoId'', JStr ''m'')]) h) = hb_event h)"

lemma late_notice_takes_claim: "bobs_lease overtaken_hub"
  by code_simp

end
