(* ===== verification/Project_Api.thy ===== *)
theory Project_Api
  imports Memo_Api
begin

text \<open>
  \<^verbatim>\<open>src/routers/projects.py\<close>: projects and their members. A member who is removed leaves a
  tombstone, which an invitation brings back to life; a deleted project leaves tombstones of
  its memos and members.
\<close>

section \<open>Views\<close>

definition serialize_project :: "row \<Rightarrow> exn + row" where
  "serialize_project r =
     sbind (stamp r ''created_at'') (\<lambda>created. sbind (stamp r ''updated_at'') (\<lambda>updated.
       Inr [(''id'', row_get r ''id''), (''name'', row_get r ''name''), (''icon'', row_get r ''icon''),
            (''status'', row_get r ''status''), (''isSecret'', VBool (truthy (row_get r ''is_secret''))),
            (''ownerId'', row_get r ''owner_id''), (''createdAt'', created), (''updatedAt'', updated),
            (''updatedAtUtc'', utc_stamp r)]))"

text \<open>\<open>a or b\<close> on column values\<close>

definition val_or :: "val \<Rightarrow> val \<Rightarrow> val" where
  "val_or a b = (if truthy a then a else b)"

definition serialize_member :: "row \<Rightarrow> exn + row" where
  "serialize_member r =
     sbind (stamp r ''invited_at'') (\<lambda>invited.
       Inr [(''id'', row_get r ''id''), (''projectId'', row_get r ''project_id''),
            (''userId'', row_get r ''user_id''), (''role'', row_get r ''role''), (''invitedAt'', invited),
            (''username'', val_or (row_get r ''username'')
               (val_or (row_get r ''email'') (row_get r ''user_id''))),
            (''displayName'', val_or (row_get r ''display_name'')
               (val_or (row_get r ''username'') (row_get r ''user_id''))),
            (''isAdmin'', VBool (row_get r ''role'' = VStr ''owner''))])"

definition opt_val :: "string option \<Rightarrow> val" where
  "opt_val x = (case x of None \<Rightarrow> VNull | Some s \<Rightarrow> VStr s)"

section \<open>Members\<close>

record invitation =
  iv_user :: string
  iv_role :: string
  iv_username :: "string option"
  iv_display :: "string option"
  iv_email :: "string option"

definition member_of :: "env \<Rightarrow> string \<Rightarrow> string \<Rightarrow> row \<Rightarrow> bool" where
  "member_of e p u r = (col_is e ''project_id'' p r \<and> col_is e ''user_id'' u r)"

definition managed :: "env \<Rightarrow> string \<Rightarrow> user \<Rightarrow> string \<Rightarrow> store \<Rightarrow> exn + unit" where
  "managed e p u why s =
     sbind (require_live_project e p s)
       (\<lambda>r. if can_manage_project e p u s then Inr () else Inl (HttpError 403 why))"

definition invitation_row :: "invitation \<Rightarrow> int \<Rightarrow> int \<Rightarrow> row" where
  "invitation_row d now utc =
     [(''username'', opt_val (iv_username d)), (''display_name'', opt_val (iv_display d)),
      (''email'', opt_val (iv_email d)), (''role'', VStr (iv_role d)), (''invited_at'', VTime now),
      (''updated_at_utc'', VTime utc)]"

definition invite_reply :: "string \<Rightarrow> string \<Rightarrow> invitation \<Rightarrow> int \<Rightarrow> row" where
  "invite_reply mid p d now =
     [(''id'', VStr mid), (''projectId'', VStr p), (''userId'', VStr (iv_user d)),
      (''role'', VStr (iv_role d)), (''invitedAt'', VStr (isoformat now)),
      (''username'', VStr (str_or (iv_username d) (str_or (iv_email d) (iv_user d)))),
      (''displayName'', VStr (str_or (iv_display d) (str_or (iv_username d) (iv_user d)))),
      (''isAdmin'', VBool (iv_role d = ''owner''))]"

text \<open>The key of a membership is unique, so a tombstone has to be revived.\<close>

definition invite_member_body :: "env \<Rightarrow> string \<Rightarrow> invitation \<Rightarrow> user \<Rightarrow> store \<Rightarrow> exn + row \<times> store" where
  "invite_member_body e p d u s =
     sbind (managed e p u ''Only project owner can invite members'' s) (\<lambda>x.
       let (now, s1) = now_local e s; (utc, s2) = now_utc e s1 in
       case find (member_of e p (iv_user d)) (tabs s2 Project_members) of
         Some r \<Rightarrow>
           if live r then Inl (HttpError 409 ''User is already a member'')
           else sbind (db_set e Project_members (id_is e (row_id r))
                  ((''deleted_at'', VNull) # invitation_row d now utc) s2)
                  (\<lambda>s3. Inr (invite_reply (row_id r) p d now, s3))
       | None \<Rightarrow>
           (let (mid, s3) = generate_id e s2
            in sbind (db_insert e Project_members
                  ([(''id'', VStr mid), (''project_id'', VStr p), (''user_id'', VStr (iv_user d))] @
                   invitation_row d now utc) s3)
                  (\<lambda>s4. Inr (invite_reply mid p d now, s4))))"

definition invite_member :: "env \<Rightarrow> string \<Rightarrow> invitation \<Rightarrow> user \<Rightarrow> store \<Rightarrow> (exn + row) \<times> store" where
  "invite_member e p d u s =
     (case require_admin u of
        Inl x \<Rightarrow> (Inl x, s) | Inr u' \<Rightarrow> with_connection False (invite_member_body e p d u) s)"

definition remove_member_body :: "env \<Rightarrow> string \<Rightarrow> string \<Rightarrow> user \<Rightarrow> store \<Rightarrow> exn + unit \<times> store" where
  "remove_member_body e p member u s =
     sbind (managed e p u ''Only project owner can remove members'' s) (\<lambda>x.
       let current = (\<lambda>r. member_of e p member r \<and> live r) in
       if (case find current (tabs s Project_members) of
             None \<Rightarrow> False | Some r \<Rightarrow> row_get r ''role'' = VStr ''owner'')
       then Inl (HttpError 400 ''Project owner cannot be removed'')
       else let (utc, s1) = now_utc e s
            in sbind (db_update e Project_members current (tombstone_at utc) s1)
                 (\<lambda>(n, s2). if n = 0 then Inl (HttpError 404 ''Member not found'') else Inr ((), s2)))"

definition remove_member :: "env \<Rightarrow> string \<Rightarrow> string \<Rightarrow> user \<Rightarrow> store \<Rightarrow> (exn + unit) \<times> store" where
  "remove_member e p member u s =
     (case require_admin u of
        Inl x \<Rightarrow> (Inl x, s) | Inr u' \<Rightarrow> with_connection False (remove_member_body e p member u) s)"

definition time_key :: "string \<Rightarrow> row \<Rightarrow> int" where
  "time_key c r = (case row_get r c of VTime t \<Rightarrow> t | _ \<Rightarrow> 0)"

definition get_project_members :: "env \<Rightarrow> string \<Rightarrow> user \<Rightarrow> store \<Rightarrow> exn + row list" where
  "get_project_members e p u s =
     sbind (require_live_project e p s) (\<lambda>x.
     sbind (allowed (is_admin u \<or> membership e p (us_id u) s \<noteq> None)) (\<lambda>x.
       collect serialize_member
         (sort_key (time_key ''invited_at'')
           (filter (\<lambda>r. col_is e ''project_id'' p r \<and> live r) (tabs s Project_members)))))"

section \<open>Projects\<close>

text \<open>
  A service owner sees every project, another admin those owned or joined, anyone else those
  joined, one line for each membership.
\<close>

definition visible_rows :: "env \<Rightarrow> user \<Rightarrow> store \<Rightarrow> row list" where
  "visible_rows e u s =
     (let ps = filter live (tabs s Projects);
          joined = (\<lambda>p. filter (\<lambda>m. col_is e ''project_id'' (row_id p) m \<and>
                       col_is e ''user_id'' (us_id u) m \<and> live m) (tabs s Project_members))
      in if is_service_owner u then ps
         else if is_admin u then filter (\<lambda>p. col_is e ''owner_id'' (us_id u) p \<or> joined p \<noteq> []) ps
         else concat (map (\<lambda>p. map (\<lambda>m. p) (joined p)) ps))"

definition get_projects :: "env \<Rightarrow> user \<Rightarrow> store \<Rightarrow> exn + row list" where
  "get_projects e u s = collect serialize_project (sort_key (time_key ''created_at'') (visible_rows e u s))"

record new_project =
  np_name :: string
  np_icon :: string
  np_secret :: bool
  np_password :: "string option"

definition create_project_body ::
  "env \<Rightarrow> string \<Rightarrow> string \<Rightarrow> int \<Rightarrow> int \<Rightarrow> new_project \<Rightarrow> user \<Rightarrow> store \<Rightarrow> exn + row \<times> store" where
  "create_project_body e pid mid now utc d u s =
     sbind (db_insert e Projects
        [(''id'', VStr pid), (''owner_id'', VStr (us_id u)), (''name'', VStr (np_name d)),
         (''icon'', VStr (np_icon d)), (''status'', VInt 0),
         (''is_secret'', VInt (if np_secret d then 1 else 0)), (''password'', opt_val (np_password d)),
         (''created_at'', VTime now), (''updated_at'', VTime now), (''updated_at_utc'', VTime utc)] s)
       (\<lambda>s1. sbind (db_insert e Project_members
        [(''id'', VStr mid), (''project_id'', VStr pid), (''user_id'', VStr (us_id u)),
         (''username'', opt_val (us_username u)), (''display_name'', opt_val (us_display u)),
         (''email'', opt_val (us_email u)), (''role'', VStr ''owner''), (''invited_at'', VTime now),
         (''updated_at_utc'', VTime utc)] s1)
       (\<lambda>s2. Inr ([(''id'', VStr pid), (''name'', VStr (np_name d)), (''icon'', VStr (np_icon d)),
         (''status'', VInt 0), (''isSecret'', VBool (np_secret d)), (''ownerId'', VStr (us_id u)),
         (''createdAt'', VStr (isoformat now)), (''updatedAt'', VStr (isoformat now)),
         (''updatedAtUtc'', VStr (iso_db utc))], s2)))"

definition create_project :: "env \<Rightarrow> new_project \<Rightarrow> user \<Rightarrow> store \<Rightarrow> (exn + row) \<times> store" where
  "create_project e d u s =
     (case require_admin u of
        Inl x \<Rightarrow> (Inl x, s)
      | Inr u' \<Rightarrow>
          (let (pid, s1) = generate_id e s; (mid, s2) = generate_id e s1;
               (now, s3) = now_local e s2; (utc, s4) = now_utc e s3
           in with_connection False (create_project_body e pid mid now utc d u) s4))"

definition mergeable_project :: "env \<Rightarrow> user \<Rightarrow> store \<Rightarrow> string \<Rightarrow> unit \<Rightarrow> exn + unit" where
  "mergeable_project e u s p x = managed e p u ''Access denied'' s"

definition merge_project_into ::
  "env \<Rightarrow> (json \<Rightarrow> string) \<Rightarrow> bool \<Rightarrow> peer_cfg \<Rightarrow> (string \<times> string \<times> json \<Rightarrow> peer_fail + (string \<times> json) list)
     \<Rightarrow> string \<Rightarrow> string \<Rightarrow> user \<Rightarrow> sync_runtime \<times> store \<Rightarrow> (exn + merged) \<times> sync_runtime \<times> store" where
  "merge_project_into e shown client p remote loser winner u w =
     (case require_admin u of
        Inl x \<Rightarrow> (Inl x, w)
      | Inr u' \<Rightarrow>
          (case sfold (mergeable_project e u (snd w)) [loser, winner] () of
             Inl x \<Rightarrow> (Inl x, w)
           | Inr ok \<Rightarrow>
               (case run_merge e shown client p remote ''project'' loser winner w of
                  (Inl x, w1) \<Rightarrow> (Inl (as_http x), w1)
                | (Inr r, w1) \<Rightarrow> (Inr r, w1))))"

definition in_project :: "env \<Rightarrow> string \<Rightarrow> row \<Rightarrow> bool" where
  "in_project e p r = (col_is e ''project_id'' p r \<and> live r)"

definition delete_project_body :: "env \<Rightarrow> string \<Rightarrow> user \<Rightarrow> store \<Rightarrow> exn + (nat \<times> nat) \<times> store" where
  "delete_project_body e p u s =
     sbind (managed e p u ''Access denied'' s) (\<lambda>x.
       let (utc, s1) = now_utc e s in
       sbind (db_update e Memos (in_project e p) (tombstone_at utc) s1) (\<lambda>(memos, s2).
       sbind (db_update e Project_members (in_project e p) (tombstone_at utc) s2) (\<lambda>(members, s3).
       sbind (db_set e Projects (id_is e p) (tombstone_at utc) s3) (\<lambda>s4.
         Inr ((memos, members), s4)))))"

definition delete_project :: "env \<Rightarrow> string \<Rightarrow> user \<Rightarrow> store \<Rightarrow> (exn + nat \<times> nat) \<times> store" where
  "delete_project e p u s =
     (case require_admin u of
        Inl x \<Rightarrow> (Inl x, s) | Inr u' \<Rightarrow> with_connection False (delete_project_body e p u) s)"

text \<open>The passwords are compared by Python, exactly; a project without one matches none.\<close>

definition verify_project_password :: "env \<Rightarrow> string \<Rightarrow> string \<Rightarrow> store \<Rightarrow> exn + bool" where
  "verify_project_password e p attempt s =
     sbind (require_live_project e p s) (\<lambda>r. Inr (row_get r ''password'' = VStr attempt))"

end
