(* ===== verification/Project_Laws.thy ===== *)
theory Project_Laws
  imports Project_Api Samples
begin

text \<open>
  What the endpoints for projects guarantee: a deleted project leaves a logged tombstone of
  itself, of each memo and of each member, and touches nothing else.
\<close>

section \<open>An update in the log\<close>

definition entry_key :: "log_entry \<Rightarrow> string \<times> string \<times> op" where
  "entry_key x = (le_table x, le_row x, le_op x)"

definition updates :: "tbl \<Rightarrow> row list \<Rightarrow> (string \<times> string \<times> op) list" where
  "updates t rs = map (\<lambda>r. (tbl_name t, row_id r, Update)) rs"

text \<open>\<open>s'\<close> has the log of \<open>s\<close> and these entries after it.\<close>

definition logs :: "(string \<times> string \<times> op) list \<Rightarrow> store \<Rightarrow> store \<Rightarrow> bool" where
  "logs ks s s' = (\<exists>es. change_log s' = change_log s @ es \<and> map entry_key es = ks)"

lemma logs_nothing: "change_log s' = change_log s \<Longrightarrow> logs [] s s'"
  by (simp add: logs_def)

lemma logs_trans: "logs ks s s1 \<Longrightarrow> logs js s1 s2 \<Longrightarrow> logs (ks @ js) s s2"
  by (force simp: logs_def)

lemma log_changes_new:
  assumes "\<not> applying s"
  shows "logs (map (\<lambda>i. (tbl_name t, i, k)) is) s (log_changes e t k is s)"
  using assms
proof (induction "is" arbitrary: s)
  case (Cons i "is")
  have "logs [(tbl_name t, i, k)] s (log_change e t k i s)"
    using Cons.prems by (simp add: logs_def log_change_def entry_key_def)
  moreover have "\<not> applying (log_change e t k i s)" using Cons.prems by simp
  ultimately show ?case using logs_trans [OF _ Cons.IH] by fastforce
qed (simp add: logs_nothing)

lemma db_update_logs:
  assumes "db_update e t P asg s = Inr (n, s')" "\<not> applying s"
  shows "logs (updates t (filter P (tabs s t))) s s'"
proof -
  let ?s = "s\<lparr>tabs := (tabs s)(t := map (\<lambda>r. if P r then row_update r (touch (sql_now e (ticks s)) t asg)
     else r) (tabs s t))\<rparr>"
  have s': "s' = log_changes e t Update (map row_id (filter P (tabs s t))) ?s"
    using assms(1) by (auto simp: db_update_def Let_def split: option.splits)
  have "logs (updates t (filter P (tabs s t))) ?s s'"
    using log_changes_new [of ?s t Update "map row_id (filter P (tabs s t))" e] assms(2)
    by (simp add: s' updates_def comp_def)
  then show ?thesis by (simp add: logs_def)
qed

section \<open>Tombstones\<close>

text \<open>The rows of \<open>t\<close> that \<open>P\<close> selects get a tombstone; every other column and row stays.\<close>

definition buried :: "tbl \<Rightarrow> (row \<Rightarrow> bool) \<Rightarrow> int \<Rightarrow> store \<Rightarrow> store \<Rightarrow> bool" where
  "buried t P utc s s' =
     (\<exists>f. tabs s' t = map (\<lambda>r. if P r then f r else r) (tabs s t) \<and>
        (\<forall>r c. c \<notin> {''deleted_at'', ''updated_at_utc'', ''updated_at''} \<longrightarrow> row_get (f r) c = row_get r c) \<and>
        (\<forall>r. row_get (f r) ''deleted_at'' = VTime utc \<and> row_get (f r) ''updated_at_utc'' = VTime utc))"

lemma tombstone_get:
  "row_get (row_update r (touch k t (tombstone_at utc))) c =
     (if c \<in> {''deleted_at'', ''updated_at_utc''} then VTime utc
      else if c = ''updated_at'' \<and> t \<in> {Projects, Memos} then VTime k else row_get r c)"
  by (auto simp: touch_def tombstone_at_def)

lemma buried_update:
  assumes "db_update e t P (tombstone_at utc) s = Inr (n, s')"
  shows "buried t P utc s s'" "\<And>t'. t' \<noteq> t \<Longrightarrow> tabs s' t' = tabs s t'"
    "n = length (filter P (tabs s t))" "articles s' = articles s" "applying s' = applying s"
proof -
  note tabs = db_update_tabs [OF assms]
  show "buried t P utc s s'"
    unfolding buried_def using tabs
    by (intro exI [of _ "\<lambda>r. row_update r (touch (sql_now e (ticks s)) t (tombstone_at utc))"])
      (simp add: tombstone_get)
  show "tabs s' t' = tabs s t'" if "t' \<noteq> t" for t' using tabs that by simp
  show "n = length (filter P (tabs s t))" using tabs by simp
  show "articles s' = articles s" "applying s' = applying s"
    using db_update_books [OF assms] by (simp_all add: same_books_def)
qed

lemma buried_cong:
  "tabs s1 t = tabs s2 t \<Longrightarrow> tabs s1' t = tabs s2' t \<Longrightarrow> buried t P utc s1 s1' = buried t P utc s2 s2'"
  by (simp add: buried_def)

text \<open>A row afterwards is one that was not selected, or the tombstone of one that was.\<close>

lemma buried_row:
  assumes "buried t P utc s s'" "r \<in> set (tabs s' t)"
  obtains (same) "r \<in> set (tabs s t)" "\<not> P r" | (dead) "row_get r ''deleted_at'' = VTime utc"
proof -
  from assms(1) obtain f where f: "tabs s' t = map (\<lambda>r. if P r then f r else r) (tabs s t)"
    and d: "\<forall>r. row_get (f r) ''deleted_at'' = VTime utc \<and> row_get (f r) ''updated_at_utc'' = VTime utc"
    unfolding buried_def by (elim exE conjE)
  from assms(2) obtain x where "x \<in> set (tabs s t)" "r = (if P x then f x else x)"
    unfolding f by (elim imageE [unfolded set_map] set_map [THEN equalityD1, THEN subsetD, THEN imageE])
  then show ?thesis using that d by (cases "P x") simp_all
qed

section \<open>Deleting a project\<close>

lemma delete_project_runs:
  assumes "delete_project_body e p u s = Inr ((k, n), s')" "\<not> applying s"
  shows "can_manage_project e p u s \<and> articles s' = articles s \<and> tabs s' Memo_versions = tabs s Memo_versions \<and>
    k = length (filter (in_project e p) (tabs s Memos)) \<and>
    n = length (filter (in_project e p) (tabs s Project_members)) \<and>
    (\<exists>utc. buried Memos (in_project e p) utc s s' \<and> buried Project_members (in_project e p) utc s s' \<and>
       buried Projects (id_is e p) utc s s') \<and>
    logs (updates Memos (filter (in_project e p) (tabs s Memos)) @
          updates Project_members (filter (in_project e p) (tabs s Project_members)) @
          updates Projects (filter (id_is e p) (tabs s Projects))) s s'"
proof -
  obtain utc s1 where c: "now_utc e s = (utc, s1)" by fastforce
  then have s1: "tabs s1 = tabs s" "articles s1 = articles s" "\<not> applying s1" "change_log s1 = change_log s"
    using assms(2) by (auto simp: now_utc_def)
  obtain k' s2 n' s3 where m: "managed e p u ''Access denied'' s = Inr ()"
    and a: "db_update e Memos (in_project e p) (tombstone_at utc) s1 = Inr (k', s2)"
    and b: "db_update e Project_members (in_project e p) (tombstone_at utc) s2 = Inr (n', s3)"
    and d: "db_set e Projects (id_is e p) (tombstone_at utc) s3 = Inr s'" and kn: "k = k'" "n = n'"
    using assms(1) by (auto simp: delete_project_body_def c split: sum.splits)
  obtain j where d: "db_update e Projects (id_is e p) (tombstone_at utc) s3 = Inr (j, s')"
    using d by (auto simp: db_set_def)
  note a' = buried_update [OF a] and b' = buried_update [OF b] and d' = buried_update [OF d]
  have f2: "\<not> applying s2" and f3: "\<not> applying s3" using s1(3) a'(5) b'(5) by simp_all
  note l = db_update_logs [OF a s1(3)] db_update_logs [OF b f2] db_update_logs [OF d f3]
  have "logs (updates Memos (filter (in_project e p) (tabs s Memos))) s s2"
    using l(1) s1 by (simp add: logs_def)
  moreover have "can_manage_project e p u s" using m by (simp add: managed_def split: if_splits)
  moreover have "buried Memos (in_project e p) utc s s'"
    using a'(1) buried_cong [of s Memos s1 s' s2] s1 b'(2) d'(2) by simp
  moreover have "buried Project_members (in_project e p) utc s s'"
    using b'(1) buried_cong [of s Project_members s2 s' s3] s1 a'(2) d'(2) by simp
  moreover have "buried Projects (id_is e p) utc s s'"
    using d'(1) buried_cong [of s Projects s3 s' s'] s1 a'(2) b'(2) by simp
  ultimately show ?thesis
    using l(2,3) a' b' d' s1 kn logs_trans by (auto simp: intro!: logs_trans)
qed


text \<open>What a deletion that was answered with these two counts has done.\<close>

definition project_deleted :: "env \<Rightarrow> string \<Rightarrow> nat \<Rightarrow> nat \<Rightarrow> store \<Rightarrow> store \<Rightarrow> bool" where
  "project_deleted e p k n s s' =
     (articles s' = articles s \<and> tabs s' Memo_versions = tabs s Memo_versions \<and>
      k = length (filter (in_project e p) (tabs s Memos)) \<and>
      n = length (filter (in_project e p) (tabs s Project_members)) \<and>
      (\<exists>utc. buried Memos (in_project e p) utc s s' \<and> buried Project_members (in_project e p) utc s s' \<and>
         buried Projects (id_is e p) utc s s') \<and>
      logs (updates Memos (filter (in_project e p) (tabs s Memos)) @
            updates Project_members (filter (in_project e p) (tabs s Project_members)) @
            updates Projects (filter (id_is e p) (tabs s Projects))) s s')"

lemma project_deleted_flag:
  "project_deleted e p k n (s\<lparr>applying := b\<rparr>) s' \<Longrightarrow> project_deleted e p k n s (s'\<lparr>applying := c\<rparr>)"
  by (simp add: project_deleted_def buried_def logs_def)

text \<open>C30. Deleting a project, which only an admin who owns it can do, removes no row: the project and
  each of its live memos and members get one tombstone of the same moment and one entry in the
  log, and nothing else changes.\<close>

theorem deleted_project_leaves_tombstones:
  assumes "delete_project e p u s = (ans, s')"
  shows "case ans of Inl x \<Rightarrow> s' = s
    | Inr (k, n) \<Rightarrow> is_admin u \<and> can_manage_project e p u s \<and> project_deleted e p k n s s' \<and>
        (\<forall>t \<in> {Memos, Project_members}. \<forall>r \<in> set (tabs s' t). \<not> in_project e p r) \<and>
        (\<forall>r \<in> set (tabs s' Projects). id_is e p r \<longrightarrow> \<not> live r)"
proof (cases ans)
  case (Inl x)
  then show ?thesis using assms
    by (auto simp: delete_project_def split: sum.splits dest: with_connection_error)
next
  case (Inr kn)
  obtain k n where kn: "kn = (k, n)" by (cases kn)
  let ?s = "s\<lparr>applying := False\<rparr>"
  obtain s1 where b: "delete_project_body e p u ?s = Inr ((k, n), s1)" and s': "s' = s1\<lparr>applying := applying s\<rparr>"
    and adm: "is_admin u"
    using assms by (auto simp: Inr kn delete_project_def require_admin_def with_connection_def
        split: sum.splits if_splits)
  note runs = delete_project_runs [OF b, simplified]
  have "can_manage_project e p u ?s = can_manage_project e p u s"
    by (simp add: can_manage_project_def get_project_role_def membership_def)
  then have "can_manage_project e p u s" using runs by simp
  moreover have d: "project_deleted e p k n s s'"
    unfolding s' using runs by (intro project_deleted_flag [where b = False]) (simp add: project_deleted_def)
  moreover have "\<not> in_project e p r" if h: "r \<in> set (tabs s' t)" "t \<in> {Memos, Project_members}" for t r
  proof -
    obtain utc where "buried t (in_project e p) utc s s'" using d h(2) by (auto simp: project_deleted_def)
    from this h(1) show ?thesis by (cases rule: buried_row) (simp_all add: in_project_def)
  qed
  moreover have "\<not> live r" if "r \<in> set (tabs s' Projects)" "id_is e p r" for r
  proof -
    obtain utc where "buried Projects (id_is e p) utc s s'" using d unfolding project_deleted_def by blast
    from this that(1) show ?thesis by (cases rule: buried_row) (use that(2) in simp_all)
  qed
  ultimately show ?thesis using Inr kn adm by simp
qed

text \<open>Ann deletes the project of memo \<open>m\<close>.\<close>

definition admin_ann :: user where
  "admin_ann = \<lparr>us_id = ''ann'', us_login = None, us_username = None, us_display = Some ''Ann'',
     us_name = None, us_email = None, us_permission = Some ''owner''\<rparr>"

definition deleted_home :: "(exn + nat \<times> nat) \<times> store" where
  "deleted_home = delete_project sample_env ''p'' admin_ann (memo_node ''old'' 0)"

lemma home_deletes: "fst deleted_home = Inr (1, 0)"
  by code_simp

theorem deleted_project_leaves_tombstones_witness:
  "project_deleted sample_env ''p'' 1 0 (memo_node ''old'' 0) (snd deleted_home) \<and>
     filter (in_project sample_env ''p'') (tabs (snd deleted_home) Memos) = []"
proof -
  have "delete_project sample_env ''p'' admin_ann (memo_node ''old'' 0) = (Inr (1, 0), snd deleted_home)"
    using home_deletes by (simp add: deleted_home_def prod_eq_iff)
  from deleted_project_leaves_tombstones [OF this] show ?thesis by (simp add: filter_empty_conv)
qed

end
