(* ===== verification/Tokens.thy ===== *)
theory Tokens
  imports Sync_Auth
begin

text \<open>
  \<^verbatim>\<open>src/token_verifier.py\<close>: the signing keys of the authentication service with their cache, and
  the users that a token or a cached identity stands for (\<open>identity_to_user\<close> of
  \<^verbatim>\<open>src/services/sync_store.py\<close>, the bearer header of \<^verbatim>\<open>src/auth_utils.py\<close>). Reading and
  verifying a JWT is the library's, fetching the keys the network's: parameters.
\<close>

section \<open>Slugs and users\<close>

definition slug_char :: "char \<Rightarrow> bool" where
  "slug_char c = (let n = (of_char c :: nat) in 48 \<le> n \<and> n \<le> 57 \<or> 97 \<le> n \<and> n \<le> 122)"

text \<open>A run of other characters becomes one dash; \<open>lower()\<close> folds ASCII letters only here.\<close>

fun dashed :: "bool \<Rightarrow> string \<Rightarrow> string" where
  "dashed dash [] = []"
| "dashed dash (c # s) =
     (if slug_char c then c # dashed False s
      else if dash then dashed True s else CHR ''-'' # dashed True s)"

definition strip_dashes :: "string \<Rightarrow> string" where
  "strip_dashes s = rev (dropWhile (\<lambda>c. c = CHR ''-'') (rev (dropWhile (\<lambda>c. c = CHR ''-'') s)))"

definition slugify :: "string \<Rightarrow> string" where
  "slugify s = (let t = strip_dashes (dashed False (lower s)) in if t = [] then ''user'' else t)"

definition login_of :: "user \<Rightarrow> string" where
  "login_of u = str_or (us_login u) (us_id u)"

text \<open>The key \<open>slug\<close>, which both ways of building a user fill in.\<close>

definition slug_of :: "user \<Rightarrow> string" where
  "slug_of u = slugify (login_of u)"

definition identity_to_user :: "identity \<Rightarrow> user" where
  "identity_to_user i =
     (let login = str_or (id_login i) (id_account i); display = str_or (id_display i) login
      in \<lparr>us_id = id_account i, us_login = Some login, us_username = Some login, us_display = Some display,
          us_name = Some display, us_email = id_email i,
          us_permission = Some (if id_permission i = [] then ''visitor'' else id_permission i)\<rparr>)"

definition is_super_admin :: "user \<Rightarrow> bool" where
  "is_super_admin u = (us_permission u = Some ''superadmin'')"

record user_view =
  uv_id :: string
  uv_login :: string
  uv_username :: string
  uv_name :: string
  uv_display :: string
  uv_email :: "string option"
  uv_slug :: string
  uv_permission :: string
  uv_admin :: bool
  uv_super_admin :: bool

definition serialize_user :: "user \<Rightarrow> user_view" where
  "serialize_user u =
     \<lparr>uv_id = us_id u, uv_login = str_or (us_login u) (str_or (us_username u) (us_id u)),
      uv_username = str_or (us_username u) (us_id u),
      uv_name = str_or (us_name u) (str_or (us_display u) (us_id u)),
      uv_display = str_or (us_display u) (str_or (us_name u) (us_id u)), uv_email = us_email u,
      uv_slug = slug_of u,
      uv_permission = (case us_permission u of None \<Rightarrow> ''visitor'' | Some p \<Rightarrow> p),
      uv_admin = is_admin u, uv_super_admin = is_super_admin u\<rparr>"

section \<open>Signing keys\<close>

record key_env =
  ke_now :: "nat \<Rightarrow> int"
  ke_fetch :: "nat \<Rightarrow> exn + json"
  ke_header :: "string \<Rightarrow> exn + json"
  ke_verify :: "string \<Rightarrow> json \<Rightarrow> exn + claims"
  ke_seconds :: int

record key_state =
  ks_cache :: "json option"
  ks_expires :: int
  ks_event :: nat

definition clear_jwks_cache :: "key_state \<Rightarrow> key_state" where
  "clear_jwks_cache k = k\<lparr>ks_cache := None, ks_expires := 0\<rparr>"

definition get_jwks :: "key_env \<Rightarrow> key_state \<Rightarrow> (exn + json) \<times> key_state" where
  "get_jwks e k =
     (let now = ke_now e (ks_event k); k1 = k\<lparr>ks_event := Suc (ks_event k)\<rparr> in
      if (case ks_cache k of None \<Rightarrow> False | Some j \<Rightarrow> json_truthy j) \<and> now < ks_expires k
      then (Inr (the (ks_cache k)), k1)
      else case ke_fetch e (ks_event k1) of
             Inl x \<Rightarrow> (Inl x, k1\<lparr>ks_event := Suc (ks_event k1)\<rparr>)
           | Inr j \<Rightarrow> (Inr j, k1\<lparr>ks_event := Suc (ks_event k1), ks_cache := Some j,
                              ks_expires := now + ke_seconds e\<rparr>))"

fun key_among :: "json \<Rightarrow> json list \<Rightarrow> exn + json option" where
  "key_among kid [] = Inr None"
| "key_among kid (j # js) =
     (if \<not> is_object j then Inl (AttributeError ''get'')
      else if json_get j ''kid'' = kid then Inr (Some j) else key_among kid js)"

text \<open>\<open>keys\<close> is a list in a key set, and empty when it is missing.\<close>

definition find_jwk :: "key_env \<Rightarrow> json \<Rightarrow> key_state \<Rightarrow> (exn + json option) \<times> key_state" where
  "find_jwk e kid k =
     (case get_jwks e k of
        (Inl x, k1) \<Rightarrow> (Inl x, k1)
      | (Inr j, k1) \<Rightarrow>
          ((case j of
              JObj fs \<Rightarrow>
                (case map_of fs ''keys'' of
                   None \<Rightarrow> Inr None
                 | Some (JList js) \<Rightarrow> key_among kid js
                 | Some x \<Rightarrow> Inl (AttributeError ''get''))
            | _ \<Rightarrow> Inl (AttributeError ''get'')), k1))"

text \<open>A key that is not found is looked up once more in a fresh set.\<close>

definition decode_auth_api_token :: "key_env \<Rightarrow> string \<Rightarrow> key_state \<Rightarrow> (exn + claims) \<times> key_state" where
  "decode_auth_api_token e token k =
     (case ke_header e token of
        Inl x \<Rightarrow> (Inl x, k)
      | Inr h \<Rightarrow>
          (let kid = json_get h ''kid''; (first, k1) = find_jwk e kid k;
               (found, k2) = (case first of Inr None \<Rightarrow> find_jwk e kid (clear_jwks_cache k1)
                              | _ \<Rightarrow> (first, k1))
           in case found of
                Inl x \<Rightarrow> (Inl x, k2)
              | Inr None \<Rightarrow> (Inl (JWTError ''Signing key not found''), k2)
              | Inr (Some key) \<Rightarrow> (ke_verify e token key, k2)))"

definition get_bearer_token :: "(string \<times> string) list \<Rightarrow> string option" where
  "get_bearer_token hs =
     (let h = header hs ''authorization'' in
      if lower (take 7 h) = ''bearer '' then
        (let t = strip (drop 7 h) in if t = [] then None else Some t)
      else None)"

section \<open>What an accepted token was checked against\<close>

lemma key_among_kid: "key_among kid js = Inr (Some j) \<Longrightarrow> j \<in> set js \<and> json_get j ''kid'' = kid"
  by (induction js) (auto split: if_splits)

text \<open>The set a key was found in is the one cached or one just fetched.\<close>

lemma get_jwks_source:
  "get_jwks e k = (Inr j, k1) \<Longrightarrow> ks_cache k = Some j \<or> (\<exists>n. ke_fetch e n = Inr j)"
  by (auto simp: get_jwks_def Let_def split: option.splits if_splits sum.splits)

lemma find_jwk_source:
  assumes "find_jwk e kid k = (Inr (Some key), k1)"
  shows "\<exists>fs js. map_of fs ''keys'' = Some (JList js) \<and> key \<in> set js \<and> json_get key ''kid'' = kid \<and>
    (ks_cache k = Some (JObj fs) \<or> (\<exists>n. ke_fetch e n = Inr (JObj fs)))"
proof -
  obtain j where g: "get_jwks e k = (Inr j, k1)"
    using assms by (auto simp: find_jwk_def split: prod.splits sum.splits)
  then obtain fs js where "j = JObj fs" "map_of fs ''keys'' = Some (JList js)"
    "key_among kid js = Inr (Some key)"
    using assms by (auto simp: find_jwk_def split: json.splits option.splits)
  with get_jwks_source [OF g] key_among_kid show ?thesis by blast
qed

lemma decoded_with_known_key:
  assumes "decode_auth_api_token e token k = (Inr c, k')" "ks_cache k = None"
  shows "\<exists>h key fs js n. ke_header e token = Inr h \<and> ke_verify e token key = Inr c \<and>
    json_get key ''kid'' = json_get h ''kid'' \<and> key \<in> set js \<and>
    map_of fs ''keys'' = Some (JList js) \<and> ke_fetch e n = Inr (JObj fs)"
proof -
  obtain h where h: "ke_header e token = Inr h"
    using assms by (auto simp: decode_auth_api_token_def split: sum.splits)
  obtain first k1 where f: "find_jwk e (json_get h ''kid'') k = (first, k1)" by fastforce
  have "\<exists>key k0 k2. find_jwk e (json_get h ''kid'') k0 = (Inr (Some key), k2) \<and> ks_cache k0 = None \<and>
      ke_verify e token key = Inr c"
  proof (cases "first = Inr None")
    case True
    then show ?thesis using assms h f
      by (auto simp: decode_auth_api_token_def Let_def clear_jwks_cache_def
          split: prod.splits sum.splits option.splits intro!: exI)
  next
    case False
    then show ?thesis using assms h f
      by (auto simp: decode_auth_api_token_def Let_def split: prod.splits sum.splits option.splits)
  qed
  with h show ?thesis using find_jwk_source by (metis option.distinct(1))
qed

end
