(* ===== verification/Article_Api.thy ===== *)
theory Article_Api
  imports Memo_Api Tokens
begin

text \<open>
  \<^verbatim>\<open>src/routers/articles.py\<close>: published snapshots of memos. Reading is public. The wall clock of
  this router is the host's, \<open>zone\<close> seconds from UTC. The constraints of the articles table are
  not modelled as refusals.
\<close>

definition now_wall :: "env \<Rightarrow> int \<Rightarrow> store \<Rightarrow> int \<times> store" where
  "now_wall e zone s = (clock e (ticks s) + zone * 1000000, s\<lparr>ticks := Suc (ticks s)\<rparr>)"

section \<open>Views\<close>

definition article_project :: "env \<Rightarrow> row \<Rightarrow> store \<Rightarrow> row option" where
  "article_project e a s = fetch_id e Projects (project_of a) s"

definition article_head :: "row \<Rightarrow> row" where
  "article_head a =
     [(''id'', row_get a ''id''), (''memoId'', row_get a ''memo_id''), (''projectId'', row_get a ''project_id''),
      (''authorId'', row_get a ''author_id''), (''authorSlug'', row_get a ''author_slug''),
      (''title'', row_get a ''title'')]"

definition article_stamps :: "row \<Rightarrow> exn + row" where
  "article_stamps a =
     sbind (stamp a ''created_at'') (\<lambda>created. sbind (stamp a ''published_at'') (\<lambda>published.
     sbind (stamp a ''updated_at'') (\<lambda>updated.
       Inr [(''publishedVersion'', row_get a ''published_version''), (''createdAt'', created),
            (''publishedAt'', published), (''updatedAt'', updated)])))"

definition project_fields :: "row \<Rightarrow> row" where
  "project_fields p =
     [(''projectName'', row_get p ''name''), (''projectIcon'', row_get p ''icon''),
      (''isSecret'', VBool (truthy (row_get p ''is_secret'')))]"

definition article_view :: "bool \<Rightarrow> row \<Rightarrow> row \<Rightarrow> exn + row" where
  "article_view with_content a p =
     sbind (article_stamps a) (\<lambda>stamps.
       Inr (article_head a @ (if with_content then [(''content'', row_get a ''content'')] else []) @
            stamps @ project_fields p))"

section \<open>Publishing\<close>

text \<open>The memo, if it is live and has its project, and the version it would be published as.\<close>

definition publishable :: "env \<Rightarrow> string \<Rightarrow> store \<Rightarrow> row option" where
  "publishable e m s =
     find (\<lambda>r. id_is e m r \<and> live r \<and> fetch_id e Projects (project_of r) s \<noteq> None) (tabs s Memos)"

text \<open>The article of a memo is rewritten in place, or a new one is added.\<close>

definition put_article :: "env \<Rightarrow> string \<Rightarrow> row \<Rightarrow> row \<Rightarrow> store \<Rightarrow> string \<times> store" where
  "put_article e m memo fresh s =
     (case find (col_is e ''memo_id'' m) (articles s) of
        Some a \<Rightarrow>
          (row_id a, s\<lparr>articles := map (\<lambda>a. if col_is e ''memo_id'' m a then row_update a fresh else a)
                                     (articles s)\<rparr>)
      | None \<Rightarrow>
          (let (i, s1) = generate_id e s
           in (i, s1\<lparr>articles := articles s1 @
                [[(''id'', VStr i), (''memo_id'', VStr m), (''project_id'', row_get memo ''project_id''),
                  (''created_at'', row_get memo ''created_at'')] @ fresh]\<rparr>)))"

definition publish_article_body :: "env \<Rightarrow> int \<Rightarrow> string \<Rightarrow> user \<Rightarrow> store \<Rightarrow> exn + row \<times> store" where
  "publish_article_body e zone m u s =
     (case publishable e m s of
        None \<Rightarrow> Inl (HttpError 404 ''Memo not found'')
      | Some memo \<Rightarrow>
          if \<not> can_manage_project e (project_of memo) u s
          then Inl (HttpError 403 ''Only project owner can publish article'')
          else if \<not> truthy (row_get memo ''content'') then Inl (HttpError 400 ''Cannot publish empty memo'')
          else
            (let (now, s1) = now_wall e zone s;
                 fresh = [(''author_id'', VStr (us_id u)), (''author_slug'', VStr (slug_of u)),
                   (''title'', row_get memo ''title''), (''content'', row_get memo ''content''),
                   (''published_version'', VInt (next_version e (row_id memo) s)),
                   (''published_at'', VTime now), (''updated_at'', VTime now)];
                 (i, s2) = put_article e m memo fresh s1
             in case find (\<lambda>a. id_is e i a \<and> article_project e a s2 \<noteq> None) (articles s2) of
                  None \<Rightarrow> Inl (AttributeError ''NoneType'')
                | Some a \<Rightarrow> sbind (article_view True a (the (article_project e a s2))) (\<lambda>v. Inr (v, s2))))"

definition publish_article :: "env \<Rightarrow> int \<Rightarrow> string \<Rightarrow> user \<Rightarrow> store \<Rightarrow> (exn + row) \<times> store" where
  "publish_article e zone m u s =
     (case require_admin u of
        Inl x \<Rightarrow> (Inl x, s) | Inr u' \<Rightarrow> with_connection False (publish_article_body e zone m u) s)"

section \<open>Reading\<close>

definition published_key :: "row \<Rightarrow> int" where
  "published_key r = (case row_get r ''published_at'' of VTime t \<Rightarrow> t | _ \<Rightarrow> 0)"

definition get_articles :: "env \<Rightarrow> string option \<Rightarrow> string option \<Rightarrow> store \<Rightarrow> exn + row list" where
  "get_articles e project slug s =
     collect (\<lambda>a. article_view False a (the (article_project e a s)))
       (sort_key (\<lambda>a. - published_key a)
         (filter (\<lambda>a. article_project e a s \<noteq> None \<and>
             (blank project \<or> col_is e ''project_id'' (the project) a) \<and>
             (blank slug \<or> col_is e ''author_slug'' (the slug) a)) (articles s)))"

definition get_author_articles :: "env \<Rightarrow> string \<Rightarrow> store \<Rightarrow> exn + row list" where
  "get_author_articles e slug s = get_articles e None (Some slug) s"

definition joined_article :: "env \<Rightarrow> string \<Rightarrow> store \<Rightarrow> row option" where
  "joined_article e i s = find (\<lambda>a. id_is e i a \<and> article_project e a s \<noteq> None) (articles s)"

definition get_article :: "env \<Rightarrow> string \<Rightarrow> store \<Rightarrow> exn + row" where
  "get_article e i s =
     (case joined_article e i s of
        None \<Rightarrow> Inl (HttpError 404 ''Article not found'')
      | Some a \<Rightarrow> article_view True a (the (article_project e a s)))"

definition get_memo_article :: "env \<Rightarrow> string \<Rightarrow> user \<Rightarrow> store \<Rightarrow> exn + row option" where
  "get_memo_article e m u s =
     sbind (readable_memo e m u s) (\<lambda>r.
       case find (col_is e ''memo_id'' m) (articles s) of
         None \<Rightarrow> Inr None
       | Some a \<Rightarrow> sbind (article_stamps a)
           (\<lambda>stamps. Inr (Some (article_head a @ [(''content'', row_get a ''content'')] @ stamps))))"

section \<open>Unpublishing\<close>

definition delete_article_body :: "env \<Rightarrow> string \<Rightarrow> user \<Rightarrow> store \<Rightarrow> exn + unit \<times> store" where
  "delete_article_body e i u s =
     (case joined_article e i s of
        None \<Rightarrow> Inl (HttpError 404 ''Article not found'')
      | Some a \<Rightarrow>
          if row_get a ''author_id'' \<noteq> VStr (us_id u) \<and> \<not> is_service_owner u
          then Inl (HttpError 403 ''Only project owner can delete article'')
          else Inr ((), s\<lparr>articles := filter (\<lambda>a. \<not> id_is e i a) (articles s)\<rparr>))"

definition delete_article :: "env \<Rightarrow> string \<Rightarrow> user \<Rightarrow> store \<Rightarrow> (exn + unit) \<times> store" where
  "delete_article e i u s =
     (case require_admin u of
        Inl x \<Rightarrow> (Inl x, s) | Inr u' \<Rightarrow> with_connection False (delete_article_body e i u) s)"

section \<open>Snapshots\<close>

text \<open>Publishing and unpublishing touch articles alone.\<close>

lemma publish_frame:
  assumes "publish_article e zone m u s = (ans, s')"
  shows "tabs s' = tabs s" "change_log s' = change_log s" "\<And>x. ans = Inl x \<Longrightarrow> s' = s"
  using assms
  by (auto simp: publish_article_def with_connection_def publish_article_body_def now_wall_def
      put_article_def generate_id_def Let_def split: sum.splits prod.splits option.splits if_splits)

text \<open>Only an owner of the memo's project publishes it, and a memo keeps one article.\<close>

lemma published_by_owner:
  assumes "publish_article e zone m u s = (Inr v, s')"
  shows "is_admin u \<and> (\<exists>memo. publishable e m s = Some memo \<and> can_manage_project e (project_of memo) u s)"
  using assms
  by (auto simp: publish_article_def require_admin_def with_connection_def publish_article_body_def
      publishable_def fetch_id_def can_manage_project_def get_project_role_def membership_def
      split: sum.splits prod.splits option.splits if_splits)

definition one_article :: "env \<Rightarrow> string \<Rightarrow> row list \<Rightarrow> bool" where
  "one_article e m as = (length (filter (col_is e ''memo_id'' m) as) \<le> 1)"

lemma row_update_memo_id:
  "''memo_id'' \<notin> fst ` set asg \<Longrightarrow> col_is e ''memo_id'' m (row_update a asg) = col_is e ''memo_id'' m a"
  by (simp add: col_is_def row_get_update)

lemma filter_map_kept: "(\<And>x. P (f x) = P x) \<Longrightarrow> length (filter P (map f xs)) = length (filter P xs)"
  by (induction xs) auto


lemma put_keeps_one_article:
  assumes "put_article e m memo fresh s = (i, s')" "''memo_id'' \<notin> fst ` set fresh"
    and "one_article e k (articles s)"
  shows "one_article e k (articles s')"
proof (cases "find (col_is e ''memo_id'' m) (articles s)")
  case (Some a)
  have kept: "col_is e ''memo_id'' k (if col_is e ''memo_id'' m a then row_update a fresh else a) =
      col_is e ''memo_id'' k a" for a
    using row_update_memo_id [OF assms(2)] by simp
  have "articles s' = map (\<lambda>a. if col_is e ''memo_id'' m a then row_update a fresh else a) (articles s)"
    using assms(1) Some by (auto simp: put_article_def)
  then show ?thesis
    using assms(3) filter_map_kept [of "col_is e ''memo_id'' k", OF kept] by (simp add: one_article_def)
next
  case None
  then have none: "\<forall>a \<in> set (articles s). \<not> col_is e ''memo_id'' m a" by (simp add: find_None)
  obtain new where a: "articles s' = articles s @ [new]" and new: "row_get new ''memo_id'' = VStr m"
    using assms(1) None by (auto simp: put_article_def generate_id_def row_get_Cons Let_def)
  show ?thesis
  proof (cases "same_str e k m")
    case True
    then have "filter (col_is e ''memo_id'' k) (articles s) = []"
      using none by (auto simp: filter_empty_conv col_is_iff same_str_def)
    then show ?thesis by (simp add: one_article_def a)
  next
    case False
    then have "\<not> col_is e ''memo_id'' k new" using new by (auto simp: col_is_def same_str_def)
    then show ?thesis using assms(3) by (simp add: one_article_def a)
  qed
qed

lemma memo_keeps_one_article:
  assumes "publish_article_body e zone m u s = Inr (v, s')" "one_article e k (articles s)"
  shows "one_article e k (articles s')"
proof -
  obtain now s1 where n: "now_wall e zone s = (now, s1)" by fastforce
  then have s1: "articles s1 = articles s" by (auto simp: now_wall_def)
  obtain memo fresh i where p: "put_article e m memo fresh s1 = (i, s')"
    and f: "''memo_id'' \<notin> fst ` set fresh"
    using assms(1) unfolding publish_article_body_def n
    by (auto simp: Let_def split: option.splits if_splits prod.splits)
  from put_keeps_one_article [OF p f] assms(2) s1 show ?thesis by simp
qed

end
