(* ===== verification/Sessions.thy ===== *)
theory Sessions
  imports Tokens
begin

text \<open>
  \<^verbatim>\<open>src/services/session_auth.py\<close>, the state: the browser's sessions in memory and in the table
  \<^verbatim>\<open>todo_sessions\<close>, logins that wait for their callback, and the cached identity that lets a
  local client work without the authentication service. Times are in microseconds; None stands
  for the infinity of an offline session. \<open>sv_http\<close> is what the network does with a request,
  \<open>sv_token\<close> what \<open>token_urlsafe\<close> draws, each by the number of the event; \<open>ipaddress\<close>, SHA-256 and
  the JWT library are parameters. A database that fails is not modelled. The lock of a session is
  left out: an operation is atomic except where it waits, and there \<open>Session_Api\<close> lets other
  requests run. The row of a session in the table is the session itself.
\<close>

section \<open>State\<close>

record session =
  ss_id :: string
  ss_access :: string
  ss_refresh :: string
  ss_expires :: "int option"
  ss_user :: user
  ss_issuer :: "string option"
  ss_offline :: bool

record login =
  lg_verifier :: string
  lg_return :: string
  lg_created :: int

record sess_state =
  se_sessions :: "(string \<times> session) list"
  se_saved :: "(string \<times> session) list"
  se_logins :: "(string \<times> login) list"
  se_store :: store
  se_keys :: key_state
  se_event :: nat
  se_notices :: "string list"

record sess_cfg =
  sg_api :: string
  sg_public :: string
  sg_client :: string
  sg_secret :: string
  sg_redirect :: string
  sg_web :: string
  sg_issuer :: string
  sg_account :: string
  sg_local :: bool
  sg_daemon :: bool
  sg_persist :: bool
  sg_key_id :: string
  sg_key_secret :: string

type_synonym http_request = "string \<times> string \<times> json \<times> (string \<times> string) list"

record sess_env =
  sv_time :: "nat \<Rightarrow> int"
  sv_token :: "nat \<Rightarrow> string"
  sv_http :: "nat \<Rightarrow> http_request \<Rightarrow> wire"
  sv_loads :: "string \<Rightarrow> json option"
  sv_shown :: "json \<Rightarrow> string"
  sv_hash :: "string \<Rightarrow> string"
  sv_challenge :: "string \<Rightarrow> string"
  sv_iss :: "string \<Rightarrow> string option"
  sv_loopback :: "string \<Rightarrow> bool"
  sv_private :: "string \<Rightarrow> bool"
  sv_keys :: key_env
  sv_db :: env

text \<open>\<open>HTTPException\<close>, \<open>OidcCallbackError\<close>, and the exceptions nobody catches.\<close>

datatype sess_fail = Http int json | OidcFail string string | Crash string

definition LOGIN_SCOPE :: string where "LOGIN_SCOPE = ''openid profile email service.permission''"
definition LOGIN_TRANSACTION_TTL :: int where "LOGIN_TRANSACTION_TTL = 10 * 60 * 1000000"

definition next_event :: "sess_state \<Rightarrow> sess_state" where
  "next_event st = st\<lparr>se_event := Suc (se_event st)\<rparr>"

definition now_time :: "sess_env \<Rightarrow> sess_state \<Rightarrow> int \<times> sess_state" where
  "now_time v st = (sv_time v (se_event st), next_event st)"

definition random_token :: "sess_env \<Rightarrow> sess_state \<Rightarrow> string \<times> sess_state" where
  "random_token v st = (sv_token v (se_event st), next_event st)"

section \<open>Where a request comes from\<close>

definition strip_brackets :: "string \<Rightarrow> string" where
  "strip_brackets s =
     (let b = (\<lambda>c. c = CHR ''['' \<or> c = CHR '']'')
      in rev (dropWhile b (rev (dropWhile b s))))"

definition LOOPBACK_HOSTS :: "string list" where
  "LOOPBACK_HOSTS = [''localhost'', ''127.0.0.1'', ''::1'']"

definition is_loopback_host :: "sess_env \<Rightarrow> string option \<Rightarrow> bool" where
  "is_loopback_host v host =
     (if blank host then False
      else let n = strip_brackets (lower (strip (the host)))
           in n \<in> set LOOPBACK_HOSTS \<or> sv_loopback v n)"

definition is_private_host :: "sess_env \<Rightarrow> string option \<Rightarrow> bool" where
  "is_private_host v host = (\<not> blank host \<and> sv_private v (strip_brackets (strip (the host))))"

text \<open>A connection: the host it comes from, the host asked for, the host of its origin.\<close>

record topology =
  tp_client :: "string option"
  tp_target :: "string option"
  tp_origin :: "string option"

definition is_trusted_local_topology :: "sess_env \<Rightarrow> topology \<Rightarrow> bool" where
  "is_trusted_local_topology v t =
     (is_loopback_host v (tp_client t) \<or>
      is_private_host v (tp_client t) \<and> is_loopback_host v (tp_target t) \<and> is_loopback_host v (tp_origin t))"

definition local_session_connection_allowed :: "sess_cfg \<Rightarrow> sess_env \<Rightarrow> topology \<Rightarrow> bool" where
  "local_session_connection_allowed g v t = (sg_local g \<and> sg_daemon g \<and> is_trusted_local_topology v t)"

definition require_local_session_request :: "sess_cfg \<Rightarrow> sess_env \<Rightarrow> topology \<Rightarrow> sess_fail + unit" where
  "require_local_session_request g v t =
     (if \<not> sg_local g then Inl (Http 409 (JStr ''local_session_disabled''))
      else if \<not> sg_daemon g then Inl (Http 409 (JStr ''local_session_wrong_role''))
      else if \<not> local_session_connection_allowed g v t then Inl (Http 403 (JStr ''loopback_required''))
      else Inr ())"

section \<open>Cached identities\<close>

text \<open>Reading runs in a transaction of its own; \<open>str(x or "")\<close> makes NULL the empty text.\<close>

definition load_identity :: "sess_env \<Rightarrow> string \<Rightarrow> string \<Rightarrow> sess_state \<Rightarrow> identity option" where
  "load_identity v account iss st =
     (if account = [] \<or> iss = [] then None
      else get_local_identity (sv_db v) (Some account) (Some iss) (se_store st))"

definition cache_identity :: "sess_cfg \<Rightarrow> sess_env \<Rightarrow> user \<Rightarrow> string option \<Rightarrow> sess_state \<Rightarrow> sess_state" where
  "cache_identity g v u iss st =
     st\<lparr>se_store := upsert_local_identity (sv_db v) u (Some (str_or iss (sg_issuer g))) (se_store st)\<rparr>"

definition identity_matches :: "identity option \<Rightarrow> string \<Rightarrow> string \<Rightarrow> bool" where
  "identity_matches i account iss =
     (case i of None \<Rightarrow> False
      | Some x \<Rightarrow> account \<noteq> [] \<and> iss \<noteq> [] \<and> id_account x = account \<and> str_or (id_issuer x) [] = iss)"

section \<open>The sessions\<close>

definition persist_session :: "sess_cfg \<Rightarrow> sess_env \<Rightarrow> session \<Rightarrow> sess_state \<Rightarrow> sess_state" where
  "persist_session g v s st =
     (if \<not> sg_persist g then st
      else st\<lparr>se_saved := AList.update (sv_hash v (ss_id s)) s (se_saved st)\<rparr>)"

definition erase_persisted_session :: "sess_cfg \<Rightarrow> sess_env \<Rightarrow> string \<Rightarrow> sess_state \<Rightarrow> sess_state" where
  "erase_persisted_session g v i st =
     (if \<not> sg_persist g then st else st\<lparr>se_saved := AList.delete (sv_hash v i) (se_saved st)\<rparr>)"

definition load_persisted_session :: "sess_cfg \<Rightarrow> sess_env \<Rightarrow> string \<Rightarrow> sess_state \<Rightarrow> session option" where
  "load_persisted_session g v i st =
     (if \<not> sg_persist g then None else map_of (se_saved st) (sv_hash v i))"

text \<open>A session that a restart dropped from memory comes back from the table.\<close>

definition get_session_by_id ::
  "sess_cfg \<Rightarrow> sess_env \<Rightarrow> string option \<Rightarrow> sess_state \<Rightarrow> session option \<times> sess_state" where
  "get_session_by_id g v i st =
     (if blank i then (None, st)
      else case map_of (se_sessions st) (the i) of
             Some s \<Rightarrow> (Some s, st)
           | None \<Rightarrow>
               (case load_persisted_session g v (the i) st of
                  None \<Rightarrow> (None, st)
                | Some s \<Rightarrow> (Some s, st\<lparr>se_sessions := AList.update (the i) s (se_sessions st)\<rparr>)))"

definition store_session :: "sess_cfg \<Rightarrow> sess_env \<Rightarrow> session \<Rightarrow> sess_state \<Rightarrow> sess_state" where
  "store_session g v s st =
     persist_session g v s (st\<lparr>se_sessions := AList.update (ss_id s) s (se_sessions st)\<rparr>)"

definition notify_session_invalidated :: "string \<Rightarrow> sess_state \<Rightarrow> sess_state" where
  "notify_session_invalidated i st = st\<lparr>se_notices := se_notices st @ [i]\<rparr>"

definition delete_session :: "sess_cfg \<Rightarrow> sess_env \<Rightarrow> string \<Rightarrow> sess_state \<Rightarrow> sess_state" where
  "delete_session g v i st =
     (let st1 = erase_persisted_session g v i (st\<lparr>se_sessions := AList.delete i (se_sessions st)\<rparr>)
      in if map_of (se_sessions st) i = None then st1 else notify_session_invalidated i st1)"

definition delete_session_if_refresh_token ::
  "sess_cfg \<Rightarrow> sess_env \<Rightarrow> string \<Rightarrow> string \<Rightarrow> sess_state \<Rightarrow> sess_state" where
  "delete_session_if_refresh_token g v i token st =
     (case map_of (se_sessions st) i of
        None \<Rightarrow> st
      | Some s \<Rightarrow>
          if ss_refresh s \<noteq> token then st
          else notify_session_invalidated i
                 (erase_persisted_session g v i (st\<lparr>se_sessions := AList.delete i (se_sessions st)\<rparr>)))"

section \<open>Logins under way\<close>

definition pop_login_transaction :: "string option \<Rightarrow> sess_state \<Rightarrow> login option \<times> sess_state" where
  "pop_login_transaction state st =
     (if blank state then (None, st)
      else (map_of (se_logins st) (the state), st\<lparr>se_logins := AList.delete (the state) (se_logins st)\<rparr>))"

definition prune_expired_login_transactions :: "sess_env \<Rightarrow> sess_state \<Rightarrow> sess_state" where
  "prune_expired_login_transactions v st =
     (case now_time v st of (now, st1) \<Rightarrow>
        st1\<lparr>se_logins := filter (\<lambda>(s, l). \<not> lg_created l < now - LOGIN_TRANSACTION_TTL) (se_logins st1)\<rparr>)"

section \<open>Addresses\<close>

definition starts_slash :: "string \<Rightarrow> bool" where
  "starts_slash s = (case s of [] \<Rightarrow> False | c # t \<Rightarrow> c = CHR ''/'')"

definition with_slash :: "string \<Rightarrow> string" where
  "with_slash s = (if starts_slash s then s else CHR ''/'' # s)"

definition join_base_and_path :: "string \<Rightarrow> string \<Rightarrow> string" where
  "join_base_and_path base path = rstrip_slash base @ with_slash path"

text \<open>\<open>urlsplit\<close>: scheme, authority, path, query and fragment. An unbalanced bracket in the authority raises.\<close>

definition scheme_char :: "char \<Rightarrow> bool" where
  "scheme_char c =
     (let n = (of_char c :: nat)
      in 48 \<le> n \<and> n \<le> 57 \<or> 65 \<le> n \<and> n \<le> 90 \<or> 97 \<le> n \<and> n \<le> 122 \<or> c \<in> set ''+-.'')"

definition letter :: "char \<Rightarrow> bool" where
  "letter c = (let n = (of_char c :: nat) in 65 \<le> n \<and> n \<le> 90 \<or> 97 \<le> n \<and> n \<le> 122)"

definition split_at_char :: "char \<Rightarrow> string \<Rightarrow> string \<times> string option" where
  "split_at_char k s =
     (let a = takeWhile (\<lambda>c. c \<noteq> k) s
      in (a, if length a = length s then None else Some (drop (Suc (length a)) s)))"

record split_url =
  su_scheme :: string
  su_netloc :: string
  su_path :: string
  su_query :: string
  su_fragment :: string

definition clean_url :: "string \<Rightarrow> string" where
  "clean_url s =
     filter (\<lambda>c. c \<notin> {CHR 0x09, CHR 0x0A, CHR 0x0D}) (dropWhile (\<lambda>c. (of_char c :: nat) \<le> 32) s)"

definition or_empty :: "string option \<Rightarrow> string" where
  "or_empty x = (case x of None \<Rightarrow> [] | Some s \<Rightarrow> s)"

definition urlsplit :: "string \<Rightarrow> string + split_url" where
  "urlsplit raw =
     (let url = clean_url raw;
          (before, after) = split_at_char (CHR '':'') url;
          schemed = after \<noteq> None \<and> before \<noteq> [] \<and> letter (hd before) \<and> (\<forall>c \<in> set before. scheme_char c);
          (scheme, rest) = (if schemed then (lower before, or_empty after) else ([], url));
          authority = (take 2 rest = ''//'');
          netloc = (if authority then takeWhile (\<lambda>c. c \<notin> set ''/?#'') (drop 2 rest) else []);
          tail = (if authority then drop (2 + length netloc) rest else rest);
          (main, fragment) = split_at_char (CHR ''#'') tail;
          (path, query) = split_at_char (CHR ''?'') main
      in if (CHR ''['' \<in> set netloc) \<noteq> (CHR '']'' \<in> set netloc) then Inl ''Invalid IPv6 URL''
         else Inr \<lparr>su_scheme = scheme, su_netloc = netloc, su_path = path, su_query = or_empty query,
                   su_fragment = or_empty fragment\<rparr>)"

definition normalize_return_to_path :: "string option \<Rightarrow> sess_fail + string" where
  "normalize_return_to_path return_to =
     (if blank return_to then Inr ''/''
      else case urlsplit (the return_to) of
             Inl m \<Rightarrow> Inl (Crash m)
           | Inr u \<Rightarrow>
               Inr (if su_scheme u \<noteq> [] \<or> su_netloc u \<noteq> [] then ''/''
                    else let path = with_slash (if su_path u = [] then ''/'' else su_path u)
                         in (if take 2 path = ''//'' then ''//'' @ path else path) @
                            (if su_query u = [] then [] else ''?'' @ su_query u) @
                            (if su_fragment u = [] then [] else ''#'' @ su_fragment u)))"

text \<open>\<open>urlencode\<close>: a space becomes a plus, and a slash is not safe.\<close>

definition quote_plus :: "string \<Rightarrow> string" where
  "quote_plus s = concat (map (\<lambda>c. if c = CHR '' '' then ''+''
     else if unreserved c \<and> c \<noteq> CHR ''/'' then [c]
     else [CHR 0x25, hex_digit (of_char c div 16), hex_digit (of_char c mod 16)]) s)"

fun urlencode :: "(string \<times> string) list \<Rightarrow> string" where
  "urlencode [] = []"
| "urlencode [(k, x)] = quote_plus k @ ''='' @ quote_plus x"
| "urlencode ((k, x) # kvs) = quote_plus k @ ''='' @ quote_plus x @ ''&'' @ urlencode kvs"

definition build_success_redirect_url :: "sess_cfg \<Rightarrow> string \<Rightarrow> string" where
  "build_success_redirect_url g path = join_base_and_path (sg_web g) path"

definition build_error_redirect_url :: "sess_cfg \<Rightarrow> string \<Rightarrow> string \<Rightarrow> string" where
  "build_error_redirect_url g code description =
     join_base_and_path (sg_web g) ''/login'' @ ''?'' @
     urlencode [(''error'', code), (''error_description'', description)]"

definition build_authorize_url :: "sess_cfg \<Rightarrow> string \<Rightarrow> string \<Rightarrow> string" where
  "build_authorize_url g state challenge =
     sg_public g @ ''/oauth/authorize?'' @
     urlencode [(''client_id'', sg_client g), (''redirect_uri'', sg_redirect g), (''response_type'', ''code''),
       (''scope'', LOGIN_SCOPE), (''state'', state), (''code_challenge'', challenge),
       (''code_challenge_method'', ''S256'')]"

end
