(* ===== verification/Preflight.thy ===== *)
theory Preflight
  imports Sessions
begin

text \<open>
  \<^verbatim>\<open>src/preflight.py\<close>: the checks a node makes before it starts in a mode. A problem is a value
  here, a line of Korean text there. The environment is an association list without duplicates.
\<close>

type_synonym envs = "(string \<times> string) list"

datatype problem =
    InlineComment string | HashSign string | InnerSpace string
  | SecretMissing string | UrlMissing string | NotUrl string string | BadScheme string string
  | WrongRole string string string

text \<open>\<open>PreflightError\<close>, and the \<open>ValueError\<close>s that the settings raise; all of them end the start.\<close>

datatype start_fail = BadMode string | Refused string "problem list" | BadValue string

definition VALID_MODES :: "string list" where
  "VALID_MODES = [''dev-local'', ''dev-prod'', ''prod-local'', ''prod-prod'']"

definition REQUIRED_SECRETS :: "string \<Rightarrow> string list" where
  "REQUIRED_SECRETS mode =
     (case map_of
        [(''dev-local'', [''DB_PASSWORD'', ''TODO_OIDC_CLIENT_SECRET'', ''SYNC_KEY_ID'', ''SYNC_SECRET'',
            ''SYNC_ACCOUNT_ID'']),
         (''dev-prod'', [''DB_PASSWORD'', ''TODO_OIDC_CLIENT_SECRET'', ''AUTH_SERVICE_KEY_ID'',
            ''AUTH_SERVICE_SECRET'', ''SYNC_ALLOWED_KEY_IDS'', ''SYNC_ACCOUNT_ID'']),
         (''prod-local'', [''DB_PASSWORD'', ''TODO_OIDC_CLIENT_SECRET'', ''AUTH_SERVICE_KEY_ID'',
            ''AUTH_SERVICE_SECRET'', ''SYNC_KEY_ID'', ''SYNC_SECRET'', ''SYNC_ACCOUNT_ID'']),
         (''prod-prod'', [''DB_PASSWORD'', ''TODO_OIDC_CLIENT_SECRET'', ''AUTH_SERVICE_KEY_ID'',
            ''AUTH_SERVICE_SECRET'', ''SYNC_ALLOWED_KEY_IDS'', ''SYNC_ACCOUNT_ID''])] mode of
        None \<Rightarrow> [] | Some ks \<Rightarrow> ks)"

definition EXPECTED_ROLE :: "string \<Rightarrow> string option" where
  "EXPECTED_ROLE =
     map_of [(''dev-local'', ''client''), (''dev-prod'', ''server''), (''prod-local'', ''client''),
             (''prod-prod'', ''server'')]"

definition SECRET_SHAPED_KEYS :: "string list" where
  "SECRET_SHAPED_KEYS =
     [''DB_PASSWORD'', ''TODO_OIDC_CLIENT_SECRET'', ''AUTH_SERVICE_SECRET'', ''SYNC_SECRET'',
      ''LIVEKIT_API_SECRET'']"

definition MANAGED_PREFIXES :: "string list" where
  "MANAGED_PREFIXES = [''DB_'', ''AUTH_'', ''TODO_'', ''SYNC_'', ''LIVEKIT_'']"

definition CSV_KEYS :: "string list" where
  "CSV_KEYS = [''TODO_ALLOWED_ORIGINS'', ''SYNC_ALLOWED_KEY_IDS'']"

definition REQUIRED_URL_KEYS :: "string list" where
  "REQUIRED_URL_KEYS =
     [''AUTH_ISSUER_URL'', ''AUTH_PUBLIC_BASE_URL'', ''AUTH_API_BASE_URL'', ''AUTH_JWKS_URL'',
      ''TODO_OIDC_REDIRECT_URI'', ''TODO_WEB_BASE_URL'']"

definition OPTIONAL_URL_KEYS :: "string list" where
  "OPTIONAL_URL_KEYS = [''SYNC_PEER_URL'', ''LIVEKIT_URL'', ''SYNC_VERIFY_URL'']"

definition URL_SCHEMES :: "string list" where
  "URL_SCHEMES = [''http'', ''https'', ''ws'', ''wss'']"

definition validate_mode_name :: "string option \<Rightarrow> start_fail + string" where
  "validate_mode_name raw =
     (let mode = lower (strip (or_empty raw))
      in if mode = [] then Inr []
         else if mode \<notin> set VALID_MODES then Inl (BadMode (or_empty raw)) else Inr mode)"

section \<open>Polluted values\<close>

fun comment_after :: "char \<Rightarrow> string \<Rightarrow> bool" where
  "comment_after p [] = False"
| "comment_after p (c # s) = (c = CHR ''#'' \<and> ws_char p \<or> comment_after c s)"

definition inline_comment_hit :: "string \<Rightarrow> bool" where
  "inline_comment_hit s = (case s of [] \<Rightarrow> False | c # t \<Rightarrow> comment_after c t)"

fun split_on :: "char \<Rightarrow> string \<Rightarrow> string list" where
  "split_on k [] = [[]]"
| "split_on k (c # s) =
     (if c = k then [] # split_on k s
      else (case split_on k s of [] \<Rightarrow> [[c]] | x # xs \<Rightarrow> (c # x) # xs))"

definition has_internal_whitespace :: "string \<Rightarrow> string \<Rightarrow> bool" where
  "has_internal_whitespace key s =
     (if key \<in> set CSV_KEYS
      then list_ex (\<lambda>part. list_ex ws_char (strip part)) (split_on (CHR '','') (strip s))
      else list_ex ws_char (strip s))"

definition managed_key :: "string \<Rightarrow> bool" where
  "managed_key key = list_ex (\<lambda>p. take (length p) key = p) MANAGED_PREFIXES"

definition scan_value :: "string \<Rightarrow> string \<Rightarrow> problem list" where
  "scan_value key s =
     (if s = [] then []
      else if inline_comment_hit s then [InlineComment key]
      else if key \<in> set SECRET_SHAPED_KEYS then []
      else if CHR ''#'' \<in> set s then [HashSign key]
      else if has_internal_whitespace key s then [InnerSpace key] else [])"

definition scan_key :: "envs \<Rightarrow> string \<Rightarrow> problem list" where
  "scan_key e key = (if \<not> managed_key key then [] else scan_value key (or_empty (map_of e key)))"

definition scan_raw_env :: "envs \<Rightarrow> problem list" where
  "scan_raw_env e = concat (map (scan_key e) (sort_str (map fst e)))"

section \<open>Secrets, addresses, the role\<close>

definition check_required_secrets :: "string \<Rightarrow> envs \<Rightarrow> problem list" where
  "check_required_secrets mode e =
     map SecretMissing (filter (\<lambda>k. strip (or_empty (map_of e k)) = []) (REQUIRED_SECRETS mode))"

text \<open>\<open>urlsplit\<close> may raise; nobody catches its error.\<close>

definition url_problem :: "string \<Rightarrow> string \<Rightarrow> start_fail + problem list" where
  "url_problem key s =
     (case urlsplit s of
        Inl m \<Rightarrow> Inl (BadValue key)
      | Inr u \<Rightarrow>
          Inr (if su_scheme u = [] \<or> su_netloc u = [] then [NotUrl key s]
               else if su_scheme u \<notin> set URL_SCHEMES then [BadScheme key (su_scheme u)] else []))"

definition check_url :: "bool \<Rightarrow> envs \<Rightarrow> string \<Rightarrow> start_fail + problem list" where
  "check_url required resolved key =
     (let s = strip (or_empty (map_of resolved key))
      in if s = [] then Inr (if required then [UrlMissing key] else []) else url_problem key s)"

fun collect :: "('a \<Rightarrow> start_fail + problem list) \<Rightarrow> 'a list \<Rightarrow> start_fail + problem list" where
  "collect f [] = Inr []"
| "collect f (x # xs) = sbind (f x) (\<lambda>ps. sbind (collect f xs) (\<lambda>qs. Inr (ps @ qs)))"

definition check_urls :: "envs \<Rightarrow> string list \<Rightarrow> start_fail + problem list" where
  "check_urls resolved origins =
     sbind (collect (check_url True resolved) REQUIRED_URL_KEYS) (\<lambda>ps.
     sbind (collect (check_url False resolved) OPTIONAL_URL_KEYS) (\<lambda>qs.
     sbind (collect (url_problem ''TODO_ALLOWED_ORIGINS'') origins) (\<lambda>rs. Inr (ps @ qs @ rs))))"

definition check_role :: "string \<Rightarrow> string \<Rightarrow> problem list" where
  "check_role mode role =
     (case EXPECTED_ROLE mode of
        None \<Rightarrow> []
      | Some x \<Rightarrow> if role = x then [] else [WrongRole mode x role])"

definition run_preflight :: "string \<Rightarrow> envs \<Rightarrow> string list \<Rightarrow> string \<Rightarrow> envs \<Rightarrow> start_fail + unit" where
  "run_preflight mode resolved origins role e =
     (if mode = [] then Inr ()
      else sbind (check_urls resolved origins) (\<lambda>us.
             (let ps = scan_raw_env e @ check_required_secrets mode e @ us @ check_role mode role
              in if ps = [] then Inr () else Inl (Refused mode ps))))"

end
