(* ===== verification/Settings.thy ===== *)
theory Settings
  imports Preflight
begin

text \<open>
  \<^verbatim>\<open>src/config.py\<close>: the settings of a process, read from its environment and the preset of its
  mode, and checked by \<open>Preflight\<close>. \<open>int\<close> reads ASCII digits with a sign.
\<close>

section \<open>Presets\<close>

definition COMMON_PRESET :: envs where
  "COMMON_PRESET =
    [(''DB_USER'', ''root''), (''AUTH_AUDIENCE'', ''service:todo''), (''AUTH_JWKS_CACHE_SECONDS'', ''300''),
     (''TODO_OIDC_CLIENT_ID'', ''todo-web''), (''TODO_SESSION_COOKIE_SAMESITE'', ''lax''),
     (''TODO_SESSION_COOKIE_DOMAIN'', []), (''TODO_SESSION_MAX_AGE_SECONDS'', ''604800''),
     (''SYNC_POLL_SECONDS'', ''60''), (''SYNC_PUSH_DEBOUNCE_MS'', ''1000''),
     (''SYNC_OFFLINE_BACKOFF_SECONDS'', ''30''), (''SYNC_CLOCK_SKEW_LIMIT_SECONDS'', ''5''),
     (''SYNC_VERIFY_CACHE_SECONDS'', ''300''), (''SYNC_BATCH_LIMIT'', ''500''),
     (''SYNC_ALLOW_SCHEMA_DRIFT'', ''false''), (''SYNC_LOCK_TTL_SECONDS'', ''120''),
     (''SYNC_HTTP_TIMEOUT_SECONDS'', ''15''), (''SYNC_REQUIRED_SCOPE'', ''sync''),
     (''SYNC_BACKUP_DIR'', ''../.backups/db'')]"

definition DEV_AUTH_PRESET :: envs where
  "DEV_AUTH_PRESET =
    [(''AUTH_ISSUER_URL'', ''http://localhost:3032''), (''AUTH_PUBLIC_BASE_URL'', ''http://localhost:3032''),
     (''AUTH_API_BASE_URL'', ''http://host.docker.internal:3032''),
     (''AUTH_JWKS_URL'', ''http://host.docker.internal:3032/oauth/jwks'')]"

definition DEV_LOCAL_PRESET :: envs where
  "DEV_LOCAL_PRESET =
    [(''DB_HOST'', ''host.docker.internal''), (''DB_PORT'', ''33306''),
     (''DB_NAME'', ''teddynote_dev_local''),
     (''TODO_ALLOWED_ORIGINS'', ''http://localhost:30333,http://127.0.0.1:30333''),
     (''TODO_OIDC_REDIRECT_URI'', ''http://localhost:20023/api/todo/session/callback''),
     (''TODO_WEB_BASE_URL'', ''http://localhost:30333''),
     (''TODO_SESSION_COOKIE_NAME'', ''teddy_todo_dev_local_session''),
     (''TODO_SESSION_COOKIE_SECURE'', ''false''), (''LIVEKIT_URL'', ''ws://host.docker.internal:7880''),
     (''SYNC_ENABLED'', ''true''), (''SYNC_PEER_URL'', ''http://todo-api-dev-prod:8000''),
     (''SYNC_CLIENT_ID'', ''laptop''), (''SYNC_ALLOWED_KEY_IDS'', []), (''SYNC_DAEMON_AUTOSTART'', ''true''),
     (''TODO_LOCAL_SESSION_ENABLED'', ''true''), (''TODO_SESSION_DB_PERSISTENCE'', ''false'')]"

definition DEV_PROD_PRESET :: envs where
  "DEV_PROD_PRESET =
    [(''DB_HOST'', ''host.docker.internal''), (''DB_PORT'', ''33306''),
     (''DB_NAME'', ''teddynote_dev_prod''),
     (''TODO_ALLOWED_ORIGINS'', ''http://localhost:30334,http://127.0.0.1:30334''),
     (''TODO_OIDC_REDIRECT_URI'', ''http://localhost:20024/api/todo/session/callback''),
     (''TODO_WEB_BASE_URL'', ''http://localhost:30334''),
     (''TODO_SESSION_COOKIE_NAME'', ''teddy_todo_dev_prod_session''),
     (''TODO_SESSION_COOKIE_SECURE'', ''false''), (''LIVEKIT_URL'', ''ws://host.docker.internal:7880''),
     (''SYNC_ENABLED'', ''true''), (''SYNC_PEER_URL'', []), (''SYNC_CLIENT_ID'', []),
     (''SYNC_DAEMON_AUTOSTART'', ''false''), (''TODO_LOCAL_SESSION_ENABLED'', ''false''),
     (''TODO_SESSION_DB_PERSISTENCE'', ''false'')]"

definition PROD_LOCAL_PRESET :: envs where
  "PROD_LOCAL_PRESET =
    [(''DB_HOST'', ''host.docker.internal''), (''DB_PORT'', ''33306''), (''DB_NAME'', ''teddynote''),
     (''AUTH_ISSUER_URL'', ''https://auth.lafamila.xyz''),
     (''AUTH_PUBLIC_BASE_URL'', ''https://auth.lafamila.xyz''),
     (''AUTH_API_BASE_URL'', ''https://auth.lafamila.xyz''),
     (''AUTH_JWKS_URL'', ''https://auth.lafamila.xyz/oauth/jwks''),
     (''TODO_ALLOWED_ORIGINS'', ''http://localhost:3030,http://127.0.0.1:3030''),
     (''TODO_OIDC_REDIRECT_URI'', ''http://localhost:20022/api/todo/session/callback''),
     (''TODO_WEB_BASE_URL'', ''http://localhost:3030''),
     (''TODO_SESSION_COOKIE_NAME'', ''teddy_todo_session''), (''TODO_SESSION_COOKIE_SECURE'', ''false''),
     (''LIVEKIT_URL'', ''ws://host.docker.internal:7880''), (''SYNC_ENABLED'', ''true''),
     (''SYNC_PEER_URL'', ''https://todo.lafamila.xyz''), (''SYNC_CLIENT_ID'', ''laptop''),
     (''SYNC_ALLOWED_KEY_IDS'', []), (''SYNC_DAEMON_AUTOSTART'', ''true''),
     (''TODO_LOCAL_SESSION_ENABLED'', ''true''), (''TODO_SESSION_DB_PERSISTENCE'', ''true'')]"

definition PROD_PROD_PRESET :: envs where
  "PROD_PROD_PRESET =
    [(''DB_HOST'', ''teddy-mysql''), (''DB_PORT'', ''3306''), (''DB_NAME'', ''teddynote''),
     (''AUTH_ISSUER_URL'', ''https://auth.lafamila.xyz''),
     (''AUTH_PUBLIC_BASE_URL'', ''https://auth.lafamila.xyz''),
     (''AUTH_API_BASE_URL'', ''http://auth-api-nest:3032''),
     (''AUTH_JWKS_URL'', ''http://auth-api-nest:3032/oauth/jwks''),
     (''TODO_ALLOWED_ORIGINS'', ''https://todo.lafamila.xyz''),
     (''TODO_OIDC_REDIRECT_URI'', ''https://todo.lafamila.xyz/api/todo/session/callback''),
     (''TODO_WEB_BASE_URL'', ''https://todo.lafamila.xyz''),
     (''TODO_SESSION_COOKIE_NAME'', ''teddy_todo_session''), (''TODO_SESSION_COOKIE_SECURE'', ''true''),
     (''LIVEKIT_URL'', ''ws://teddy-livekit:7880''), (''SYNC_ENABLED'', ''true''), (''SYNC_PEER_URL'', []),
     (''SYNC_CLIENT_ID'', []), (''SYNC_DAEMON_AUTOSTART'', ''false''),
     (''TODO_LOCAL_SESSION_ENABLED'', ''false''), (''TODO_SESSION_DB_PERSISTENCE'', ''false'')]"

definition MODE_PRESETS :: "string \<Rightarrow> envs" where
  "MODE_PRESETS mode =
     (if mode = ''dev-local'' then DEV_LOCAL_PRESET @ DEV_AUTH_PRESET @ COMMON_PRESET
      else if mode = ''dev-prod'' then DEV_PROD_PRESET @ DEV_AUTH_PRESET @ COMMON_PRESET
      else if mode = ''prod-local'' then PROD_LOCAL_PRESET @ COMMON_PRESET
      else if mode = ''prod-prod'' then PROD_PROD_PRESET @ COMMON_PRESET else [])"

definition PRESET_KEYS :: "string list" where
  "PRESET_KEYS = sort_str (remdups (map fst (concat (map MODE_PRESETS VALID_MODES))))"

definition MODES_HIDING_PROD_ONLY_SURFACES :: "string list" where
  "MODES_HIDING_PROD_ONLY_SURFACES = [''dev-local'', ''prod-local'']"

definition preset :: "string \<Rightarrow> string \<Rightarrow> string option" where
  "preset mode name = (if mode = [] then None else map_of (MODE_PRESETS mode) name)"

section \<open>Reading a variable\<close>

text \<open>\<open>_env\<close>: the environment before the preset before the default; in a mode a blank value is none.\<close>

definition setting :: "string \<Rightarrow> envs \<Rightarrow> string \<Rightarrow> string option" where
  "setting mode e name =
     (case map_of e name of
        None \<Rightarrow> preset mode name
      | Some raw \<Rightarrow> if mode = [] \<or> strip raw \<noteq> [] then Some raw else preset mode name)"

definition setting_or :: "string \<Rightarrow> envs \<Rightarrow> string \<Rightarrow> string \<Rightarrow> string" where
  "setting_or mode e name d = (case setting mode e name of None \<Rightarrow> d | Some x \<Rightarrow> x)"

definition get_bool :: "string \<Rightarrow> envs \<Rightarrow> string \<Rightarrow> bool \<Rightarrow> bool" where
  "get_bool mode e name d =
     (case setting mode e name of
        None \<Rightarrow> d
      | Some raw \<Rightarrow> lower (strip raw) \<in> {''1'', ''true'', ''yes'', ''on''})"

definition int_text :: "string \<Rightarrow> int option" where
  "int_text raw =
     (let s = strip raw; sign = (case s of [] \<Rightarrow> False | c # t \<Rightarrow> c = CHR ''-'' \<or> c = CHR ''+'');
          digits = (if sign then tl s else s)
      in if digits = [] then None
         else case read_num (length digits) 0 digits of
                None \<Rightarrow> None
              | Some (n, t) \<Rightarrow> Some (if sign \<and> hd s = CHR ''-'' then - n else n))"

definition get_int :: "string \<Rightarrow> envs \<Rightarrow> string \<Rightarrow> string \<Rightarrow> start_fail + int" where
  "get_int mode e name d =
     (case int_text (setting_or mode e name d) of None \<Rightarrow> Inl (BadValue name) | Some n \<Rightarrow> Inr n)"

definition get_csv :: "string \<Rightarrow> envs \<Rightarrow> string \<Rightarrow> string \<Rightarrow> string list" where
  "get_csv mode e name d =
     filter (\<lambda>x. x \<noteq> []) (map strip (split_on (CHR '','') (setting_or mode e name d)))"

definition get_callback_route_path :: "string \<Rightarrow> start_fail + string" where
  "get_callback_route_path uri =
     (case urlsplit uri of
        Inl m \<Rightarrow> Inl (BadValue ''TODO_OIDC_REDIRECT_URI'')
      | Inr u \<Rightarrow>
          (let path = (if su_path u = [] then ''/api/todo/session/callback'' else su_path u)
           in if path = ''/api'' then Inr ''/''
              else if take 5 path = ''/api/'' then Inr (drop 4 path)
              else Inl (BadValue ''TODO_OIDC_REDIRECT_URI'')))"

text \<open>A secret is read from the environment alone.\<close>

definition secret :: "envs \<Rightarrow> string \<Rightarrow> string" where
  "secret e name = strip (or_empty (map_of e name))"

section \<open>The settings\<close>

record numbers =
  nu_db_port :: int
  nu_jwks_seconds :: int
  nu_max_age :: int
  nu_poll :: int
  nu_debounce :: int
  nu_backoff :: int
  nu_skew_limit :: int
  nu_verify_cache :: int
  nu_batch :: int
  nu_lock_ttl :: int
  nu_timeout :: int

record config =
  cf_mode :: string
  cf_numbers :: numbers
  cf_db_host :: string
  cf_db_user :: string
  cf_db_password :: string
  cf_db_name :: string
  cf_issuer :: string
  cf_public :: string
  cf_api :: string
  cf_jwks :: string
  cf_audience :: string
  cf_origins :: "string list"
  cf_client :: string
  cf_client_secret :: "string option"
  cf_redirect :: string
  cf_callback :: string
  cf_web :: string
  cf_cookie :: string
  cf_cookie_secure :: bool
  cf_cookie_samesite :: string
  cf_cookie_domain :: "string option"
  cf_key_id :: string
  cf_key_secret :: string
  cf_sync :: bool
  cf_peer :: string
  cf_sync_client :: string
  cf_sync_key :: string
  cf_sync_secret :: string
  cf_allowed :: "string list"
  cf_drift :: bool
  cf_autostart :: bool
  cf_verify :: string
  cf_scope :: string
  cf_account :: string
  cf_local :: bool
  cf_persist :: bool
  cf_backup :: string
  cf_livekit :: string
  cf_livekit_key :: string
  cf_livekit_secret :: string

definition read_numbers ::
  "string \<Rightarrow> envs \<Rightarrow> (start_fail + string) \<Rightarrow> start_fail + numbers \<times> string" where
  "read_numbers m e route =
     sbind (get_int m e ''DB_PORT'' ''3306'') (\<lambda>port.
     sbind (get_int m e ''AUTH_JWKS_CACHE_SECONDS'' ''300'') (\<lambda>jwks.
     sbind route (\<lambda>r.
     sbind (get_int m e ''TODO_SESSION_MAX_AGE_SECONDS'' ''604800'') (\<lambda>age.
     sbind (get_int m e ''SYNC_POLL_SECONDS'' ''60'') (\<lambda>poll.
     sbind (get_int m e ''SYNC_PUSH_DEBOUNCE_MS'' ''1000'') (\<lambda>debounce.
     sbind (get_int m e ''SYNC_OFFLINE_BACKOFF_SECONDS'' ''30'') (\<lambda>backoff.
     sbind (get_int m e ''SYNC_CLOCK_SKEW_LIMIT_SECONDS'' ''5'') (\<lambda>skew.
     sbind (get_int m e ''SYNC_VERIFY_CACHE_SECONDS'' ''300'') (\<lambda>cache.
     sbind (get_int m e ''SYNC_BATCH_LIMIT'' ''500'') (\<lambda>batch.
     sbind (get_int m e ''SYNC_LOCK_TTL_SECONDS'' ''120'') (\<lambda>ttl.
     sbind (get_int m e ''SYNC_HTTP_TIMEOUT_SECONDS'' ''15'') (\<lambda>timeout.
       Inr (\<lparr>nu_db_port = port, nu_jwks_seconds = jwks, nu_max_age = age, nu_poll = poll,
              nu_debounce = debounce, nu_backoff = backoff, nu_skew_limit = skew,
              nu_verify_cache = cache, nu_batch = batch, nu_lock_ttl = ttl, nu_timeout = timeout\<rparr>, r)))))))))))))"

definition config_of :: "string \<Rightarrow> envs \<Rightarrow> numbers \<Rightarrow> string \<Rightarrow> config" where
  "config_of m e n route =
     (let issuer = rstrip_slash (setting_or m e ''AUTH_ISSUER_URL'' ''http://localhost:3032'');
          api = rstrip_slash (setting_or m e ''AUTH_API_BASE_URL'' issuer);
          given = (\<lambda>x d. if x = [] then d else x)
      in \<lparr>cf_mode = m, cf_numbers = n,
          cf_db_host = setting_or m e ''DB_HOST'' ''localhost'', cf_db_user = setting_or m e ''DB_USER'' ''root'',
          cf_db_password = or_empty (map_of e ''DB_PASSWORD''), cf_db_name = setting_or m e ''DB_NAME'' ''todo'',
          cf_issuer = issuer, cf_public = rstrip_slash (setting_or m e ''AUTH_PUBLIC_BASE_URL'' issuer),
          cf_api = api, cf_jwks = setting_or m e ''AUTH_JWKS_URL'' (issuer @ ''/oauth/jwks''),
          cf_audience = setting_or m e ''AUTH_AUDIENCE'' ''service:todo'',
          cf_origins = get_csv m e ''TODO_ALLOWED_ORIGINS'' ''http://localhost:3034,http://127.0.0.1:3034'',
          cf_client = setting_or m e ''TODO_OIDC_CLIENT_ID'' ''todo-web'',
          cf_client_secret = map_of e ''TODO_OIDC_CLIENT_SECRET'',
          cf_redirect = setting_or m e ''TODO_OIDC_REDIRECT_URI'' ''http://localhost:8000/api/todo/session/callback'',
          cf_callback = route,
          cf_web = rstrip_slash (setting_or m e ''TODO_WEB_BASE_URL'' ''http://localhost:3034''),
          cf_cookie = setting_or m e ''TODO_SESSION_COOKIE_NAME'' ''teddy_todo_session'',
          cf_cookie_secure = get_bool m e ''TODO_SESSION_COOKIE_SECURE'' False,
          cf_cookie_samesite = setting_or m e ''TODO_SESSION_COOKIE_SAMESITE'' ''lax'',
          cf_cookie_domain = setting m e ''TODO_SESSION_COOKIE_DOMAIN'',
          cf_key_id = secret e ''AUTH_SERVICE_KEY_ID'', cf_key_secret = secret e ''AUTH_SERVICE_SECRET'',
          cf_sync = get_bool m e ''SYNC_ENABLED'' False,
          cf_peer = rstrip_slash (strip (setting_or m e ''SYNC_PEER_URL'' [])),
          cf_sync_client = given (strip (setting_or m e ''SYNC_CLIENT_ID'' [])) ''laptop'',
          cf_sync_key = secret e ''SYNC_KEY_ID'', cf_sync_secret = secret e ''SYNC_SECRET'',
          cf_allowed = get_csv m e ''SYNC_ALLOWED_KEY_IDS'' [],
          cf_drift = get_bool m e ''SYNC_ALLOW_SCHEMA_DRIFT'' False,
          cf_autostart = get_bool m e ''SYNC_DAEMON_AUTOSTART'' True,
          cf_verify = given (rstrip_slash (strip (setting_or m e ''AUTH_VERIFY_URL'' [])))
            (api @ ''/api/internal/service-credentials/verify''),
          cf_scope = given (strip (setting_or m e ''SYNC_REQUIRED_SCOPE'' ''sync'')) ''sync'',
          cf_account = secret e ''SYNC_ACCOUNT_ID'',
          cf_local = get_bool m e ''TODO_LOCAL_SESSION_ENABLED'' False,
          cf_persist = get_bool m e ''TODO_SESSION_DB_PERSISTENCE'' False,
          cf_backup = setting_or m e ''SYNC_BACKUP_DIR'' ''../.backups/db'',
          cf_livekit = strip (setting_or m e ''LIVEKIT_URL'' []),
          cf_livekit_key = secret e ''LIVEKIT_API_KEY'', cf_livekit_secret = secret e ''LIVEKIT_API_SECRET''\<rparr>)"

section \<open>What the role decides\<close>

definition sync_role :: "config \<Rightarrow> string" where
  "sync_role c = (if \<not> cf_sync c then ''disabled'' else if cf_peer c \<noteq> [] then ''client'' else ''server'')"

definition serves_sync_peer_api :: "config \<Rightarrow> bool" where
  "serves_sync_peer_api c = (sync_role c = ''server'')"

definition runs_sync_daemon :: "config \<Rightarrow> bool" where
  "runs_sync_daemon c = (sync_role c = ''client'')"

definition hides_prod_only_surfaces :: "config \<Rightarrow> bool" where
  "hides_prod_only_surfaces c =
     (if cf_mode c \<noteq> [] then cf_mode c \<in> set MODES_HIDING_PROD_ONLY_SURFACES else sync_role c = ''client'')"

record features =
  ft_screen_share :: bool
  ft_articles :: bool
  ft_member_invite :: bool
  ft_version_history :: bool

definition feature_flags :: "config \<Rightarrow> features" where
  "feature_flags c =
     (let local = hides_prod_only_surfaces c
      in \<lparr>ft_screen_share = \<not> local, ft_articles = \<not> local, ft_member_invite = \<not> local,
          ft_version_history = local\<rparr>)"

text \<open>The part of the snapshot that the checks read; the rest is the configuration itself.\<close>

definition settings_snapshot :: "config \<Rightarrow> envs" where
  "settings_snapshot c =
     [(''AUTH_ISSUER_URL'', cf_issuer c), (''AUTH_PUBLIC_BASE_URL'', cf_public c),
      (''AUTH_API_BASE_URL'', cf_api c), (''AUTH_JWKS_URL'', cf_jwks c),
      (''TODO_OIDC_REDIRECT_URI'', cf_redirect c), (''TODO_WEB_BASE_URL'', cf_web c),
      (''SYNC_PEER_URL'', cf_peer c), (''LIVEKIT_URL'', cf_livekit c), (''SYNC_VERIFY_URL'', cf_verify c)]"

definition load_config :: "envs \<Rightarrow> start_fail + config" where
  "load_config e =
     sbind (validate_mode_name (map_of e ''TODO_MODE'')) (\<lambda>m.
     sbind (read_numbers m e (get_callback_route_path
        (setting_or m e ''TODO_OIDC_REDIRECT_URI'' ''http://localhost:8000/api/todo/session/callback'')))
       (\<lambda>(n, route).
        let c = config_of m e n route
        in sbind (run_preflight m (settings_snapshot c) (cf_origins c) (sync_role c) e) (\<lambda>u. Inr c)))"

section \<open>The settings of the services\<close>

definition session_cfg :: "config \<Rightarrow> sess_cfg" where
  "session_cfg c =
     \<lparr>sg_api = cf_api c, sg_public = cf_public c, sg_client = cf_client c,
      sg_secret = or_empty (cf_client_secret c), sg_redirect = cf_redirect c, sg_web = cf_web c,
      sg_issuer = cf_issuer c, sg_account = cf_account c, sg_local = cf_local c, sg_daemon = runs_sync_daemon c,
      sg_persist = cf_persist c, sg_key_id = cf_key_id c, sg_key_secret = cf_key_secret c\<rparr>"

end
