(* ===== verification/Session_Api.thy ===== *)
theory Session_Api
  imports Sessions
begin

text \<open>
  \<^verbatim>\<open>src/services/session_auth.py\<close>, the operations: logging in through the authentication service,
  refreshing a session, going offline, logging out. \<open>others\<close> is what other requests do to the
  state while this one waits: for the lock of its session (\<open>ot_lock\<close>), for the network (\<open>ot_net\<close>),
  while it loads an identity from the table (\<open>ot_load\<close>), or between its writes to memory and to
  the table (\<open>ot_save\<close>).
\<close>

record others =
  ot_lock :: "sess_state \<Rightarrow> sess_state"
  ot_net :: "sess_state \<Rightarrow> sess_state"
  ot_load :: "sess_state \<Rightarrow> sess_state"
  ot_save :: "sess_state \<Rightarrow> sess_state"

section \<open>Talking to the authentication service\<close>

definition session_http :: "sess_env \<Rightarrow> http_request \<Rightarrow> sess_state \<Rightarrow> (sess_fail + json_response) \<times> sess_state" where
  "session_http v req st =
     ((case sv_http v (se_event st) req of
         Answered c raw \<Rightarrow> Inr \<lparr>js_status = c, js_data = decode_body (sv_loads v) raw\<rparr>
       | HttpFailed c raw \<Rightarrow> Inr \<lparr>js_status = c, js_data = decode_body (sv_loads v) raw\<rparr>
       | NoConnection why \<Rightarrow> Inl (Http 502 (JStr (''Upstream connection failed: '' @ why)))
       | TimedOut \<Rightarrow> Inl (Crash ''TimeoutError'')),
      next_event st)"

fun first_truthy :: "json \<Rightarrow> string list \<Rightarrow> json option" where
  "first_truthy j [] = None"
| "first_truthy j (k # ks) = (if json_truthy (json_get j k) then Some (json_get j k) else first_truthy j ks)"

definition extract_error_detail :: "json \<Rightarrow> string \<Rightarrow> json" where
  "extract_error_detail data fallback =
     (case first_truthy data [''detail'', ''message'', ''error_description'', ''error''] of
        Some x \<Rightarrow> x
      | None \<Rightarrow>
          (case data of
             JList xs \<Rightarrow> if xs \<noteq> [] then data else JStr fallback
           | JStr s \<Rightarrow> if s \<noteq> [] then data else JStr fallback
           | _ \<Rightarrow> JStr fallback))"

definition json_text :: "sess_env \<Rightarrow> json \<Rightarrow> string" where
  "json_text v j = (case j of JStr s \<Rightarrow> s | _ \<Rightarrow> sv_shown v j)"

fun comma_join :: "string list \<Rightarrow> string" where
  "comma_join [] = []"
| "comma_join [x] = x"
| "comma_join (x # xs) = x @ '', '' @ comma_join xs"

definition stringify_error_detail :: "sess_env \<Rightarrow> json \<Rightarrow> string \<Rightarrow> string" where
  "stringify_error_detail v detail fallback =
     (case detail of
        JStr s \<Rightarrow> if strip s \<noteq> [] then s else fallback
      | JList xs \<Rightarrow>
          (let t = comma_join (map (json_text v) (filter json_truthy xs)) in if t \<noteq> [] then t else fallback)
      | _ \<Rightarrow> fallback)"

definition extract_oidc_error :: "sess_env \<Rightarrow> json \<Rightarrow> string \<Rightarrow> string \<Rightarrow> string \<times> string" where
  "extract_oidc_error v data code description =
     (if is_object data then
        (if json_truthy (json_get data ''error'') then json_text v (json_get data ''error'') else code,
         stringify_error_detail v
           (case first_truthy data [''error_description'', ''detail''] of
              Some x \<Rightarrow> x | None \<Rightarrow> json_get data ''message'') description)
      else (code, stringify_error_detail v data description))"

definition ensure_oidc_configured :: "sess_cfg \<Rightarrow> sess_fail + unit" where
  "ensure_oidc_configured g =
     (if sg_client g = [] then Inl (Http 503 (JStr ''TODO_OIDC_CLIENT_ID is required''))
      else if sg_redirect g = [] then Inl (Http 503 (JStr ''TODO_OIDC_REDIRECT_URI is required''))
      else Inr ())"

definition token_request :: "sess_cfg \<Rightarrow> (string \<times> json) list \<Rightarrow> http_request" where
  "token_request g body = (''POST'', sg_api g @ ''/oauth/token'', JObj body, [])"

definition exchange_code_for_token ::
  "sess_cfg \<Rightarrow> sess_env \<Rightarrow> string \<Rightarrow> string \<Rightarrow> sess_state \<Rightarrow> (sess_fail + json) \<times> sess_state" where
  "exchange_code_for_token g v code verifier st =
     (case ensure_oidc_configured g of
        Inl x \<Rightarrow> (Inl x, st)
      | Inr u \<Rightarrow>
          (case session_http v (token_request g
                  [(''grant_type'', JStr ''authorization_code''), (''client_id'', JStr (sg_client g)),
                   (''client_secret'', JStr (sg_secret g)), (''redirect_uri'', JStr (sg_redirect g)),
                   (''code'', JStr code), (''code_verifier'', JStr verifier)]) st of
             (Inl x, st1) \<Rightarrow> (Inl x, st1)
           | (Inr r, st1) \<Rightarrow>
               (if \<not> response_ok r then
                  (case extract_oidc_error v (js_data r) ''token_exchange_failed'' ''Token exchange failed'' of
                     (code, description) \<Rightarrow> Inl (OidcFail code description))
                else if \<not> is_object (js_data r)
                then Inl (OidcFail ''token_exchange_failed'' ''Invalid token response'')
                else Inr (js_data r), st1)))"

definition refresh_body :: "sess_cfg \<Rightarrow> string \<Rightarrow> (string \<times> json) list" where
  "refresh_body g token =
     [(''grant_type'', JStr ''refresh_token''), (''client_id'', JStr (sg_client g)),
      (''client_secret'', JStr (sg_secret g)), (''refresh_token'', JStr token)]"

definition request_token ::
  "sess_cfg \<Rightarrow> sess_env \<Rightarrow> (string \<times> json) list \<Rightarrow> sess_state \<Rightarrow> (sess_fail + json) \<times> sess_state" where
  "request_token g v body st =
     (case session_http v (token_request g (filter (\<lambda>(k, x). x \<noteq> JNull) body)) st of
        (Inl x, st1) \<Rightarrow> (Inl x, st1)
      | (Inr r, st1) \<Rightarrow>
          (if \<not> response_ok r
           then Inl (Http (js_status r) (extract_error_detail (js_data r) ''Token exchange failed''))
           else if \<not> is_object (js_data r) then Inl (Http 503 (JStr ''Invalid token response''))
           else Inr (js_data r), st1))"

section \<open>A session from a token\<close>

text \<open>\<open>int(expires_in)\<close>; a text of digits is read, other texts raise.\<close>

definition py_int :: "json \<Rightarrow> sess_fail + int" where
  "py_int j =
     (case j of
        JInt i \<Rightarrow> Inr i
      | JBool b \<Rightarrow> Inr (if b then 1 else 0)
      | JStr s \<Rightarrow> (case read_num (length (strip s)) 0 (strip s) of
                     Some (n, []) \<Rightarrow> if strip s = [] then Inl (Crash ''ValueError'') else Inr n
                   | _ \<Rightarrow> Inl (Crash ''ValueError''))
      | _ \<Rightarrow> Inl (Crash ''TypeError''))"

definition create_session ::
  "sess_cfg \<Rightarrow> sess_env \<Rightarrow> json \<Rightarrow> string option \<Rightarrow> sess_state \<Rightarrow> (sess_fail + session) \<times> sess_state" where
  "create_session g v token i st =
     (let access = json_get token ''access_token''; refresh = json_get token ''refresh_token'';
          life = json_get token ''expires_in''
      in if \<not> json_truthy access \<or> \<not> json_truthy refresh \<or> \<not> json_truthy life
         then (Inl (Http 503 (JStr ''Invalid token response'')), st)
         else case decode_auth_api_token (sv_keys v) (json_text v access) (se_keys st) of
                (Inl x, k) \<Rightarrow> (Inl (Crash (exn_str x)), st\<lparr>se_keys := k\<rparr>)
              | (Inr c, k) \<Rightarrow>
                  (case build_user_from_payload c of
                     Inl x \<Rightarrow> (Inl (Crash (exn_str x)), st\<lparr>se_keys := k\<rparr>)
                   | Inr u \<Rightarrow>
                       (let (sid, st1) = (if blank i then random_token v (st\<lparr>se_keys := k\<rparr>)
                                          else (the i, st\<lparr>se_keys := k\<rparr>));
                            (now, st2) = now_time v st1
                        in case py_int life of
                             Inl x \<Rightarrow> (Inl x, st2)
                           | Inr n \<Rightarrow>
                               (Inr \<lparr>ss_id = sid, ss_access = json_text v access,
                                  ss_refresh = json_text v refresh, ss_expires = Some (now + n * 1000000),
                                  ss_user = u,
                                  ss_issuer = Some (str_or (sv_iss v (json_text v access)) (sg_issuer g)),
                                  ss_offline = False\<rparr>, st2))))"

section \<open>Logging in\<close>

definition start_login :: "sess_cfg \<Rightarrow> sess_env \<Rightarrow> string option \<Rightarrow> sess_state \<Rightarrow> (sess_fail + string) \<times> sess_state" where
  "start_login g v return_to st =
     (let st1 = prune_expired_login_transactions v st in
      case ensure_oidc_configured g of
        Inl x \<Rightarrow> (Inl x, st1)
      | Inr u \<Rightarrow>
          (let (state, st2) = random_token v st1; (verifier, st3) = random_token v st2 in
           case normalize_return_to_path return_to of
             Inl x \<Rightarrow> (Inl x, st3)
           | Inr path \<Rightarrow>
               (let (now, st4) = now_time v st3
                in (Inr (build_authorize_url g state (sv_challenge v verifier)),
                    st4\<lparr>se_logins := AList.update state
                          \<lparr>lg_verifier = verifier, lg_return = path, lg_created = now\<rparr> (se_logins st4)\<rparr>))))"

text \<open>Where the browser is sent, and the session it gets.\<close>

record callback_result =
  cb_url :: string
  cb_session :: "string option"

definition callback_failed :: "sess_cfg \<Rightarrow> string \<Rightarrow> string \<Rightarrow> sess_fail + callback_result" where
  "callback_failed g code description =
     Inr \<lparr>cb_url = build_error_redirect_url g code description, cb_session = None\<rparr>"

definition callback_error :: "sess_cfg \<Rightarrow> sess_env \<Rightarrow> sess_fail \<Rightarrow> sess_fail + callback_result" where
  "callback_error g v x =
     (case x of
        OidcFail code description \<Rightarrow> callback_failed g code description
      | Http c detail \<Rightarrow>
          callback_failed g ''callback_failed'' (stringify_error_detail v detail ''OIDC callback failed'')
      | Crash m \<Rightarrow> Inl (Crash m))"

definition handle_oidc_callback ::
  "sess_cfg \<Rightarrow> sess_env \<Rightarrow> string option \<Rightarrow> string option \<Rightarrow> string option \<Rightarrow> string option \<Rightarrow> sess_state
     \<Rightarrow> (sess_fail + callback_result) \<times> sess_state" where
  "handle_oidc_callback g v code state error_code description st =
     (case pop_login_transaction state (prune_expired_login_transactions v st) of
        (transaction, st1) \<Rightarrow>
          if \<not> blank error_code
          then (callback_failed g (the error_code) (str_or description ''Authorization was denied''), st1)
          else case transaction of
            None \<Rightarrow>
              (callback_failed g ''invalid_state'' ''Login transaction expired or was not found'', st1)
          | Some t \<Rightarrow>
              if blank code
              then (callback_failed g ''invalid_request'' ''Authorization code is missing'', st1)
              else case exchange_code_for_token g v (the code) (lg_verifier t) st1 of
                (Inl x, st2) \<Rightarrow> (callback_error g v x, st2)
              | (Inr token, st2) \<Rightarrow>
                  (case create_session g v token None st2 of
                     (Inl x, st3) \<Rightarrow> (callback_error g v x, st3)
                   | (Inr s, st3) \<Rightarrow>
                       (Inr \<lparr>cb_url = build_success_redirect_url g (lg_return t), cb_session = Some (ss_id s)\<rparr>,
                        cache_identity g v (ss_user s) (ss_issuer s) (store_session g v s st3))))"

section \<open>Keeping a session alive\<close>

text \<open>\<open>time()\<close> is read for each check; an offline session never runs out.\<close>

definition expiring :: "sess_env \<Rightarrow> session \<Rightarrow> sess_state \<Rightarrow> bool \<times> sess_state" where
  "expiring v s st =
     (case now_time v st of (now, st1) \<Rightarrow>
        (case ss_expires s of None \<Rightarrow> False | Some t \<Rightarrow> t - now \<le> 30000000, st1))"

definition offline_session :: "string \<Rightarrow> identity \<Rightarrow> string option \<Rightarrow> session" where
  "offline_session i x iss =
     \<lparr>ss_id = i, ss_access = [], ss_refresh = [], ss_expires = None, ss_user = identity_to_user x,
      ss_issuer = iss, ss_offline = True\<rparr>"

text \<open>
  \<open>latest is not current\<close> compares objects; here the session in memory must still have the value
  that was read before the identity was loaded.
\<close>

definition to_offline_session ::
  "sess_cfg \<Rightarrow> sess_env \<Rightarrow> others \<Rightarrow> string \<Rightarrow> sess_state \<Rightarrow> session option \<times> sess_state" where
  "to_offline_session g v between i st =
     (case get_session_by_id g v (Some i) st of
        (None, st1) \<Rightarrow> (None, st1)
      | (Some s, st1) \<Rightarrow>
          (let account = us_id (ss_user s); iss = str_or (ss_issuer s) [] in
           if account = [] \<or> (sg_account g \<noteq> [] \<and> account \<noteq> sg_account g) \<or> iss = [] then (None, st1)
           else let x = load_identity v account iss st1; st2 = ot_load between st1 in
             if \<not> identity_matches x account iss \<or> map_of (se_sessions st2) i \<noteq> Some s then (None, st2)
             else let o' = offline_session i (the x) (ss_issuer s)
                  in (Some o', persist_session g v o'
                        (ot_save between (st2\<lparr>se_sessions := AList.update i o' (se_sessions st2)\<rparr>)))))"

text \<open>\<open>HTTPException\<close> is swallowed, whatever the service answers.\<close>

definition revoke_refresh_token_safe ::
  "sess_cfg \<Rightarrow> sess_env \<Rightarrow> string \<Rightarrow> sess_state \<Rightarrow> (sess_fail + unit) \<times> sess_state" where
  "revoke_refresh_token_safe g v token st =
     (case session_http v (''POST'', sg_api g @ ''/oauth/revoke'', JObj [(''token'', JStr token)], []) st of
        (Inl (Crash m), st1) \<Rightarrow> (Inl (Crash m), st1)
      | (_, st1) \<Rightarrow> (Inr (), st1))"

definition session_required :: sess_fail where
  "session_required = Http 401 (JStr ''Todo session is required'')"

text \<open>The new tokens replace the old only if nobody changed or ended the session meanwhile.\<close>

definition finish_refresh ::
  "sess_cfg \<Rightarrow> sess_env \<Rightarrow> others \<Rightarrow> string \<Rightarrow> string \<Rightarrow> json \<Rightarrow> sess_state
     \<Rightarrow> (sess_fail + session) \<times> sess_state" where
  "finish_refresh g v between i old token st =
     (case create_session g v token (Some i) st of
        (Inl x, st1) \<Rightarrow> (Inl x, st1)
      | (Inr s, st1) \<Rightarrow>
          if (case map_of (se_sessions st1) i of None \<Rightarrow> False | Some c \<Rightarrow> ss_refresh c = old)
          then (Inr s, persist_session g v s
                        (ot_save between (st1\<lparr>se_sessions := AList.update i s (se_sessions st1)\<rparr>)))
          else case revoke_refresh_token_safe g v (ss_refresh s) st1 of
                 (Inl x, st2) \<Rightarrow> (Inl x, st2)
               | (Inr u, st2) \<Rightarrow> (Inl session_required, st2))"

definition failed_refresh ::
  "sess_cfg \<Rightarrow> sess_env \<Rightarrow> others \<Rightarrow> bool \<Rightarrow> string \<Rightarrow> string \<Rightarrow> sess_fail \<Rightarrow> sess_state
     \<Rightarrow> (sess_fail + session) \<times> sess_state" where
  "failed_refresh g v between allow i old x st =
     (case x of
        Http c detail \<Rightarrow>
          (case (if 502 \<le> c \<and> sg_local g \<and> sg_daemon g \<and> allow then to_offline_session g v between i st
                 else (None, st)) of
             (Some s, st1) \<Rightarrow> (Inr s, st1)
           | (None, st1) \<Rightarrow> (Inl (Http 401 detail), delete_session_if_refresh_token g v i old st1))
      | _ \<Rightarrow> (Inl x, st))"

definition refresh_if_needed ::
  "sess_cfg \<Rightarrow> sess_env \<Rightarrow> others \<Rightarrow> string \<Rightarrow> bool \<Rightarrow> sess_state \<Rightarrow> (sess_fail + session) \<times> sess_state" where
  "refresh_if_needed g v between i allow st =
     (case get_session_by_id g v (Some i) st of
        (None, st1) \<Rightarrow> (Inl session_required, st1)
      | (Some s, st1) \<Rightarrow>
          (case expiring v s st1 of
             (False, st2) \<Rightarrow> (Inr s, st2)
           | (True, st2) \<Rightarrow>
               (case get_session_by_id g v (Some i) (ot_lock between st2) of
                  (None, st3) \<Rightarrow> (Inl session_required, st3)
                | (Some s', st3) \<Rightarrow>
                    (case expiring v s' st3 of
                       (False, st4) \<Rightarrow> (Inr s', st4)
                     | (True, st4) \<Rightarrow>
                         (case request_token g v (refresh_body g (ss_refresh s')) st4 of
                            (Inl x, st5) \<Rightarrow> failed_refresh g v between allow i (ss_refresh s') x (ot_net between st5)
                          | (Inr token, st5) \<Rightarrow>
                              finish_refresh g v between i (ss_refresh s') token (ot_net between st5))))))"

section \<open>Requests\<close>

definition logout :: "sess_cfg \<Rightarrow> sess_env \<Rightarrow> string option \<Rightarrow> sess_state \<Rightarrow> (sess_fail + unit) \<times> sess_state" where
  "logout g v cookie st =
     (case get_session_by_id g v cookie st of
        (None, st1) \<Rightarrow> (Inr (), st1)
      | (Some s, st1) \<Rightarrow>
          (let st2 = delete_session g v (ss_id s) st1
           in if ss_refresh s = [] then (Inr (), st2) else revoke_refresh_token_safe g v (ss_refresh s) st2))"

definition require_valid_session ::
  "sess_cfg \<Rightarrow> sess_env \<Rightarrow> others \<Rightarrow> topology \<Rightarrow> string option \<Rightarrow> sess_state \<Rightarrow> (sess_fail + session) \<times> sess_state" where
  "require_valid_session g v between t cookie st =
     (case get_session_by_id g v cookie st of
        (None, st1) \<Rightarrow> (Inl session_required, st1)
      | (Some s, st1) \<Rightarrow>
          if ss_offline s then (sbind (require_local_session_request g v t) (\<lambda>u. Inr s), st1)
          else refresh_if_needed g v between (ss_id s) (local_session_connection_allowed g v t) st1)"

definition get_user ::
  "sess_cfg \<Rightarrow> sess_env \<Rightarrow> others \<Rightarrow> topology \<Rightarrow> string option \<Rightarrow> sess_state
     \<Rightarrow> (sess_fail + user_view \<times> bool) \<times> sess_state" where
  "get_user g v between t cookie st =
     (case require_valid_session g v between t cookie st of
        (r, st1) \<Rightarrow> (sbind r (\<lambda>s. Inr (serialize_user (ss_user s), ss_offline s)), st1))"

definition get_valid_session_user ::
  "sess_cfg \<Rightarrow> sess_env \<Rightarrow> others \<Rightarrow> topology \<Rightarrow> string option \<Rightarrow> sess_state
     \<Rightarrow> (sess_fail + user option) \<times> sess_state" where
  "get_valid_session_user g v between t cookie st =
     (case get_session_by_id g v cookie st of
        (None, st1) \<Rightarrow> (Inr None, st1)
      | (Some s, st1) \<Rightarrow>
          if ss_offline s
          then (Inr (if local_session_connection_allowed g v t then Some (ss_user s) else None), st1)
          else case refresh_if_needed g v between (ss_id s) (local_session_connection_allowed g v t) st1 of
                 (r, st2) \<Rightarrow> (sbind r (\<lambda>s. Inr (Some (ss_user s))), st2))"

definition validate_session_id ::
  "sess_cfg \<Rightarrow> sess_env \<Rightarrow> others \<Rightarrow> string option \<Rightarrow> bool \<Rightarrow> sess_state
     \<Rightarrow> (sess_fail + session option) \<times> sess_state" where
  "validate_session_id g v between i allow st =
     (case get_session_by_id g v i st of
        (None, st1) \<Rightarrow> (Inr None, st1)
      | (Some s, st1) \<Rightarrow>
          if ss_offline s then (Inr (if allow then Some s else None), st1)
          else case refresh_if_needed g v between (ss_id s) allow st1 of
                 (Inr s', st2) \<Rightarrow> (Inr (Some s'), st2)
               | (Inl (Http c d), st2) \<Rightarrow> (Inr None, st2)
               | (Inl x, st2) \<Rightarrow> (Inl x, st2))"

definition start_local_session ::
  "sess_cfg \<Rightarrow> sess_env \<Rightarrow> topology \<Rightarrow> sess_state \<Rightarrow> (sess_fail + session \<times> string) \<times> sess_state" where
  "start_local_session g v t st =
     (case require_local_session_request g v t of
        Inl x \<Rightarrow> (Inl x, st)
      | Inr u \<Rightarrow>
          (let x = load_identity v (sg_account g) (sg_issuer g) st in
           if \<not> identity_matches x (sg_account g) (sg_issuer g)
           then (Inl (Http 409 (JStr ''identity_not_cached'')), st)
           else let (i, st1) = random_token v st; s = offline_session i (the x) (id_issuer (the x))
                in (Inr (s, iso_db (id_verified (the x))), store_session g v s st1)))"

definition get_local_identity_info ::
  "sess_cfg \<Rightarrow> sess_env \<Rightarrow> topology \<Rightarrow> sess_state \<Rightarrow> sess_fail + bool" where
  "get_local_identity_info g v t st =
     sbind (require_local_session_request g v t)
       (\<lambda>u. Inr (identity_matches (load_identity v (sg_account g) (sg_issuer g) st)
                   (sg_account g) (sg_issuer g)))"

definition application_message :: "string option \<Rightarrow> string" where
  "application_message m =
     (if strip (or_empty m) \<noteq> [] then strip (or_empty m) else ''default application message'')"

definition create_service_application ::
  "sess_cfg \<Rightarrow> sess_env \<Rightarrow> others \<Rightarrow> topology \<Rightarrow> string option \<Rightarrow> string option \<Rightarrow> sess_state
     \<Rightarrow> (sess_fail + json) \<times> sess_state" where
  "create_service_application g v between t cookie message st =
     (case require_valid_session g v between t cookie st of
        (Inl x, st1) \<Rightarrow> (Inl x, st1)
      | (Inr s, st1) \<Rightarrow>
          (case session_http v (''POST'', sg_api g @ ''/api/service-applications'',
                  JObj [(''serviceKey'', JStr ''todo''), (''message'', JStr (application_message message)),
                        (''requestedPermissionKey'', JStr ''user'')],
                  [(''Authorization'', ''Bearer '' @ ss_access s)]) st1 of
             (Inl x, st2) \<Rightarrow> (Inl x, st2)
           | (Inr r, st2) \<Rightarrow>
               (if response_ok r then Inr (js_data r)
                else Inl (Http (js_status r) (extract_error_detail (js_data r) ''Service application failed'')),
                st2)))"

record account_view =
  av_id :: string
  av_login :: string
  av_name :: string
  av_email :: string
  av_admin :: bool
  av_can_invite :: bool

text \<open>\<open>str(account.get(k, ""))\<close>: a null is shown as \<open>None\<close>.\<close>

definition account_text :: "sess_env \<Rightarrow> json \<Rightarrow> string \<Rightarrow> string" where
  "account_text v a k =
     (case a of JObj fs \<Rightarrow> (case map_of fs k of None \<Rightarrow> [] | Some x \<Rightarrow> json_text v x) | _ \<Rightarrow> [])"

fun account_views :: "sess_env \<Rightarrow> json list \<Rightarrow> sess_fail + account_view list" where
  "account_views v [] = Inr []"
| "account_views v (a # as) =
     (if \<not> is_object a then Inl (Crash ''AttributeError'')
      else sbind (account_views v as) (\<lambda>xs. Inr (
        \<lparr>av_id = account_text v a ''id'', av_login = account_text v a ''loginId'',
         av_name = account_text v a ''name'', av_email = account_text v a ''email'',
         av_admin = json_truthy (json_get a ''isSuperAdmin''),
         av_can_invite = (case json_get a ''permissionKey'' of JStr p \<Rightarrow> p \<noteq> ''visitor'' | _ \<Rightarrow> False)\<rparr> # xs)))"

definition search_accounts ::
  "sess_cfg \<Rightarrow> sess_env \<Rightarrow> string \<Rightarrow> sess_state \<Rightarrow> (sess_fail + account_view list) \<times> sess_state" where
  "search_accounts g v query st =
     (if sg_key_id g = [] \<or> sg_key_secret g = []
      then (Inl (Http 503 (JStr ''Auth service credential is required for account search'')), st)
      else case session_http v (''GET'',
               sg_api g @ ''/api/internal/service-accounts/search?serviceKey=todo&q='' @ quote query, JNull,
               [(''x-auth-service-key-id'', sg_key_id g), (''x-auth-service-secret'', sg_key_secret g)]) st of
             (Inl x, st1) \<Rightarrow> (Inl x, st1)
           | (Inr r, st1) \<Rightarrow>
               (if \<not> response_ok r
                then Inl (Http (js_status r) (extract_error_detail (js_data r) ''Account search failed''))
                else account_views v (case js_data r of JList xs \<Rightarrow> xs | _ \<Rightarrow> []), st1))"

section \<open>LiveKit\<close>

text \<open>\<^verbatim>\<open>src/services/livekit.py\<close>: what the signed token grants; signing is the library's.\<close>

record livekit_grant =
  lk_identity :: string
  lk_name :: string
  lk_room :: string

definition issue_livekit_token :: "string \<Rightarrow> string \<Rightarrow> string \<Rightarrow> user \<Rightarrow> sess_fail + livekit_grant" where
  "issue_livekit_token key secret room u =
     (if take 8 room \<noteq> ''project:'' then Inl (Http 400 (JStr ''Invalid room name''))
      else if key = [] \<or> secret = [] then Inl (Http 500 (JStr ''LiveKit is not configured''))
      else Inr \<lparr>lk_identity = us_id u, lk_name = str_or (us_display u) (str_or (us_username u) (us_id u)),
                lk_room = room\<rparr>)"

end
