(* ===== verification/Session_Laws.thy ===== *)
theory Session_Laws
  imports Session_Api Samples
begin

text \<open>
  What the sessions guarantee: a login is finished once and in time and leads back to the site;
  a session that ends while it is being refreshed stays ended; an offline session is backed by
  a cached identity.
\<close>

section \<open>What the steps leave alone\<close>

lemma time_frame:
  "now_time v st = (n, st1) \<Longrightarrow> st1 = next_event st \<and> n = sv_time v (se_event st)"
  by (auto simp: now_time_def)

lemma next_event_fields [simp]:
  "se_sessions (next_event st) = se_sessions st" "se_saved (next_event st) = se_saved st"
  "se_logins (next_event st) = se_logins st" "se_store (next_event st) = se_store st"
  "se_notices (next_event st) = se_notices st"
  by (simp_all add: next_event_def)

lemma http_frame:
  "session_http v req st = (r, st1) \<Longrightarrow> st1 = next_event st"
  by (auto simp: session_http_def split: wire.splits)

lemma exchange_frame:
  "exchange_code_for_token g v code ver st = (r, st1) \<Longrightarrow>
     se_sessions st1 = se_sessions st \<and> se_saved st1 = se_saved st \<and> se_logins st1 = se_logins st"
  by (auto simp: exchange_code_for_token_def split: sum.splits prod.splits if_splits dest!: http_frame)

lemma request_token_frame:
  "request_token g v body st = (r, st1) \<Longrightarrow>
     se_sessions st1 = se_sessions st \<and> se_saved st1 = se_saved st \<and> se_logins st1 = se_logins st \<and>
     se_store st1 = se_store st"
  by (auto simp: request_token_def split: sum.splits prod.splits if_splits dest!: http_frame)

text \<open>A session comes from a token whose signature was checked, under the id asked for.\<close>

lemma create_session_frame:
  assumes "create_session g v token i st = (r, st1)"
  shows "se_sessions st1 = se_sessions st \<and> se_saved st1 = se_saved st \<and> se_logins st1 = se_logins st \<and>
    se_store st1 = se_store st \<and>
    (\<forall>s. r = Inr s \<longrightarrow> \<not> ss_offline s \<and> (\<not> blank i \<longrightarrow> ss_id s = the i) \<and>
       (\<exists>k k' c. decode_auth_api_token (sv_keys v) (ss_access s) k = (Inr c, k') \<and>
          build_user_from_payload c = Inr (ss_user s)))"
  using assms
  by (auto simp: create_session_def Let_def random_token_def now_time_def
      split: if_splits prod.splits sum.splits) blast+

section \<open>Logging in\<close>

text \<open>The site's own addresses.\<close>

definition on_site :: "sess_cfg \<Rightarrow> string \<Rightarrow> bool" where
  "on_site g url = (\<exists>path. url = rstrip_slash (sg_web g) @ ''/'' @ path)"

lemma with_slash_form: "\<exists>t. with_slash s = CHR ''/'' # t"
  by (cases s) (auto simp: with_slash_def starts_slash_def)

lemma joined_on_site: "on_site g (join_base_and_path (sg_web g) path @ x)"
  using with_slash_form [of path] by (auto simp: on_site_def join_base_and_path_def)

lemma redirects_on_site: "on_site g (build_success_redirect_url g p)" "on_site g (build_error_redirect_url g c d)"
  using joined_on_site [of g p "[]"] joined_on_site [of g "''/login''"]
  by (simp_all add: build_success_redirect_url_def build_error_redirect_url_def)

lemma callback_error_result:
  "callback_error g v x = Inr r \<Longrightarrow> cb_session r = None \<and> on_site g (cb_url r)"
  by (auto simp: callback_error_def callback_failed_def redirects_on_site split: sess_fail.splits)

lemma pruned:
  "map_of (se_logins (prune_expired_login_transactions v st)) s = Some l \<Longrightarrow> distinct (map fst (se_logins st)) \<Longrightarrow>
     map_of (se_logins st) s = Some l \<and> sv_time v (se_event st) - LOGIN_TRANSACTION_TTL \<le> lg_created l"
  by (auto simp: prune_expired_login_transactions_def now_time_def map_of_eq_Some_iff distinct_map_filter
      split: prod.splits)

lemma prune_frame:
  "se_sessions (prune_expired_login_transactions v st) = se_sessions st \<and>
     se_saved (prune_expired_login_transactions v st) = se_saved st"
  by (simp add: prune_expired_login_transactions_def now_time_def)

lemma pop_frame:
  assumes "pop_login_transaction state st = (t, st1)"
  shows "se_sessions st1 = se_sessions st" "t = Some l \<Longrightarrow> \<exists>s. state = Some s \<and> s \<noteq> [] \<and> map_of (se_logins st) s = Some l"
    "state = Some s \<Longrightarrow> s \<noteq> [] \<Longrightarrow> map_of (se_logins st1) s = None" "se_saved st1 = se_saved st"
  using assms by (auto simp: pop_login_transaction_def blank_def delete_conv split: if_splits option.splits)

lemma stored_session:
  "map_of (se_sessions (store_session g v s st)) (ss_id s) = Some s"
  "se_logins (store_session g v s st) = se_logins st"
  "j \<noteq> ss_id s \<Longrightarrow> map_of (se_sessions (store_session g v s st)) j = map_of (se_sessions st) j"
  by (simp_all add: store_session_def persist_session_def update_conv)

lemma cached_identity_frame [simp]:
  "se_sessions (cache_identity g v u i st) = se_sessions st" "se_logins (cache_identity g v u i st) = se_logins st"
  by (simp_all add: cache_identity_def)

text \<open>Every branch of the callback: an answer without a session, or a login finished.\<close>

lemma callback_cases:
  assumes "handle_oidc_callback g v code state err d st = (r, st')"
    and "pop_login_transaction state (prune_expired_login_transactions v st) = (t, st1)"
  obtains (none) "\<And>x. r = Inr x \<Longrightarrow> cb_session x = None \<and> on_site g (cb_url x)" "se_logins st' = se_logins st1"
      "se_sessions st' = se_sessions st1" "se_saved st' = se_saved st1"
  | (login) l token st2 s st3 where "t = Some l" "blank err"
      "create_session g v token None st2 = (Inr s, st3)" "se_logins st2 = se_logins st1"
      "se_sessions st2 = se_sessions st1" "r = Inr \<lparr>cb_url = build_success_redirect_url g (lg_return l), cb_session = Some (ss_id s)\<rparr>"
      "st' = cache_identity g v (ss_user s) (ss_issuer s) (store_session g v s st3)"
proof (cases "blank err \<and> t \<noteq> None \<and> \<not> blank code")
  case False
  then show ?thesis using assms
    by (intro none) (auto simp: handle_oidc_callback_def callback_failed_def redirects_on_site split: if_splits option.splits)
next
  case True
  then obtain l where l: "t = Some l" "blank err" "\<not> blank code" by blast
  obtain x st2 where e: "exchange_code_for_token g v (the code) (lg_verifier l) st1 = (x, st2)" by fastforce
  note f = exchange_frame [OF e]
  show ?thesis
  proof (cases x)
    case (Inl y)
    with assms l e f show ?thesis
      by (intro none) (auto simp: handle_oidc_callback_def dest: callback_error_result)
  next
    case (Inr token)
    obtain y st3 where c: "create_session g v token None st2 = (y, st3)" by fastforce
    show ?thesis
    proof (cases y)
      case (Inl z)
      with Inr assms l e f c create_session_frame [OF c] show ?thesis
        by (intro none) (auto simp: handle_oidc_callback_def dest: callback_error_result)
    next
      case (Inr s)
      with \<open>x = Inr token\<close> assms l e f c show ?thesis
        by (intro login [of l token st2 s st3]) (auto simp: handle_oidc_callback_def)
    qed
  qed
qed

definition signed_session :: "sess_env \<Rightarrow> session \<Rightarrow> bool" where
  "signed_session v s = (\<not> ss_offline s \<and>
     (\<exists>k k' c. decode_auth_api_token (sv_keys v) (ss_access s) k = (Inr c, k') \<and>
        build_user_from_payload c = Inr (ss_user s)))"

text \<open>C31. However a callback ends, with a redirect or a server error, its state is used up. A redirect
  leads to a page of the site and brings a session only for a pending login of this state that
  is no older than ten minutes, with a token whose signature was checked, and then only this
  session is new; a redirect without a session and a server error (a token that is not
  accepted) leave the sessions as they were.\<close>

theorem login_is_finished_once:
  assumes "handle_oidc_callback g v code state err d st = (r, st')" "distinct (map fst (se_logins st))"
  shows "(\<forall>s. state = Some s \<longrightarrow> s \<noteq> [] \<longrightarrow> map_of (se_logins st') s = None) \<and>
    (case r of
       Inl x \<Rightarrow> se_sessions st' = se_sessions st \<and> se_saved st' = se_saved st
     | Inr x \<Rightarrow> on_site g (cb_url x) \<and>
         (case cb_session x of
            None \<Rightarrow> se_sessions st' = se_sessions st \<and> se_saved st' = se_saved st
          | Some i \<Rightarrow> (\<forall>j. j \<noteq> i \<longrightarrow> map_of (se_sessions st') j = map_of (se_sessions st) j) \<and>
              (\<exists>s l y. state = Some s \<and> map_of (se_logins st) s = Some l \<and>
                 sv_time v (se_event st) - lg_created l \<le> LOGIN_TRANSACTION_TTL \<and> blank err \<and>
                 cb_url x = build_success_redirect_url g (lg_return l) \<and>
                 map_of (se_sessions st') i = Some y \<and> signed_session v y)))"
proof -
  obtain t st1 where p: "pop_login_transaction state (prune_expired_login_transactions v st) = (t, st1)"
    by fastforce
  note p1 = pop_frame [OF p] and p0 = prune_frame [of v st]
  from assms(1) p show ?thesis
  proof (cases rule: callback_cases)
    case none
    with p1(1,3,4) p0 show ?thesis by (auto split: sum.splits option.splits)
  next
    case (login l token st2 y st3)
    have s: "se_logins st' = se_logins st1" "map_of (se_sessions st') (ss_id y) = Some y" "signed_session v y"
      "\<forall>j. j \<noteq> ss_id y \<longrightarrow> map_of (se_sessions st') j = map_of (se_sessions st) j"
      using login p1(1) p0 create_session_frame [OF login(3)] by (auto simp: stored_session signed_session_def)
    from p1(2) [OF login(1)] obtain a where
      a: "state = Some a" "map_of (se_logins (prune_expired_login_transactions v st)) a = Some l" by blast
    from pruned [OF a(2) assms(2)] login s a(1) p1(3) show ?thesis
      by (auto simp: redirects_on_site)
  qed
qed

section \<open>Sessions that end while they are refreshed\<close>

text \<open>Neither memory nor the table has it.\<close>

definition session_gone :: "sess_cfg \<Rightarrow> sess_env \<Rightarrow> string \<Rightarrow> sess_state \<Rightarrow> bool" where
  "session_gone g v i st = (fst (get_session_by_id g v (Some i) st) = None)"

lemma gone_get: "session_gone g v i st \<longleftrightarrow> get_session_by_id g v (Some i) st = (None, st)"
  by (auto simp: session_gone_def get_session_by_id_def split: option.splits)

lemma gone_iff:
  "session_gone g v i st \<longleftrightarrow> i = [] \<or>
     map_of (se_sessions st) i = None \<and> load_persisted_session g v i st = None"
  by (auto simp: session_gone_def get_session_by_id_def blank_def split: option.splits)

lemma gone_frame:
  "se_sessions st' = se_sessions st \<Longrightarrow> se_saved st' = se_saved st \<Longrightarrow>
     session_gone g v i st' = session_gone g v i st"
  by (simp add: gone_iff load_persisted_session_def)

lemma deleted_is_gone: "session_gone g v i (delete_session g v i st)"
  by (simp add: gone_iff delete_session_def Let_def notify_session_invalidated_def erase_persisted_session_def
      load_persisted_session_def delete_conv)

lemma revoke_frame:
  "revoke_refresh_token_safe g v t st = (r, st1) \<Longrightarrow>
     se_sessions st1 = se_sessions st \<and> se_saved st1 = se_saved st"
  by (auto simp: revoke_refresh_token_safe_def split: prod.splits sum.splits sess_fail.splits dest!: http_frame)

lemma failed_refresh_gone:
  assumes "session_gone g v i st" "failed_refresh g v between allow i old x st = (r, st')" "i \<noteq> []"
  shows "(\<exists>y. r = Inl y) \<and> session_gone g v i st'"
proof -
  have "to_offline_session g v between i st = (None, st)"
    using assms(1) by (simp add: gone_get to_offline_session_def)
  moreover have "delete_session_if_refresh_token g v i old st = st"
    using assms(1,3) by (simp add: gone_iff delete_session_if_refresh_token_def)
  ultimately show ?thesis
    using assms(1,2) by (auto simp: failed_refresh_def split: sess_fail.splits if_splits)
qed

lemma finish_refresh_gone:
  assumes "session_gone g v i st" "finish_refresh g v between i old token st = (r, st')" "i \<noteq> []"
  shows "(\<exists>y. r = Inl y) \<and> session_gone g v i st'"
proof -
  obtain x st1 where c: "create_session g v token (Some i) st = (x, st1)" by fastforce
  with create_session_frame [OF c] assms(1,3) have
    1: "session_gone g v i st1" "map_of (se_sessions st1) i = None" by (auto simp: gone_iff load_persisted_session_def)
  show ?thesis
  proof (cases x)
    case (Inl y)
    with assms(2) c 1 show ?thesis by (auto simp: finish_refresh_def)
  next
    case (Inr s)
    obtain u st2 where k: "revoke_refresh_token_safe g v (ss_refresh s) st1 = (u, st2)" by fastforce
    have "session_gone g v i st2" using gone_frame revoke_frame [OF k] 1(1) by blast
    with assms(2) c 1(2) Inr k show ?thesis by (cases u) (auto simp: finish_refresh_def)
  qed
qed

lemma expiring_frame: "expiring v s st = (b, st1) \<Longrightarrow> st1 = next_event st"
  by (auto simp: expiring_def now_time_def)

text \<open>C32. A session that is ended while its refresh waits for the network stays ended: either the
  answer is the session as it was before the wait, or it is an error and neither memory nor
  the table has a session afterwards.\<close>

theorem ended_session_stays_ended:
  assumes "\<And>s. session_gone g v i (ot_net between s)"
    and "refresh_if_needed g v between i allow st = (r, st')"
  shows "case r of Inl x \<Rightarrow> session_gone g v i st'
    | Inr s \<Rightarrow> \<exists>st0 st1. get_session_by_id g v (Some i) st0 = (Some s, st1) \<and>
        st0 \<in> {st, ot_lock between (next_event (snd (get_session_by_id g v (Some i) st)))}"
proof (cases "fst (get_session_by_id g v (Some i) st)")
  case None
  then have "session_gone g v i st" by (simp add: session_gone_def)
  with assms(2) show ?thesis by (auto simp: refresh_if_needed_def gone_get)
next
  case (Some s)
  then obtain st1 where 1: "get_session_by_id g v (Some i) st = (Some s, st1)" by (metis prod.collapse)
  then have i: "i \<noteq> []" by (auto simp: get_session_by_id_def blank_def)
  obtain b where b: "expiring v s st1 = (b, next_event st1)" using expiring_frame by (metis surj_pair)
  let ?s = "ot_lock between (next_event st1)"
  show ?thesis
  proof (cases "b \<and> \<not> session_gone g v i ?s")
    case False
    show ?thesis
    proof (cases b)
      case True
      with False assms(2) 1 b show ?thesis by (auto simp: refresh_if_needed_def gone_get)
    next
      case False
      with assms(2) 1 b have "r = Inr s" by (auto simp: refresh_if_needed_def)
      with 1 show ?thesis by auto
    qed
  next
    case True
    then obtain s' st3 where 3: "get_session_by_id g v (Some i) ?s = (Some s', st3)"
      by (auto simp: session_gone_def) (metis prod.collapse option.exhaust)
    obtain b' where b': "expiring v s' st3 = (b', next_event st3)" using expiring_frame by (metis surj_pair)
    show ?thesis
    proof (cases b')
      case False
      with assms(2) 1 b True 3 b' have "r = Inr s'" by (auto simp: refresh_if_needed_def)
      with 1 3 show ?thesis by auto
    next
      case e: True
      obtain x st5 where x: "request_token g v (refresh_body g (ss_refresh s')) (next_event st3) = (x, st5)"
        by fastforce
      have "(\<exists>y. r = Inl y) \<and> session_gone g v i st'"
      proof (cases x)
        case (Inl y)
        with assms(2) 1 b True 3 b' e x show ?thesis
          by (intro failed_refresh_gone [OF assms(1) _ i]) (simp add: refresh_if_needed_def)
      next
        case (Inr token)
        with assms(2) 1 b True 3 b' e x show ?thesis
          by (intro finish_refresh_gone [OF assms(1) _ i]) (simp add: refresh_if_needed_def)
      qed
      then show ?thesis by auto
    qed
  qed
qed

section \<open>Offline sessions\<close>

text \<open>An identity of the account and the issuer is in the table.\<close>

definition known_identity :: "sess_env \<Rightarrow> string \<Rightarrow> string \<Rightarrow> sess_state \<Rightarrow> bool" where
  "known_identity v account iss st =
     (\<exists>x \<in> set (identities (se_store st)). id_account x = account \<and> id_issuer x = Some iss)"

lemma find_in: "find P xs = Some x \<Longrightarrow> x \<in> set xs"
  by (auto simp: find_Some_iff)

lemma matching_identity:
  assumes "identity_matches (load_identity v account iss st) account iss"
  shows "\<exists>x. load_identity v account iss st = Some x \<and> us_id (identity_to_user x) = account \<and>
    known_identity v account iss st"
  using assms
  by (auto simp: identity_matches_def load_identity_def get_local_identity_def blank_def known_identity_def
      identity_to_user_def Let_def str_or_def split: option.splits if_splits dest!: find_in)

lemma required_local: "require_local_session_request g v t = Inr u \<longleftrightarrow> local_session_connection_allowed g v t"
  by (auto simp: require_local_session_request_def local_session_connection_allowed_def)

theorem local_session_needs_known_identity:
  assumes "start_local_session g v t st = (Inr (s, verified), st')"
  shows "sg_local g \<and> sg_daemon g \<and> is_trusted_local_topology v t \<and> ss_offline s \<and>
    us_id (ss_user s) = sg_account g \<and> known_identity v (sg_account g) (sg_issuer g) st \<and>
    map_of (se_sessions st') (ss_id s) = Some s"
proof -
  have "local_session_connection_allowed g v t"
    "identity_matches (load_identity v (sg_account g) (sg_issuer g) st) (sg_account g) (sg_issuer g)"
    using assms required_local [of g v t "()"]
    by (auto simp: start_local_session_def Let_def split: sum.splits if_splits)
  moreover have "\<exists>st0. st' = store_session g v s st0"
    using assms by (auto simp: start_local_session_def Let_def split: sum.splits if_splits prod.splits)
  then have "map_of (se_sessions st') (ss_id s) = Some s" using stored_session(1) by blast
  ultimately show ?thesis
    using assms matching_identity [of v "sg_account g" "sg_issuer g" st] required_local [of g v t "()"]
    by (auto simp: start_local_session_def Let_def offline_session_def local_session_connection_allowed_def
        random_token_def split: sum.splits)
qed

text \<open>A refresh makes a session offline only for a connection that may have one.\<close>

lemma failed_refresh_allowed:
  "failed_refresh g v between allow i old x st = (Inr s, st') \<Longrightarrow> allow \<and> sg_local g \<and> sg_daemon g"
  by (auto simp: failed_refresh_def split: sess_fail.splits prod.splits option.splits if_splits)

lemma finish_refresh_online:
  assumes "finish_refresh g v between i old token st = (Inr s, st')"
  shows "\<not> ss_offline s"
proof -
  obtain x st1 where c: "create_session g v token (Some i) st = (x, st1)" by fastforce
  with assms have "x = Inr s"
    by (auto simp: finish_refresh_def split: sum.splits prod.splits if_splits)
  with create_session_frame [OF c] show ?thesis by blast
qed

lemma refresh_stays_online:
  assumes "refresh_if_needed g v between i False st = (Inr s, st')"
    and "\<And>x. fst (get_session_by_id g v (Some i) st) = Some x \<Longrightarrow> \<not> ss_offline x"
    and "\<And>st0 x. fst (get_session_by_id g v (Some i) (ot_lock between st0)) = Some x \<Longrightarrow> \<not> ss_offline x"
  shows "\<not> ss_offline s"
proof -
  obtain x st1 where 1: "get_session_by_id g v (Some i) st = (Some x, st1)"
    using assms(1) by (auto simp: refresh_if_needed_def split: prod.splits option.splits)
  obtain b st2 where 2: "expiring v x st1 = (b, st2)" by fastforce
  show ?thesis
  proof (cases b)
    case False
    with assms(1) 1 2 assms(2) show ?thesis by (simp add: refresh_if_needed_def)
  next
    case True
    with assms(1) 1 2 obtain y st3 where 3: "get_session_by_id g v (Some i) (ot_lock between st2) = (Some y, st3)"
      by (auto simp: refresh_if_needed_def split: prod.splits option.splits)
    obtain c st4 where 4: "expiring v y st3 = (c, st4)" by fastforce
    obtain r st5 where 5: "request_token g v (refresh_body g (ss_refresh y)) st4 = (r, st5)" by fastforce
    have y: "\<not> ss_offline y" using assms(3) 3 by (metis fst_conv)
    show ?thesis
    proof (cases "c \<and> (\<exists>token. r = Inr token)")
      case True
      with assms(1) 1 2 \<open>b\<close> 3 4 5 show ?thesis
        by (auto simp: refresh_if_needed_def dest: finish_refresh_online)
    next
      case False
      with assms(1) 1 2 \<open>b\<close> 3 4 5 y show ?thesis
        by (cases c; cases r) (auto simp: refresh_if_needed_def dest: failed_refresh_allowed)
    qed
  qed
qed

text \<open>C33. A request is answered with an offline session only on a connection that may have one,
  provided nobody takes the session offline while the request waits for its lock.\<close>

theorem offline_session_only_at_home:
  assumes "require_valid_session g v between t (Some i) st = (Inr s, st')" "ss_offline s"
    and "\<And>x. fst (get_session_by_id g v (Some i) st) = Some x \<Longrightarrow> ss_id x = i"
    and "\<And>st0 x. fst (get_session_by_id g v (Some i) (ot_lock between st0)) = Some x \<Longrightarrow> \<not> ss_offline x"
  shows "local_session_connection_allowed g v t"
proof (rule ccontr)
  assume no: "\<not> local_session_connection_allowed g v t"
  obtain x st1 where 1: "get_session_by_id g v (Some i) st = (Some x, st1)"
    using assms(1) by (auto simp: require_valid_session_def split: prod.splits option.splits)
  then have again: "get_session_by_id g v (Some i) st1 = (Some x, st1)"
    by (auto simp: get_session_by_id_def update_conv split: if_splits option.splits)
  have "\<not> ss_offline x" "refresh_if_needed g v between i False st1 = (Inr s, st')"
    using assms(1,3) 1 no required_local [of g v t "()"]
    by (auto simp: require_valid_session_def split: if_splits sum.splits)
  then have "\<not> ss_offline s"
    using refresh_stays_online [of g v between i st1 s st'] again assms(4) by simp
  with assms(2) show False by simp
qed

section \<open>The laws at work\<close>

definition home_cfg :: sess_cfg where
  "home_cfg = \<lparr>sg_api = ''http://auth'', sg_public = ''https://auth'', sg_client = ''todo'', sg_secret = ''k'',
     sg_redirect = ''http://todo/cb'', sg_web = ''http://todo/'', sg_issuer = ''iss'', sg_account = ''ann'',
     sg_local = True, sg_daemon = True, sg_persist = True, sg_key_id = [], sg_key_secret = []\<rparr>"

definition home_keys :: key_env where
  "home_keys = \<lparr>ke_now = (\<lambda>n. 0), ke_fetch = (\<lambda>n. Inr (JObj [(''keys'', JList [JObj [(''kid'', JStr ''1'')]])])),
     ke_header = (\<lambda>t. Inr (JObj [(''kid'', JStr ''1'')])),
     ke_verify = (\<lambda>t k. Inr \<lparr>cl_key = Some ''todo'', cl_permission = Some ''user'', cl_sub = Some ''ann'',
        cl_preferred = None, cl_username = None, cl_email = None, cl_name = None\<rparr>), ke_seconds = 60\<rparr>"

definition fresh_tokens :: json where
  "fresh_tokens = JObj [(''access_token'', JStr ''a2''), (''refresh_token'', JStr ''r2''), (''expires_in'', JInt 600)]"

text \<open>A service that always grants new tokens, a clock that ticks a second per event.\<close>

definition home_env :: sess_env where
  "home_env = \<lparr>sv_time = (\<lambda>n. 1000000 * int n), sv_token = (\<lambda>n. ''t'' @ nat_str n),
     sv_http = (\<lambda>n req. Answered 200 ''tokens''), sv_loads = (\<lambda>s. Some fresh_tokens), sv_shown = (\<lambda>j. []),
     sv_hash = (\<lambda>s. s), sv_challenge = (\<lambda>s. s), sv_iss = (\<lambda>t. None), sv_loopback = (\<lambda>s. False),
     sv_private = (\<lambda>s. False), sv_keys = home_keys, sv_db = sample_env\<rparr>"

definition ann_identity :: identity where
  "ann_identity = \<lparr>id_account = ''ann'', id_login = Some ''ann'', id_display = None, id_email = None,
     id_permission = ''user'', id_issuer = Some ''iss'', id_verified = 0, id_updated = 0\<rparr>"

definition home_state :: "(string \<times> session) list \<Rightarrow> sess_state" where
  "home_state ss = \<lparr>se_sessions = ss, se_saved = ss, se_logins = [],
     se_store = empty_store\<lparr>identities := [ann_identity]\<rparr>,
     se_keys = \<lparr>ks_cache = None, ks_expires = 0, ks_event = 0\<rparr>, se_event = 0, se_notices = []\<rparr>"

definition old_session :: session where
  "old_session = (offline_session ''s'' ann_identity (Some ''iss''))
     \<lparr>ss_access := ''a1'', ss_refresh := ''r1'', ss_expires := Some 0, ss_offline := False\<rparr>"

definition at_home :: topology where
  "at_home = \<lparr>tp_client = Some ''127.0.0.1'', tp_target = None, tp_origin = None\<rparr>"

definition far_away :: topology where
  "far_away = \<lparr>tp_client = Some ''8.8.8.8'', tp_target = None, tp_origin = None\<rparr>"

definition login_under_way :: sess_state where
  "login_under_way = snd (start_login home_cfg home_env (Some ''/memos?x=1'') (home_state []))"

text \<open>What others do while a request waits.\<close>

definition logs_out :: others where
  "logs_out = \<lparr>ot_lock = (\<lambda>s. s), ot_net = delete_session home_cfg home_env ''s'',
     ot_load = (\<lambda>s. s), ot_save = (\<lambda>s. s)\<rparr>"

definition ends_it :: others where
  "ends_it = \<lparr>ot_lock = delete_session home_cfg home_env ''s'', ot_net = (\<lambda>s. s), ot_load = (\<lambda>s. s),
     ot_save = (\<lambda>s. s)\<rparr>"

definition goes_offline :: others where
  "goes_offline = \<lparr>ot_lock = (\<lambda>s. snd (to_offline_session home_cfg home_env ends_it ''s'' s)), ot_net = (\<lambda>s. s), ot_load = (\<lambda>s. s),
     ot_save = (\<lambda>s. s)\<rparr>"

lemma login_evaluated:
  "case handle_oidc_callback home_cfg home_env (Some ''code'') (Some ''t1'') None None login_under_way of
     (Inr x, st') \<Rightarrow> cb_url x = ''http://todo/memos?x=1'' \<and> cb_session x = Some ''t6'' | _ \<Rightarrow> False"
  by code_simp

theorem login_is_finished_once_witness:
  "\<exists>x st' y. handle_oidc_callback home_cfg home_env (Some ''code'') (Some ''t1'') None None login_under_way = (Inr x, st') \<and>
     map_of (se_logins st') ''t1'' = None \<and> map_of (se_sessions st') ''t6'' = Some y \<and> signed_session home_env y"
proof -
  obtain x st' where r:
    "handle_oidc_callback home_cfg home_env (Some ''code'') (Some ''t1'') None None login_under_way = (Inr x, st')"
    "cb_session x = Some ''t6''"
    using login_evaluated by (auto split: prod.splits sum.splits)
  have "distinct (map fst (se_logins login_under_way))" by code_simp
  from login_is_finished_once [OF r(1) this] r show ?thesis by auto
qed

text \<open>A token that names no signing key ends the callback in a server error; the state is used up.\<close>

definition keyless_env :: sess_env where
  "keyless_env = home_env\<lparr>sv_keys := home_keys\<lparr>ke_fetch := (\<lambda>n. Inr (JObj [(''keys'', JList [])]))\<rparr>\<rparr>"

lemma bad_token_is_a_server_error:
  "case handle_oidc_callback home_cfg keyless_env (Some ''code'') (Some ''t1'') None None login_under_way of
     (r, st') \<Rightarrow> r = Inl (Crash ''Signing key not found'') \<and> se_logins st' = []"
  by code_simp

theorem ended_session_stays_ended_witness:
  "case refresh_if_needed home_cfg home_env logs_out ''s'' True (home_state [(''s'', old_session)]) of
     (r, st') \<Rightarrow> r = Inl session_required \<and> session_gone home_cfg home_env ''s'' st'"
proof -
  obtain r st' where run:
    "refresh_if_needed home_cfg home_env logs_out ''s'' True (home_state [(''s'', old_session)]) = (r, st')"
    by fastforce
  have "fst (refresh_if_needed home_cfg home_env logs_out ''s'' True (home_state [(''s'', old_session)])) =
    Inl session_required" by code_simp
  with run have "r = Inl session_required" by simp
  moreover have "\<And>s. session_gone home_cfg home_env ''s'' (ot_net logs_out s)"
    by (simp add: logs_out_def deleted_is_gone)
  note ended_session_stays_ended [OF this run]
  ultimately show ?thesis using run by simp
qed

lemma local_evaluated:
  "case start_local_session home_cfg home_env at_home (home_state []) of
     (Inr (s, d), st') \<Rightarrow> ss_id s = ''t0'' | _ \<Rightarrow> False"
  by code_simp

theorem local_session_needs_known_identity_witness:
  "\<exists>s d st'. start_local_session home_cfg home_env at_home (home_state []) = (Inr (s, d), st') \<and>
     us_id (ss_user s) = ''ann'' \<and> map_of (se_sessions st') ''t0'' = Some s"
proof -
  obtain s d st' where r: "start_local_session home_cfg home_env at_home (home_state []) = (Inr (s, d), st')"
    "ss_id s = ''t0''"
    using local_evaluated by (auto split: prod.splits sum.splits)
  from local_session_needs_known_identity [OF r(1)] r show ?thesis by (auto simp: home_cfg_def)
qed

definition offline_state :: sess_state where
  "offline_state = home_state [(''s'', offline_session ''s'' ann_identity (Some ''iss''))]"

theorem offline_session_only_at_home_witness:
  "\<exists>s st'. require_valid_session home_cfg home_env ends_it at_home (Some ''s'') offline_state = (Inr s, st') \<and>
     ss_offline s \<and> local_session_connection_allowed home_cfg home_env at_home"
proof -
  have "case require_valid_session home_cfg home_env ends_it at_home (Some ''s'') offline_state of
     (Inr s, st') \<Rightarrow> ss_offline s | _ \<Rightarrow> False" by code_simp
  then obtain s st' where r:
    "require_valid_session home_cfg home_env ends_it at_home (Some ''s'') offline_state = (Inr s, st')" "ss_offline s"
    by (auto split: prod.splits sum.splits)
  have "\<And>x. fst (get_session_by_id home_cfg home_env (Some ''s'') offline_state) = Some x \<Longrightarrow> ss_id x = ''s''"
    by (simp add: offline_state_def home_state_def get_session_by_id_def blank_def offline_session_def split: if_splits)
  moreover have "\<And>st0 x. fst (get_session_by_id home_cfg home_env (Some ''s'') (ot_lock ends_it st0)) = Some x \<Longrightarrow> \<not> ss_offline x"
    using deleted_is_gone [of home_cfg home_env "''s''"] by (auto simp: ends_it_def session_gone_def)
  ultimately show ?thesis using offline_session_only_at_home [OF r] r by auto
qed

text \<open>
  Without that condition it fails: a request from elsewhere that waits for the lock while a
  local one takes the session offline is answered with the offline session.
\<close>

lemma waiting_request_gets_offline_session:
  "case require_valid_session home_cfg home_env goes_offline far_away (Some ''s'') (home_state [(''s'', old_session)]) of
     (Inr s, st') \<Rightarrow> ss_offline s | _ \<Rightarrow> False"
  "\<not> local_session_connection_allowed home_cfg home_env far_away"
  by code_simp+

text \<open>
  A logout between the two writes of a refresh leaves the session in the table, and the next
  request brings it back.
\<close>

definition logs_out_late :: others where
  "logs_out_late = \<lparr>ot_lock = (\<lambda>s. s), ot_net = (\<lambda>s. s), ot_load = (\<lambda>s. s),
     ot_save = delete_session home_cfg home_env ''s''\<rparr>"

lemma late_write_revives_session:
  "\<not> session_gone home_cfg home_env ''s''
     (snd (refresh_if_needed home_cfg home_env logs_out_late ''s'' True (home_state [(''s'', old_session)])))"
  by code_simp

end
