(* ===== verification/Settings_Laws.thy ===== *)
theory Settings_Laws
  imports Settings Session_Laws
begin

text \<open>
  What a start guarantees: a node that starts in a mode plays the role of the mode with every
  secret it needs; a blank variable counts as none; the secrets alone are enough.
\<close>

section \<open>What a started node was checked for\<close>

lemma mode_read: "validate_mode_name raw = Inr m \<Longrightarrow> m = [] \<or> m \<in> set VALID_MODES"
  by (auto simp: validate_mode_name_def Let_def split: if_splits)

lemma config_mode [simp]: "cf_mode (config_of m e n route) = m"
  by (simp add: config_of_def Let_def)

lemma loaded:
  assumes "load_config e = Inr c"
  shows "\<exists>n route. validate_mode_name (map_of e ''TODO_MODE'') = Inr (cf_mode c) \<and>
    c = config_of (cf_mode c) e n route \<and>
    run_preflight (cf_mode c) (settings_snapshot c) (cf_origins c) (sync_role c) e = Inr ()"
proof -
  obtain m p where m: "validate_mode_name (map_of e ''TODO_MODE'') = Inr m"
    "(\<lambda>(n, route). let c = config_of m e n route
       in sbind (run_preflight m (settings_snapshot c) (cf_origins c) (sync_role c) e) (\<lambda>u. Inr c)) p = Inr c"
    using assms unfolding load_config_def sbind_Inr by blast
  obtain n route where p: "p = (n, route)" by fastforce
  from m(2) have "run_preflight m (settings_snapshot (config_of m e n route)) (cf_origins (config_of m e n route))
      (sync_role (config_of m e n route)) e = Inr ()" "config_of m e n route = c"
    unfolding p Let_def split_conv sbind_Inr by auto
  with m(1) show ?thesis by (metis config_mode)
qed

lemma preflight_passed:
  assumes "run_preflight m resolved origins role e = Inr ()" "m \<noteq> []"
  shows "scan_raw_env e = []" "check_required_secrets m e = []" "check_role m role = []"
    "check_urls resolved origins = Inr []"
  using assms by (auto simp: run_preflight_def sbind_Inr Let_def split: if_splits)

lemma scanned:
  assumes "scan_raw_env e = []" "map_of e k = Some x" "managed_key k"
  shows "scan_value k x = []"
proof -
  have "k \<in> set (map fst e)" using assms(2) by (force dest: map_of_SomeD)
  with assms(1) have "scan_key e k = []" by (auto simp: scan_raw_env_def)
  with assms(2,3) show ?thesis by (simp add: scan_key_def or_empty_def)
qed

text \<open>C34. A node that starts in a mode has the role of the mode and every secret the mode needs, no
  managed variable holds an inline comment, and a server refuses every local session.\<close>

theorem started_node_plays_its_role:
  assumes "load_config e = Inr c" "cf_mode c \<noteq> []"
  shows "EXPECTED_ROLE (cf_mode c) = Some (sync_role c) \<and>
    (\<forall>k \<in> set (REQUIRED_SECRETS (cf_mode c)). \<exists>x. map_of e k = Some x \<and> strip x \<noteq> []) \<and>
    (\<forall>k x. map_of e k = Some x \<longrightarrow> managed_key k \<longrightarrow> \<not> inline_comment_hit x) \<and>
    (serves_sync_peer_api c \<longrightarrow>
      (\<forall>v t st. start_local_session (session_cfg c) v t st = (Inl (Http 409 (JStr ''local_session_disabled'')), st) \<or>
         start_local_session (session_cfg c) v t st = (Inl (Http 409 (JStr ''local_session_wrong_role'')), st)))"
proof -
  obtain n route where l: "validate_mode_name (map_of e ''TODO_MODE'') = Inr (cf_mode c)"
    "run_preflight (cf_mode c) (settings_snapshot c) (cf_origins c) (sync_role c) e = Inr ()"
    using loaded [OF assms(1)] by blast
  note ok = preflight_passed [OF l(2) assms(2)]
  have "\<exists>x. EXPECTED_ROLE (cf_mode c) = Some x"
    using mode_read [OF l(1)] assms(2) by (auto simp: VALID_MODES_def EXPECTED_ROLE_def)
  with ok(3) have "EXPECTED_ROLE (cf_mode c) = Some (sync_role c)"
    by (auto simp: check_role_def split: if_splits)
  moreover have "\<forall>k \<in> set (REQUIRED_SECRETS (cf_mode c)). \<exists>x. map_of e k = Some x \<and> strip x \<noteq> []"
    using ok(2) by (force simp: check_required_secrets_def filter_empty_conv or_empty_def strip_def split: option.splits)
  moreover have "\<forall>k x. map_of e k = Some x \<longrightarrow> managed_key k \<longrightarrow> \<not> inline_comment_hit x"
    using scanned [OF ok(1)] by (force simp: scan_value_def inline_comment_hit_def split: if_splits)
  moreover have "serves_sync_peer_api c \<longrightarrow> \<not> runs_sync_daemon c"
    by (simp add: serves_sync_peer_api_def runs_sync_daemon_def)
  ultimately show ?thesis
    by (auto simp: start_local_session_def require_local_session_request_def session_cfg_def)
qed

section \<open>Blank variables\<close>

lemma setting_blank:
  assumes "m \<noteq> []" "strip x = []" "map_of e k = None"
  shows "setting m ((k, x) # e) = setting m e"
  using assms by (auto simp: setting_def fun_eq_iff)

lemma insert_str_cong:
  assumes "\<And>y. y \<in> set xs \<Longrightarrow> f y = g y" "f x = []"
  shows "concat (map f (insert_str x xs)) = concat (map g xs)"
proof -
  have "concat (map f (insert_str x xs)) = concat (map f xs)"
    using assms(2) by (induction xs) auto
  also have "map f xs = map g xs" using assms(1) by simp
  finally show ?thesis .
qed

lemma strip_Nil [simp]: "strip [] = []"
  by (simp add: strip_def)

lemma strip_blank: "strip x = [] \<longleftrightarrow> (\<forall>c \<in> set x. ws_char c)"
proof
  assume "strip x = []"
  then have "dropWhile ws_char x = []"
    by (auto simp: strip_def) (metis hd_dropWhile list.set_sel(1) set_dropWhileD set_rev dropWhile_eq_Nil_conv)
  then show "\<forall>c \<in> set x. ws_char c" by simp
next
  assume "\<forall>c \<in> set x. ws_char c"
  then have "dropWhile ws_char x = []" by (subst dropWhile_eq_Nil_conv) blast
  then show "strip x = []" by (simp only: strip_def) simp
qed

lemma no_comment_in_blank: "\<forall>c \<in> set x. ws_char c \<Longrightarrow> \<not> comment_after p x"
  by (induction x arbitrary: p) (auto simp: ws_char_def)

lemma blank_scans:
  assumes "strip x = []"
  shows "scan_value k x = []"
proof -
  have ws: "\<forall>c \<in> set x. ws_char c" using assms by (simp add: strip_blank)
  then have "\<not> inline_comment_hit x"
    by (cases x) (simp_all add: inline_comment_hit_def no_comment_in_blank)
  moreover have "CHR ''#'' \<notin> set x" using ws by (auto simp: ws_char_def)
  moreover have "\<not> has_internal_whitespace k x"
    using assms by (simp add: has_internal_whitespace_def)
  ultimately show ?thesis by (simp add: scan_value_def)
qed

lemma scan_blank:
  assumes "strip x = []" "map_of e k = None"
  shows "scan_raw_env ((k, x) # e) = scan_raw_env e"
proof -
  have "k \<notin> fst ` set e" using assms(2) by (simp add: map_of_eq_None_iff)
  then have "scan_key ((k, x) # e) y = scan_key e y" if "y \<in> set (sort_str (map fst e))" for y
    using that by (auto simp: scan_key_def)
  moreover have "scan_key ((k, x) # e) k = []" using assms(1) by (simp add: scan_key_def blank_scans or_empty_def)
  ultimately show ?thesis
    using insert_str_cong [of "sort_str (map fst e)" "scan_key ((k, x) # e)" "scan_key e" k]
    by (simp add: scan_raw_env_def sort_str_def)
qed

text \<open>In a mode a blank variable is none; \<open>DB_PASSWORD\<close> and the client's secret are read as they are.\<close>

theorem blank_variable_is_none:
  assumes "validate_mode_name (map_of e ''TODO_MODE'') = Inr m" "m \<noteq> []"
    and "strip x = []" "map_of e k = None" "k \<notin> {''TODO_MODE'', ''DB_PASSWORD'', ''TODO_OIDC_CLIENT_SECRET''}"
  shows "load_config ((k, x) # e) = load_config e"
proof -
  let ?e = "(k, x) # e"
  have look: "map_of ?e ''TODO_MODE'' = map_of e ''TODO_MODE''" "map_of ?e ''DB_PASSWORD'' = map_of e ''DB_PASSWORD''"
    "map_of ?e ''TODO_OIDC_CLIENT_SECRET'' = map_of e ''TODO_OIDC_CLIENT_SECRET''"
    using assms(5) by auto
  have set: "setting m ?e = setting m e" by (rule setting_blank [OF assms(2-4)])
  have sec: "secret ?e = secret e" using assms(3,4) by (auto simp: secret_def or_empty_def fun_eq_iff)
  have or: "setting_or m ?e = setting_or m e" "get_bool m ?e = get_bool m e"
    by (simp_all add: fun_eq_iff setting_or_def get_bool_def set)
  have int: "get_int m ?e = get_int m e" "get_csv m ?e = get_csv m e"
    by (simp_all add: fun_eq_iff get_int_def get_csv_def or)
  have num: "read_numbers m ?e r = read_numbers m e r" for r by (simp only: read_numbers_def int)
  have conf: "config_of m ?e n r = config_of m e n r" for n r
    by (simp only: config_of_def set sec or int look)
  have "check_required_secrets m ?e = check_required_secrets m e"
    using assms(3,4) by (auto simp: check_required_secrets_def or_empty_def intro!: arg_cong [of _ _ "map SecretMissing"] filter_cong)
  then have pre: "run_preflight m s os r ?e = run_preflight m s os r e" for s os r
    by (simp only: run_preflight_def scan_blank [OF assms(3,4)])
  show ?thesis
    unfolding load_config_def look(1) assms(1) sbind.simps num conf pre or ..
qed

section \<open>The secrets are enough\<close>

definition SECRET_NAMES :: "string list" where
  "SECRET_NAMES =
     [''DB_PASSWORD'', ''TODO_OIDC_CLIENT_SECRET'', ''AUTH_SERVICE_KEY_ID'', ''AUTH_SERVICE_SECRET'',
      ''SYNC_KEY_ID'', ''SYNC_SECRET'', ''SYNC_ACCOUNT_ID'', ''SYNC_ALLOWED_KEY_IDS'',
      ''LIVEKIT_API_KEY'', ''LIVEKIT_API_SECRET'']"

text \<open>The parts of a configuration that the checks look at.\<close>

definition node_urls :: "string \<Rightarrow> envs \<Rightarrow> envs" where
  "node_urls m e =
     (let issuer = rstrip_slash (setting_or m e ''AUTH_ISSUER_URL'' ''http://localhost:3032'');
          api = rstrip_slash (setting_or m e ''AUTH_API_BASE_URL'' issuer);
          verify = rstrip_slash (strip (setting_or m e ''AUTH_VERIFY_URL'' []))
      in [(''AUTH_ISSUER_URL'', issuer),
          (''AUTH_PUBLIC_BASE_URL'', rstrip_slash (setting_or m e ''AUTH_PUBLIC_BASE_URL'' issuer)),
          (''AUTH_API_BASE_URL'', api), (''AUTH_JWKS_URL'', setting_or m e ''AUTH_JWKS_URL'' (issuer @ ''/oauth/jwks'')),
          (''TODO_OIDC_REDIRECT_URI'',
             setting_or m e ''TODO_OIDC_REDIRECT_URI'' ''http://localhost:8000/api/todo/session/callback''),
          (''TODO_WEB_BASE_URL'', rstrip_slash (setting_or m e ''TODO_WEB_BASE_URL'' ''http://localhost:3034'')),
          (''SYNC_PEER_URL'', rstrip_slash (strip (setting_or m e ''SYNC_PEER_URL'' []))),
          (''LIVEKIT_URL'', strip (setting_or m e ''LIVEKIT_URL'' [])),
          (''SYNC_VERIFY_URL'',
             if verify = [] then api @ ''/api/internal/service-credentials/verify'' else verify)])"

definition node_origins :: "string \<Rightarrow> envs \<Rightarrow> string list" where
  "node_origins m e = get_csv m e ''TODO_ALLOWED_ORIGINS'' ''http://localhost:3034,http://127.0.0.1:3034''"

definition role_of_node :: "string \<Rightarrow> envs \<Rightarrow> string" where
  "role_of_node m e =
     (if \<not> get_bool m e ''SYNC_ENABLED'' False then ''disabled''
      else if rstrip_slash (strip (setting_or m e ''SYNC_PEER_URL'' [])) \<noteq> [] then ''client'' else ''server'')"

lemma config_parts:
  "settings_snapshot (config_of m e n r) = node_urls m e"
  "cf_origins (config_of m e n r) = node_origins m e"
  "sync_role (config_of m e n r) = role_of_node m e"
  by (simp_all only: settings_snapshot_def node_urls_def node_origins_def role_of_node_def config_of_def
      sync_role_def Let_def config.select_convs)

text \<open>The presets pass the checks that do not look at the environment.\<close>

definition redirect_route :: "string \<Rightarrow> envs \<Rightarrow> start_fail + string" where
  "redirect_route m e = get_callback_route_path
     (setting_or m e ''TODO_OIDC_REDIRECT_URI'' ''http://localhost:8000/api/todo/session/callback'')"

definition preset_ok :: "string \<Rightarrow> bool" where
  "preset_ok m = (check_urls (node_urls m []) (node_origins m []) = Inr [] \<and> check_role m (role_of_node m []) = [])"

definition preset_reads :: "string \<Rightarrow> bool" where
  "preset_reads m = (case read_numbers m [] (redirect_route m []) of Inl x \<Rightarrow> False | Inr y \<Rightarrow> True)"

lemma presets_ok: "list_all preset_ok VALID_MODES"
  by code_simp

lemma presets_read: "list_all preset_reads VALID_MODES"
  by code_simp

text \<open>The names that the numbers, the addresses and the role depend on.\<close>

definition PLAIN_NAMES :: "string list" where
  "PLAIN_NAMES =
     [''DB_PORT'', ''AUTH_JWKS_CACHE_SECONDS'', ''TODO_SESSION_MAX_AGE_SECONDS'', ''SYNC_POLL_SECONDS'',
      ''SYNC_PUSH_DEBOUNCE_MS'', ''SYNC_OFFLINE_BACKOFF_SECONDS'', ''SYNC_CLOCK_SKEW_LIMIT_SECONDS'',
      ''SYNC_VERIFY_CACHE_SECONDS'', ''SYNC_BATCH_LIMIT'', ''SYNC_LOCK_TTL_SECONDS'',
      ''SYNC_HTTP_TIMEOUT_SECONDS'', ''AUTH_ISSUER_URL'', ''AUTH_API_BASE_URL'', ''AUTH_PUBLIC_BASE_URL'',
      ''AUTH_JWKS_URL'', ''TODO_ALLOWED_ORIGINS'', ''TODO_OIDC_REDIRECT_URI'', ''TODO_WEB_BASE_URL'',
      ''SYNC_ENABLED'', ''SYNC_PEER_URL'', ''AUTH_VERIFY_URL'', ''LIVEKIT_URL'']"

lemma plain_names: "list_all (\<lambda>k. managed_key k \<and> k \<noteq> ''TODO_MODE'' \<and> k \<notin> set SECRET_NAMES) PLAIN_NAMES"
  by code_simp

lemma plain_settings:
  assumes "\<forall>k \<in> set PLAIN_NAMES. setting m e k = setting m e' k"
  shows "read_numbers m e r = read_numbers m e' r" "redirect_route m e = redirect_route m e'"
    "node_urls m e = node_urls m e'" "node_origins m e = node_origins m e'" "role_of_node m e = role_of_node m e'"
proof -
  note same = assms [unfolded PLAIN_NAMES_def list.set ball_simps]
  show "read_numbers m e r = read_numbers m e' r"
    by (simp only: read_numbers_def get_int_def setting_or_def same)
  show "redirect_route m e = redirect_route m e'" "node_urls m e = node_urls m e'"
    "node_origins m e = node_origins m e'" "role_of_node m e = role_of_node m e'"
    by (simp_all only: redirect_route_def node_urls_def node_origins_def role_of_node_def setting_or_def
        get_bool_def get_csv_def same)
qed

lemma clean_secrets_start:
  assumes "mode \<in> set VALID_MODES" "map_of e ''TODO_MODE'' = Some mode"
    and "\<And>k. k \<in> set (REQUIRED_SECRETS mode) \<Longrightarrow> strip (or_empty (map_of e k)) \<noteq> []"
    and "\<And>k x. map_of e k = Some x \<Longrightarrow> managed_key k \<Longrightarrow>
           k \<in> set (''TODO_MODE'' # SECRET_NAMES) \<and> scan_value k x = []"
  shows "\<exists>n route. load_config e = Inr (config_of mode e n route) \<and>
    check_role mode (sync_role (config_of mode e n route)) = []"
proof -
  have "list_all (\<lambda>m. validate_mode_name (Some m) = Inr m \<and> m \<noteq> []) VALID_MODES" by code_simp
  then have m: "validate_mode_name (map_of e ''TODO_MODE'') = Inr mode" "mode \<noteq> []"
    using assms(1,2) by (simp_all add: list_all_iff)
  have "map_of e k = None" if "k \<in> set PLAIN_NAMES" for k
    using assms(4) [of k] that plain_names by (cases "map_of e k") (auto simp: list_all_iff)
  then have "\<forall>k \<in> set PLAIN_NAMES. setting mode e k = setting mode [] k" by (simp add: setting_def)
  note same = plain_settings [OF this]
  have "preset_ok mode" "preset_reads mode" using presets_ok presets_read assms(1) by (simp_all add: list_all_iff)
  then obtain n route where n: "read_numbers mode e (redirect_route mode e) = Inr (n, route)"
    "check_urls (node_urls mode e) (node_origins mode e) = Inr []" "check_role mode (role_of_node mode e) = []"
    unfolding same by (auto simp: preset_ok_def preset_reads_def split: sum.splits)
  have "scan_key e k = []" for k
    using assms(4) [of k] by (cases "map_of e k") (auto simp: scan_key_def or_empty_def scan_value_def)
  then have "scan_raw_env e = []" by (simp add: scan_raw_env_def)
  moreover have "check_required_secrets mode e = []"
    using assms(3) by (simp add: check_required_secrets_def filter_empty_conv)
  ultimately have "load_config e = Inr (config_of mode e n route)"
    by (simp add: load_config_def m n [unfolded redirect_route_def] run_preflight_def config_parts Let_def)
  moreover have "check_role mode (sync_role (config_of mode e n route)) = []" using n(3) by (simp only: config_parts)
  ultimately show ?thesis by blast
qed

text \<open>C35. In every mode clean secrets are all a node needs to start: the preset of the mode fills in
  every other setting and passes the checks.\<close>

theorem secrets_are_enough:
  assumes "mode \<in> set VALID_MODES" "map_of e ''TODO_MODE'' = Some mode"
    and "\<And>k. k \<in> set (REQUIRED_SECRETS mode) \<Longrightarrow> strip (or_empty (map_of e k)) \<noteq> []"
    and "\<And>k x. map_of e k = Some x \<Longrightarrow> managed_key k \<Longrightarrow>
           k \<in> set (''TODO_MODE'' # SECRET_NAMES) \<and> scan_value k x = []"
  shows "\<exists>c. load_config e = Inr c \<and> cf_mode c = mode"
  using clean_secrets_start [OF assms(1-3)] assms(4) config_mode by metis

section \<open>The laws at work\<close>

definition server_secrets :: envs where
  "server_secrets =
     [(''TODO_MODE'', ''dev-prod''), (''DB_PASSWORD'', ''pw#1''), (''TODO_OIDC_CLIENT_SECRET'', ''s''),
      (''AUTH_SERVICE_KEY_ID'', ''k''), (''AUTH_SERVICE_SECRET'', ''s''), (''SYNC_ALLOWED_KEY_IDS'', ''a, b''),
      (''SYNC_ACCOUNT_ID'', ''ann''), (''HOME'', ''/root'')]"

lemma server_secrets_clean:
  "list_all (\<lambda>(k, x). managed_key k \<longrightarrow> k \<in> set (''TODO_MODE'' # SECRET_NAMES) \<and> scan_value k x = []) server_secrets"
  "list_all (\<lambda>k. strip (or_empty (map_of server_secrets k)) \<noteq> []) (REQUIRED_SECRETS ''dev-prod'')"
  "''dev-prod'' \<in> set VALID_MODES" "map_of server_secrets ''TODO_MODE'' = Some ''dev-prod''"
  by code_simp+

lemma server_secrets_enough:
  "k \<in> set (REQUIRED_SECRETS ''dev-prod'') \<Longrightarrow> strip (or_empty (map_of server_secrets k)) \<noteq> []"
  "map_of server_secrets k = Some x \<Longrightarrow> managed_key k \<Longrightarrow> k \<in> set (''TODO_MODE'' # SECRET_NAMES) \<and> scan_value k x = []"
  using server_secrets_clean(1,2) map_of_SomeD [of server_secrets k x] by (auto simp: list_all_iff)

lemma server_starts: "\<exists>c. load_config server_secrets = Inr c \<and> cf_mode c = ''dev-prod'' \<and> sync_role c = ''server''"
proof -
  obtain n route where "load_config server_secrets = Inr (config_of ''dev-prod'' server_secrets n route)"
    "check_role ''dev-prod'' (sync_role (config_of ''dev-prod'' server_secrets n route)) = []"
    using clean_secrets_start [OF server_secrets_clean(3,4) server_secrets_enough] by blast
  then show ?thesis by (auto simp: check_role_def EXPECTED_ROLE_def split: if_splits)
qed

theorem secrets_are_enough_witness:
  "\<exists>c. load_config server_secrets = Inr c \<and> cf_mode c = ''dev-prod''"
  by (rule secrets_are_enough [OF server_secrets_clean(3,4) server_secrets_enough])

theorem started_node_plays_its_role_witness:
  "\<exists>c. load_config server_secrets = Inr c \<and> EXPECTED_ROLE ''dev-prod'' = Some (sync_role c) \<and>
     fst (start_local_session (session_cfg c) home_env at_home (home_state [])) \<noteq> Inr (old_session, [])"
proof -
  obtain c where c: "load_config server_secrets = Inr c" "cf_mode c = ''dev-prod''" "sync_role c = ''server''"
    using server_starts by blast
  with started_node_plays_its_role [OF c(1)] have "EXPECTED_ROLE ''dev-prod'' = Some (sync_role c)"
    "start_local_session (session_cfg c) home_env at_home (home_state []) =
       (Inl (Http 409 (JStr ''local_session_disabled'')), home_state []) \<or>
     start_local_session (session_cfg c) home_env at_home (home_state []) =
       (Inl (Http 409 (JStr ''local_session_wrong_role'')), home_state [])"
    by (simp_all add: serves_sync_peer_api_def)
  with c(1) show ?thesis by auto
qed

theorem blank_variable_is_none_witness:
  "load_config ((''SYNC_PEER_URL'', ''  '') # server_secrets) = load_config server_secrets"
proof (rule blank_variable_is_none [where m = "''dev-prod''"])
  show "validate_mode_name (map_of server_secrets ''TODO_MODE'') = Inr ''dev-prod''"
    "strip ''  '' = []" "map_of server_secrets ''SYNC_PEER_URL'' = None"
    "''SYNC_PEER_URL'' \<notin> {''TODO_MODE'', ''DB_PASSWORD'', ''TODO_OIDC_CLIENT_SECRET''}"
    by code_simp+
qed simp

text \<open>A comment in a number ends the start before the check that would name it.\<close>

lemma polluted_number_is_not_diagnosed:
  "load_config [(''TODO_MODE'', ''dev-prod''), (''SYNC_POLL_SECONDS'', ''60 # seconds'')] = Inl (BadValue ''SYNC_POLL_SECONDS'')"
  "scan_raw_env [(''TODO_MODE'', ''dev-prod''), (''SYNC_POLL_SECONDS'', ''60 # seconds'')] = [InlineComment ''SYNC_POLL_SECONDS'']"
  by code_simp+

end
