(* ===== verification/Daily_Tasks.thy ===== *)
theory Daily_Tasks
  imports Access Samples
begin

text \<open>
  \<^verbatim>\<open>src/routers/daily_tasks.py\<close> and \<^verbatim>\<open>src/models/daily_tasks.py\<close>: task types, what was completed
  on which day, and the calendar. A DATE is a day number; the engine reads the ISO notation of
  an existing day, and its other notations are not modelled. The rounded ratio of the calendar,
  a float, is a parameter.
\<close>

section \<open>State\<close>

record task_type =
  tt_id :: string
  tt_name :: string
  tt_icon :: string
  tt_color :: string
  tt_order :: int
  tt_active :: bool
  tt_created :: int
  tt_updated :: int

record completion =
  tc_id :: string
  tc_type :: string
  tc_day :: int
  tc_total :: nat
  tc_created :: int

record board =
  types :: "task_type list"
  completions :: "completion list"

type_synonym desk_state = "board \<times> store"

text \<open>The transaction of a request: an exception undoes everything.\<close>

definition transact :: "(desk_state \<Rightarrow> exn + 'a \<times> desk_state) \<Rightarrow> desk_state \<Rightarrow> (exn + 'a) \<times> desk_state" where
  "transact body w = (case body w of Inl x \<Rightarrow> (Inl x, w) | Inr (v, w') \<Rightarrow> (Inr v, w'))"

definition read_day :: "string \<Rightarrow> int option" where
  "read_day s = (case read_date s of Some (t, []) \<Rightarrow> Some (t div us_day) | _ \<Rightarrow> None)"

definition day_text :: "int \<Rightarrow> int \<Rightarrow> int \<Rightarrow> string" where
  "day_text y m d = digs 4 y @ ''-'' @ digs 2 m @ ''-'' @ digs 2 d"

text \<open>\<open>str(datetime)\<close>\<close>

definition datetime_text :: "int \<Rightarrow> string" where
  "datetime_text w =
     (case date_of w of (y, m, d) \<Rightarrow>
        day_text y m d @ '' '' @ digs 2 (hour_of w) @ '':'' @ digs 2 (minute_of w) @ '':'' @
        digs 2 (second_of w) @ (if w mod 1000000 = 0 then [] else ''.'' @ digs 6 (w mod 1000000)))"

definition type_is :: "env \<Rightarrow> string \<Rightarrow> task_type \<Rightarrow> bool" where
  "type_is e i t = same_str e (tt_id t) i"

definition done_on :: "env \<Rightarrow> string \<Rightarrow> string \<Rightarrow> completion \<Rightarrow> bool" where
  "done_on e i day c = (same_str e (tc_type c) i \<and> read_day day = Some (tc_day c))"

definition task_type_to_dict :: "task_type \<Rightarrow> row" where
  "task_type_to_dict t =
     [(''id'', VStr (tt_id t)), (''name'', VStr (tt_name t)), (''icon'', VStr (tt_icon t)),
      (''color'', VStr (if tt_color t = [] then ''#3994ef'' else tt_color t)),
      (''displayOrder'', VInt (tt_order t)), (''isActive'', VBool (tt_active t)),
      (''createdAt'', VStr (datetime_text (tt_created t))),
      (''updatedAt'', VStr (datetime_text (tt_updated t)))]"

definition get_active_count :: "board \<Rightarrow> nat" where
  "get_active_count b = length (filter tt_active (types b))"

definition sync_total_active_count :: "string \<Rightarrow> nat \<Rightarrow> board \<Rightarrow> board" where
  "sync_total_active_count day n b =
     b\<lparr>completions := map (\<lambda>c. if read_day day = Some (tc_day c) then c\<lparr>tc_total := n\<rparr> else c) (completions b)\<rparr>"

section \<open>Task types\<close>

definition create_type_body ::
  "env \<Rightarrow> string \<Rightarrow> string \<Rightarrow> string \<Rightarrow> desk_state \<Rightarrow> exn + row \<times> desk_state" where
  "create_type_body e name icon color w =
     (case w of (b, s) \<Rightarrow>
        if 50 \<le> length (types b) then Inl (HttpError 409 ''Maximum 50 task types allowed'')
        else if \<exists>t \<in> set (types b). same_str e (tt_name t) name
        then Inl (HttpError 409 ''Task type name already exists'')
        else let (i, s1) = generate_id e s;
                 now = sql_now e (ticks s1);
                 t = \<lparr>tt_id = i, tt_name = name, tt_icon = icon, tt_color = color,
                      tt_order = max_or (- 1) (map tt_order (types b)) + 1, tt_active = True,
                      tt_created = now, tt_updated = now\<rparr>
             in if \<exists>u \<in> set (types b). type_is e i u then Inl (DbError ''duplicate key'')
                else Inr (task_type_to_dict t, (b\<lparr>types := types b @ [t]\<rparr>, s1)))"

definition create_task_type ::
  "env \<Rightarrow> string \<Rightarrow> string \<Rightarrow> string \<Rightarrow> user \<Rightarrow> desk_state \<Rightarrow> (exn + row) \<times> desk_state" where
  "create_task_type e name icon color u w =
     (case require_super_admin u of
        Inl x \<Rightarrow> (Inl x, w) | Inr u' \<Rightarrow> transact (create_type_body e name icon color) w)"

definition get_task_types :: "user \<Rightarrow> board \<Rightarrow> exn + row list" where
  "get_task_types u b =
     sbind (require_super_admin u)
       (\<lambda>x. Inr (map task_type_to_dict (sort_key tt_order (sort_key tt_created (types b)))))"

record type_patch =
  tp_name :: "string option"
  tp_icon :: "string option"
  tp_color :: "string option"
  tp_active :: "bool option"
  tp_order :: "int option"

definition given :: "'a option \<Rightarrow> 'a \<Rightarrow> 'a" where
  "given x d = (case x of None \<Rightarrow> d | Some y \<Rightarrow> y)"

definition empty_patch :: "type_patch \<Rightarrow> bool" where
  "empty_patch p = (tp_name p = None \<and> tp_icon p = None \<and> tp_color p = None \<and> tp_active p = None \<and>
     tp_order p = None)"

definition patched :: "type_patch \<Rightarrow> int \<Rightarrow> task_type \<Rightarrow> task_type" where
  "patched p now t =
     t\<lparr>tt_name := given (tp_name p) (tt_name t), tt_icon := given (tp_icon p) (tt_icon t),
       tt_color := given (tp_color p) (tt_color t), tt_active := given (tp_active p) (tt_active t),
       tt_order := given (tp_order p) (tt_order t), tt_updated := now\<rparr>"

definition update_type_body ::
  "env \<Rightarrow> string \<Rightarrow> type_patch \<Rightarrow> desk_state \<Rightarrow> exn + row \<times> desk_state" where
  "update_type_body e i p w =
     (case w of (b, s) \<Rightarrow>
        case find (type_is e i) (types b) of
          None \<Rightarrow> Inl (HttpError 404 ''Task type not found'')
        | Some t0 \<Rightarrow>
            if empty_patch p then Inr (task_type_to_dict t0, w)
            else if tp_name p \<noteq> None \<and>
                (\<exists>t \<in> set (types b). \<not> type_is e i t \<and> same_str e (tt_name t) (the (tp_name p)))
            then Inl (DbError ''duplicate name'')
            else let now = sql_now e (ticks s)
                 in Inr (task_type_to_dict (patched p now t0),
                      (b\<lparr>types := map (\<lambda>t. if type_is e i t then patched p now t else t) (types b)\<rparr>, s)))"

definition update_task_type ::
  "env \<Rightarrow> string \<Rightarrow> type_patch \<Rightarrow> user \<Rightarrow> desk_state \<Rightarrow> (exn + row) \<times> desk_state" where
  "update_task_type e i p u w =
     (case require_super_admin u of Inl x \<Rightarrow> (Inl x, w) | Inr u' \<Rightarrow> transact (update_type_body e i p) w)"

definition delete_type_body :: "env \<Rightarrow> string \<Rightarrow> desk_state \<Rightarrow> exn + unit \<times> desk_state" where
  "delete_type_body e i w =
     (case w of (b, s) \<Rightarrow>
        if \<forall>t \<in> set (types b). \<not> type_is e i t then Inl (HttpError 404 ''Task type not found'')
        else Inr ((), (b\<lparr>types := map (\<lambda>t. if type_is e i t
               then t\<lparr>tt_active := False, tt_updated := sql_now e (ticks s)\<rparr> else t) (types b)\<rparr>, s)))"

definition delete_task_type :: "env \<Rightarrow> string \<Rightarrow> user \<Rightarrow> desk_state \<Rightarrow> (exn + unit) \<times> desk_state" where
  "delete_task_type e i u w =
     (case require_super_admin u of Inl x \<Rightarrow> (Inl x, w) | Inr u' \<Rightarrow> transact (delete_type_body e i) w)"

section \<open>Completions\<close>

text \<open>The validator of the request; \<open>$\<close> also matches before a final newline.\<close>

definition is_digit :: "char \<Rightarrow> bool" where "is_digit c = (digit_val c \<noteq> None)"

definition valid_date_format :: "string \<Rightarrow> bool" where
  "valid_date_format s =
     ((length s = 10 \<or> length s = 11 \<and> s ! 10 = CHR 0x0A) \<and>
      (\<forall>i \<in> {0, 1, 2, 3, 5, 6, 8, 9}. is_digit (s ! i)) \<and> s ! 4 = CHR ''-'' \<and> s ! 7 = CHR ''-'')"

definition complete_body :: "env \<Rightarrow> string \<Rightarrow> string \<Rightarrow> desk_state \<Rightarrow> exn + string \<times> desk_state" where
  "complete_body e i day w =
     (case w of (b, s) \<Rightarrow>
        if \<forall>t \<in> set (types b). \<not> (type_is e i t \<and> tt_active t)
        then Inl (HttpError 404 ''Active task type not found'')
        else if \<exists>c \<in> set (completions b). done_on e i day c
        then Inl (HttpError 409 ''Task already completed for this date'')
        else let n = get_active_count b; (cid, s1) = generate_id e s in
             case read_day day of
               None \<Rightarrow> Inl (DbError ''incorrect date'')
             | Some d \<Rightarrow>
                 if \<exists>c \<in> set (completions b). same_str e (tc_id c) cid then Inl (DbError ''duplicate key'')
                 else Inr (cid, (sync_total_active_count day n
                        (b\<lparr>completions := completions b @
                             [\<lparr>tc_id = cid, tc_type = i, tc_day = d, tc_total = n,
                               tc_created = sql_now e (ticks s1)\<rparr>]\<rparr>), s1)))"

definition complete_task :: "env \<Rightarrow> string \<Rightarrow> string \<Rightarrow> user \<Rightarrow> desk_state \<Rightarrow> (exn + string) \<times> desk_state" where
  "complete_task e i day u w =
     (case require_super_admin u of
        Inl x \<Rightarrow> (Inl x, w)
      | Inr u' \<Rightarrow>
          if \<not> valid_date_format day
          then (Inl (HttpError 422 ''completedDate must be YYYY-MM-DD format''), w)
          else transact (complete_body e i day) w)"

definition uncomplete_body :: "env \<Rightarrow> string \<Rightarrow> string \<Rightarrow> desk_state \<Rightarrow> exn + unit \<times> desk_state" where
  "uncomplete_body e i day w =
     (case w of (b, s) \<Rightarrow>
        if \<forall>c \<in> set (completions b). \<not> done_on e i day c then Inl (HttpError 404 ''Completion not found'')
        else let b1 = b\<lparr>completions := filter (\<lambda>c. \<not> done_on e i day c) (completions b)\<rparr>
             in Inr ((), (sync_total_active_count day (get_active_count b1) b1, s)))"

definition uncomplete_task :: "env \<Rightarrow> string \<Rightarrow> string \<Rightarrow> user \<Rightarrow> desk_state \<Rightarrow> (exn + unit) \<times> desk_state" where
  "uncomplete_task e i day u w =
     (case require_super_admin u of Inl x \<Rightarrow> (Inl x, w) | Inr u' \<Rightarrow> transact (uncomplete_body e i day) w)"

section \<open>The calendar\<close>

record day_view =
  dv_date :: string
  dv_done :: nat
  dv_total :: nat
  dv_ratio :: string

record calendar_view =
  cv_year :: int
  cv_month :: int
  cv_types :: nat
  cv_days :: "day_view list"

definition day_number :: "int \<Rightarrow> int \<Rightarrow> int \<Rightarrow> int" where
  "day_number y m d = ymd2ord y m d - 719163"

definition on_day :: "int \<Rightarrow> board \<Rightarrow> completion list" where
  "on_day d b = filter (\<lambda>c. tc_day c = d) (completions b)"

definition day_totals :: "int \<Rightarrow> board \<Rightarrow> nat \<times> nat" where
  "day_totals d b = (length (on_day d b), nat (max_or 0 (map (int \<circ> tc_total) (on_day d b))))"

definition calendar_day :: "(nat \<Rightarrow> nat \<Rightarrow> string) \<Rightarrow> int \<Rightarrow> int \<Rightarrow> board \<Rightarrow> int \<Rightarrow> day_view" where
  "calendar_day ratio y m b d =
     (case day_totals (day_number y m d) b of
        (n, k) \<Rightarrow>
          \<lparr>dv_date = day_text y m d, dv_done = n, dv_total = k,
           dv_ratio = (if n = 0 \<or> k = 0 then ''0.0'' else ratio n k)\<rparr>)"

definition get_calendar ::
  "(nat \<Rightarrow> nat \<Rightarrow> string) \<Rightarrow> int \<Rightarrow> int \<Rightarrow> board \<Rightarrow> exn + calendar_view" where
  "get_calendar ratio y m b =
     (if y < 2000 \<or> 2100 < y \<or> m < 1 \<or> 12 < m then Inl (HttpError 422 ''year or month'')
      else Inr \<lparr>cv_year = y, cv_month = m, cv_types = get_active_count b,
                cv_days = map (calendar_day ratio y m b) [1..days_in_month y m]\<rparr>)"

record task_view =
  tv_type :: string
  tv_name :: string
  tv_icon :: string
  tv_done :: bool

text \<open>The left join has one line for each completion of the type on that day, or one without.\<close>

definition get_day_detail :: "env \<Rightarrow> string \<Rightarrow> user \<Rightarrow> board \<Rightarrow> exn + string \<times> task_view list" where
  "get_day_detail e day u b =
     sbind (require_super_admin u) (\<lambda>x.
       Inr (day, concat (map (\<lambda>t.
         let line = (\<lambda>ok. \<lparr>tv_type = tt_id t, tv_name = tt_name t, tv_icon = tt_icon t, tv_done = ok\<rparr>);
             hits = filter (done_on e (tt_id t) day) (completions b)
         in if hits = [] then [line False] else map (\<lambda>c. line True) hits)
        (sort_key tt_order (sort_key tt_created (filter tt_active (types b)))))))"


section \<open>What the board keeps\<close>

text \<open>
  At most 50 types; a type is completed at most once a day; the completions of a day carry the
  same total, which is the number of active types when the day was last touched.
\<close>

definition done_once :: "env \<Rightarrow> board \<Rightarrow> bool" where
  "done_once e b = (\<forall>i d. length (filter (\<lambda>c. same_str e (tc_type c) i \<and> tc_day c = d) (completions b)) \<le> 1)"

definition day_agreed :: "board \<Rightarrow> bool" where
  "day_agreed b = (\<forall>c \<in> set (completions b). \<forall>d \<in> set (completions b).
     tc_day c = tc_day d \<longrightarrow> tc_total c = tc_total d)"

definition board_ok :: "env \<Rightarrow> board \<Rightarrow> bool" where
  "board_ok e b = (length (types b) \<le> 50 \<and> done_once e b \<and> day_agreed b)"

lemma synced_types [simp]: "types (sync_total_active_count day n b) = types b"
  by (simp add: sync_total_active_count_def)

lemma synced_once: "done_once e (sync_total_active_count day n b) = done_once e b"
proof -
  define f :: "completion \<Rightarrow> completion" where "f = (\<lambda>c. if read_day day = Some (tc_day c) then c\<lparr>tc_total := n\<rparr> else c)"
  have "tc_type (f c) = tc_type c" "tc_day (f c) = tc_day c" for c by (simp_all add: f_def)
  moreover have "completions (sync_total_active_count day n b) = map f (completions b)"
    by (simp add: sync_total_active_count_def f_def)
  ultimately show ?thesis by (simp add: done_once_def filter_map comp_def)
qed

text \<open>Synchronising a day makes it agree; the other days agree as before.\<close>

lemma synced_agreed:
  assumes "\<And>c d. c \<in> set (completions b) \<Longrightarrow> d \<in> set (completions b) \<Longrightarrow>
     read_day day \<noteq> Some (tc_day c) \<Longrightarrow> tc_day c = tc_day d \<Longrightarrow> tc_total c = tc_total d"
  shows "day_agreed (sync_total_active_count day n b)"
proof -
  define f :: "completion \<Rightarrow> completion" where
    "f = (\<lambda>c. if read_day day = Some (tc_day c) then c\<lparr>tc_total := n\<rparr> else c)"
  have day: "tc_day (f c) = tc_day c" for c by (simp add: f_def)
  have "tc_total (f c) = tc_total (f d)"
    if "c \<in> set (completions b)" "d \<in> set (completions b)" "tc_day c = tc_day d" for c d
    using assms [of c d] that by (simp add: f_def)
  moreover have "completions (sync_total_active_count day n b) = map f (completions b)"
    by (simp add: sync_total_active_count_def f_def)
  ultimately show ?thesis
    unfolding day_agreed_def using day by (metis (no_types, lifting) imageE set_map)
qed

lemma once_append:
  assumes "done_once e b" "\<forall>c \<in> set (completions b). \<not> (same_str e (tc_type c) (tc_type x) \<and> tc_day c = tc_day x)"
  shows "done_once e (b\<lparr>completions := completions b @ [x]\<rparr>)"
proof -
  have "filter (\<lambda>c. same_str e (tc_type c) i \<and> tc_day c = d) (completions b) = []"
    if "same_str e (tc_type x) i" "tc_day x = d" for i d
    using assms(2) that by (auto simp: filter_empty_conv same_str_def)
  then show ?thesis using assms(1) by (auto simp: done_once_def)
qed

lemma complete_keeps_board:
  assumes "complete_body e i day (b, s) = Inr (v, (b', s'))" "board_ok e b"
  shows "board_ok e b'"
proof -
  define c0 where "c0 = (\<lambda>d. \<lparr>tc_id = uuid e (ids s), tc_type = i, tc_day = d,
    tc_total = get_active_count b, tc_created = sql_now e (ticks s)\<rparr>)"
  have c0: "tc_type (c0 d) = i" "tc_day (c0 d) = d" for d by (simp_all add: c0_def)
  obtain d where d: "read_day day = Some d"
    and none: "\<forall>c \<in> set (completions b). \<not> done_on e i day c"
    and b': "b' = sync_total_active_count day (get_active_count b) (b\<lparr>completions := completions b @ [c0 d]\<rparr>)"
    using assms(1) by (auto simp: complete_body_def Let_def generate_id_def c0_def split: if_splits option.splits)
  have "done_once e (b\<lparr>completions := completions b @ [c0 d]\<rparr>)"
    using assms(2) none d c0 by (intro once_append) (auto simp: board_ok_def done_on_def)
  moreover have "day_agreed b'"
    unfolding b'
  proof (rule synced_agreed)
    fix c x
    assume "c \<in> set (completions (b\<lparr>completions := completions b @ [c0 d]\<rparr>))"
      "x \<in> set (completions (b\<lparr>completions := completions b @ [c0 d]\<rparr>))"
      and "read_day day \<noteq> Some (tc_day c)" "tc_day c = tc_day x"
    then have "c \<in> set (completions b)" "x \<in> set (completions b)" using d c0 by auto
    with \<open>tc_day c = tc_day x\<close> show "tc_total c = tc_total x"
      using assms(2) unfolding board_ok_def day_agreed_def by blast
  qed
  ultimately show ?thesis using assms(2) by (simp add: b' board_ok_def synced_once)
qed

lemma once_filter: "done_once e b \<Longrightarrow> done_once e (b\<lparr>completions := filter P (completions b)\<rparr>)"
proof -
  have "length (filter Q (filter P cs)) \<le> length (filter Q cs)" for Q and cs :: "completion list"
    by (induction cs) auto
  then show "done_once e b \<Longrightarrow> ?thesis" unfolding done_once_def using order_trans by fastforce
qed

lemma uncomplete_keeps_board:
  assumes "uncomplete_body e i day (b, s) = Inr (v, (b', s'))" "board_ok e b"
  shows "board_ok e b'"
proof -
  let ?b = "b\<lparr>completions := filter (\<lambda>c. \<not> done_on e i day c) (completions b)\<rparr>"
  have b': "b' = sync_total_active_count day (get_active_count ?b) ?b"
    using assms(1) by (auto simp: uncomplete_body_def Let_def split: if_splits)
  have "day_agreed b'"
    unfolding b' using assms(2) by (intro synced_agreed) (auto simp: board_ok_def day_agreed_def)
  then show ?thesis using assms(2) once_filter [of e b] by (simp add: b' board_ok_def synced_once)
qed

lemma board_ok_types:
  assumes "completions b' = completions b" "length (types b') \<le> 50" "board_ok e b"
  shows "board_ok e b'"
  using assms(2,3) unfolding board_ok_def done_once_def day_agreed_def assms(1) by blast

lemma create_keeps_board:
  assumes "create_type_body e nm ic co (b, s) = Inr (v, (b', s'))" "board_ok e b"
  shows "board_ok e b'"
proof -
  have "length (types b) < 50" using assms(1) by (rule contrapos_pp) (simp add: create_type_body_def)
  moreover obtain t where "b' = b\<lparr>types := types b @ [t]\<rparr>"
    using assms(1) unfolding create_type_body_def generate_id_def Let_def prod.case
    by (simp only: sum.inject prod.inject sum.distinct simp_thms split: if_splits)
      (elim conjE, rule that, erule sym)
  ultimately show ?thesis by (intro board_ok_types [OF _ _ assms(2)]) simp_all
qed

lemma update_keeps_board:
  assumes "update_type_body e i p (b, s) = Inr (v, (b', s'))" "board_ok e b"
  shows "board_ok e b'"
proof -
  have "completions b' = completions b \<and> length (types b') = length (types b)"
    using assms(1) by (auto simp: update_type_body_def Let_def split: if_splits option.splits)
  with assms(2) show ?thesis by (intro board_ok_types [OF _ _ assms(2)]) (simp_all add: board_ok_def)
qed

lemma delete_keeps_board:
  assumes "delete_type_body e i (b, s) = Inr (v, (b', s'))" "board_ok e b"
  shows "board_ok e b'"
proof -
  have "completions b' = completions b \<and> length (types b') = length (types b)"
    using assms(1) by (auto simp: delete_type_body_def split: if_splits)
  with assms(2) show ?thesis by (intro board_ok_types [OF _ _ assms(2)]) (simp_all add: board_ok_def)
qed

section \<open>A ratio above one\<close>

text \<open>
  Three types were completed on a day and two of them deactivated since. Taking back the third
  completion leaves two completions against one active type.
\<close>

definition some_type :: "string \<Rightarrow> bool \<Rightarrow> task_type" where
  "some_type i ok = \<lparr>tt_id = i, tt_name = i, tt_icon = [], tt_color = [], tt_order = 0, tt_active = ok,
     tt_created = 0, tt_updated = 0\<rparr>"

definition some_completion :: "string \<Rightarrow> completion" where
  "some_completion i = \<lparr>tc_id = i, tc_type = i, tc_day = day_number 2026 1 5, tc_total = 3, tc_created = 0\<rparr>"

definition busy_day :: board where
  "busy_day = \<lparr>types = [some_type ''a'' False, some_type ''b'' False, some_type ''c'' True],
     completions = [some_completion ''a'', some_completion ''b'', some_completion ''c'']\<rparr>"

lemma ratio_above_one:
  "ok_with (\<lambda>u w. day_totals (day_number 2026 1 5) (fst w) = (2, 1))
     (uncomplete_body sample_env ''c'' ''2026-01-05'' (busy_day, empty_store))"
  by code_simp

end
