(* ===== verification/Mirror.thy ===== *)
theory Mirror
  imports Daily_Tasks
begin

text \<open>
  \<^verbatim>\<open>scripts/migrate_legacy_todo.py\<close>: loading a database with the rows of another. \<open>migrate_mirror\<close>
  copies a node's tables as they are, \<open>migrate_legacy\<close> translates those of the old application.
  The columns of either side are parameters; the status columns are taken to exist. A database
  is its store and its board of daily tasks; what it prints is not modelled.
\<close>

section \<open>Loading rows\<close>

text \<open>\<open>INSERT ... ON DUPLICATE KEY UPDATE\<close>, on the primary key and on the pair of project and user.\<close>

definition duplicates_row :: "env \<Rightarrow> tbl \<Rightarrow> row \<Rightarrow> row \<Rightarrow> bool" where
  "duplicates_row e t r x =
     (same_col e ''id'' r x \<or>
      t = Project_members \<and> same_col e ''project_id'' r x \<and> same_col e ''user_id'' r x)"

definition upsert :: "env \<Rightarrow> tbl \<Rightarrow> row \<Rightarrow> string list \<Rightarrow> store \<Rightarrow> exn + store" where
  "upsert e t r upd s =
     (case find (duplicates_row e t r) (tabs s t) of
        None \<Rightarrow> db_insert e t r s
      | Some x \<Rightarrow> db_set e t (\<lambda>y. y = x) (map (\<lambda>c. (c, row_get r c)) upd) s)"

text \<open>The articles, which are unique in their id and in their memo.\<close>

definition upsert_article :: "env \<Rightarrow> row \<Rightarrow> string list \<Rightarrow> store \<Rightarrow> store" where
  "upsert_article e r upd s =
     (case find (\<lambda>x. same_col e ''id'' r x \<or> same_col e ''memo_id'' r x) (articles s) of
        None \<Rightarrow> s\<lparr>articles := articles s @ [r]\<rparr>
      | Some x \<Rightarrow> s\<lparr>articles := map (\<lambda>y. if y = x
                     then row_update y (map (\<lambda>c. (c, row_get r c)) upd) else y) (articles s)\<rparr>)"

definition clear_target :: "env \<Rightarrow> store \<Rightarrow> store" where
  "clear_target e s =
     db_delete e Projects (\<lambda>r. True) (db_delete e Project_members (\<lambda>r. True)
       (db_delete e Memos (\<lambda>r. True) (db_delete e Memo_versions (\<lambda>r. True) (s\<lparr>articles := []\<rparr>))))"

definition clear_board :: "bool \<Rightarrow> board \<Rightarrow> board" where
  "clear_board wipe b = (if wipe then b\<lparr>types := [], completions := []\<rparr> else b)"

text \<open>Tables with rows that have no clock, and how many.\<close>

definition check_updated_at_utc :: "store \<Rightarrow> (tbl \<times> nat) list" where
  "check_updated_at_utc s =
     filter (\<lambda>(t, n). n \<noteq> 0)
       (map (\<lambda>t. (t, length (filter (\<lambda>r. row_get r ''updated_at_utc'' = VNull) (tabs s t)))) SYNC_TABLE_ORDER)"

section \<open>A copy of a node\<close>

definition MIRROR_TABLES :: "tbl list" where
  "MIRROR_TABLES = [Projects, Project_members, Memos, Memo_versions]"

record mirror_args =
  ma_dry :: bool
  ma_replace :: bool
  ma_wipe :: bool
  ma_applying :: bool
  ma_missing :: bool

text \<open>The columns of a database: of a synchronised table, and of the articles.\<close>

type_synonym schema = "(tbl \<Rightarrow> string list) \<times> string list"

datatype mirror_fail = MissingClocks "(tbl \<times> nat) list" | Engine exn

definition common_columns :: "schema \<Rightarrow> schema \<Rightarrow> tbl \<Rightarrow> string list" where
  "common_columns from to t = filter (\<lambda>c. c \<in> set (fst to t)) (fst from t)"

definition mirror_row :: "env \<Rightarrow> tbl \<Rightarrow> string list \<Rightarrow> row \<Rightarrow> store \<Rightarrow> exn + store" where
  "mirror_row e t cols r s =
     upsert e t (map (\<lambda>c. (c, row_get r c)) cols) (filter (\<lambda>c. c \<noteq> ''id'') cols) s"

definition mirror_table :: "env \<Rightarrow> schema \<Rightarrow> schema \<Rightarrow> store \<Rightarrow> tbl \<Rightarrow> store \<Rightarrow> exn + store" where
  "mirror_table e from to source t s = sfold (mirror_row e t (common_columns from to t)) (tabs source t) s"

definition mirror_articles :: "env \<Rightarrow> schema \<Rightarrow> schema \<Rightarrow> store \<Rightarrow> store \<Rightarrow> store" where
  "mirror_articles e from to source s =
     (let cols = filter (\<lambda>c. c \<in> set (snd to)) (snd from)
      in fold (\<lambda>r. upsert_article e (map (\<lambda>c. (c, row_get r c)) cols) (filter (\<lambda>c. c \<noteq> ''id'') cols))
           (articles source) s)"

definition mirror_body ::
  "env \<Rightarrow> mirror_args \<Rightarrow> schema \<Rightarrow> schema \<Rightarrow> store \<Rightarrow> store \<Rightarrow> exn + unit \<times> store" where
  "mirror_body e a from to source s =
     sbind (sfold (mirror_table e from to source) MIRROR_TABLES (if ma_replace a then clear_target e s else s))
       (\<lambda>s1. Inr ((), mirror_articles e from to source s1))"

definition migrate_mirror ::
  "env \<Rightarrow> mirror_args \<Rightarrow> schema \<Rightarrow> schema \<Rightarrow> store \<Rightarrow> desk_state \<Rightarrow> (mirror_fail + unit) \<times> desk_state" where
  "migrate_mirror e a from to source w =
     (if check_updated_at_utc source \<noteq> [] \<and> \<not> ma_missing a
      then (Inl (MissingClocks (check_updated_at_utc source)), w)
      else if ma_dry a then (Inr (), w)
      else case w of (b, s) \<Rightarrow>
        (case with_connection (ma_applying a) (mirror_body e a from to source) s of
           (Inl x, s1) \<Rightarrow> (Inl (Engine x), (b, s1))
         | (Inr u, s1) \<Rightarrow> (Inr (), (clear_board (ma_replace a \<and> ma_wipe a) b, s1))))"

section \<open>The old application\<close>

text \<open>\<open>project\<close>, \<open>task\<close> and \<open>detail\<close>; \<open>reg_dtm\<close> is a wall clock of Seoul.\<close>

record old_project =
  op_id :: nat
  op_name :: "string option"
  op_icon :: "string option"
  op_status :: "int option"
  op_at :: "int option"

record old_task =
  ot_id :: nat
  ot_project :: nat
  ot_title :: "string option"
  ot_status :: "int option"
  ot_at :: "int option"

record old_detail =
  od_task :: nat
  od_content :: string
  od_at :: "int option"

record old_owner =
  oo_id :: string
  oo_login :: string
  oo_name :: string
  oo_email :: string

record old_data =
  da_projects :: "old_project list"
  da_tasks :: "old_task list"
  da_details :: "old_detail list"

fun insert_by :: "('a \<Rightarrow> 'a \<Rightarrow> bool) \<Rightarrow> 'a \<Rightarrow> 'a list \<Rightarrow> 'a list" where
  "insert_by le x [] = [x]"
| "insert_by le x (y # ys) = (if le x y then x # y # ys else y # insert_by le x ys)"

definition sort_by :: "('a \<Rightarrow> 'a \<Rightarrow> bool) \<Rightarrow> 'a list \<Rightarrow> 'a list" where
  "sort_by le xs = foldr (insert_by le) xs []"

text \<open>NULL sorts first, texts by the key of the collation.\<close>

definition detail_le :: "env \<Rightarrow> old_detail \<Rightarrow> old_detail \<Rightarrow> bool" where
  "detail_le e a b =
     (let texts = str_le (collate e (od_content a)) (collate e (od_content b))
      in case (od_at a, od_at b) of
           (None, None) \<Rightarrow> texts
         | (None, Some y) \<Rightarrow> True
         | (Some x, None) \<Rightarrow> False
         | (Some x, Some y) \<Rightarrow> x < y \<or> x = y \<and> texts)"

definition load_projects :: "old_data \<Rightarrow> old_project list" where
  "load_projects d = sort_key op_id (da_projects d)"

definition load_tasks :: "old_data \<Rightarrow> old_task list" where
  "load_tasks d = sort_key ot_id (filter (\<lambda>t. ot_project t \<in> set (map op_id (da_projects d))) (da_tasks d))"

definition history :: "env \<Rightarrow> old_data \<Rightarrow> nat \<Rightarrow> old_detail list" where
  "history e d i = sort_by (detail_le e) (filter (\<lambda>x. od_task x = i) (da_details d))"

definition to_utc_naive :: "int option \<Rightarrow> val" where
  "to_utc_naive t = (case t of None \<Rightarrow> VNull | Some w \<Rightarrow> VTime (w - 9 * 3600 * 1000000))"

definition time_val :: "int option \<Rightarrow> val" where
  "time_val t = (case t of None \<Rightarrow> VNull | Some w \<Rightarrow> VTime w)"

definition int_or_zero :: "int option \<Rightarrow> val" where
  "int_or_zero n = VInt (case n of None \<Rightarrow> 0 | Some i \<Rightarrow> i)"

definition UNTITLED :: string where
  "UNTITLED = [CHR 0x28, CHR 0xEC, CHR 0xA0, CHR 0x9C, CHR 0xEB, CHR 0xAA, CHR 0xA9, CHR 0x20, CHR 0xEC,
     CHR 0x97, CHR 0x86, CHR 0xEC, CHR 0x9D, CHR 0x8C, CHR 0x29]"
definition DEFAULT_ICON :: string where "DEFAULT_ICON = ''Beer''"

definition old_project_id :: "nat \<Rightarrow> string" where "old_project_id n = ''legacy-project-'' @ nat_str n"
definition old_memo_id :: "nat \<Rightarrow> string" where "old_memo_id n = ''legacy-memo-'' @ nat_str n"

definition old_version_id :: "nat \<Rightarrow> nat \<Rightarrow> string" where
  "old_version_id n k = ''legacy-version-'' @ nat_str n @ ''-'' @ nat_str k"

definition old_project_row :: "bool \<Rightarrow> old_owner \<Rightarrow> old_project \<Rightarrow> row" where
  "old_project_row owned o' p =
     [(''id'', VStr (old_project_id (op_id p)))] @ (if owned then [(''owner_id'', VStr (oo_id o'))] else []) @
     [(''name'', VStr (str_or (op_name p) UNTITLED)),
      (''icon'', VStr (cp_take 10 (str_or (op_icon p) DEFAULT_ICON))), (''status'', int_or_zero (op_status p)),
      (''is_secret'', VInt 0), (''created_at'', time_val (op_at p)), (''updated_at'', time_val (op_at p)),
      (''updated_at_utc'', to_utc_naive (op_at p))]"

definition old_member_row :: "old_owner \<Rightarrow> old_project \<Rightarrow> row" where
  "old_member_row o' p =
     [(''id'', VStr (''legacy-project-member-'' @ nat_str (op_id p))),
      (''project_id'', VStr (old_project_id (op_id p))), (''user_id'', VStr (oo_id o')),
      (''username'', VStr (oo_login o')), (''display_name'', VStr (oo_name o')), (''email'', VStr (oo_email o')),
      (''role'', VStr ''owner''), (''invited_at'', time_val (op_at p)), (''updated_at_utc'', to_utc_naive (op_at p))]"

definition old_memo_row :: "bool \<Rightarrow> old_owner \<Rightarrow> old_detail list \<Rightarrow> old_task \<Rightarrow> row" where
  "old_memo_row created o' h t =
     [(''id'', VStr (old_memo_id (ot_id t))), (''project_id'', VStr (old_project_id (ot_project t)))] @
     (if created then [(''created_by'', VStr (oo_id o'))] else []) @
     [(''title'', VStr (cp_take 255 (str_or (ot_title t) UNTITLED))),
      (''content'', VStr (if h = [] then [] else od_content (last h))), (''status'', int_or_zero (ot_status t)),
      (''created_at'', time_val (ot_at t)), (''updated_at'', time_val (ot_at t)),
      (''updated_at_utc'', to_utc_naive (ot_at t))]"

definition old_version_row :: "old_task \<Rightarrow> nat \<times> old_detail \<Rightarrow> row" where
  "old_version_row t = (\<lambda>(k, x).
     [(''id'', VStr (old_version_id (ot_id t) k)), (''memo_id'', VStr (old_memo_id (ot_id t))),
      (''content'', VStr (od_content x)), (''version'', VInt (int k)), (''created_at'', time_val (od_at x)),
      (''updated_at_utc'', to_utc_naive (od_at x))])"

definition load_old_project :: "env \<Rightarrow> bool \<Rightarrow> old_owner \<Rightarrow> old_project \<Rightarrow> store \<Rightarrow> exn + store" where
  "load_old_project e owned o' p s =
     sbind (upsert e Projects (old_project_row owned o' p)
        [''name'', ''icon'', ''status'', ''created_at'', ''updated_at'', ''updated_at_utc''] s)
       (upsert e Project_members (old_member_row o' p)
          [''role'', ''username'', ''display_name'', ''email'', ''invited_at'', ''updated_at_utc''])"

definition load_old_task :: "env \<Rightarrow> bool \<Rightarrow> old_owner \<Rightarrow> old_data \<Rightarrow> old_task \<Rightarrow> store \<Rightarrow> exn + store" where
  "load_old_task e created o' d t s =
     (let h = history e d (ot_id t) in
      sbind (upsert e Memos (old_memo_row created o' h t)
         [''title'', ''content'', ''status'', ''created_at'', ''updated_at'', ''updated_at_utc''] s)
        (sfold (\<lambda>x. upsert e Memo_versions (old_version_row t x) [''content'', ''version'', ''created_at'', ''updated_at_utc''])
           (zip [1..<length h] (butlast h))))"

definition legacy_body ::
  "env \<Rightarrow> mirror_args \<Rightarrow> schema \<Rightarrow> old_owner \<Rightarrow> old_data \<Rightarrow> store \<Rightarrow> exn + unit \<times> store" where
  "legacy_body e a to o' d s =
     sbind (sfold (load_old_project e (''owner_id'' \<in> set (fst to Projects)) o') (load_projects d)
              (if ma_replace a then clear_target e s else s)) (\<lambda>s1.
     sbind (sfold (load_old_task e (''created_by'' \<in> set (fst to Memos)) o' d) (load_tasks d) s1) (\<lambda>s2. Inr ((), s2)))"

definition migrate_legacy ::
  "env \<Rightarrow> mirror_args \<Rightarrow> schema \<Rightarrow> old_owner \<Rightarrow> old_data \<Rightarrow> desk_state \<Rightarrow> (exn + unit) \<times> desk_state" where
  "migrate_legacy e a to o' d w =
     (if ma_dry a then (Inr (), w)
      else case w of (b, s) \<Rightarrow>
        (case with_connection False (legacy_body e a to o' d) s of
           (Inl x, s1) \<Rightarrow> (Inl x, (b, s1))
         | (Inr u, s1) \<Rightarrow> (Inr (), (clear_board (ma_replace a \<and> ma_wipe a) b, s1))))"

end
