(* ===== verification/Sync_Cli.thy ===== *)
theory Sync_Cli
  imports Mirror Sync_Daemon Sessions
begin

text \<open>
  \<^verbatim>\<open>src/sync_cli.py\<close>: the commands that look at a node, give its data to the account of the
  server, and overwrite the server with the node. What the terminal shows is not modelled; the
  answer to a question, the dumps and the reply of the server are parameters.
\<close>

datatype cli_result = Exit nat | Stopped string | Failed exn

section \<open>Looking at a node\<close>

text \<open>The handshake as the commands read it; \<open>bh_identity\<close> is None when it is no dictionary.\<close>

record boot_handshake =
  bh_schema :: "int option"
  bh_tables :: "(string \<times> string list) list option"
  bh_account :: "string option"
  bh_identity :: "string option option"
  bh_login :: "string option"
  bh_display :: "string option"
  bh_email :: "string option"
  bh_permission :: "string option"
  bh_kind :: "string option"
  bh_owners :: "string list"
  bh_max :: "int option"

definition mismatched_owners :: "string option \<Rightarrow> string list \<Rightarrow> string list" where
  "mismatched_owners account owners = filter (\<lambda>i. Some i \<noteq> account) owners"

datatype doctor_problem = MissingTriggers | MissingBackfill | ForeignOwners

definition doctor :: "env \<Rightarrow> nat \<Rightarrow> boot_handshake option \<Rightarrow> store \<Rightarrow> doctor_problem list" where
  "doctor e triggers h s =
     (if triggers \<noteq> 3 * length SYNC_TABLE_ORDER then [MissingTriggers] else []) @
     (if check_updated_at_utc s \<noteq> [] then [MissingBackfill] else []) @
     (case h of
        None \<Rightarrow> []
      | Some x \<Rightarrow> if mismatched_owners (bh_account x) (distinct_owner_ids e s) \<noteq> [] then [ForeignOwners] else [])"

definition cmd_doctor :: "env \<Rightarrow> nat \<Rightarrow> boot_handshake option \<Rightarrow> store \<Rightarrow> cli_result" where
  "cmd_doctor e triggers h s = Exit (if doctor e triggers h s = [] then 0 else 1)"

definition cmd_pause :: "env \<Rightarrow> string \<Rightarrow> store \<Rightarrow> store" where
  "cmd_pause e client s = snd (with_connection False (\<lambda>s. Inr ((), set_paused e client True s)) s)"

definition cmd_resume :: "env \<Rightarrow> string \<Rightarrow> store \<Rightarrow> store" where
  "cmd_resume e client s =
     snd (with_connection False
       (\<lambda>s. Inr ((), update_sync_state e client [LastError None] (set_paused e client False s))) s)"

section \<open>Giving the data to the account of the server\<close>

fun parse_map :: "string list \<Rightarrow> (string \<times> string) list \<Rightarrow> string + (string \<times> string) list" where
  "parse_map [] m = Inr m"
| "parse_map (x # xs) m =
     (case split_at_char (CHR ''='') x of
        (old, None) \<Rightarrow> Inl x
      | (old, Some new) \<Rightarrow> parse_map xs (AList.update (strip old) (strip new) m))"

definition IDENTITY_COLUMNS :: "(tbl \<times> string) list" where
  "IDENTITY_COLUMNS = [(Projects, ''owner_id''), (Memos, ''created_by''), (Project_members, ''user_id'')]"

definition null_owner_counts :: "env \<Rightarrow> store \<Rightarrow> nat list" where
  "null_owner_counts e s =
     map (\<lambda>(t, c). length (filter (\<lambda>r. row_get r c = VNull \<or> col_is e c [] r) (tabs s t))) IDENTITY_COLUMNS"

definition new_owner :: "string option \<Rightarrow> val" where
  "new_owner x = (case x of None \<Rightarrow> VNull | Some i \<Rightarrow> VStr i)"

text \<open>A project of which both are members.\<close>

definition member_collision :: "env \<Rightarrow> store \<Rightarrow> string \<times> string option \<Rightarrow> bool" where
  "member_collision e s = (\<lambda>(old, new).
     (\<exists>a \<in> set (tabs s Project_members). \<exists>b \<in> set (tabs s Project_members).
        col_is e ''user_id'' old a \<and> sql_eq e (row_get b ''user_id'') (new_owner new) \<and>
        sql_eq e (row_get a ''project_id'') (row_get b ''project_id'')))"

definition rewrite_owner :: "env \<Rightarrow> string \<times> string option \<Rightarrow> store \<Rightarrow> exn + store" where
  "rewrite_owner e = (\<lambda>(old, new) s.
     sfold (\<lambda>(t, c) s. db_set e t (col_is e c old) [(c, new_owner new)] s) IDENTITY_COLUMNS s)"

definition coalesce :: "string \<Rightarrow> string option \<Rightarrow> row" where
  "coalesce c x = (case x of None \<Rightarrow> [] | Some y \<Rightarrow> [(c, VStr y)])"

definition refresh_members :: "env \<Rightarrow> boot_handshake option \<Rightarrow> store \<Rightarrow> exn + store" where
  "refresh_members e h s =
     (case h of
        None \<Rightarrow> Inr s
      | Some x \<Rightarrow>
          (if blank (bh_account x) then Inr s
           else db_set e Project_members (col_is e ''user_id'' (the (bh_account x)))
                  (coalesce ''username'' (bh_login x) @ coalesce ''display_name'' (bh_display x) @
                   coalesce ''email'' (bh_email x)) s))"

definition link_body ::
  "env \<Rightarrow> (string \<times> string option) list \<Rightarrow> boot_handshake option \<Rightarrow> store \<Rightarrow> exn + unit \<times> store" where
  "link_body e m h s =
     sbind (sfold (rewrite_owner e) m s) (\<lambda>s1. sbind (refresh_members e h s1) (\<lambda>s2. Inr ((), s2)))"

record link_args =
  la_map :: "string list"
  la_dry :: bool
  la_yes :: bool
  la_answer :: bool

definition identity_map ::
  "env \<Rightarrow> (string \<times> string) list \<Rightarrow> boot_handshake option \<Rightarrow> store \<Rightarrow> (string \<times> string option) list option" where
  "identity_map e asked h s =
     (if asked \<noteq> [] then Some (map (\<lambda>(k, x). (k, Some x)) asked)
      else case h of
        None \<Rightarrow> None
      | Some x \<Rightarrow>
          (case distinct_owner_ids e s of
             [i] \<Rightarrow> if list_ex (\<lambda>n. n \<noteq> 0) (null_owner_counts e s) then None else Some [(i, bh_account x)]
           | _ \<Rightarrow> None))"

definition cmd_link_identity ::
  "env \<Rightarrow> link_args \<Rightarrow> boot_handshake option \<Rightarrow> store \<Rightarrow> cli_result \<times> store" where
  "cmd_link_identity e a h s =
     (case parse_map (la_map a) [] of
        Inl x \<Rightarrow> (Stopped x, s)
      | Inr asked \<Rightarrow>
          (case identity_map e asked h s of
             None \<Rightarrow> (Exit 2, s)
           | Some m \<Rightarrow>
               if la_dry a then (Exit 0, s)
               else if \<not> la_yes a \<and> \<not> la_answer a then (Exit 1, s)
               else if list_ex (member_collision e s) m then (Stopped ''project_members'', s)
               else case with_connection True (link_body e m h) s of
                      (Inl x, s1) \<Rightarrow> (Failed x, s1)
                    | (Inr u, s1) \<Rightarrow> (Exit 0, s1)))"

section \<open>Overwriting the server\<close>

text \<open>What the database of the target says of itself; nothing when it cannot be reached.\<close>

record fingerprint =
  fp_columns :: "(tbl \<times> string list) list"
  fp_owners :: "string list"
  fp_max :: int
  fp_server :: string

definition inspect_target :: "env \<Rightarrow> schema \<Rightarrow> string \<Rightarrow> store \<Rightarrow> fingerprint" where
  "inspect_target e columns server s =
     \<lparr>fp_columns = map (\<lambda>t. (t, fst columns t)) SYNC_TABLE_ORDER, fp_owners = distinct_owner_ids e s,
      fp_max = max_change_seq s, fp_server = server\<rparr>"

datatype blocker =
    NoHandshake | SchemaDiffers | TablesDiffer | NoAccount | IdentityDiffers | NoSubject
  | NoIdentityCache | CacheDiffers | NoBackfill | OwnersDiffer "string list" | SameDatabase
  | NoFingerprint | NoColumns tbl "string list" | TargetOwnersDiffer | NoMaxSeq | TargetSeqDiffers

definition remote_account :: "boot_handshake option \<Rightarrow> string option" where
  "remote_account h =
     (case h of None \<Rightarrow> None
      | Some x \<Rightarrow> if strip (or_empty (bh_account x)) = [] then None else bh_account x)"

definition handshake_blockers :: "boot_handshake option \<Rightarrow> blocker list" where
  "handshake_blockers h =
     (case h of
        None \<Rightarrow> [NoHandshake]
      | Some x \<Rightarrow>
          (if bh_schema x \<noteq> Some SCHEMA_VERSION then [SchemaDiffers] else []) @
          (case bh_tables x of
             None \<Rightarrow> [TablesDiffer]
           | Some ts \<Rightarrow> if set ts = set declared_tables then [] else [TablesDiffer]) @
          (if remote_account h = None then [NoAccount] else []) @
          (if bh_identity x \<noteq> Some (remote_account h) then [IdentityDiffers] else []) @
          (if blank (bh_permission x) \<or> blank (bh_kind x) then [NoSubject] else []))"

definition cache_blockers :: "string option \<Rightarrow> identity option \<Rightarrow> blocker list" where
  "cache_blockers account cache =
     (case cache of
        None \<Rightarrow> [NoIdentityCache]
      | Some i \<Rightarrow> if account \<noteq> None \<and> Some (id_account i) \<noteq> account then [CacheDiffers] else [])"

definition owner_blockers :: "string option \<Rightarrow> string list \<Rightarrow> blocker list" where
  "owner_blockers account owners =
     (if account \<noteq> None \<and> mismatched_owners account owners \<noteq> []
      then [OwnersDiffer (mismatched_owners account owners)] else [])"

definition column_blockers :: "fingerprint \<Rightarrow> blocker list" where
  "column_blockers f =
     List.map_filter (\<lambda>t.
       let have = (case map_of (fp_columns f) t of None \<Rightarrow> [] | Some cs \<Rightarrow> cs);
           missing = filter (\<lambda>c. c \<notin> set have) (table_columns t)
       in if missing = [] then None else Some (NoColumns t missing)) SYNC_TABLE_ORDER"

definition target_blockers :: "boot_handshake option \<Rightarrow> fingerprint \<Rightarrow> blocker list" where
  "target_blockers h f =
     (case h of
        None \<Rightarrow> []
      | Some x \<Rightarrow>
          (if fp_owners f \<noteq> sort_str (bh_owners x) then [TargetOwnersDiffer] else []) @
          (case bh_max x of
             None \<Rightarrow> [NoMaxSeq]
           | Some n \<Rightarrow> if fp_max f \<noteq> n then [TargetSeqDiffers] else []))"

definition bootstrap_blockers ::
  "boot_handshake option \<Rightarrow> string list \<Rightarrow> identity option \<Rightarrow> (tbl \<times> nat) list \<Rightarrow> fingerprint option \<Rightarrow> string
     \<Rightarrow> blocker list" where
  "bootstrap_blockers h owners cache missing target server =
     handshake_blockers h @ cache_blockers (remote_account h) cache @
     (if missing \<noteq> [] then [NoBackfill] else []) @ owner_blockers (remote_account h) owners @
     (case target of None \<Rightarrow> [] | Some f \<Rightarrow> if fp_server f = server then [SameDatabase] else []) @
     (case target of None \<Rightarrow> [NoFingerprint] | Some f \<Rightarrow> column_blockers f @ target_blockers h f)"

record boot_args =
  ba_dry :: bool
  ba_confirmed :: bool
  ba_yes :: bool
  ba_answer :: bool
  ba_skip_dump :: bool
  ba_dumped :: bool

text \<open>
  What surrounds the command: the client it acts for, both schemas and servers, and what other
  writers do to either database while the copy is made.
\<close>

record boot_world =
  bw_client :: string
  bw_here :: schema
  bw_there :: schema
  bw_server_here :: string
  bw_server_there :: string
  bw_handshake :: "boot_handshake option"
  bw_reachable :: bool
  bw_local_writes :: "store \<Rightarrow> store"
  bw_remote_writes :: "store \<Rightarrow> store"

datatype boot_result = Blocked "blocker list" | Rehearsed | NotConfirmed | Cancelled | NoDump | NotMirrored mirror_fail | Done

definition mirror_args_of :: "boot_args \<Rightarrow> mirror_args" where
  "mirror_args_of a =
     \<lparr>ma_dry = ba_dry a, ma_replace = True, ma_wipe = True, ma_applying = True, ma_missing = False\<rparr>"

definition baseline :: "env \<Rightarrow> string \<Rightarrow> int \<Rightarrow> store \<Rightarrow> store" where
  "baseline e client remote_max s =
     (let seq = max_change_seq s; (now, s1) = now_utc e s
      in update_sync_state e client [LastPushed seq, LastPulled remote_max, LastOk (Some now), LastError None] s1)"

definition cmd_bootstrap ::
  "env \<Rightarrow> boot_args \<Rightarrow> boot_world \<Rightarrow> store \<Rightarrow> desk_state \<Rightarrow> boot_result \<times> store \<times> desk_state" where
  "cmd_bootstrap e a b here there =
     (let blockers = bootstrap_blockers (bw_handshake b) (distinct_owner_ids e here)
            (get_local_identity e None None here) (check_updated_at_utc here)
            (if bw_reachable b then Some (inspect_target e (bw_there b) (bw_server_there b) (snd there)) else None)
            (bw_server_here b)
      in if blockers \<noteq> [] then (Blocked blockers, here, there)
         else if ba_dry a then (Rehearsed, here, there)
         else if \<not> ba_confirmed a then (NotConfirmed, here, there)
         else if \<not> ba_yes a \<and> \<not> ba_answer a then (Cancelled, here, there)
         else if \<not> ba_skip_dump a \<and> \<not> ba_dumped a then (NoDump, here, there)
         else case migrate_mirror e (mirror_args_of a) (bw_here b) (bw_there b) here there of
                (Inl x, there1) \<Rightarrow> (NotMirrored x, here, there1)
              | (Inr u, (bd, there1)) \<Rightarrow>
                  (let here1 = bw_local_writes b here; there2 = bw_remote_writes b there1
                   in (Done, snd (with_connection False
                         (\<lambda>s. Inr ((), baseline e (bw_client b) (max_change_seq there2) s)) here1), (bd, there2))))"

end
