(* ===== verification/Cli_Laws.thy ===== *)
theory Cli_Laws
  imports Sync_Cli Daemon_Laws Samples
begin

text \<open>
  What the commands guarantee: a mirror is a copy or nothing, a bootstrap leaves both nodes
  equal with the watermarks behind them when nobody writes meanwhile, linking the identity makes
  the server's account the only owner.
\<close>

section \<open>Copies\<close>

text \<open>No two rows of a table fall on each other, which the unique keys see to.\<close>

definition no_duplicates :: "env \<Rightarrow> store \<Rightarrow> bool" where
  "no_duplicates e s = (\<forall>t. sorted_wrt (\<lambda>x y. \<not> duplicates_row e t y x) (tabs s t))"

definition same_rows :: "store \<Rightarrow> store \<Rightarrow> bool" where
  "same_rows a b =
     (\<forall>t. map (\<lambda>r. map (row_get r) (table_columns t)) (tabs a t) =
          map (\<lambda>r. map (row_get r) (table_columns t)) (tabs b t))"

definition copied :: "int \<Rightarrow> tbl \<Rightarrow> string list \<Rightarrow> row \<Rightarrow> row" where
  "copied now t cols r = complete_row now t (map (\<lambda>c. (c, row_get r c)) cols)"

lemma copied_get:
  "c \<in> set (table_columns t) \<Longrightarrow> set (table_columns t) \<subseteq> set cols \<Longrightarrow> row_get (copied now t cols r) c = row_get r c"
  by (auto simp: copied_def row_get_complete all_columns_def row_get_map has_col_keys image_image)

lemma key_columns:
  "''id'' \<in> set (table_columns t)" "t = Project_members \<Longrightarrow> ''project_id'' \<in> set (table_columns t)"
  "t = Project_members \<Longrightarrow> ''user_id'' \<in> set (table_columns t)"
  by (cases t; simp)+

lemma copied_duplicates:
  assumes "set (table_columns t) \<subseteq> set cols"
  shows "duplicates_row e t (map (\<lambda>c. (c, row_get r c)) cols) (copied now t cols x) = duplicates_row e t r x"
  using assms key_columns [of t] copied_get [OF _ assms]
  by (auto simp: duplicates_row_def same_col_def row_get_map subset_iff)

lemma insert_applying:
  "db_insert e t r s = Inr s' \<Longrightarrow> applying s \<Longrightarrow> change_log s' = change_log s \<and> auto_seq s' = auto_seq s"
  by (auto simp: db_insert_def log_change_def Let_def split: option.splits)

lemma mirror_rows:
  assumes "sfold (mirror_row e t cols) rows s = Inr s'" "set (table_columns t) \<subseteq> set cols"
    and "sorted_wrt (\<lambda>x y. \<not> duplicates_row e t y x) (pre @ rows)"
    and "tabs s t = map (copied (sql_now e (ticks s)) t cols) pre"
  shows "tabs s' = (tabs s)(t := map (copied (sql_now e (ticks s)) t cols) (pre @ rows)) \<and>
    same_books s s' \<and> ticks s' = ticks s \<and>
    (applying s \<longrightarrow> change_log s' = change_log s \<and> auto_seq s' = auto_seq s)"
  using assms
proof (induction rows arbitrary: s pre)
  case Nil
  then show ?case by auto
next
  case (Cons r rows)
  let ?r = "map (\<lambda>c. (c, row_get r c)) cols"
  from Cons.prems(1) obtain s1 where s1: "mirror_row e t cols r s = Inr s1"
    "sfold (mirror_row e t cols) rows s1 = Inr s'" by auto
  have "find (duplicates_row e t ?r) (tabs s t) = None"
    using Cons.prems(2-4) by (auto simp: find_None sorted_wrt_append copied_duplicates)
  with s1(1) have ins: "db_insert e t ?r s = Inr s1" by (simp add: mirror_row_def upsert_def)
  note i = db_insert_tabs [OF ins] db_insert_books [OF ins]
  have "tabs s1 t = map (copied (sql_now e (ticks s1)) t cols) (pre @ [r])"
    using i Cons.prems(4) by (simp add: copied_def)
  from Cons.IH [OF s1(2) Cons.prems(2) _ this] Cons.prems(3)
  show ?case using i insert_applying [OF ins] same_books_trans [of s s1 s']
    by (auto simp: same_books_def)
qed

lemma cleared:
  "tabs (clear_target e s) t = []" "ticks (clear_target e s) = ticks s" "applying (clear_target e s) = applying s"
  "applying s \<Longrightarrow> change_log (clear_target e s) = change_log s \<and> auto_seq (clear_target e s) = auto_seq s"
  by (cases t; simp add: clear_target_def db_delete_def log_changes_applying)+

lemma mirror_tables:
  assumes "sfold (mirror_table e from to source) ts s = Inr s'" "no_duplicates e source" "distinct ts"
    and "\<And>t. set (table_columns t) \<subseteq> set (common_columns from to t)" "\<And>t. t \<in> set ts \<Longrightarrow> tabs s t = []"
  shows "(\<forall>t. tabs s' t = (if t \<in> set ts
      then map (copied (sql_now e (ticks s)) t (common_columns from to t)) (tabs source t) else tabs s t)) \<and>
    same_books s s' \<and> (applying s \<longrightarrow> change_log s' = change_log s \<and> auto_seq s' = auto_seq s)"
  using assms(1,3,5)
proof (induction ts arbitrary: s)
  case Nil
  then show ?case by auto
next
  case (Cons t ts)
  from Cons.prems(1) obtain s1 where s1: "mirror_table e from to source t s = Inr s1"
    "sfold (mirror_table e from to source) ts s1 = Inr s'" by auto
  have "sorted_wrt (\<lambda>x y. \<not> duplicates_row e t y x) ([] @ tabs source t)"
    using assms(2) by (simp add: no_duplicates_def)
  note m = mirror_rows [OF s1(1) [unfolded mirror_table_def] assms(4) this]
  have one: "tabs s1 = (tabs s)(t := map (copied (sql_now e (ticks s)) t (common_columns from to t)) (tabs source t))"
    "same_books s s1" "ticks s1 = ticks s" "applying s \<longrightarrow> change_log s1 = change_log s \<and> auto_seq s1 = auto_seq s"
    using m Cons.prems(3) by auto
  have "tabs s1 u = []" if "u \<in> set ts" for u
    using that Cons.prems(2,3) by (auto simp: one(1))
  with Cons.IH [OF s1(2)] Cons.prems(2) have rest:
    "\<forall>u. tabs s' u = (if u \<in> set ts
      then map (copied (sql_now e (ticks s1)) u (common_columns from to u)) (tabs source u) else tabs s1 u)"
    "same_books s1 s'" "applying s1 \<longrightarrow> change_log s' = change_log s1 \<and> auto_seq s' = auto_seq s1"
    by simp_all
  have "applying s1 = applying s" using one(2) by (simp add: same_books_def)
  with rest(2,3) one(2,4) have "same_books s s' \<and> (applying s \<longrightarrow> change_log s' = change_log s \<and> auto_seq s' = auto_seq s)"
    using same_books_trans by auto
  with rest(1) Cons.prems(2) show ?case by (simp add: one(1,3))
qed

lemma article_frame [simp]:
  "tabs (upsert_article e r upd s) = tabs s" "change_log (upsert_article e r upd s) = change_log s"
  "auto_seq (upsert_article e r upd s) = auto_seq s" "applying (upsert_article e r upd s) = applying s"
  by (simp_all add: upsert_article_def split: option.splits)

lemma article_loads:
  fixes f :: "row \<Rightarrow> row"
  shows "tabs (fold (\<lambda>r. upsert_article e (f r) upd) rs s) = tabs s"
    "change_log (fold (\<lambda>r. upsert_article e (f r) upd) rs s) = change_log s"
    "auto_seq (fold (\<lambda>r. upsert_article e (f r) upd) rs s) = auto_seq s"
    "applying (fold (\<lambda>r. upsert_article e (f r) upd) rs s) = applying s"
  by (induction rs arbitrary: s) simp_all

lemma mirror_articles_frame:
  "tabs (mirror_articles e from to source s) = tabs s" "change_log (mirror_articles e from to source s) = change_log s"
  "auto_seq (mirror_articles e from to source s) = auto_seq s" "applying (mirror_articles e from to source s) = applying s"
  unfolding mirror_articles_def Let_def by (rule article_loads)+

lemma mirror_is_a_copy:
  assumes "migrate_mirror e a from to source w = (r, w')" "no_duplicates e source" "ma_replace a" "\<not> ma_dry a"
    and "\<And>t. set (table_columns t) \<subseteq> set (common_columns from to t)"
  shows "case r of
      Inl x \<Rightarrow> w' = w
    | Inr u \<Rightarrow> same_rows (snd w') source \<and>
        (ma_applying a \<longrightarrow> change_log (snd w') = change_log (snd w) \<and> auto_seq (snd w') = auto_seq (snd w)) \<and>
        (\<not> ma_missing a \<longrightarrow> check_updated_at_utc source = [])"
proof (cases r)
  case (Inl x)
  with assms(1,4) show ?thesis
    by (auto simp: migrate_mirror_def with_connection_def split: if_splits prod.splits sum.splits)
next
  case (Inr u)
  obtain b s where w: "w = (b, s)" by fastforce
  let ?s = "s\<lparr>applying := ma_applying a\<rparr>"
  from assms(1,4) Inr w obtain s1 where body: "mirror_body e a from to source ?s = Inr ((), s1)"
    "snd w' = s1\<lparr>applying := applying s\<rparr>" and clocks: "\<not> ma_missing a \<longrightarrow> check_updated_at_utc source = []"
    by (auto simp: migrate_mirror_def with_connection_def split: if_splits prod.splits sum.splits)
  from body(1) assms(3) obtain s2 where load:
    "sfold (mirror_table e from to source) MIRROR_TABLES (clear_target e ?s) = Inr s2"
    "s1 = mirror_articles e from to source s2"
    by (auto simp: mirror_body_def)
  have all: "set MIRROR_TABLES = UNIV" "distinct MIRROR_TABLES"
    by (auto simp: MIRROR_TABLES_def intro: tbl.exhaust)
  note m = mirror_tables [OF load(1) assms(2) all(2) assms(5), unfolded all(1)]
  have "tabs s2 t = map (copied (sql_now e (ticks (clear_target e ?s))) t (common_columns from to t)) (tabs source t)" for t
    using m by (simp add: cleared)
  then have "same_rows s2 source"
    using assms(5) by (auto simp: same_rows_def copied_get)
  moreover have "ma_applying a \<longrightarrow> change_log s2 = change_log s \<and> auto_seq s2 = auto_seq s"
    using m cleared(4) [of ?s e] by (auto simp: cleared)
  ultimately show ?thesis
    using Inr body(2) load(2) clocks w by (auto simp: same_rows_def mirror_articles_frame)
qed

section \<open>Bootstrapping\<close>

lemma with_ok: "snd (with_connection b (\<lambda>s. Inr (x, f s)) s) = (f (s\<lparr>applying := b\<rparr>))\<lparr>applying := applying s\<rparr>"
  by (simp add: with_connection_def)

lemma updated_frame:
  "tabs (update_sync_state e p fs s) = tabs s" "change_log (update_sync_state e p fs s) = change_log s"
  by (auto simp: update_sync_state_def ensure_sync_state_def Let_def now_utc_def generate_id_def)

lemma baseline_cursors:
  "cursors e p (baseline e p m s) = (max_change_seq s, m, snd (snd (cursors e p s)))"
proof -
  obtain now s1 where n: "now_utc e s = (now, s1)" by fastforce
  then have "cursors e p s1 = cursors e p s" by (auto simp: now_utc_def intro: cursors_cong)
  moreover have "cursors e p (update_sync_state e p [LastPushed k, LastPulled m, LastOk x, LastError None] s1) =
      (\<lambda>(i, j, b). (k, m, b)) (cursors e p s1)" for k x
    by (rule cursors_update) simp_all
  ultimately show ?thesis by (simp add: baseline_def n case_prod_beta)
qed

lemma baseline_frame: "tabs (baseline e p m s) = tabs s" "change_log (baseline e p m s) = change_log s"
  by (simp_all add: baseline_def Let_def now_utc_def updated_frame)

lemma unblocked:
  assumes "bootstrap_blockers h owners cache missing target server = []"
  shows "\<exists>x f. h = Some x \<and> target = Some f \<and> missing = [] \<and> fp_server f \<noteq> server \<and> column_blockers f = [] \<and>
    bh_account x \<noteq> None \<and> (\<forall>i \<in> set owners. Some i = bh_account x) \<and>
    (\<exists>i. cache = Some i \<and> Some (id_account i) = bh_account x)"
proof -
  from assms have 1: "handshake_blockers h = []" "cache_blockers (remote_account h) cache = []"
    "owner_blockers (remote_account h) owners = []" "missing = []"
    "(case target of None \<Rightarrow> [NoFingerprint] | Some f \<Rightarrow> column_blockers f @ target_blockers h f) = []"
    "(case target of None \<Rightarrow> [] | Some f \<Rightarrow> if fp_server f = server then [SameDatabase] else []) = []"
    by (auto simp: bootstrap_blockers_def split: if_splits)
  from 1(1) obtain x where h: "h = Some x" "remote_account h = bh_account x" "bh_account x \<noteq> None"
    by (auto simp: handshake_blockers_def remote_account_def split: option.splits if_splits)
  with 1 show ?thesis
    by (force simp: cache_blockers_def owner_blockers_def mismatched_owners_def filter_empty_conv
        split: option.splits if_splits)
qed

lemma column_blockers_none:
  assumes "column_blockers (inspect_target e columns server s) = []"
  shows "set (table_columns t) \<subseteq> set (fst columns t)"
proof -
  have "map_of (map (\<lambda>t. (t, fst columns t)) SYNC_TABLE_ORDER) t = Some (fst columns t)"
    by (cases t) (simp_all add: SYNC_TABLE_ORDER_def)
  moreover have "t \<in> set SYNC_TABLE_ORDER" by simp
  ultimately show ?thesis
    using assms by (force simp: column_blockers_def inspect_target_def map_filter_def filter_empty_conv Let_def
        split: if_splits)
qed

lemma not_done:
  assumes "cmd_bootstrap e a b here there = (r, here', there')" "r \<noteq> Done"
  shows "here' = here \<and> there' = there"
proof -
  have "w' = w" if "migrate_mirror e a f t source w = (Inl x, w')" for a f t source w w' x
    using that by (auto simp: migrate_mirror_def with_connection_def split: if_splits prod.splits sum.splits)
  with assms show ?thesis
    by (auto simp: cmd_bootstrap_def Let_def split: if_splits prod.splits sum.splits)
qed

lemma is_done:
  assumes "cmd_bootstrap e a b here there = (Done, here', there')"
  obtains bd s1 where
    "bootstrap_blockers (bw_handshake b) (distinct_owner_ids e here) (get_local_identity e None None here)
       (check_updated_at_utc here)
       (if bw_reachable b then Some (inspect_target e (bw_there b) (bw_server_there b) (snd there)) else None)
       (bw_server_here b) = []"
    "ba_confirmed a" "\<not> ba_dry a"
    "migrate_mirror e (mirror_args_of a) (bw_here b) (bw_there b) here there = (Inr (), (bd, s1))"
    "there' = (bd, bw_remote_writes b s1)"
    "here' = snd (with_connection False (\<lambda>s. Inr ((),
       baseline e (bw_client b) (max_change_seq (bw_remote_writes b s1)) s)) (bw_local_writes b here))"
  using assms unfolding cmd_bootstrap_def Let_def
  by (auto split: if_splits prod.splits sum.splits)

text \<open>C36. Bootstrapping either overwrites nothing, on either node, or, when it was confirmed and every
  owner of the local data is the account of the server, makes the rows of the server those the
  node had, and then sets the cursors to the ends of the two logs. What other connections
  write to either node between the copy and the cursors stays as they wrote it and lies at or
  below a cursor: it counts as synchronised, although the other side does not have it.\<close>

theorem bootstrap_copies_or_leaves_alone:
  assumes "cmd_bootstrap e a b here there = (r, here', there')" "no_duplicates e here"
    and "\<And>t. set (table_columns t) \<subseteq> set (fst (bw_here b) t)"
  shows "(r \<noteq> Done \<longrightarrow> here' = here \<and> there' = there) \<and>
    (r = Done \<longrightarrow> ba_confirmed a \<and>
       (\<exists>x. bw_handshake b = Some x \<and> (\<forall>i \<in> set (distinct_owner_ids e here). Some i = bh_account x)) \<and>
       (\<exists>copy. same_rows copy here \<and> snd there' = bw_remote_writes b copy \<and>
          tabs here' = tabs (bw_local_writes b here) \<and> change_log here' = change_log (bw_local_writes b here) \<and>
          cursors e (bw_client b) here' = (max_change_seq (bw_local_writes b here),
            max_change_seq (bw_remote_writes b copy), snd (snd (cursors e (bw_client b) (bw_local_writes b here))))))"
proof (cases "r = Done")
  case False
  with not_done [OF assms(1)] show ?thesis by blast
next
  case True
  then obtain bd s1 where d:
    "bootstrap_blockers (bw_handshake b) (distinct_owner_ids e here) (get_local_identity e None None here)
       (check_updated_at_utc here)
       (if bw_reachable b then Some (inspect_target e (bw_there b) (bw_server_there b) (snd there)) else None)
       (bw_server_here b) = []"
    "ba_confirmed a" "\<not> ba_dry a"
    "migrate_mirror e (mirror_args_of a) (bw_here b) (bw_there b) here there = (Inr (), (bd, s1))"
    "there' = (bd, bw_remote_writes b s1)"
    "here' = snd (with_connection False (\<lambda>s. Inr ((),
       baseline e (bw_client b) (max_change_seq (bw_remote_writes b s1)) s)) (bw_local_writes b here))"
    using is_done [of e a b here there here' there'] assms(1) by metis
  let ?w = "bw_local_writes b here" and ?m = "max_change_seq (bw_remote_writes b s1)"
  from unblocked [OF d(1)] obtain x where x: "bw_handshake b = Some x" "bw_reachable b"
    "column_blockers (inspect_target e (bw_there b) (bw_server_there b) (snd there)) = []"
    "\<forall>i \<in> set (distinct_owner_ids e here). Some i = bh_account x"
    by (auto split: if_splits)
  have cols: "set (table_columns t) \<subseteq> set (common_columns (bw_here b) (bw_there b) t)" for t
    using assms(3) [of t] column_blockers_none [OF x(3), of t] by (auto simp: common_columns_def)
  have args: "ma_replace (mirror_args_of a)" "\<not> ma_dry (mirror_args_of a)"
    using d(3) by (simp_all add: mirror_args_of_def)
  have copy: "same_rows s1 here"
    using mirror_is_a_copy [OF d(4) assms(2) args cols] by simp
  have h: "here' = (baseline e (bw_client b) ?m (?w\<lparr>applying := False\<rparr>))\<lparr>applying := applying ?w\<rparr>"
    using d(6) by (simp add: with_ok)
  have rows: "tabs here' = tabs ?w" "change_log here' = change_log ?w"
    by (simp_all add: h baseline_frame)
  have "cursors e (bw_client b) here' = cursors e (bw_client b) (baseline e (bw_client b) ?m (?w\<lparr>applying := False\<rparr>))"
    by (rule cursors_cong) (simp add: h)
  moreover have "cursors e (bw_client b) (?w\<lparr>applying := False\<rparr>) = cursors e (bw_client b) ?w"
    by (rule cursors_cong) simp
  moreover have "max_change_seq (?w\<lparr>applying := False\<rparr>) = max_change_seq ?w"
    by (simp add: max_change_seq_def)
  ultimately have "cursors e (bw_client b) here' = (max_change_seq ?w, ?m, snd (snd (cursors e (bw_client b) ?w)))"
    by (simp add: baseline_cursors)
  with True d(2,5) x(1,4) copy rows show ?thesis by auto
qed

section \<open>Linking the identity\<close>

text \<open>The columns that name an account; every other column of a row stays.\<close>

definition account_columns :: "string list" where
  "account_columns = [''owner_id'', ''created_by'', ''user_id'', ''username'', ''display_name'', ''email'', ''updated_at'']"

definition same_elsewhere :: "store \<Rightarrow> store \<Rightarrow> bool" where
  "same_elsewhere a b =
     (\<forall>t c. c \<notin> set account_columns \<longrightarrow> map (\<lambda>r. row_get r c) (tabs a t) = map (\<lambda>r. row_get r c) (tabs b t))"

lemma same_elsewhere_trans: "same_elsewhere a b \<Longrightarrow> same_elsewhere b c \<Longrightarrow> same_elsewhere a c"
  by (simp add: same_elsewhere_def)

lemma set_elsewhere:
  assumes "db_set e t P asg s = Inr s'" "fst ` set asg \<subseteq> set account_columns"
  shows "same_elsewhere s' s"
proof -
  have "c \<notin> fst ` set (touch now t asg)" if "c \<notin> set account_columns" for c now
    using assms(2) that by (auto simp: touch_def account_columns_def)
  then show ?thesis
    by (auto simp: same_elsewhere_def db_set_tabs [OF assms(1)] row_get_update_notin)
qed

lemma set_applying:
  "db_set e t P asg s = Inr s' \<Longrightarrow> applying s \<Longrightarrow> change_log s' = change_log s"
  by (auto simp: db_set_def db_update_def log_changes_applying Let_def split: option.splits)

definition quiet_step :: "store \<Rightarrow> store \<Rightarrow> bool" where
  "quiet_step s s' = (same_elsewhere s' s \<and> same_books s s' \<and> (applying s \<longrightarrow> change_log s' = change_log s))"

lemma quiet_refl: "quiet_step s s"
  by (simp add: quiet_step_def same_elsewhere_def)

lemma quiet_trans: "quiet_step a b \<Longrightarrow> quiet_step b c \<Longrightarrow> quiet_step a c"
  using same_elsewhere_trans same_books_trans by (auto simp: quiet_step_def same_books_def)

lemma quiet_set:
  "db_set e t P asg s = Inr s' \<Longrightarrow> fst ` set asg \<subseteq> set account_columns \<Longrightarrow> quiet_step s s'"
  using set_elsewhere set_applying db_set_books by (auto simp: quiet_step_def)

lemma quiet_rewrite: "rewrite_owner e m s = Inr s' \<Longrightarrow> quiet_step s s'"
proof -
  assume "rewrite_owner e m s = Inr s'"
  then obtain old new s1 s2 where
    "db_set e Projects (col_is e ''owner_id'' old) [(''owner_id'', new_owner new)] s = Inr s1"
    "db_set e Memos (col_is e ''created_by'' old) [(''created_by'', new_owner new)] s1 = Inr s2"
    "db_set e Project_members (col_is e ''user_id'' old) [(''user_id'', new_owner new)] s2 = Inr s'"
    by (cases m) (auto simp: rewrite_owner_def IDENTITY_COLUMNS_def)
  then have "quiet_step s s1" "quiet_step s1 s2" "quiet_step s2 s'"
    by (auto intro!: quiet_set simp: account_columns_def)
  then show ?thesis using quiet_trans by blast
qed

lemma quiet_link:
  assumes "link_body e m h s = Inr ((), s')"
  shows "quiet_step s s'"
proof -
  obtain s1 where s1: "sfold (rewrite_owner e) m s = Inr s1" "refresh_members e h s1 = Inr s'"
    using assms by (auto simp: link_body_def)
  have "quiet_step s s1" using s1(1)
  proof (induction m arbitrary: s)
    case (Cons p m)
    then obtain s0 where "rewrite_owner e p s = Inr s0" "quiet_step s0 s1" by auto
    with quiet_rewrite quiet_trans show ?case by blast
  qed (simp add: quiet_refl)
  moreover have "quiet_step s1 s'" using s1(2)
    by (auto simp: refresh_members_def quiet_refl coalesce_def account_columns_def
        split: option.splits if_splits intro!: quiet_set)
  ultimately show ?thesis using quiet_trans by blast
qed

lemma distinct_by_image: "f ` set (distinct_by f xs) = f ` set xs"
proof (induction f xs rule: distinct_by.induct)
  case (2 f x xs)
  have "f ` set (x # xs) = insert (f x) (f ` set (filter (\<lambda>y. f y \<noteq> f x) xs))" by auto
  with 2 show ?case by simp
qed simp

lemma one_owner:
  assumes "distinct_owner_ids e s = [i]" "r \<in> set (tabs s Projects)" "row_get r ''owner_id'' = VStr x"
    "\<not> same_str e x []"
  shows "same_str e x i"
proof -
  let ?L = "List.map_filter (\<lambda>p. case row_str p ''owner_id'' of None \<Rightarrow> None
          | Some o' \<Rightarrow> if same_str e o' [] then None else Some o') (tabs s Projects)"
  have "set (distinct_by (collate e) ?L) = {i}"
    using assms(1) sort_str_set [of "distinct_by (collate e) ?L"] by (simp add: distinct_owner_ids_def del: sort_str_set)
  then have "collate e ` set ?L = {collate e i}" using distinct_by_image [of "collate e" ?L] by simp
  moreover have "x \<in> set ?L"
    using assms(2-4) by (force simp: set_map_filter row_str_def)
  ultimately show ?thesis by (auto simp: same_str_def)
qed

lemma all_owned:
  assumes "\<forall>r \<in> set (tabs s Projects). row_get r ''owner_id'' = VStr x" "tabs s Projects \<noteq> []"
    "\<not> same_str e x []"
  shows "distinct_owner_ids e s = [x]"
proof -
  have "List.map_filter (\<lambda>p. case row_str p ''owner_id'' of None \<Rightarrow> None
          | Some o' \<Rightarrow> if same_str e o' [] then None else Some o') rs = map (\<lambda>r. x) rs"
    if "\<forall>r \<in> set rs. row_get r ''owner_id'' = VStr x" for rs
    using that assms(3) by (induction rs) (auto simp: map_filter_simps row_str_def)
  moreover have "distinct_by (collate e) (map (\<lambda>r. x) rs) = [x]" if "rs \<noteq> []" for rs :: "row list"
  proof -
    have "filter (\<lambda>y. collate e y \<noteq> collate e x) (map (\<lambda>r. x) rs') = []" for rs' :: "row list" by simp
    with that show ?thesis by (cases rs) simp_all
  qed
  ultimately show ?thesis using assms by (simp add: distinct_owner_ids_def sort_str_def)
qed

lemma rewritten_projects:
  assumes "rewrite_owner e (old, Some new) s = Inr s'"
  shows "tabs s' Projects = map (\<lambda>r. if col_is e ''owner_id'' old r
      then row_update r (touch (sql_now e (ticks s)) Projects [(''owner_id'', VStr new)]) else r) (tabs s Projects)"
proof -
  obtain s1 s2 where
    "db_set e Projects (col_is e ''owner_id'' old) [(''owner_id'', VStr new)] s = Inr s1"
    "db_set e Memos (col_is e ''created_by'' old) [(''created_by'', VStr new)] s1 = Inr s2"
    "db_set e Project_members (col_is e ''user_id'' old) [(''user_id'', VStr new)] s2 = Inr s'"
    using assms by (auto simp: rewrite_owner_def IDENTITY_COLUMNS_def new_owner_def)
  then show ?thesis by (simp add: db_set_tabs)
qed

text \<open>
  What linking makes of a row, column by column: the column that names an account changes only
  where it named the old one; the display columns of a member row only where the member is the
  account, and only to what the server said; the stamp of the last update only in a project or a
  memo that was rewritten. Every other column stays.
\<close>

definition member_profile :: "boot_handshake \<Rightarrow> string \<Rightarrow> string option" where
  "member_profile x c = (if c = ''username'' then bh_login x else if c = ''display_name'' then bh_display x
     else if c = ''email'' then bh_email x else None)"

definition relinked :: "env \<Rightarrow> string \<Rightarrow> string \<Rightarrow> boot_handshake \<Rightarrow> tbl \<Rightarrow> row \<Rightarrow> row \<Rightarrow> bool" where
  "relinked e old acct x t r r' = (\<forall>c.
     if c = ''updated_at'' \<and> t \<in> {Projects, Memos} \<and> (\<exists>d. (t, d) \<in> set IDENTITY_COLUMNS \<and> col_is e d old r) then True
     else row_get r' c =
       (if (t, c) \<in> set IDENTITY_COLUMNS \<and> col_is e c old r then VStr acct
        else if t = Project_members \<and> (col_is e ''user_id'' old r \<or> col_is e ''user_id'' acct r) \<and>
          member_profile x c \<noteq> None then VStr (the (member_profile x c))
        else row_get r c))"

lemma has_coalesce: "has_col (coalesce c x) k \<longleftrightarrow> k = c \<and> x \<noteq> None"
  by (cases x) (auto simp: coalesce_def has_col_def)

lemma get_coalesce: "row_get (coalesce c (Some y)) c = VStr y"
  by (simp add: coalesce_def row_get_Cons)

lemma profile_row:
  "row_get (row_update r (coalesce ''username'' (bh_login x) @ coalesce ''display_name'' (bh_display x) @
       coalesce ''email'' (bh_email x))) c =
     (case member_profile x c of None \<Rightarrow> row_get r c | Some y \<Rightarrow> VStr y)"
  by (cases "bh_login x"; cases "bh_display x"; cases "bh_email x")
    (auto simp: coalesce_def member_profile_def row_get_update has_col_Cons row_get_Cons)

lemma linked_rows:
  assumes "rewrite_owner e (old, Some acct) s = Inr s1" "refresh_members e (Some x) s1 = Inr s2"
    and "bh_account x = Some acct" "acct \<noteq> []"
  shows "list_all2 (relinked e old acct x t) (tabs s t) (tabs s2 t)"
proof -
  obtain u1 u2 where u:
    "db_set e Projects (col_is e ''owner_id'' old) [(''owner_id'', VStr acct)] s = Inr u1"
    "db_set e Memos (col_is e ''created_by'' old) [(''created_by'', VStr acct)] u1 = Inr u2"
    "db_set e Project_members (col_is e ''user_id'' old) [(''user_id'', VStr acct)] u2 = Inr s1"
    using assms(1) by (auto simp: rewrite_owner_def IDENTITY_COLUMNS_def new_owner_def)
  have m: "db_set e Project_members (col_is e ''user_id'' acct)
      (coalesce ''username'' (bh_login x) @ coalesce ''display_name'' (bh_display x) @ coalesce ''email'' (bh_email x))
      s1 = Inr s2"
    using assms(2-4) by (simp add: refresh_members_def blank_def)
  note rows = db_set_tabs [OF u(1)] db_set_tabs [OF u(2)] db_set_tabs [OF u(3)] db_set_tabs [OF m]
  have here: "col_is e ''user_id'' acct (row_set r ''user_id'' (VStr acct))" for r
    by (simp add: col_is_iff)
  show ?thesis
  proof (cases t)
    case Projects
    then show ?thesis
      by (auto simp: rows list_all2_conv_all_nth relinked_def IDENTITY_COLUMNS_def touch_def row_get_update
          has_col_Cons row_get_Cons)
  next
    case Memos
    then show ?thesis
      by (auto simp: rows list_all2_conv_all_nth relinked_def IDENTITY_COLUMNS_def touch_def row_get_update
          has_col_Cons row_get_Cons)
  next
    case Memo_versions
    then show ?thesis
      by (auto simp: rows list_all2_conv_all_nth relinked_def IDENTITY_COLUMNS_def)
  next
    case Project_members
    let ?f = "\<lambda>r. if col_is e ''user_id'' old r then row_update r [(''user_id'', VStr acct)] else r"
    let ?p = "coalesce ''username'' (bh_login x) @ coalesce ''display_name'' (bh_display x) @ coalesce ''email'' (bh_email x)"
    have named: "row_get (row_update r [(''user_id'', VStr acct)]) c = (if c = ''user_id'' then VStr acct else row_get r c)"
      for r c
      by (simp add: row_get_update row_get_Cons)
    have ids: "(Project_members, c) \<in> set IDENTITY_COLUMNS \<longleftrightarrow> c = ''user_id''" for c
      by (auto simp: IDENTITY_COLUMNS_def)
    have p: "member_profile x ''user_id'' = None" by (simp add: member_profile_def)
    have linked: "relinked e old acct x Project_members r
        (if col_is e ''user_id'' acct (?f r) then row_update (?f r) ?p else ?f r)" for r
    proof (cases "col_is e ''user_id'' old r")
      case True
      then show ?thesis
        by (simp add: relinked_def here profile_row named ids p split: option.split)
    next
      case False
      then show ?thesis
        by (auto simp: relinked_def profile_row ids p split: option.split)
    qed
    have "tabs s2 Project_members = map (\<lambda>r. if col_is e ''user_id'' acct (?f r) then row_update (?f r) ?p else ?f r)
        (tabs s Project_members)"
      by (simp add: rows touch_def comp_def)
    then show ?thesis unfolding Project_members
      by (simp only: list_all2_map2 list_all2_same linked ball_triv simp_thms)
  qed
qed

text \<open>Without a map the one owner there is becomes the account of the server.\<close>

text \<open>C37. Linking the identity without a map makes the account of the server the owner of every
  project, so that the node acts for it from then on, without a log entry. In every row,
  owner_id, created_by and user_id change only where they named the one old owner; username,
  display_name and email only in member rows of the account, to what the server said;
  updated_at only in projects and memos rewritten so; every other column stays.\<close>

theorem linked_account_owns_everything:
  assumes "cmd_link_identity e a (Some x) s = (Exit 0, s')" "la_map a = []" "\<not> la_dry a"
    and "bh_account x = Some acct" "\<not> same_str e acct []"
    and "\<And>r. r \<in> set (tabs s Projects) \<Longrightarrow> row_get r ''owner_id'' = VNull \<or> row_str r ''owner_id'' \<noteq> None"
  shows "resolve_account_id e [] s' = Inr acct \<and> (\<forall>r \<in> set (tabs s' Projects). row_get r ''owner_id'' = VStr acct) \<and>
    change_log s' = change_log s \<and>
    (\<exists>old. distinct_owner_ids e s = [old] \<and> (\<forall>t. list_all2 (relinked e old acct x t) (tabs s t) (tabs s' t)))"
proof -
  obtain i where owners: "distinct_owner_ids e s = [i]" "list_all (\<lambda>n. n = 0) (null_owner_counts e s)"
    and run: "with_connection True (link_body e [(i, Some acct)] (Some x)) s = (Inr (), s')"
    using assms(1-4)
    by (auto simp: cmd_link_identity_def identity_map_def list_ex_iff list_all_iff
        split: list.splits option.splits if_splits prod.splits sum.splits)
  let ?s = "s\<lparr>applying := True\<rparr>"
  obtain s2 where body: "link_body e [(i, Some acct)] (Some x) ?s = Inr ((), s2)" "s' = s2\<lparr>applying := applying s\<rparr>"
    using run by (auto simp: with_connection_def split: sum.splits prod.splits)
  obtain s1 where s1: "rewrite_owner e (i, Some acct) ?s = Inr s1" "refresh_members e (Some x) s1 = Inr s2"
    using body(1) by (auto simp: link_body_def)
  have "tabs s2 Projects = tabs s1 Projects"
    using s1(2) by (auto simp: refresh_members_def db_set_tabs split: if_splits)
  note projects = this [unfolded rewritten_projects [OF s1(1)]]
  have owned: "col_is e ''owner_id'' i r" if r: "r \<in> set (tabs s Projects)" for r
  proof -
    have "filter (\<lambda>r. row_get r ''owner_id'' = VNull \<or> col_is e ''owner_id'' [] r) (tabs s Projects) = []"
      using owners(2) by (simp add: null_owner_counts_def IDENTITY_COLUMNS_def)
    with r have "row_get r ''owner_id'' \<noteq> VNull" "\<not> col_is e ''owner_id'' [] r" by (auto simp: filter_empty_conv)
    with assms(6) [OF r] obtain o' where "row_get r ''owner_id'' = VStr o'" "\<not> same_str e o' []"
      by (auto simp: row_str_VStr col_is_iff)
    with one_owner [OF owners(1) r] show ?thesis by (simp add: col_is_iff)
  qed
  have all: "\<forall>r \<in> set (tabs s2 Projects). row_get r ''owner_id'' = VStr acct"
    using owned by (auto simp: projects touch_def row_get_update row_get_Cons)
  moreover have "tabs s2 Projects \<noteq> []"
    using owners(1) by (auto simp: projects distinct_owner_ids_def sort_str_def)
  ultimately have "distinct_owner_ids e s2 = [acct]" using all_owned assms(5) by blast
  then have "resolve_account_id e [] s' = Inr acct"
    by (simp add: resolve_account_id_def body(2) distinct_owner_ids_def)
  moreover have "quiet_step ?s s2" by (rule quiet_link [OF body(1)])
  moreover have "acct \<noteq> []" using assms(5) by (auto simp: same_str_def)
  note linked_rows [OF s1 assms(4) this]
  ultimately show ?thesis using all owners(1)
    by (simp add: body(2) quiet_step_def)
qed

section \<open>The laws at work\<close>

definition full_schema :: schema where
  "full_schema = (all_columns, [])"

definition home_node :: store where
  "home_node = (memo_node ''old'' 0)\<lparr>identities :=
     [\<lparr>id_account = ''ann'', id_login = None, id_display = None, id_email = None, id_permission = ''user'',
       id_issuer = None, id_verified = 0, id_updated = 0\<rparr>]\<rparr>"

definition vouched :: boot_handshake where
  "vouched = \<lparr>bh_schema = Some 2, bh_tables = Some declared_tables, bh_account = Some ''ann'',
     bh_identity = Some (Some ''ann''), bh_login = None, bh_display = None, bh_email = None,
     bh_permission = Some ''user'', bh_kind = Some ''service'', bh_owners = [], bh_max = Some 0\<rparr>"

definition sure :: boot_args where
  "sure = \<lparr>ba_dry = False, ba_confirmed = True, ba_yes = True, ba_answer = False, ba_skip_dump = True,
     ba_dumped = False\<rparr>"

definition quiet_world :: boot_world where
  "quiet_world = \<lparr>bw_client = ''laptop'', bw_here = full_schema, bw_there = full_schema,
     bw_server_here = ''a'', bw_server_there = ''b'', bw_handshake = Some vouched, bw_reachable = True,
     bw_local_writes = (\<lambda>s. s), bw_remote_writes = (\<lambda>s. s)\<rparr>"

definition bare_target :: desk_state where
  "bare_target = (\<lparr>types = [], completions = []\<rparr>, empty_store)"

text \<open>A memo saved while the copy is made.\<close>

definition saves_meanwhile :: "store \<Rightarrow> store" where
  "saves_meanwhile s =
     (case db_set sample_env Memos (id_is sample_env ''m'')
        [(''content'', VStr ''new''), (''updated_at_utc'', VTime 5)] s of Inl x \<Rightarrow> s | Inr s' \<Rightarrow> s')"

definition busy_world :: boot_world where
  "busy_world = quiet_world\<lparr>bw_local_writes := saves_meanwhile\<rparr>"

lemma home_rows: "no_duplicates sample_env home_node"
  by (auto simp: no_duplicates_def home_node_def memo_node_def sample_store_def)

lemma full_columns: "set (table_columns t) \<subseteq> set (common_columns full_schema full_schema t)"
  by (auto simp: common_columns_def full_schema_def all_columns_def)

lemma home_bootstraps:
  "fst (cmd_bootstrap sample_env sure quiet_world home_node bare_target) = Done"
  by code_simp

theorem bootstrap_copies_or_leaves_alone_witness:
  "case cmd_bootstrap sample_env sure quiet_world home_node bare_target of (r, here', there') \<Rightarrow>
     r = Done \<and> same_rows (snd there') home_node \<and> tabs here' = tabs home_node"
proof -
  obtain r here' there' where run:
    "cmd_bootstrap sample_env sure quiet_world home_node bare_target = (r, here', there')"
    by (metis prod.collapse)
  have "set (table_columns t) \<subseteq> set (fst (bw_here quiet_world) t)" for t
    by (auto simp: quiet_world_def full_schema_def all_columns_def)
  with bootstrap_copies_or_leaves_alone [OF run home_rows] run home_bootstraps show ?thesis
    by (auto simp: quiet_world_def)
qed

text \<open>The save made meanwhile lies behind the watermark, and the target never gets it.\<close>

lemma late_save_is_skipped:
  "case cmd_bootstrap sample_env sure busy_world home_node bare_target of (r, here', there') \<Rightarrow>
     r = Done \<and> fst (cursors sample_env ''laptop'' here') = max_change_seq here' \<and>
     map (\<lambda>m. row_get m ''content'') (tabs here' Memos) = [VStr ''new''] \<and>
     map (\<lambda>m. row_get m ''content'') (tabs (snd there') Memos) = [VStr ''old'']"
  by code_simp

definition linking :: link_args where
  "linking = \<lparr>la_map = [], la_dry = False, la_yes = True, la_answer = False\<rparr>"

lemma home_links:
  "fst (cmd_link_identity sample_env linking (Some (vouched\<lparr>bh_account := Some ''bob''\<rparr>)) home_node) = Exit 0"
  by code_simp

theorem linked_account_owns_everything_witness:
  "\<exists>s'. cmd_link_identity sample_env linking (Some (vouched\<lparr>bh_account := Some ''bob''\<rparr>)) home_node = (Exit 0, s') \<and>
     resolve_account_id sample_env [] s' = Inr ''bob''"
proof -
  obtain s' where run:
    "cmd_link_identity sample_env linking (Some (vouched\<lparr>bh_account := Some ''bob''\<rparr>)) home_node = (Exit 0, s')"
    using home_links by (metis prod.collapse)
  have "resolve_account_id sample_env [] s' = Inr ''bob'' \<and>
      (\<forall>r \<in> set (tabs s' Projects). row_get r ''owner_id'' = VStr ''bob'') \<and> change_log s' = change_log home_node \<and>
      (\<exists>old. distinct_owner_ids sample_env home_node = [old] \<and>
         (\<forall>t. list_all2 (relinked sample_env old ''bob'' (vouched\<lparr>bh_account := Some ''bob''\<rparr>) t)
           (tabs home_node t) (tabs s' t)))"
    by (rule linked_account_owns_everything [OF run])
      (auto simp: linking_def same_str_def sample_env_def lax_env_def home_node_def memo_node_def
        sample_store_def sample_project_def row_str_def row_get_Cons)
  with run show ?thesis by blast
qed

text \<open>Linked again, the member row of the account collides with itself.\<close>

definition member_node :: store where
  "member_node = home_node\<lparr>tabs := (tabs home_node)(Project_members :=
     [[(''id'', VStr ''x''), (''project_id'', VStr ''p''), (''user_id'', VStr ''ann''), (''role'', VStr ''owner''),
       (''invited_at'', VTime 0), (''updated_at_utc'', VTime 0), (''deleted_at'', VNull)]])\<rparr>"

lemma linking_twice_is_refused:
  "cmd_link_identity sample_env linking (Some vouched) member_node = (Stopped ''project_members'', member_node)"
proof -
  have "fst (cmd_link_identity sample_env linking (Some vouched) member_node) = Stopped ''project_members''"
    by code_simp
  then show ?thesis
    by (auto simp: cmd_link_identity_def split: sum.splits option.splits if_splits prod.splits)
qed

end
