(* ===== verification/Upgrade.thy ===== *)
theory Upgrade
  imports Access
begin

text \<open>
  \<^verbatim>\<open>init_db\<close> of \<^verbatim>\<open>src/connectors/__init__.py\<close>: bringing a database of any age to the present schema.
  A statement is a value of \<open>stmt\<close> and \<open>exec\<close> is what the engine does with it; the steps of the
  upgrade are the list \<open>upgrade_script\<close>, in the order of the source. All of it runs with
  \<open>@sync_applying\<close> set, so no trigger fires. What a failed upgrade leaves is not modelled.
\<close>

section \<open>A database and the statements on it\<close>

text \<open>\<open>co_default\<close> is a constant default; that of a clock matters to later inserts only.\<close>

record column =
  co_type :: string
  co_null :: bool
  co_default :: val

record table =
  tb_columns :: "(string \<times> column) list"
  tb_key :: "string list"
  tb_indexes :: "string list"
  tb_foreign :: "(string \<times> string) list"
  tb_rows :: "row list"

record db =
  db_tables :: "(string \<times> table) list"
  db_triggers :: "(string \<times> string) list"

definition required :: "string \<Rightarrow> column" where
  "required ty = \<lparr>co_type = ty, co_null = False, co_default = VNull\<rparr>"

definition optional :: "string \<Rightarrow> column" where
  "optional ty = \<lparr>co_type = ty, co_null = True, co_default = VNull\<rparr>"

definition defaulted :: "string \<Rightarrow> bool \<Rightarrow> val \<Rightarrow> column" where
  "defaulted ty n v = \<lparr>co_type = ty, co_null = n, co_default = v\<rparr>"

datatype cond = IsNull | IsBlank | Is string

datatype filler = Converted string | UtcNow | NewUuid | Zero | HashOf string | Text string

datatype stmt =
    CreateTable string "(string \<times> column) list" "string list" "string list" "(string \<times> string) list"
  | AddColumn string string column "string option"
  | AddIndex string string string
  | Modify string string column
  | UpdateWhere string string cond filler
  | SetKey string "string list"

datatype sql_error = NoTable | NoColumn | DuplicateColumn | DuplicateIndex | NullInColumn | DuplicateKey

text \<open>The moment of the upgrade: the two clocks of the engine, \<open>UUID()\<close> for a row, and \<open>SHA2\<close>.\<close>

record moment =
  mo_utc :: int
  mo_now :: int
  mo_uuid :: "row \<Rightarrow> string"
  mo_sha2 :: "val \<Rightarrow> string"

fun holds :: "env \<Rightarrow> cond \<Rightarrow> val \<Rightarrow> bool" where
  "holds e IsNull v = (v = VNull)"
| "holds e IsBlank v = (v = VNull \<or> sql_eq e v (VStr []))"
| "holds e (Is x) v = sql_eq e v (VStr x)"

fun fill :: "moment \<Rightarrow> filler \<Rightarrow> row \<Rightarrow> val" where
  "fill m (Converted c) r = (case row_get r c of VTime w \<Rightarrow> VTime (w - 9 * 3600 * 1000000) | _ \<Rightarrow> VNull)"
| "fill m UtcNow r = VTime (mo_utc m)"
| "fill m NewUuid r = VStr (mo_uuid m r)"
| "fill m Zero r = VInt 0"
| "fill m (HashOf c) r = VStr (mo_sha2 m (row_get r c))"
| "fill m (Text x) r = VStr x"

fun source_columns :: "filler \<Rightarrow> string list" where
  "source_columns (Converted c) = [c]"
| "source_columns (HashOf c) = [c]"
| "source_columns f = []"

text \<open>A row that gets a new value is stamped: \<open>updated_at\<close> is \<open>ON UPDATE CURRENT_TIMESTAMP\<close>.\<close>

definition fill_row :: "env \<Rightarrow> moment \<Rightarrow> bool \<Rightarrow> string \<Rightarrow> cond \<Rightarrow> filler \<Rightarrow> row \<Rightarrow> row" where
  "fill_row e m stamped c w f r =
     (if holds e w (row_get r c) \<and> fill m f r \<noteq> row_get r c
      then row_set (if stamped \<and> c \<noteq> ''updated_at'' then row_set r ''updated_at'' (VTime (mo_now m)) else r)
             c (fill m f r)
      else r)"

fun insert_after :: "string \<Rightarrow> string \<times> column \<Rightarrow> (string \<times> column) list \<Rightarrow> (string \<times> column) list" where
  "insert_after a p [] = [p]"
| "insert_after a p (q # qs) = (if fst q = a then q # p # qs else q # insert_after a p qs)"

definition add_column :: "string \<Rightarrow> column \<Rightarrow> string option \<Rightarrow> table \<Rightarrow> sql_error + table" where
  "add_column c k a tb =
     (if a \<noteq> None \<and> map_of (tb_columns tb) (the a) = None then Inl NoColumn
      else if map_of (tb_columns tb) c \<noteq> None then Inl DuplicateColumn
      else Inr (tb\<lparr>tb_columns := (case a of None \<Rightarrow> (c, k) # tb_columns tb
                                  | Some x \<Rightarrow> insert_after x (c, k) (tb_columns tb)),
                   tb_rows := map (\<lambda>r. row_set r c (co_default k)) (tb_rows tb)\<rparr>))"

definition add_index :: "string \<Rightarrow> string \<Rightarrow> table \<Rightarrow> sql_error + table" where
  "add_index i c tb =
     (if map_of (tb_columns tb) c = None then Inl NoColumn
      else if i \<in> set (tb_indexes tb) then Inl DuplicateIndex
      else Inr (tb\<lparr>tb_indexes := tb_indexes tb @ [i]\<rparr>))"

definition modify_column :: "string \<Rightarrow> column \<Rightarrow> table \<Rightarrow> sql_error + table" where
  "modify_column c k tb =
     (if map_of (tb_columns tb) c = None then Inl NoColumn
      else if \<not> co_null k \<and> list_ex (\<lambda>r. row_get r c = VNull) (tb_rows tb) then Inl NullInColumn
      else Inr (tb\<lparr>tb_columns := AList.update c k (tb_columns tb)\<rparr>))"

definition update_rows :: "env \<Rightarrow> moment \<Rightarrow> string \<Rightarrow> cond \<Rightarrow> filler \<Rightarrow> table \<Rightarrow> sql_error + table" where
  "update_rows e m c w f tb =
     (if list_ex (\<lambda>x. map_of (tb_columns tb) x = None) (c # source_columns f) then Inl NoColumn
      else Inr (tb\<lparr>tb_rows := map (fill_row e m (map_of (tb_columns tb) ''updated_at'' \<noteq> None) c w f) (tb_rows tb)\<rparr>))"

fun key_val :: "env \<Rightarrow> val \<Rightarrow> val" where
  "key_val e (VStr x) = VStr (collate e x)"
| "key_val e v = v"

definition set_key :: "env \<Rightarrow> string list \<Rightarrow> table \<Rightarrow> sql_error + table" where
  "set_key e cs tb =
     (if list_ex (\<lambda>x. map_of (tb_columns tb) x = None) cs then Inl NoColumn
      else if \<not> distinct (map (\<lambda>r. map (\<lambda>c. key_val e (row_get r c)) cs) (tb_rows tb)) then Inl DuplicateKey
      else Inr (tb\<lparr>tb_key := cs\<rparr>))"

definition on_table :: "string \<Rightarrow> (table \<Rightarrow> sql_error + table) \<Rightarrow> db \<Rightarrow> sql_error + db" where
  "on_table t f d =
     (case map_of (db_tables d) t of
        None \<Rightarrow> Inl NoTable
      | Some tb \<Rightarrow> (case f tb of Inl x \<Rightarrow> Inl x
                    | Inr tb' \<Rightarrow> Inr (d\<lparr>db_tables := AList.update t tb' (db_tables d)\<rparr>)))"

fun exec :: "env \<Rightarrow> moment \<Rightarrow> stmt \<Rightarrow> db \<Rightarrow> sql_error + db" where
  "exec e m (CreateTable t cs key ixs fks) d =
     (if map_of (db_tables d) t \<noteq> None then Inr d
      else Inr (d\<lparr>db_tables := db_tables d @ [(t, \<lparr>tb_columns = cs, tb_key = key, tb_indexes = ixs,
                   tb_foreign = fks, tb_rows = []\<rparr>)]\<rparr>))"
| "exec e m (AddColumn t c k a) d = on_table t (add_column c k a) d"
| "exec e m (AddIndex t i c) d = on_table t (add_index i c) d"
| "exec e m (Modify t c k) d = on_table t (modify_column c k) d"
| "exec e m (UpdateWhere t c w f) d = on_table t (update_rows e m c w f) d"
| "exec e m (SetKey t cs) d = on_table t (set_key e cs) d"

section \<open>The steps of the upgrade\<close>

text \<open>
  \<open>Run\<close> raises whatever the engine says, \<open>Attempt\<close> is \<open>_try_ddl\<close>, \<open>Ignored\<close> is a \<open>try\<close> whose
  \<open>except\<close> passes. \<open>Backfill\<close> is the body of the loop over the tables.
\<close>

datatype step =
    Run stmt
  | Attempt stmt
  | Ignored "stmt list"
  | DropUserKeys
  | Backfill string string
  | ReceiptsKey
  | ChangeLogTriggers

definition try_ddl :: "env \<Rightarrow> moment \<Rightarrow> stmt \<Rightarrow> db \<Rightarrow> sql_error + db" where
  "try_ddl e m s d =
     (case exec e m s d of
        Inl x \<Rightarrow> if x = DuplicateColumn \<or> x = DuplicateIndex then Inr d else Inl x
      | Inr d' \<Rightarrow> Inr d')"

fun ignoring :: "env \<Rightarrow> moment \<Rightarrow> stmt list \<Rightarrow> db \<Rightarrow> db" where
  "ignoring e m [] d = d"
| "ignoring e m (s # ss) d = (case exec e m s d of Inl x \<Rightarrow> d | Inr d' \<Rightarrow> ignoring e m ss d')"

definition drop_user_keys :: "env \<Rightarrow> db \<Rightarrow> db" where
  "drop_user_keys e d =
     d\<lparr>db_tables := map (\<lambda>(t, tb).
          (t, tb\<lparr>tb_foreign := filter (\<lambda>(n, r). \<not> same_str e r ''users'') (tb_foreign tb)\<rparr>)) (db_tables d)\<rparr>"

definition CLOCK_TYPE :: string where "CLOCK_TYPE = ''DATETIME(3)''"
definition HASH_TYPE :: string where "HASH_TYPE = ''CHAR(64) ascii_bin''"

definition backfill_table :: "env \<Rightarrow> moment \<Rightarrow> string \<Rightarrow> string \<Rightarrow> db \<Rightarrow> sql_error + db" where
  "backfill_table e m t src d =
     sbind (try_ddl e m (UpdateWhere t ''updated_at_utc'' IsNull (Converted src)) d) (\<lambda>d1.
     sbind (try_ddl e m (UpdateWhere t ''updated_at_utc'' IsNull UtcNow) d1)
       (try_ddl e m (Modify t ''updated_at_utc'' (required CLOCK_TYPE))))"

definition RECEIPT_KEY :: "string list" where
  "RECEIPT_KEY = [''account_id'', ''client_id'', ''source_seq'']"

definition has_column :: "string \<Rightarrow> string \<Rightarrow> db \<Rightarrow> bool" where
  "has_column t c d = (case map_of (db_tables d) t of None \<Rightarrow> False | Some tb \<Rightarrow> map_of (tb_columns tb) c \<noteq> None)"

definition primary_key :: "string \<Rightarrow> db \<Rightarrow> string list" where
  "primary_key t d = (case map_of (db_tables d) t of None \<Rightarrow> [] | Some tb \<Rightarrow> tb_key tb)"

definition ensure_receipts_account_key :: "env \<Rightarrow> moment \<Rightarrow> db \<Rightarrow> sql_error + db" where
  "ensure_receipts_account_key e m d =
     sbind (if has_column ''sync_receipts'' ''account_id'' d then Inr d
            else exec e m (AddColumn ''sync_receipts'' ''account_id''
                   (defaulted ''VARCHAR(50)'' False (VStr ''__legacy__'')) None) d) (\<lambda>d1.
     sbind (exec e m (Modify ''sync_receipts'' ''account_id'' (required ''VARCHAR(50)'')) d1) (\<lambda>d2.
     sbind (exec e m (Modify ''sync_receipts'' ''payload_hash'' (required HASH_TYPE)) d2) (\<lambda>d3.
       if primary_key ''sync_receipts'' d3 \<noteq> RECEIPT_KEY then exec e m (SetKey ''sync_receipts'' RECEIPT_KEY) d3
       else Inr d3)))"

definition TRIGGER_OPS :: "(string \<times> string \<times> string) list" where
  "TRIGGER_OPS = [(''insert'', ''ai'', ''NEW''), (''update'', ''au'', ''NEW''), (''delete'', ''ad'', ''OLD'')]"

definition trigger_name :: "string \<Rightarrow> string \<Rightarrow> string" where
  "trigger_name t suffix = ''trg_'' @ t @ ''_'' @ suffix @ ''_change_log''"

definition trigger_body :: "string \<Rightarrow> string \<Rightarrow> string \<Rightarrow> string" where
  "trigger_body t o' alias =
     ''BEGIN IF @sync_applying IS NULL THEN INSERT INTO change_log (table_name, row_id, op, changed_at_utc) VALUES ('' @
     [CHR 0x27] @ t @ [CHR 0x27] @ '', '' @ alias @ ''.id, '' @ [CHR 0x27] @ o' @ [CHR 0x27] @
     '', UTC_TIMESTAMP(3)); END IF; END''"

definition triggers :: "(string \<times> string) list" where
  "triggers = concat (map (\<lambda>t. map (\<lambda>(o', suffix, alias).
     (trigger_name (tbl_name t) suffix, trigger_body (tbl_name t) o' alias)) TRIGGER_OPS) SYNC_TABLE_ORDER)"

text \<open>\<open>" ".join(s.split())\<close>\<close>

fun words :: "string \<Rightarrow> string \<Rightarrow> string list" where
  "words acc [] = (if acc = [] then [] else [rev acc])"
| "words acc (x # xs) =
     (if ws_char x then (if acc = [] then words [] xs else rev acc # words [] xs) else words (x # acc) xs)"

fun join_words :: "string list \<Rightarrow> string" where
  "join_words [] = []"
| "join_words [w] = w"
| "join_words (w # ws) = w @ '' '' @ join_words ws"

definition normalize_sql :: "string \<Rightarrow> string" where
  "normalize_sql s = join_words (words [] s)"

definition place_trigger :: "(string \<times> string) list \<Rightarrow> string \<times> string \<Rightarrow> (string \<times> string) list \<Rightarrow> (string \<times> string) list" where
  "place_trigger existing = (\<lambda>(n, body) ts.
     (case map_of existing n of
        None \<Rightarrow> ts @ [(n, body)]
      | Some b \<Rightarrow> if normalize_sql b = normalize_sql body then ts else AList.delete n ts @ [(n, body)]))"

definition init_change_log_triggers :: "db \<Rightarrow> db" where
  "init_change_log_triggers d = d\<lparr>db_triggers := fold (place_trigger (db_triggers d)) triggers (db_triggers d)\<rparr>"

fun run_step :: "env \<Rightarrow> moment \<Rightarrow> step \<Rightarrow> db \<Rightarrow> sql_error + db" where
  "run_step e m (Run s) d = exec e m s d"
| "run_step e m (Attempt s) d = try_ddl e m s d"
| "run_step e m (Ignored ss) d = Inr (ignoring e m ss d)"
| "run_step e m DropUserKeys d = Inr (drop_user_keys e d)"
| "run_step e m (Backfill t src) d = backfill_table e m t src d"
| "run_step e m ReceiptsKey d = ensure_receipts_account_key e m d"
| "run_step e m ChangeLogTriggers d = Inr (init_change_log_triggers d)"

section \<open>The script\<close>

abbreviation "Str50 \<equiv> ''VARCHAR(50)''"
abbreviation "Str255 \<equiv> ''VARCHAR(255)''"

definition BASE_TABLES :: "step list" where
  "BASE_TABLES = map Run
    [CreateTable ''projects''
       [(''id'', required Str50), (''name'', required Str255), (''icon'', required ''VARCHAR(10)''),
        (''status'', defaulted ''INT'' False (VInt 0)), (''is_secret'', defaulted ''BOOLEAN'' True (VInt 0)),
        (''password'', optional Str255), (''created_at'', required ''DATETIME''), (''updated_at'', required ''DATETIME''),
        (''updated_at_utc'', required CLOCK_TYPE), (''deleted_at'', optional CLOCK_TYPE)] [''id''] [] [],
     CreateTable ''memos''
       [(''id'', required Str50), (''project_id'', required Str50), (''title'', required Str255),
        (''content'', optional ''LONGTEXT''), (''status'', defaulted ''INT'' False (VInt 0)),
        (''deleted_at'', optional CLOCK_TYPE), (''created_at'', required ''DATETIME''),
        (''updated_at'', required ''DATETIME''), (''updated_at_utc'', required CLOCK_TYPE)]
       [''id''] [''idx_project_id''] [(''memos_ibfk_1'', ''projects'')],
     CreateTable ''memo_versions''
       [(''id'', required Str50), (''memo_id'', required Str50), (''content'', optional ''LONGTEXT''),
        (''version'', required ''INT''), (''note'', optional Str255), (''created_at'', required ''DATETIME''),
        (''updated_at_utc'', required CLOCK_TYPE)]
       [''id''] [''idx_memo_id'', ''idx_memo_version''] [(''memo_versions_ibfk_1'', ''memos'')],
     CreateTable ''articles''
       [(''id'', required Str50), (''memo_id'', required Str50), (''project_id'', required Str50),
        (''author_id'', required Str50), (''author_slug'', required ''VARCHAR(100)''), (''title'', required Str255),
        (''content'', optional ''LONGTEXT''), (''published_version'', defaulted ''INT'' False (VInt 1)),
        (''created_at'', required ''DATETIME''), (''published_at'', required ''DATETIME''),
        (''updated_at'', required ''DATETIME'')]
       [''id''] [''uk_memo_id'', ''idx_author_slug'', ''idx_author_id'', ''idx_project_id'', ''idx_published_at'']
       [(''articles_ibfk_1'', ''memos''), (''articles_ibfk_2'', ''projects'')],
     CreateTable ''project_members''
       [(''id'', required Str50), (''project_id'', required Str50), (''user_id'', required Str50),
        (''username'', optional Str255), (''display_name'', optional Str255), (''email'', optional Str255),
        (''role'', defaulted ''VARCHAR(20)'' False (VStr ''viewer'')), (''invited_at'', required ''DATETIME''),
        (''updated_at_utc'', required CLOCK_TYPE), (''deleted_at'', optional CLOCK_TYPE)]
       [''id''] [''uk_project_user'', ''idx_user_id''] [(''project_members_ibfk_1'', ''projects'')]]"

definition OLD_COLUMNS :: "step list" where
  "OLD_COLUMNS = map (\<lambda>s. Ignored [s])
    [AddColumn ''memos'' ''deleted_at'' (optional ''DATETIME'') (Some ''content''),
     AddColumn ''projects'' ''status'' (defaulted ''INT'' False (VInt 0)) (Some ''icon''),
     AddColumn ''memos'' ''status'' (defaulted ''INT'' False (VInt 0)) (Some ''content''),
     AddColumn ''projects'' ''owner_id'' (optional Str50) (Some ''id''),
     AddColumn ''memos'' ''created_by'' (optional Str50) (Some ''project_id''),
     AddColumn ''project_members'' ''username'' (optional Str255) (Some ''user_id''),
     AddColumn ''project_members'' ''display_name'' (optional Str255) (Some ''username''),
     AddColumn ''project_members'' ''email'' (optional Str255) (Some ''display_name''),
     AddColumn ''articles'' ''author_id'' (optional Str50) (Some ''project_id''),
     AddColumn ''articles'' ''author_slug'' (optional ''VARCHAR(100)'') (Some ''author_id''),
     AddIndex ''articles'' ''idx_author_slug'' ''author_slug'',
     AddIndex ''articles'' ''idx_author_id'' ''author_id'']"

definition OLD_VALUES :: "step list" where
  "OLD_VALUES =
    [DropUserKeys,
     Ignored [Modify ''project_members'' ''role'' (defaulted ''VARCHAR(20)'' False (VStr ''viewer'')),
              UpdateWhere ''project_members'' ''role'' (Is ''member'') (Text ''viewer''),
              UpdateWhere ''project_members'' ''role'' (Is ''admin'') (Text ''owner'')],
     Ignored [UpdateWhere ''articles'' ''author_id'' IsNull (Text []),
              UpdateWhere ''articles'' ''author_slug'' IsNull (Text ''legacy'')]]"

definition TASK_TABLES :: "step list" where
  "TASK_TABLES = map Run
    [CreateTable ''daily_task_types''
       [(''id'', required Str50), (''name'', required Str255), (''icon'', defaulted ''VARCHAR(10)'' True (VStr [])),
        (''color'', defaulted ''VARCHAR(20)'' True (VStr ''#3994ef'')),
        (''display_order'', defaulted ''INT'' True (VInt 0)), (''is_active'', defaulted ''BOOLEAN'' True (VInt 1)),
        (''created_at'', required ''DATETIME''), (''updated_at'', required ''DATETIME'')] [''id''] [''name''] [],
     CreateTable ''daily_task_completions''
       [(''id'', required Str50), (''task_type_id'', required Str50), (''completed_date'', required ''DATE''),
        (''total_active_count'', required ''INT''), (''created_at'', required ''DATETIME'')]
       [''id''] [''uk_task_date'', ''idx_completed_date'']
       [(''daily_task_completions_ibfk_1'', ''daily_task_types'')]]"

definition SYNC_ADDITIVE_DDL :: "step list" where
  "SYNC_ADDITIVE_DDL = map Attempt
    [AddColumn ''projects'' ''updated_at_utc'' (optional CLOCK_TYPE) (Some ''updated_at''),
     AddColumn ''memos'' ''updated_at_utc'' (optional CLOCK_TYPE) (Some ''updated_at''),
     AddColumn ''memo_versions'' ''updated_at_utc'' (optional CLOCK_TYPE) (Some ''created_at''),
     AddColumn ''project_members'' ''updated_at_utc'' (optional CLOCK_TYPE) (Some ''invited_at''),
     AddColumn ''projects'' ''deleted_at'' (optional CLOCK_TYPE) (Some ''updated_at_utc''),
     AddColumn ''project_members'' ''deleted_at'' (optional CLOCK_TYPE) (Some ''updated_at_utc''),
     Modify ''memos'' ''deleted_at'' (optional CLOCK_TYPE),
     AddColumn ''memo_versions'' ''note'' (optional Str255) (Some ''version''),
     AddIndex ''memos'' ''idx_memos_updated_at_utc'' ''updated_at_utc'',
     AddIndex ''projects'' ''idx_projects_updated_at_utc'' ''updated_at_utc'']"

definition UTC_BACKFILL_SOURCE :: "(string \<times> string) list" where
  "UTC_BACKFILL_SOURCE = [(''projects'', ''updated_at''), (''memos'', ''updated_at''),
     (''memo_versions'', ''created_at''), (''project_members'', ''invited_at'')]"

definition SYNC_TABLES :: "step list" where
  "SYNC_TABLES = map Run
    [CreateTable ''change_log''
       [(''seq'', required ''BIGINT''), (''table_name'', required ''VARCHAR(64)''), (''row_id'', required Str50),
        (''op'', required ''ENUM''), (''changed_at_utc'', required CLOCK_TYPE)] [''seq''] [''idx_change_log_row''] [],
     CreateTable ''sync_state''
       [(''peer'', required ''VARCHAR(64)''), (''last_pushed_seq'', defaulted ''BIGINT'' False (VInt 0)),
        (''last_pulled_seq'', defaulted ''BIGINT'' False (VInt 0)), (''client_epoch'', required Str50),
        (''last_ok_at'', optional CLOCK_TYPE), (''last_error'', optional ''TEXT''),
        (''paused'', defaulted ''TINYINT(1)'' False (VInt 0)), (''updated_at_utc'', required CLOCK_TYPE)] [''peer''] [] [],
     CreateTable ''sync_issues''
       [(''id'', required Str50), (''kind'', required ''VARCHAR(32)''), (''ref_table'', optional ''VARCHAR(64)''),
        (''ref_id'', optional Str50), (''peer_ref_id'', optional Str50), (''detail'', optional ''JSON''),
        (''detected_at'', required CLOCK_TYPE), (''resolved_at'', optional CLOCK_TYPE)]
       [''id''] [''idx_sync_issues_kind'', ''idx_sync_issues_ref''] [],
     CreateTable ''local_identity''
       [(''account_id'', required Str50), (''login_id'', optional Str255), (''display_name'', optional Str255),
        (''email'', optional Str255), (''permission'', defaulted ''VARCHAR(20)'' False (VStr ''visitor'')),
        (''issuer'', optional Str255), (''verified_at_utc'', required CLOCK_TYPE),
        (''updated_at_utc'', required CLOCK_TYPE)] [''account_id''] [] [],
     CreateTable ''sync_row_state''
       [(''peer'', required ''VARCHAR(64)''), (''table_name'', required ''VARCHAR(64)''), (''row_id'', required Str50),
        (''last_seen_updated_at_utc'', optional CLOCK_TYPE),
        (''last_seen_peer_seq'', defaulted ''BIGINT'' False (VInt 0))] [''peer'', ''table_name'', ''row_id''] [] [],
     CreateTable ''sync_retry_queue''
       [(''peer'', required ''VARCHAR(64)''), (''direction'', required ''VARCHAR(8)''), (''seq'', required ''BIGINT''),
        (''table_name'', required ''VARCHAR(64)''), (''row_id'', required Str50), (''payload'', required ''JSON''),
        (''payload_hash'', required HASH_TYPE), (''reason'', optional ''TEXT''),
        (''attempts'', defaulted ''INT'' False (VInt 0)), (''first_seen_at'', required CLOCK_TYPE),
        (''last_attempt_at'', optional CLOCK_TYPE)] [''peer'', ''direction'', ''seq''] [] [],
     CreateTable ''sync_receipts''
       [(''account_id'', required Str50), (''client_id'', required ''VARCHAR(128)''),
        (''source_seq'', required ''BIGINT''), (''payload_hash'', required HASH_TYPE), (''outcome'', required ''JSON''),
        (''created_at'', required CLOCK_TYPE)] RECEIPT_KEY [] []]"

definition SYNC_UPGRADE :: "step list" where
  "SYNC_UPGRADE =
    [Attempt (AddColumn ''sync_state'' ''client_epoch'' (optional Str50) (Some ''last_pulled_seq'')),
     Run (UpdateWhere ''sync_state'' ''client_epoch'' IsBlank NewUuid),
     Run (Modify ''sync_state'' ''client_epoch'' (required Str50)),
     Attempt (AddColumn ''sync_row_state'' ''last_seen_peer_seq'' (defaulted ''BIGINT'' False (VInt 0))
       (Some ''last_seen_updated_at_utc'')),
     Run (UpdateWhere ''sync_row_state'' ''last_seen_peer_seq'' IsNull Zero),
     Run (Modify ''sync_row_state'' ''last_seen_peer_seq'' (defaulted ''BIGINT'' False (VInt 0))),
     Attempt (AddColumn ''sync_retry_queue'' ''payload_hash'' (optional HASH_TYPE) (Some ''payload'')),
     Run (UpdateWhere ''sync_retry_queue'' ''payload_hash'' IsNull (HashOf ''payload'')),
     Run (Modify ''sync_retry_queue'' ''payload_hash'' (required HASH_TYPE)),
     ReceiptsKey, ChangeLogTriggers]"

definition init_sync_schema :: "step list" where
  "init_sync_schema =
     SYNC_ADDITIVE_DDL @ map (\<lambda>(t, c). Backfill t c) UTC_BACKFILL_SOURCE @ SYNC_TABLES @ SYNC_UPGRADE"

definition upgrade_script :: "step list" where
  "upgrade_script = BASE_TABLES @ OLD_COLUMNS @ OLD_VALUES @ TASK_TABLES @ init_sync_schema"

definition ensure_session_table :: step where
  "ensure_session_table = Run (CreateTable ''todo_sessions''
     [(''id_hash'', required ''CHAR(64)''), (''payload'', required ''LONGTEXT''),
      (''updated_at_utc'', required CLOCK_TYPE)] [''id_hash''] [] [])"

section \<open>Validation\<close>

definition REQUIRED_SYNC_COLUMNS :: "(string \<times> string list) list" where
  "REQUIRED_SYNC_COLUMNS =
    [(''projects'', [''updated_at_utc'', ''deleted_at'']), (''memos'', [''updated_at_utc'', ''deleted_at'']),
     (''memo_versions'', [''updated_at_utc'', ''note'']), (''project_members'', [''updated_at_utc'', ''deleted_at'']),
     (''change_log'', [''seq'', ''table_name'', ''row_id'', ''op'', ''changed_at_utc'']),
     (''sync_state'', [''peer'', ''last_pushed_seq'', ''last_pulled_seq'', ''client_epoch'', ''last_ok_at'',
        ''last_error'', ''paused'', ''updated_at_utc'']),
     (''sync_issues'', [''id'', ''kind'', ''ref_table'', ''ref_id'', ''peer_ref_id'', ''detail'', ''detected_at'',
        ''resolved_at'']),
     (''local_identity'', [''account_id'', ''login_id'', ''display_name'', ''email'', ''permission'', ''issuer'',
        ''verified_at_utc'', ''updated_at_utc'']),
     (''sync_row_state'', [''peer'', ''table_name'', ''row_id'', ''last_seen_updated_at_utc'', ''last_seen_peer_seq'']),
     (''sync_retry_queue'', [''peer'', ''direction'', ''seq'', ''table_name'', ''row_id'', ''payload'',
        ''payload_hash'', ''reason'', ''attempts'', ''first_seen_at'', ''last_attempt_at'']),
     (''sync_receipts'', [''account_id'', ''client_id'', ''source_seq'', ''payload_hash'', ''outcome'', ''created_at''])]"

text \<open>\<open>required_columns.setdefault(t, set()).update(columns)\<close>\<close>

definition add_required :: "string \<times> string list \<Rightarrow> (string \<times> string list) list \<Rightarrow> (string \<times> string list) list" where
  "add_required = (\<lambda>(t, cs) req.
     AList.update t (remdups ((case map_of req t of None \<Rightarrow> [] | Some xs \<Rightarrow> xs) @ cs)) req)"

definition required_columns :: "(string \<times> string list) list" where
  "required_columns = fold add_required declared_tables REQUIRED_SYNC_COLUMNS"

definition required_not_null :: "(string \<times> string) list" where
  "required_not_null =
     [(''memo_versions'', ''updated_at_utc''), (''memos'', ''updated_at_utc''), (''project_members'', ''updated_at_utc''),
      (''projects'', ''updated_at_utc''), (''sync_receipts'', ''account_id''), (''sync_receipts'', ''payload_hash''),
      (''sync_retry_queue'', ''payload_hash''), (''sync_row_state'', ''last_seen_peer_seq''),
      (''sync_state'', ''client_epoch'')]"

datatype missing = MissingTable string | MissingColumn string string | MaybeNull string string | MissingTrigger string

definition columns_of :: "string \<Rightarrow> db \<Rightarrow> (string \<times> column) list" where
  "columns_of t d = (case map_of (db_tables d) t of None \<Rightarrow> [] | Some tb \<Rightarrow> tb_columns tb)"

definition validate_sync_schema :: "db \<Rightarrow> missing list" where
  "validate_sync_schema d =
     concat (map (\<lambda>(t, cs).
       if columns_of t d = [] then [MissingTable t]
       else map (MissingColumn t) (sort_str (filter (\<lambda>c. map_of (columns_of t d) c = None) cs))) required_columns) @
     List.map_filter (\<lambda>(t, c).
       case map_of (columns_of t d) c of
         None \<Rightarrow> Some (MaybeNull t c)
       | Some k \<Rightarrow> if co_null k then Some (MaybeNull t c) else None) required_not_null @
     map MissingTrigger (sort_str (filter (\<lambda>n. map_of (db_triggers d) n = None) (map fst triggers)))"

datatype upgrade_error = Sql sql_error | Incomplete "missing list"

definition init_db :: "env \<Rightarrow> moment \<Rightarrow> bool \<Rightarrow> db \<Rightarrow> upgrade_error + db" where
  "init_db e m persistent d =
     (case sfold (run_step e m) upgrade_script d of
        Inl x \<Rightarrow> Inl (Sql x)
      | Inr d1 \<Rightarrow>
          if validate_sync_schema d1 \<noteq> [] then Inl (Incomplete (validate_sync_schema d1))
          else if persistent
          then case run_step e m ensure_session_table d1 of Inl x \<Rightarrow> Inl (Sql x) | Inr d2 \<Rightarrow> Inr d2
          else Inr d1)"

section \<open>The backfill script\<close>

text \<open>
  \<^verbatim>\<open>scripts/backfill_updated_at_utc.py\<close>: the clocks alone, on a database that has the column.
\<close>

definition backfill_one :: "env \<Rightarrow> moment \<Rightarrow> string \<times> string \<Rightarrow> db \<Rightarrow> sql_error + db" where
  "backfill_one e m = (\<lambda>(t, src) d.
     (case map_of (db_tables d) t of
        None \<Rightarrow> Inl NoTable
      | Some tb \<Rightarrow>
          if map_of (tb_columns tb) ''updated_at_utc'' = None then Inl NoColumn
          else if \<not> list_ex (\<lambda>r. row_get r ''updated_at_utc'' = VNull) (tb_rows tb) then Inr d
          else sbind (exec e m (UpdateWhere t ''updated_at_utc'' IsNull (Converted src)) d)
                 (exec e m (UpdateWhere t ''updated_at_utc'' IsNull UtcNow))))"

definition backfill_main :: "env \<Rightarrow> moment \<Rightarrow> bool \<Rightarrow> db \<Rightarrow> (sql_error + unit) \<times> db" where
  "backfill_main e m dry d =
     (if dry then (Inr (), d)
      else case sfold (backfill_one e m) UTC_BACKFILL_SOURCE d of
             Inl x \<Rightarrow> (Inl x, d)
           | Inr d' \<Rightarrow> (Inr (), d'))"

end
