(* ===== verification/Upgrade_Laws.thy ===== *)
theory Upgrade_Laws
  imports Upgrade Samples
begin

text \<open>
  What the upgrade of a database promises: run again, at any later time, it changes nothing; it
  loses no row and no text and leaves no row without a clock; and a fresh database has the
  columns that \<open>Store\<close> and \<open>Invariants\<close> give its tables. For each statement \<open>met\<close>, \<open>refused\<close> and
  \<open>present\<close> say when it would do nothing, and \<open>compat\<close> which later statements leave that so.
\<close>

section \<open>Reading a database\<close>

definition rows_of :: "string \<Rightarrow> db \<Rightarrow> row list" where
  "rows_of t d = (case map_of (db_tables d) t of None \<Rightarrow> [] | Some tb \<Rightarrow> tb_rows tb)"

definition indexes_of :: "string \<Rightarrow> db \<Rightarrow> string list" where
  "indexes_of t d = (case map_of (db_tables d) t of None \<Rightarrow> [] | Some tb \<Rightarrow> tb_indexes tb)"

definition col :: "string \<Rightarrow> string \<Rightarrow> db \<Rightarrow> column option" where
  "col t c d = map_of (columns_of t d) c"

lemmas readers = rows_of_def indexes_of_def col_def columns_of_def primary_key_def

lemma update_same: "map_of xs k = Some v \<Longrightarrow> AList.update k v xs = xs"
  by (induction xs) (auto split: if_splits)

lemma map_of_insert_after: "map_of (insert_after a (c, k) cs) x =
    (if x = c \<and> map_of cs c = None then Some k else if x = c then map_of (insert_after a (c, k) cs) c else map_of cs x)"
  by (induction cs) auto

lemma map_of_insert_new: "map_of cs c = None \<Longrightarrow> map_of (insert_after a (c, k) cs) x = (if x = c then Some k else map_of cs x)"
  by (induction cs) (auto split: if_splits)

lemma on_tableE:
  assumes "on_table t f d = Inr d'"
  obtains tb tb' where "map_of (db_tables d) t = Some tb" "f tb = Inr tb'"
    "d' = d\<lparr>db_tables := AList.update t tb' (db_tables d)\<rparr>"
  using assms by (auto simp: on_table_def split: option.splits sum.splits)

lemma exec_triggers: "exec e m s d = Inr d' \<Longrightarrow> db_triggers d' = db_triggers d"
  by (cases s) (auto elim!: on_tableE split: if_splits)

section \<open>When a statement has nothing to do\<close>

fun met :: "env \<Rightarrow> stmt \<Rightarrow> db \<Rightarrow> bool" where
  "met e (CreateTable t cs key ixs fks) d = (map_of (db_tables d) t \<noteq> None)"
| "met e (Modify t c k) d = (col t c d = Some k \<and> (co_null k \<or> (\<forall>r \<in> set (rows_of t d). row_get r c \<noteq> VNull)))"
| "met e (UpdateWhere t c w f) d =
     ((\<forall>x \<in> set (c # source_columns f). col t x d \<noteq> None) \<and> (\<forall>r \<in> set (rows_of t d). \<not> holds e w (row_get r c)))"
| "met e s d = False"

fun refused :: "stmt \<Rightarrow> db \<Rightarrow> bool" where
  "refused (AddColumn t c k a) d = ((\<exists>x. a = Some x \<and> col t x d = None) \<or> col t c d \<noteq> None)"
| "refused (AddIndex t i c) d = (col t c d = None \<or> i \<in> set (indexes_of t d))"
| "refused (Modify t c k) d = (col t c d = None \<or> \<not> co_null k \<and> (\<exists>r \<in> set (rows_of t d). row_get r c = VNull))"
| "refused (UpdateWhere t c w f) d = (\<exists>x \<in> set (c # source_columns f). col t x d = None)"
| "refused s d = False"

fun present :: "stmt \<Rightarrow> db \<Rightarrow> bool" where
  "present (AddColumn t c k a) d = ((\<forall>x. a = Some x \<longrightarrow> col t x d \<noteq> None) \<and> col t c d \<noteq> None)"
| "present (AddIndex t i c) d = (col t c d \<noteq> None \<and> i \<in> set (indexes_of t d))"
| "present s d = False"

lemma met_runs:
  assumes "met e s d"
  shows "exec e m s d = Inr d"
proof (cases s)
  case (Modify t c k)
  then obtain tb where "map_of (db_tables d) t = Some tb" "map_of (tb_columns tb) c = Some k"
    "co_null k \<or> (\<forall>r \<in> set (tb_rows tb). row_get r c \<noteq> VNull)"
    using assms by (auto simp: readers split: option.splits)
  with Modify show ?thesis
    by (auto simp: on_table_def modify_column_def update_same list_ex_iff)
next
  case (UpdateWhere t c w f)
  then obtain tb where tb: "map_of (db_tables d) t = Some tb" "\<forall>x \<in> set (c # source_columns f). map_of (tb_columns tb) x \<noteq> None"
    "\<forall>r \<in> set (tb_rows tb). \<not> holds e w (row_get r c)"
    using assms by (auto simp: readers split: option.splits)
  then have "map (fill_row e m b c w f) (tb_rows tb) = tb_rows tb" for b
    by (auto simp: fill_row_def intro: map_idI)
  with UpdateWhere tb show ?thesis
    by (auto simp: on_table_def update_rows_def update_same list_ex_iff)
qed (use assms in auto)

lemma refused_fails: "refused s d \<Longrightarrow> \<exists>x. exec e m s d = Inl x"
  by (cases s) (auto simp: on_table_def add_column_def add_index_def modify_column_def update_rows_def list_ex_iff
      readers split: option.splits)

lemma present_try: "present s d \<Longrightarrow> try_ddl e m s d = Inr d"
  by (cases s) (auto simp: try_ddl_def on_table_def add_column_def add_index_def readers split: option.splits)

lemma met_try: "met e s d \<Longrightarrow> try_ddl e m s d = Inr d"
  by (simp add: try_ddl_def met_runs)

lemma try_cases:
  assumes "try_ddl e m s d = Inr d'"
  shows "exec e m s d = Inr d' \<or> d' = d \<and> present s d"
proof (cases "exec e m s d")
  case (Inl x)
  with assms have "d' = d" "x = DuplicateColumn \<or> x = DuplicateIndex"
    by (auto simp: try_ddl_def split: if_splits)
  with Inl show ?thesis
    by (cases s) (auto simp: on_table_def add_column_def add_index_def modify_column_def update_rows_def set_key_def
        readers split: option.splits sum.splits if_splits)
qed (use assms in \<open>auto simp: try_ddl_def\<close>)

fun ignorable :: "stmt \<Rightarrow> bool" where
  "ignorable (AddColumn t c k a) = (a \<noteq> None)"
| "ignorable (AddIndex t i c) = True"
| "ignorable (Modify t c k) = True"
| "ignorable (UpdateWhere t c w f) = True"
| "ignorable s = False"

lemma failed_refused: "exec e m s d = Inl x \<Longrightarrow> ignorable s \<Longrightarrow> refused s d"
  by (cases s) (auto simp: on_table_def add_column_def add_index_def modify_column_def update_rows_def list_ex_iff
      readers split: option.splits if_splits)

section \<open>What a statement leaves of a database\<close>

fun adds :: "stmt \<Rightarrow> (string \<times> string) list" where
  "adds (CreateTable t cs key ixs fks) = map (\<lambda>(c, k). (t, c)) cs"
| "adds (AddColumn t c k a) = [(t, c)]"
| "adds s = []"

fun writes :: "stmt \<Rightarrow> (string \<times> string) list" where
  "writes (AddColumn t c k a) = [(t, c)]"
| "writes (UpdateWhere t c w f) = [(t, c), (t, ''updated_at'')]"
| "writes s = []"

fun row_change :: "env \<Rightarrow> moment \<Rightarrow> stmt \<Rightarrow> db \<Rightarrow> string \<Rightarrow> row \<Rightarrow> row" where
  "row_change e m (AddColumn t' c k a) d t = (if t = t' then (\<lambda>r. row_set r c (co_default k)) else (\<lambda>r. r))"
| "row_change e m (UpdateWhere t' c w f) d t =
     (if t = t' then fill_row e m (col t ''updated_at'' d \<noteq> None) c w f else (\<lambda>r. r))"
| "row_change e m s d t = (\<lambda>r. r)"

lemmas effects = add_column_def add_index_def modify_column_def update_rows_def set_key_def update_conv map_add_def
  map_of_insert_new

lemma exec_rows: "exec e m s d = Inr d' \<Longrightarrow> rows_of t d' = map (row_change e m s d t) (rows_of t d)"
  by (cases s) (auto elim!: on_tableE simp: readers effects split: if_splits option.splits)

lemma exec_tables: "exec e m s d = Inr d' \<Longrightarrow> map_of (db_tables d) t \<noteq> None \<Longrightarrow> map_of (db_tables d') t \<noteq> None"
  by (cases s) (auto elim!: on_tableE simp: update_conv map_add_def split: if_splits option.splits)

lemma exec_indexes:
  assumes "exec e m s d = Inr d'" "i \<in> set (indexes_of t d)"
  shows "i \<in> set (indexes_of t d')"
proof -
  obtain tb where "map_of (db_tables d) t = Some tb" "i \<in> set (tb_indexes tb)"
    using assms(2) by (cases "map_of (db_tables d) t") (auto simp: readers)
  with assms(1) show ?thesis
    by (cases s) (auto elim!: on_tableE simp: readers effects split: if_splits option.splits)
qed

lemma exec_key:
  assumes "exec e m s d = Inr d'" "map_of (db_tables d) t = Some tb" "\<nexists>cs. s = SetKey t cs"
  shows "primary_key t d' = primary_key t d"
  using assms by (cases s) (auto elim!: on_tableE simp: readers effects split: if_splits option.splits)

lemma col_Some: "col t c d = Some k \<longleftrightarrow> (\<exists>tb. map_of (db_tables d) t = Some tb \<and> map_of (tb_columns tb) c = Some k)"
  by (auto simp: readers split: option.splits)

lemma exec_col:
  assumes "exec e m s d = Inr d'" "col t c d = Some k"
  shows "col t c d' = Some k \<or> (\<exists>k'. s = Modify t c k' \<and> col t c d' = Some k')"
proof -
  obtain tb where "map_of (db_tables d) t = Some tb" "map_of (tb_columns tb) c = Some k"
    using assms(2) by (auto simp: col_Some)
  with assms(1) show ?thesis
    by (cases s) (auto elim!: on_tableE simp: readers effects split: if_splits option.splits)
qed

lemma exec_has_col: "exec e m s d = Inr d' \<Longrightarrow> col t c d \<noteq> None \<Longrightarrow> col t c d' \<noteq> None"
  using exec_col by (metis not_None_eq)

lemma not_added: "(t, c) \<notin> (\<lambda>(c, k). (t, c)) ` set cs \<Longrightarrow> map_of cs c = None"
  by (force simp: map_of_eq_None_iff)

lemma exec_lacks_col:
  assumes "exec e m s d = Inr d'" "col t c d = None" "(t, c) \<notin> set (adds s)"
  shows "col t c d' = None"
proof (cases "map_of (db_tables d) t")
  case None
  with assms(1,3) show ?thesis
    by (cases s) (auto elim!: on_tableE simp: readers effects not_added split: if_splits option.splits)
next
  case (Some tb)
  with assms(1,2) have "map_of (tb_columns tb) c = None" by (simp add: readers)
  with Some assms(1,3) show ?thesis
    by (cases s) (auto elim!: on_tableE simp: readers effects split: if_splits option.splits)
qed

lemma exec_modified: "exec e m (Modify t c k) d = Inr d' \<Longrightarrow> col t c d' = Some k"
  by (auto elim!: on_tableE simp: readers effects split: if_splits)

section \<open>Which later statements leave it so\<close>

text \<open>The strings the script compares, which the collation tells apart, and identifiers that are not blank.\<close>

definition NAMES :: "string list" where
  "NAMES = [''member'', ''admin'', ''viewer'', ''owner'', ''users'', ''projects'', ''memos'', ''daily_task_types'']"

definition apart :: "env \<Rightarrow> bool" where
  "apart e = inj_on (collate e) (set NAMES)"

definition makes_ids :: "env \<Rightarrow> moment \<Rightarrow> bool" where
  "makes_ids e m = (\<forall>r. \<not> same_str e (mo_uuid m r) [])"

fun safe :: "cond \<Rightarrow> filler \<Rightarrow> bool" where
  "safe IsNull (Converted c) = False"
| "safe IsNull f = True"
| "safe IsBlank f = (f = NewUuid)"
| "safe (Is x) (Text y) = (x \<in> set NAMES \<and> y \<in> set NAMES \<and> x \<noteq> y)"
| "safe (Is x) f = False"

lemma safe_fill: "safe w f \<Longrightarrow> apart e \<Longrightarrow> makes_ids e m \<Longrightarrow> \<not> holds e w (fill m f r)"
  by (induction w f rule: safe.induct) (auto simp: apart_def makes_ids_def same_str_def inj_on_def)

fun sane :: "stmt \<Rightarrow> bool" where
  "sane (UpdateWhere t c w (Converted x)) = (w = IsNull)"
| "sane s = True"

fun compat_met :: "stmt \<Rightarrow> stmt \<Rightarrow> bool" where
  "compat_met (Modify t c k) (Modify t' c' k') = (t = t' \<and> c = c' \<longrightarrow> k = k')"
| "compat_met (UpdateWhere t c w f) (UpdateWhere t' c' w' f') = (c \<noteq> ''updated_at'' \<and> (t = t' \<and> c = c' \<longrightarrow> safe w f'))"
| "compat_met s s' = True"

fun compat_refused :: "stmt \<Rightarrow> stmt \<Rightarrow> bool" where
  "compat_refused (AddColumn t c k (Some a)) s = ((t, a) \<notin> set (adds s))"
| "compat_refused (AddIndex t i c) s = ((t, c) \<notin> set (adds s))"
| "compat_refused (Modify t c k) s = ((t, c) \<notin> set (adds s) \<and> (t, c) \<notin> set (writes s))"
| "compat_refused (UpdateWhere t c w f) s = (\<forall>x \<in> set (c # source_columns f). (t, x) \<notin> set (adds s))"
| "compat_refused s s' = True"

lemma change_not_null:
  assumes "exec e m s d = Inr d'" "sane s" "col t c d \<noteq> None" "row_get r c \<noteq> VNull"
  shows "row_get (row_change e m s d t r) c \<noteq> VNull"
proof (cases s)
  case (AddColumn t' c' k a)
  then show ?thesis using assms by (auto elim!: on_tableE simp: readers effects split: if_splits)
next
  case (UpdateWhere t' c' w f)
  then show ?thesis using assms(2,4) by (cases f) (auto simp: fill_row_def)
qed (use assms in auto)

lemma change_elsewhere: "(t, c) \<notin> set (writes s) \<Longrightarrow> row_get (row_change e m s d t r) c = row_get r c"
  by (cases s) (auto simp: fill_row_def)

lemma change_unmatched:
  assumes "exec e m s d = Inr d'" "compat_met (UpdateWhere t c w f) s" "apart e" "makes_ids e m"
    and "col t c d \<noteq> None" "\<not> holds e w (row_get r c)"
  shows "\<not> holds e w (row_get (row_change e m s d t r) c)"
proof (cases s)
  case (AddColumn t' c' k a)
  then show ?thesis using assms by (auto elim!: on_tableE simp: readers effects split: if_splits)
next
  case (UpdateWhere t' c' w' f')
  then show ?thesis using assms safe_fill [of w f' e m r] by (auto simp: fill_row_def)
qed (use assms in auto)

lemma met_stays:
  assumes "exec e m s d = Inr d'" "met e x d" "compat_met x s" "sane s" "apart e" "makes_ids e m"
  shows "met e x d'"
proof (cases x)
  case (CreateTable t cs key ixs fks)
  then show ?thesis using assms(2) exec_tables [OF assms(1)] by (metis met.simps(1))
next
  case (Modify t c k)
  have "col t c d' = Some k"
    using exec_col [OF assms(1), of t c k] assms(2,3) Modify by auto
  moreover have "row_get r c \<noteq> VNull" if "\<not> co_null k" "r \<in> set (rows_of t d')" for r
    using that assms(2) Modify change_not_null [OF assms(1,4), of t c] exec_rows [OF assms(1), of t] by auto
  ultimately show ?thesis using Modify by auto
next
  case (UpdateWhere t c w f)
  have "\<forall>y \<in> set (c # source_columns f). col t y d' \<noteq> None"
    using exec_has_col [OF assms(1)] assms(2) UpdateWhere by auto
  moreover have "\<not> holds e w (row_get r c)" if "r \<in> set (rows_of t d')" for r
    using that assms(2,3) UpdateWhere change_unmatched [OF assms(1) _ assms(5,6), of t c w f]
      exec_rows [OF assms(1), of t] by auto
  ultimately show ?thesis using UpdateWhere by simp
qed (use assms in auto)

lemma refused_stays:
  assumes "exec e m s d = Inr d'" "refused x d" "compat_refused x s"
  shows "refused x d'"
proof (cases x)
  case (AddColumn t c k a)
  then show ?thesis
    using assms exec_lacks_col [OF assms(1)] exec_has_col [OF assms(1), of t c] by (cases a) auto
next
  case (AddIndex t i c)
  then show ?thesis using assms exec_lacks_col [OF assms(1)] exec_indexes [OF assms(1)] by auto
next
  case (Modify t c k)
  then consider "col t c d = None" | "\<not> co_null k" "\<exists>r \<in> set (rows_of t d). row_get r c = VNull"
    using assms(2) by auto
  then show ?thesis
  proof cases
    case 1
    then show ?thesis using Modify assms(3) exec_lacks_col [OF assms(1)] by auto
  next
    case 2
    then have "\<exists>r \<in> set (rows_of t d'). row_get r c = VNull"
      using Modify assms(3) change_elsewhere exec_rows [OF assms(1), of t] by auto
    with 2 Modify show ?thesis by simp
  qed
next
  case (UpdateWhere t c w f)
  then show ?thesis using assms exec_lacks_col [OF assms(1)] by auto
qed (use assms in auto)

lemma present_stays:
  assumes "exec e m s d = Inr d'" "present x d"
  shows "present x d'"
proof (cases x)
  case (AddColumn t c k a)
  then show ?thesis using assms(2) exec_has_col [OF assms(1)] by simp
next
  case (AddIndex t i c)
  then show ?thesis using assms(2) exec_has_col [OF assms(1)] exec_indexes [OF assms(1)] by simp
qed (use assms in auto)

section \<open>Steps that are settled\<close>

text \<open>What a step runs, and that everything kept by it is kept by the step.\<close>

fun stmts :: "step \<Rightarrow> stmt list" where
  "stmts (Run s) = [s]"
| "stmts (Attempt s) = [s]"
| "stmts (Ignored ss) = ss"
| "stmts (Backfill t src) =
     [UpdateWhere t ''updated_at_utc'' IsNull (Converted src), UpdateWhere t ''updated_at_utc'' IsNull UtcNow,
      Modify t ''updated_at_utc'' (required CLOCK_TYPE)]"
| "stmts ReceiptsKey =
     [AddColumn ''sync_receipts'' ''account_id'' (defaulted ''VARCHAR(50)'' False (VStr ''__legacy__'')) None,
      Modify ''sync_receipts'' ''account_id'' (required ''VARCHAR(50)''),
      Modify ''sync_receipts'' ''payload_hash'' (required HASH_TYPE), SetKey ''sync_receipts'' RECEIPT_KEY]"
| "stmts st = []"

lemma try_keeps: "try_ddl e m s d = Inr d' \<Longrightarrow> P d \<Longrightarrow> (\<And>d'. exec e m s d = Inr d' \<Longrightarrow> P d') \<Longrightarrow> P d'"
  using try_cases [of e m s d d'] by auto

lemma ignoring_keeps:
  "P d \<Longrightarrow> (\<And>s d d'. s \<in> set ss \<Longrightarrow> exec e m s d = Inr d' \<Longrightarrow> P d \<Longrightarrow> P d') \<Longrightarrow> P (ignoring e m ss d)"
  by (induction ss arbitrary: d) (auto split: sum.splits)

lemma step_keeps:
  assumes run: "run_step e m st d = Inr d'" and P: "P d"
    and stmt: "\<And>s d d'. s \<in> set (stmts st) \<Longrightarrow> exec e m s d = Inr d' \<Longrightarrow> P d \<Longrightarrow> P d'"
    and keys: "\<And>d. P d \<Longrightarrow> P (drop_user_keys e d)"
    and trig: "\<And>d. st = ChangeLogTriggers \<Longrightarrow> P d \<Longrightarrow> P (init_change_log_triggers d)"
  shows "P d'"
proof (cases st)
  case (Backfill t src)
  then obtain d1 d2 where d: "try_ddl e m (UpdateWhere t ''updated_at_utc'' IsNull (Converted src)) d = Inr d1"
    "try_ddl e m (UpdateWhere t ''updated_at_utc'' IsNull UtcNow) d1 = Inr d2"
    "try_ddl e m (Modify t ''updated_at_utc'' (required CLOCK_TYPE)) d2 = Inr d'"
    using run by (auto simp: backfill_table_def)
  have att: "P y" if "try_ddl e m s x = Inr y" "s \<in> set (stmts st)" "P x" for s x y
    using try_cases [OF that(1)] stmt that(2,3) by blast
  have "P d1" using att [OF d(1)] P Backfill by simp
  then have "P d2" using att [OF d(2)] Backfill by simp
  then show ?thesis using att [OF d(3)] Backfill by simp
next
  case ReceiptsKey
  let ?ss = "stmts ReceiptsKey"
  from run ReceiptsKey obtain d1 d2 d3 where d: "d1 = d \<or> exec e m (?ss ! 0) d = Inr d1"
    "exec e m (?ss ! 1) d1 = Inr d2" "exec e m (?ss ! 2) d2 = Inr d3" "d' = d3 \<or> exec e m (?ss ! 3) d3 = Inr d'"
    by (auto simp: ensure_receipts_account_key_def split: if_splits)
  have k: "?ss ! i \<in> set (stmts st)" if "i < 4" for i
    using that ReceiptsKey nth_mem [of i ?ss] by (simp add: eval_nat_numeral)
  have "P d1" using d(1) P stmt [OF k [of 0]] by auto
  then have "P d2" using d(2) stmt [OF k [of 1]] by auto
  then have "P d3" using d(3) stmt [OF k [of 2]] by auto
  then show ?thesis using d(4) stmt [OF k [of 3]] by auto
qed (use assms in \<open>auto intro: ignoring_keeps try_keeps\<close>)

definition no_user_keys :: "env \<Rightarrow> db \<Rightarrow> bool" where
  "no_user_keys e d = (\<forall>(t, tb) \<in> set (db_tables d). \<forall>(n, r) \<in> set (tb_foreign tb). \<not> same_str e r ''users'')"

fun settled_list :: "env \<Rightarrow> stmt list \<Rightarrow> db \<Rightarrow> bool" where
  "settled_list e [] d = True"
| "settled_list e (s # ss) d = (refused s d \<or> met e s d \<and> settled_list e ss d)"

fun settled :: "env \<Rightarrow> step \<Rightarrow> db \<Rightarrow> bool" where
  "settled e (Run s) d = met e s d"
| "settled e (Attempt s) d = (met e s d \<or> present s d)"
| "settled e (Ignored ss) d = settled_list e ss d"
| "settled e DropUserKeys d = no_user_keys e d"
| "settled e (Backfill t src) d = (col t src d \<noteq> None \<and> met e (Modify t ''updated_at_utc'' (required CLOCK_TYPE)) d)"
| "settled e ReceiptsKey d =
     (met e (Modify ''sync_receipts'' ''account_id'' (required ''VARCHAR(50)'')) d \<and>
      met e (Modify ''sync_receipts'' ''payload_hash'' (required HASH_TYPE)) d \<and>
      primary_key ''sync_receipts'' d = RECEIPT_KEY)"
| "settled e ChangeLogTriggers d =
     (\<forall>(n, b) \<in> set triggers. \<exists>b'. map_of (db_triggers d) n = Some b' \<and> normalize_sql b' = normalize_sql b)"

lemma ignoring_settled: "settled_list e ss d \<Longrightarrow> ignoring e m ss d = d"
proof (induction ss)
  case (Cons s ss)
  then show ?case using refused_fails [of s d e m] met_runs [of e s d m] by auto
qed simp

lemma place_settled:
  "(\<forall>(n, b) \<in> set ts. \<exists>b'. map_of ex n = Some b' \<and> normalize_sql b' = normalize_sql b) \<Longrightarrow>
     fold (place_trigger ex) ts acc = acc"
  by (induction ts arbitrary: acc) (auto simp: place_trigger_def)

lemma settled_does_nothing:
  assumes "settled e st d"
  shows "run_step e m st d = Inr d"
proof (cases st)
  case DropUserKeys
  then have "map (\<lambda>(t, tb). (t, tb\<lparr>tb_foreign := filter (\<lambda>(n, r). \<not> same_str e r ''users'') (tb_foreign tb)\<rparr>)) (db_tables d)
      = db_tables d"
    using assms by (intro map_idI) (auto simp: no_user_keys_def filter_id_conv)
  with DropUserKeys show ?thesis by (simp add: drop_user_keys_def)
next
  case (Backfill t src)
  then have "met e (UpdateWhere t ''updated_at_utc'' IsNull (Converted src)) d"
    "met e (UpdateWhere t ''updated_at_utc'' IsNull UtcNow) d"
    using assms by (auto simp: required_def)
  with Backfill assms show ?thesis by (simp add: backfill_table_def met_try del: met.simps)
next
  case ReceiptsKey
  then have "has_column ''sync_receipts'' ''account_id'' d"
    using assms by (auto simp: has_column_def readers split: option.splits)
  with ReceiptsKey assms show ?thesis by (simp add: ensure_receipts_account_key_def met_runs del: met.simps exec.simps)
next
  case ChangeLogTriggers
  then show ?thesis using assms by (simp add: init_change_log_triggers_def place_settled)
qed (use assms in \<open>auto simp: met_runs met_try present_try ignoring_settled\<close>)

lemma map_of_dropped:
  "map_of (db_tables (drop_user_keys e d)) t =
     map_option (\<lambda>tb. tb\<lparr>tb_foreign := filter (\<lambda>(n, r). \<not> same_str e r ''users'') (tb_foreign tb)\<rparr>)
       (map_of (db_tables d) t)"
  by (simp add: drop_user_keys_def map_of_map)

lemma drop_readers [simp]:
  "rows_of t (drop_user_keys e d) = rows_of t d" "columns_of t (drop_user_keys e d) = columns_of t d"
  "col t c (drop_user_keys e d) = col t c d" "indexes_of t (drop_user_keys e d) = indexes_of t d"
  "primary_key t (drop_user_keys e d) = primary_key t d" "db_triggers (drop_user_keys e d) = db_triggers d"
  "(map_of (db_tables (drop_user_keys e d)) t = None) = (map_of (db_tables d) t = None)"
  by (auto simp: readers map_of_dropped split: option.splits) (simp add: drop_user_keys_def)

lemma trigger_readers [simp]:
  "rows_of t (init_change_log_triggers d) = rows_of t d" "columns_of t (init_change_log_triggers d) = columns_of t d"
  "col t c (init_change_log_triggers d) = col t c d" "indexes_of t (init_change_log_triggers d) = indexes_of t d"
  "primary_key t (init_change_log_triggers d) = primary_key t d"
  "db_tables (init_change_log_triggers d) = db_tables d"
  by (simp_all add: readers init_change_log_triggers_def)

lemma stmt_readers [simp]:
  "met e s (drop_user_keys e' d) = met e s d" "refused s (drop_user_keys e' d) = refused s d"
  "present s (drop_user_keys e' d) = present s d"
  "met e s (init_change_log_triggers d) = met e s d" "refused s (init_change_log_triggers d) = refused s d"
  "present s (init_change_log_triggers d) = present s d"
  by (cases s; simp)+

fun compat_list :: "stmt list \<Rightarrow> stmt \<Rightarrow> bool" where
  "compat_list ss s = list_all (\<lambda>x. compat_met x s \<and> compat_refused x s) ss"

fun compat :: "step \<Rightarrow> step \<Rightarrow> bool" where
  "compat (Run x) st = list_all (\<lambda>s. compat_met x s \<and> sane s) (stmts st)"
| "compat (Attempt x) st = list_all (\<lambda>s. compat_met x s \<and> sane s) (stmts st)"
| "compat (Ignored ss) st = list_all (\<lambda>s. compat_list ss s \<and> sane s) (stmts st)"
| "compat DropUserKeys st = list_all (\<lambda>s. case s of
     CreateTable t cs key ixs fks \<Rightarrow> list_all (\<lambda>(n, r). r \<in> set NAMES \<and> r \<noteq> ''users'') fks | _ \<Rightarrow> True) (stmts st)"
| "compat (Backfill t src) st =
     list_all (\<lambda>s. compat_met (Modify t ''updated_at_utc'' (required CLOCK_TYPE)) s \<and> sane s) (stmts st)"
| "compat ReceiptsKey st = list_all (\<lambda>s. compat_met (Modify ''sync_receipts'' ''account_id'' (required ''VARCHAR(50)'')) s \<and>
     compat_met (Modify ''sync_receipts'' ''payload_hash'' (required HASH_TYPE)) s \<and> sane s \<and>
     (case s of SetKey t cs \<Rightarrow> False | _ \<Rightarrow> True)) (stmts st)"
| "compat ChangeLogTriggers st = (st \<noteq> ChangeLogTriggers)"

lemma settled_list_stays:
  "settled_list e ss d \<Longrightarrow> exec e m s d = Inr d' \<Longrightarrow> compat_list ss s \<Longrightarrow> sane s \<Longrightarrow> apart e \<Longrightarrow> makes_ids e m \<Longrightarrow>
     settled_list e ss d'"
  by (induction ss) (auto intro: met_stays refused_stays)

lemma settled_list_readers [simp]:
  "settled_list e ss (drop_user_keys e' d) = settled_list e ss d"
  "settled_list e ss (init_change_log_triggers d) = settled_list e ss d"
  by (induction ss) auto

lemma foreign_kept:
  "add_column c k a tb = Inr tb' \<Longrightarrow> tb_foreign tb' = tb_foreign tb"
  "add_index i c tb = Inr tb' \<Longrightarrow> tb_foreign tb' = tb_foreign tb"
  "modify_column c k tb = Inr tb' \<Longrightarrow> tb_foreign tb' = tb_foreign tb"
  "update_rows e m c w f tb = Inr tb' \<Longrightarrow> tb_foreign tb' = tb_foreign tb"
  "set_key e cs tb = Inr tb' \<Longrightarrow> tb_foreign tb' = tb_foreign tb"
  by (auto simp: effects split: if_splits)

lemma user_keys_stay:
  assumes "exec e m s d = Inr d'" "no_user_keys e d" "apart e"
    and "case s of CreateTable t cs key ixs fks \<Rightarrow> list_all (\<lambda>(n, r). r \<in> set NAMES \<and> r \<noteq> ''users'') fks | _ \<Rightarrow> True"
  shows "no_user_keys e d'"
proof -
  have known: "\<not> same_str e r ''users''" if "r \<in> set NAMES" "r \<noteq> ''users''" for r
    using that assms(3) by (auto simp: apart_def same_str_def inj_on_def NAMES_def)
  have upd: "no_user_keys e (d\<lparr>db_tables := AList.update t tb' (db_tables d)\<rparr>)"
    if "map_of (db_tables d) t = Some tb" "tb_foreign tb' = tb_foreign tb" for t tb tb'
  proof -
    have "set (AList.update t tb' xs) \<subseteq> insert (t, tb') (set xs)" for xs by (induction xs) auto
    with that assms(2) show ?thesis
      using map_of_SomeD [OF that(1)] by (fastforce simp: no_user_keys_def)
  qed
  show ?thesis
  proof (cases s)
    case (CreateTable t cs key ixs fks)
    then show ?thesis using assms known by (fastforce simp: no_user_keys_def list_all_iff split: if_splits)
  qed (use assms(1) foreign_kept in \<open>auto elim!: on_tableE intro: upd\<close>)
qed

lemma no_user_keys_readers [simp]:
  "no_user_keys e (drop_user_keys e d)" "no_user_keys e (init_change_log_triggers d) = no_user_keys e d"
  by (auto simp: no_user_keys_def drop_user_keys_def init_change_log_triggers_def)

lemma settled_stays:
  assumes run: "run_step e m st d = Inr d'" and set: "settled e x d" and c: "compat x st"
    and names: "apart e" "makes_ids e m"
  shows "settled e x d'"
proof (rule step_keeps [OF run, where P = "settled e x"])
  fix s d d'
  assume s: "s \<in> set (stmts st)" and r: "exec e m s d = Inr d'" and x: "settled e x d"
  show "settled e x d'"
  proof (cases x)
    case (Attempt y)
    then show ?thesis using x c s names met_stays [OF r] present_stays [OF r] by (auto simp: list_all_iff)
  next
    case (Ignored ss)
    then show ?thesis using x c s names settled_list_stays [OF _ r] by (auto simp: list_all_iff)
  next
    case DropUserKeys
    then show ?thesis using x c s user_keys_stay [OF r _ names(1)] by (auto simp: list_all_iff)
  next
    case (Backfill t src)
    then show ?thesis using x c s names met_stays [OF r] exec_has_col [OF r]
      by (auto simp: list_all_iff simp del: met.simps)
  next
    case ReceiptsKey
    have "\<exists>tb. map_of (db_tables d) ''sync_receipts'' = Some tb"
      using x ReceiptsKey by (auto simp: col_Some)
    then have "primary_key ''sync_receipts'' d' = RECEIPT_KEY"
      using x c s ReceiptsKey exec_key [OF r] by (fastforce simp: list_all_iff)
    then show ?thesis using x c s names ReceiptsKey met_stays [OF r]
      by (auto simp: list_all_iff simp del: met.simps)
  next
    case ChangeLogTriggers
    then show ?thesis using x exec_triggers [OF r] by simp
  qed (use x c s names met_stays [OF r] in \<open>auto simp: list_all_iff\<close>)
next
  fix d
  show "settled e x d \<Longrightarrow> settled e x (drop_user_keys e d)" by (cases x) (simp_all del: met.simps)
  show "st = ChangeLogTriggers \<Longrightarrow> settled e x d \<Longrightarrow> settled e x (init_change_log_triggers d)"
    using c by (cases x) (simp_all del: met.simps)
qed (rule set)

section \<open>Every step settles itself\<close>

fun lasting :: "stmt \<Rightarrow> bool" where
  "lasting (CreateTable t cs key ixs fks) = True"
| "lasting (Modify t c k) = True"
| "lasting (UpdateWhere t c w f) = (c \<noteq> ''updated_at'' \<and> safe w f)"
| "lasting s = False"

lemma meets:
  assumes "exec e m s d = Inr d'" "lasting s" "apart e" "makes_ids e m"
  shows "met e s d'"
proof (cases s)
  case (Modify t c k)
  then show ?thesis using assms(1)
    by (auto elim!: on_tableE simp: readers effects list_ex_iff split: if_splits)
next
  case (UpdateWhere t c w f)
  have "\<forall>y \<in> set (c # source_columns f). col t y d \<noteq> None"
    using assms(1) UpdateWhere by (auto elim!: on_tableE simp: readers effects list_ex_iff split: if_splits)
  then have "\<forall>y \<in> set (c # source_columns f). col t y d' \<noteq> None"
    using exec_has_col [OF assms(1)] by auto
  moreover have "\<not> holds e w (row_get r c)" if r: "r \<in> set (rows_of t d')" for r
  proof -
    obtain x where "x \<in> set (rows_of t d)" "r = row_change e m s d t x"
      using r exec_rows [OF assms(1), of t] by auto
    then show ?thesis
      using assms(2) UpdateWhere safe_fill [OF _ assms(3,4), of w f x] by (auto simp: fill_row_def)
  qed
  ultimately show ?thesis using UpdateWhere by simp
qed (use assms in \<open>auto simp: map_add_def split: if_splits option.splits\<close>)

fun present_after :: "stmt \<Rightarrow> bool" where
  "present_after (AddColumn t c k a) = True"
| "present_after (AddIndex t i c) = True"
| "present_after s = False"

lemma presents:
  assumes "exec e m s d = Inr d'" "present_after s"
  shows "present s d'"
  using assms by (cases s) (auto elim!: on_tableE simp: readers effects split: if_splits option.splits)

fun settling_list :: "stmt list \<Rightarrow> bool" where
  "settling_list [] = True"
| "settling_list (s # ss) =
     (ignorable s \<and> list_all (\<lambda>x. compat_met s x \<and> sane x) ss \<and> settling_list ss \<and>
      (lasting s \<or> present_after s \<and> ss = []))"

lemma ignoring_settles:
  assumes "settling_list ss" "apart e" "makes_ids e m"
  shows "settled_list e ss (ignoring e m ss d)"
  using assms(1)
proof (induction ss arbitrary: d)
  case (Cons s ss)
  show ?case
  proof (cases "exec e m s d")
    case (Inl x)
    then show ?thesis using failed_refused Cons.prems by simp
  next
    case (Inr d1)
    show ?thesis
    proof (cases "lasting s")
      case True
      have "met e s (ignoring e m ss d1)"
      proof (rule ignoring_keeps [where P = "met e s"])
        show "met e s d1" using meets [OF Inr True assms(2,3)] .
      qed (use Cons.prems assms(2,3) met_stays in \<open>auto simp: list_all_iff\<close>)
      then show ?thesis using Inr Cons by simp
    next
      case False
      with Cons.prems have last: "ss = []" and "present_after s" by simp_all
      with presents [OF Inr] have "present s d1" by blast
      then have "refused s d1" by (cases s) auto
      with Inr last show ?thesis by simp
    qed
  qed
qed simp

lemma trigger_name_inj:
  assumes "trigger_name t x = trigger_name t' x'" "length x = length x'"
  shows "t = t' \<and> x = x'"
proof -
  have "(t @ ''_'') @ x = (t' @ ''_'') @ x'"
    using assms(1) unfolding trigger_name_def by (metis append.assoc append_same_eq same_append_eq)
  with assms(2) show ?thesis by auto
qed

lemma triggers_distinct: "distinct (map fst triggers)"
proof -
  let ?pairs = "concat (map (\<lambda>t. map (\<lambda>(o', x, a). (t, x)) TRIGGER_OPS) SYNC_TABLE_ORDER)"
  have "map fst triggers = map (\<lambda>(t, x). trigger_name (tbl_name t) x) ?pairs"
    by (simp add: triggers_def map_concat comp_def case_prod_unfold)
  moreover have "distinct ?pairs" by (simp add: TRIGGER_OPS_def SYNC_TABLE_ORDER_def)
  moreover have "inj_on (\<lambda>(t, x). trigger_name (tbl_name t) x) (set ?pairs)"
  proof (rule inj_onI)
    fix p q
    assume "p \<in> set ?pairs" "q \<in> set ?pairs"
      and eq: "(\<lambda>(t, x). trigger_name (tbl_name t) x) p = (\<lambda>(t, x). trigger_name (tbl_name t) x) q"
    then have "length (snd p) = 2" "length (snd q) = 2" by (auto simp: TRIGGER_OPS_def)
    moreover have "tbl_name t = tbl_name t' \<Longrightarrow> t = t'" for t t' by (cases t; cases t'; simp)
    ultimately show "p = q"
      using eq trigger_name_inj [of "tbl_name (fst p)" "snd p" "tbl_name (fst q)" "snd q"]
      by (auto simp: case_prod_unfold prod_eq_iff)
  qed
  ultimately show ?thesis by (simp add: distinct_map)
qed

lemma place_other: "n \<notin> fst ` set ts \<Longrightarrow> map_of (fold (place_trigger ex) ts acc) n = map_of acc n"
  by (induction ts arbitrary: acc) (auto simp: place_trigger_def map_add_def delete_conv split: option.splits)

lemma placed:
  assumes "distinct (map fst ts)" "(n, b) \<in> set ts" "\<And>n. n \<in> fst ` set ts \<Longrightarrow> map_of acc n = map_of ex n"
  shows "\<exists>b'. map_of (fold (place_trigger ex) ts acc) n = Some b' \<and> normalize_sql b' = normalize_sql b"
  using assms
proof (induction ts arbitrary: acc)
  case (Cons t ts)
  obtain n1 b1 where t: "t = (n1, b1)" by (cases t)
  let ?acc = "place_trigger ex (n1, b1) acc"
  have one: "\<exists>b'. map_of ?acc n1 = Some b' \<and> normalize_sql b' = normalize_sql b1"
    using Cons.prems(3) [of n1] t
    by (auto simp: place_trigger_def map_add_def delete_conv split: option.splits)
  show ?case
  proof (cases "n = n1")
    case True
    with Cons.prems t have "b = b1" "n1 \<notin> fst ` set ts" by (force simp: image_iff)+
    with one True t show ?thesis by (simp add: place_other)
  next
    case False
    with Cons.prems t have "(n, b) \<in> set ts" "distinct (map fst ts)" "n1 \<notin> fst ` set ts" by auto
    moreover have "map_of ?acc k = map_of ex k" if "k \<in> fst ` set ts" for k
    proof -
      have "k \<noteq> n1" using that calculation(3) by auto
      then show ?thesis using Cons.prems(3) [of k] that t
        by (auto simp: place_trigger_def map_add_def delete_conv split: option.splits)
    qed
    ultimately show ?thesis using Cons.IH t by simp
  qed
qed simp

fun settling :: "step \<Rightarrow> bool" where
  "settling (Run s) = lasting s"
| "settling (Attempt s) = (lasting s \<or> present_after s)"
| "settling (Ignored ss) = settling_list ss"
| "settling st = True"

lemma step_settles:
  assumes run: "run_step e m st d = Inr d'" and "settling st" and names: "apart e" "makes_ids e m"
  shows "settled e st d'"
proof (cases st)
  case (Attempt s)
  with run have "exec e m s d = Inr d' \<or> d' = d \<and> present s d" by (simp add: try_cases)
  then show ?thesis using Attempt assms(2) meets presents names by auto
next
  case (Backfill t src)
  let ?conv = "UpdateWhere t ''updated_at_utc'' IsNull (Converted src)"
  let ?clock = "Modify t ''updated_at_utc'' (required CLOCK_TYPE)"
  obtain d1 d2 where d: "try_ddl e m ?conv d = Inr d1"
    "try_ddl e m (UpdateWhere t ''updated_at_utc'' IsNull UtcNow) d1 = Inr d2" "try_ddl e m ?clock d2 = Inr d'"
    using run Backfill by (auto simp: backfill_table_def)
  have r: "exec e m ?conv d = Inr d1" "exec e m (UpdateWhere t ''updated_at_utc'' IsNull UtcNow) d1 = Inr d2"
    "exec e m ?clock d2 = Inr d'"
    using d [THEN try_cases] by auto
  have "col t src d \<noteq> None"
    using r(1) by (auto elim!: on_tableE simp: readers effects split: if_splits)
  then have "col t src d' \<noteq> None" using r [THEN exec_has_col] by blast
  with meets [OF r(3) _ names] Backfill show ?thesis by (simp del: met.simps)
next
  case ReceiptsKey
  let ?one = "Modify ''sync_receipts'' ''account_id'' (required ''VARCHAR(50)'')"
  let ?two = "Modify ''sync_receipts'' ''payload_hash'' (required HASH_TYPE)"
  let ?key = "SetKey ''sync_receipts'' RECEIPT_KEY"
  obtain d1 d2 d3 where d: "exec e m ?one d1 = Inr d2" "exec e m ?two d2 = Inr d3"
    "d' = d3 \<and> primary_key ''sync_receipts'' d3 = RECEIPT_KEY \<or> exec e m ?key d3 = Inr d'"
    using run ReceiptsKey by (auto simp: ensure_receipts_account_key_def simp del: exec.simps split: if_splits)
  have "met e ?one d2" "met e ?two d3"
    using meets [OF d(1) _ names] meets [OF d(2) _ names] by (simp_all del: met.simps)
  then have "met e ?one d3 \<and> met e ?two d3"
    using met_stays [OF d(2), of ?one] names by (simp del: met.simps)
  moreover have "met e x d'" if "met e x d3" "x = ?one \<or> x = ?two" for x
    using that d(3) met_stays [of e m ?key d3 d' x] names by (auto simp del: met.simps exec.simps)
  ultimately have "met e ?one d'" "met e ?two d'" by (simp_all del: met.simps)
  moreover have "primary_key ''sync_receipts'' d' = RECEIPT_KEY"
    using d(3) by (auto elim!: on_tableE simp: readers effects split: if_splits)
  ultimately show ?thesis using ReceiptsKey by (simp del: met.simps)
next
  case ChangeLogTriggers
  then show ?thesis
    using run placed [OF triggers_distinct] by (auto simp: init_change_log_triggers_def)
qed (use assms in \<open>auto intro: meets ignoring_settles\<close>)

section \<open>The whole upgrade\<close>

fun ordered :: "step list \<Rightarrow> bool" where
  "ordered [] = True"
| "ordered (x # xs) = (settling x \<and> list_all (compat x) xs \<and> ordered xs)"

lemma script_ordered: "ordered upgrade_script"
  by code_simp

lemma run_settles:
  assumes "sfold (run_step e m) xs d = Inr d'" "ordered xs" "apart e" "makes_ids e m" "x \<in> set xs"
  shows "settled e x d'"
  using assms(1,2,5)
proof (induction xs arbitrary: d)
  case (Cons y xs)
  then obtain d1 where y: "run_step e m y d = Inr d1" "sfold (run_step e m) xs d1 = Inr d'" by auto
  show ?case
  proof (cases "x \<in> set xs")
    case True
    with Cons y(2) show ?thesis by simp
  next
    case False
    with Cons.prems have "x = y" "settling x" "list_all (compat x) xs" by auto
    moreover have "settled e x d1" using step_settles [OF y(1)] calculation assms(3,4) by simp
    moreover have "settled e x d' " if "settled e x d1" "list_all (compat x) ys" "sfold (run_step e m) ys d1 = Inr d'" for ys d1
      using that
    proof (induction ys arbitrary: d1)
      case (Cons z zs)
      then obtain d2 where "run_step e m z d1 = Inr d2" "sfold (run_step e m) zs d2 = Inr d'" by auto
      with Cons settled_stays [of e m z d1 d2 x] assms(3,4) show ?case by auto
    qed simp
    ultimately show ?thesis using y(2) by blast
  qed
qed simp

lemma settled_again: "(\<And>x. x \<in> set xs \<Longrightarrow> settled e x d) \<Longrightarrow> sfold (run_step e m) xs d = Inr d"
  by (induction xs) (auto simp: settled_does_nothing)

lemma validated: "validate_sync_schema d = [] \<longleftrightarrow>
    (\<forall>(t, cs) \<in> set required_columns. columns_of t d \<noteq> [] \<and> (\<forall>c \<in> set cs. col t c d \<noteq> None)) \<and>
    (\<forall>(t, c) \<in> set required_not_null. \<exists>k. col t c d = Some k \<and> \<not> co_null k) \<and>
    (\<forall>n \<in> fst ` set triggers. map_of (db_triggers d) n \<noteq> None)"
proof -
  have sorted: "sort_str xs = [] \<longleftrightarrow> xs = []" for xs by (metis sort_str_set set_empty)
  show ?thesis
    by (auto simp: validate_sync_schema_def sorted col_def filter_empty_conv map_filter_def
        split: option.splits if_splits prod.splits; fastforce)
qed

lemma session_table_frame:
  assumes "run_step e m ensure_session_table d = Inr d'" "validate_sync_schema d = []"
  shows "validate_sync_schema d' = []"
proof -
  have "columns_of t d' = columns_of t d" if "columns_of t d \<noteq> []" for t
    using assms(1) that by (auto simp: ensure_session_table_def readers map_add_def split: if_splits option.splits)
  moreover from this have "col t c d' = col t c d" if "col t c d \<noteq> None" for t c
    using that by (cases "columns_of t d") (auto simp: col_def)
  moreover have "db_triggers d' = db_triggers d"
    using assms(1) by (auto simp: ensure_session_table_def split: if_splits)
  ultimately show ?thesis using assms(2) unfolding validated by (fastforce simp: case_prod_unfold)
qed

lemma script_lets_sessions: "list_all (\<lambda>x. compat x ensure_session_table) upgrade_script"
  by code_simp

lemma init_cases:
  assumes "init_db e m p d = Inr d'"
  obtains d1 where "sfold (run_step e m) upgrade_script d = Inr d1" "validate_sync_schema d1 = []"
    "if p then run_step e m ensure_session_table d1 = Inr d' else d' = d1"
  using assms by (auto simp: init_db_def split: sum.splits if_splits)

text \<open>What the proofs below rest on: a database that \<open>init_db\<close> returns passes the validation and is settled for
  every step of the script.\<close>

lemma upgraded_database:
  assumes "init_db e m p d = Inr d'" "apart e" "makes_ids e m"
  shows "\<And>x. x \<in> set upgrade_script \<Longrightarrow> settled e x d'" "validate_sync_schema d' = []"
    "p \<Longrightarrow> map_of (db_tables d') ''todo_sessions'' \<noteq> None"
proof -
  obtain d1 where d1: "sfold (run_step e m) upgrade_script d = Inr d1" "validate_sync_schema d1 = []"
    "if p then run_step e m ensure_session_table d1 = Inr d' else d' = d1"
    using init_cases [OF assms(1)] .
  show "settled e x d'" if x: "x \<in> set upgrade_script" for x
  proof (cases p)
    case True
    have "compat x ensure_session_table" using script_lets_sessions x by (simp add: list_all_iff)
    with True d1(3) settled_stays [OF _ run_settles [OF d1(1) script_ordered assms(2,3) x] _ assms(2,3)]
    show ?thesis by simp
  qed (use d1(3) run_settles [OF d1(1) script_ordered assms(2,3) x] in simp)
  show "validate_sync_schema d' = []" using d1(2,3) session_table_frame by (auto split: if_splits)
  show "map_of (db_tables d') ''todo_sessions'' \<noteq> None" if p
    using d1(3) that by (auto simp: ensure_session_table_def map_add_def split: if_splits option.splits)
qed

text \<open>C38. Upgrading a database a second time, at whatever later moment, changes nothing: every restart
  of a node finds its database as the first upgrade left it.\<close>

theorem upgrade_is_idempotent:
  assumes "init_db e m p d = Inr d'" "apart e" "makes_ids e m"
  shows "init_db e m' p d' = Inr d'"
proof -
  have "sfold (run_step e m') upgrade_script d' = Inr d'"
    using settled_again upgraded_database(1) [OF assms] .
  moreover have "run_step e m' ensure_session_table d' = Inr d'" if p
    using upgraded_database(3) [OF assms that] by (auto simp: ensure_session_table_def)
  ultimately show ?thesis using upgraded_database(2) [OF assms] by (simp add: init_db_def)
qed

section \<open>What becomes of the data\<close>

text \<open>
  What the upgrade may make of a value that is set: the stamp of the last update becomes the moment of
  the upgrade, the roles of old are renamed, a blank epoch becomes an identifier.
\<close>

definition carried :: "env \<Rightarrow> moment \<Rightarrow> string \<Rightarrow> string \<Rightarrow> val \<Rightarrow> val \<Rightarrow> bool" where
  "carried e m t c v v' =
     (v' = v \<or>
      c = ''updated_at'' \<and> v' = VTime (mo_now m) \<or>
      t = ''project_members'' \<and> c = ''role'' \<and>
        (sql_eq e v (VStr ''member'') \<and> v' = VStr ''viewer'' \<or> sql_eq e v (VStr ''admin'') \<and> v' = VStr ''owner'') \<or>
      t = ''sync_state'' \<and> c = ''client_epoch'' \<and> sql_eq e v (VStr []) \<and> (\<exists>u. v' = VStr u \<and> \<not> same_str e u []))"

definition keeps_values :: "env \<Rightarrow> moment \<Rightarrow> db \<Rightarrow> string \<Rightarrow> row \<Rightarrow> row \<Rightarrow> bool" where
  "keeps_values e m d t r r' =
     (\<forall>c. col t c d \<noteq> None \<and> row_get r c \<noteq> VNull \<longrightarrow> carried e m t c (row_get r c) (row_get r' c))"

definition keeps_rows :: "env \<Rightarrow> moment \<Rightarrow> db \<Rightarrow> db \<Rightarrow> bool" where
  "keeps_rows e m d d' = (\<forall>t. list_all2 (keeps_values e m d t) (rows_of t d) (rows_of t d') \<and>
     (\<forall>c. col t c d \<noteq> None \<longrightarrow> col t c d' \<noteq> None))"

definition REPLACEMENTS :: "(string \<times> string \<times> cond \<times> filler) list" where
  "REPLACEMENTS =
    [(''project_members'', ''role'', Is ''member'', Text ''viewer''), (''project_members'', ''role'', Is ''admin'', Text ''owner''),
     (''sync_state'', ''client_epoch'', IsBlank, NewUuid)]"

fun mild :: "stmt \<Rightarrow> bool" where
  "mild (UpdateWhere t c w f) = (c \<noteq> ''updated_at'' \<and> (w = IsNull \<or> (t, c, w, f) \<in> set REPLACEMENTS))"
| "mild s = True"

lemma names_differ: "apart e \<Longrightarrow> x \<in> set NAMES \<Longrightarrow> y \<in> set NAMES \<Longrightarrow> same_str e x y \<longleftrightarrow> x = y"
  by (auto simp: apart_def same_str_def inj_on_def)

lemma same_str_through: "same_str e u x \<Longrightarrow> same_str e u y \<Longrightarrow> same_str e x y"
  by (simp add: same_str_def)

lemma carried_set: "carried e m t c v v' \<Longrightarrow> v \<noteq> VNull \<Longrightarrow> v' \<noteq> VNull"
  by (auto simp: carried_def)

lemma carried_further:
  assumes "carried e m t c v v'" "v \<noteq> VNull" "holds e w v'" "mild (UpdateWhere t c w f)" "apart e" "makes_ids e m"
  shows "carried e m t c v (fill m f r)"
proof -
  have w: "w \<noteq> IsNull" using assms(1-3) carried_set by (cases w) auto
  with assms(4) have c: "(t, c, w, f) \<in> set REPLACEMENTS" "c \<noteq> ''updated_at''" by auto
  then consider "t = ''project_members''" "c = ''role''" "w = Is ''member''" "f = Text ''viewer''"
    | "t = ''project_members''" "c = ''role''" "w = Is ''admin''" "f = Text ''owner''"
    | "t = ''sync_state''" "c = ''client_epoch''" "w = IsBlank" "f = NewUuid"
    by (auto simp: REPLACEMENTS_def)
  then show ?thesis
  proof cases
    case 1
    then have "v' = v"
      using assms(1,3) names_differ [OF assms(5), of "''viewer''" "''member''"]
        names_differ [OF assms(5), of "''owner''" "''member''"] by (auto simp: carried_def NAMES_def)
    with 1 assms(3) show ?thesis by (simp add: carried_def)
  next
    case 2
    then have "v' = v"
      using assms(1,3) names_differ [OF assms(5), of "''viewer''" "''admin''"]
        names_differ [OF assms(5), of "''owner''" "''admin''"] by (auto simp: carried_def NAMES_def)
    with 2 assms(3) show ?thesis by (simp add: carried_def)
  next
    case 3
    then have "sql_eq e v (VStr [])" using assms(1-3) by (auto simp: carried_def)
    with 3 assms(6) show ?thesis by (simp add: carried_def makes_ids_def)
  qed
qed

lemma updated_keeps:
  assumes "keeps_values e m d t r q" "mild (UpdateWhere t c w f)" "apart e" "makes_ids e m"
  shows "keeps_values e m d t r (fill_row e m b c w f q)"
proof -
  have "carried e m t c' (row_get r c') (row_get (fill_row e m b c w f q) c')"
    if k: "carried e m t c' (row_get r c') (row_get q c')" "row_get r c' \<noteq> VNull" for c'
  proof (cases "holds e w (row_get q c) \<and> fill m f q \<noteq> row_get q c")
    case True
    consider "c' = c" | "c' \<noteq> c" "c' = ''updated_at''" "b" | "c' \<noteq> c" "c' \<noteq> ''updated_at'' \<or> \<not> b" by blast
    then show ?thesis
    proof cases
      case 1
      then show ?thesis using True k carried_further [OF _ _ _ assms(2-4)] by (simp add: fill_row_def)
    next
      case 2
      then show ?thesis using True by (auto simp: fill_row_def carried_def)
    next
      case 3
      then show ?thesis using k(1) by (auto simp: fill_row_def)
    qed
  qed (use k(1) in \<open>auto simp: fill_row_def\<close>)
  then show ?thesis using assms(1) by (simp add: keeps_values_def)
qed

lemma exec_keeps_rows:
  assumes "exec e m s x = Inr y" "keeps_rows e m d x" "mild s" "apart e" "makes_ids e m"
  shows "keeps_rows e m d y"
proof -
  have "keeps_values e m d t r (row_change e m s x t q)" if q: "keeps_values e m d t r q" for t r q
  proof (cases s)
    case (AddColumn t' c k a)
    then have "t = t' \<Longrightarrow> col t c x = None"
      using assms(1) by (auto elim!: on_tableE simp: readers effects split: if_splits)
    then have "t = t' \<Longrightarrow> col t c d = None" using assms(2) unfolding keeps_rows_def by metis
    with AddColumn q show ?thesis by (auto simp: keeps_values_def)
  next
    case (UpdateWhere t' c w f)
    with q assms(3) updated_keeps [of e m d t' r q c w f, OF _ _ assms(4,5)] show ?thesis by auto
  qed (use q in simp_all)
  then have "list_all2 (keeps_values e m d t) (rows_of t d) (rows_of t y)" for t
    using assms(2) unfolding exec_rows [OF assms(1)] keeps_rows_def list.rel_map
    by (meson list_all2_mono)
  moreover have "\<forall>c. col t c d \<noteq> None \<longrightarrow> col t c y \<noteq> None" for t
    using assms(2) exec_has_col [OF assms(1)] by (simp add: keeps_rows_def)
  ultimately show ?thesis by (simp add: keeps_rows_def)
qed

lemma script_mild: "list_all (\<lambda>st. list_all mild (stmts st)) upgrade_script"
  by code_simp

lemma run_keeps_rows:
  "sfold (run_step e m) xs x = Inr y \<Longrightarrow> list_all (\<lambda>st. list_all mild (stmts st)) xs \<Longrightarrow> keeps_rows e m d x \<Longrightarrow>
     apart e \<Longrightarrow> makes_ids e m \<Longrightarrow> keeps_rows e m d y"
proof (induction xs arbitrary: x)
  case (Cons st xs)
  then obtain z where z: "run_step e m st x = Inr z" "sfold (run_step e m) xs z = Inr y" by auto
  have "keeps_rows e m d z"
    by (rule step_keeps [OF z(1), where P = "keeps_rows e m d"])
      (use Cons.prems exec_keeps_rows in \<open>auto simp: list_all_iff keeps_rows_def\<close>)
  with Cons z(2) show ?case by simp
qed simp

lemma upgrade_steps:
  "(t, src) \<in> set UTC_BACKFILL_SOURCE \<Longrightarrow> Backfill t src \<in> set upgrade_script"
  "Ignored [Modify ''project_members'' ''role'' (defaulted ''VARCHAR(20)'' False (VStr ''viewer'')),
     UpdateWhere ''project_members'' ''role'' (Is ''member'') (Text ''viewer''),
     UpdateWhere ''project_members'' ''role'' (Is ''admin'') (Text ''owner'')] \<in> set upgrade_script"
  "Run (UpdateWhere ''sync_state'' ''client_epoch'' IsBlank NewUuid) \<in> set upgrade_script"
  "ChangeLogTriggers \<in> set upgrade_script"
  by (auto simp: upgrade_script_def init_sync_schema_def OLD_VALUES_def SYNC_UPGRADE_def)

lemma declared_required: "t \<in> set SYNC_TABLE_ORDER \<Longrightarrow> c \<in> set (table_columns t) \<Longrightarrow>
    \<exists>cs. (tbl_name t, cs) \<in> set required_columns \<and> c \<in> set cs"
proof -
  have "list_all (\<lambda>t. list_all (\<lambda>c. list_ex (\<lambda>(n, cs). n = tbl_name t \<and> c \<in> set cs) required_columns) (table_columns t))
      SYNC_TABLE_ORDER"
    by code_simp
  then show "t \<in> set SYNC_TABLE_ORDER \<Longrightarrow> c \<in> set (table_columns t) \<Longrightarrow> ?thesis"
    by (fastforce simp: list_all_iff list_ex_iff)
qed

lemma declared_column:
  assumes "validate_sync_schema d = []" "c \<in> set (table_columns t)"
  shows "col (tbl_name t) c d \<noteq> None"
proof -
  have "t \<in> set SYNC_TABLE_ORDER" by simp
  with assms(2) obtain cs where "(tbl_name t, cs) \<in> set required_columns" "c \<in> set cs"
    using declared_required by blast
  then show ?thesis using assms(1) unfolding validated by blast
qed

text \<open>Unless a member has no role at all, no role of old is left; no node is left without an epoch.\<close>

definition roles_renamed :: "env \<Rightarrow> db \<Rightarrow> bool" where
  "roles_renamed e d =
     (list_ex (\<lambda>r. row_get r ''role'' = VNull) (rows_of ''project_members'' d) \<or>
      list_all (\<lambda>r. \<not> sql_eq e (row_get r ''role'') (VStr ''member'') \<and> \<not> sql_eq e (row_get r ''role'') (VStr ''admin''))
        (rows_of ''project_members'' d))"

lemma upgraded_roles:
  assumes "init_db e m p d = Inr d'" "apart e" "makes_ids e m"
  shows "roles_renamed e d'"
proof -
  have "col ''project_members'' ''role'' d' \<noteq> None"
    using declared_column [OF upgraded_database(2) [OF assms], of "''role''" Project_members]
    by simp
  then show ?thesis
    using upgraded_database(1) [OF assms upgrade_steps(2)]
    by (auto simp: roles_renamed_def list_all_iff list_ex_iff defaulted_def)
qed

text \<open>C39. The upgrade of a database of any age loses no row of any table and leaves every value that
  is set, with three exceptions: updated_at may become the moment of the upgrade, the role
  member of a project member becomes viewer and admin becomes owner, and a blank client_epoch
  becomes an identifier. Afterwards no node is without an epoch, no synchronised row without a
  clock, and no member has a role of old unless one has no role at all.\<close>

theorem upgrade_keeps_data:
  assumes "init_db e m p d = Inr d'" "apart e" "makes_ids e m"
  shows "list_all2 (keeps_values e m d t) (rows_of t d) (rows_of t d') \<and>
    roles_renamed e d' \<and>
    list_all (\<lambda>r. \<not> holds e IsBlank (row_get r ''client_epoch'')) (rows_of ''sync_state'' d') \<and>
    (t \<in> fst ` set UTC_BACKFILL_SOURCE \<longrightarrow> list_all (\<lambda>r. row_get r ''updated_at_utc'' \<noteq> VNull) (rows_of t d'))"
proof -
  obtain d1 where d1: "sfold (run_step e m) upgrade_script d = Inr d1"
    "if p then run_step e m ensure_session_table d1 = Inr d' else d' = d1"
    using init_cases [OF assms(1)] by metis
  have "keeps_rows e m d d" by (simp add: keeps_rows_def list_all2_same keeps_values_def carried_def)
  then have "keeps_rows e m d d1" using run_keeps_rows [OF d1(1) script_mild] assms(2,3) by blast
  moreover have "rows_of t d' = rows_of t d1"
    using d1(2) by (auto simp: ensure_session_table_def readers map_add_def split: if_splits option.splits)
  moreover have "list_all (\<lambda>r. row_get r ''updated_at_utc'' \<noteq> VNull) (rows_of t d')"
    if h: "t \<in> fst ` set UTC_BACKFILL_SOURCE"
  proof -
    obtain src where "(t, src) \<in> set UTC_BACKFILL_SOURCE" using h by auto
    from upgraded_database(1) [OF assms upgrade_steps(1) [OF this]] show ?thesis
      by (auto simp: required_def list_all_iff)
  qed
  moreover have "list_all (\<lambda>r. \<not> holds e IsBlank (row_get r ''client_epoch'')) (rows_of ''sync_state'' d')"
    using upgraded_database(1) [OF assms upgrade_steps(3)] by (simp add: list_all_iff)
  ultimately show ?thesis using upgraded_roles [OF assms] by (simp add: keeps_rows_def)
qed

section \<open>A fresh database\<close>

definition fresh :: db where
  "fresh = \<lparr>db_tables = [], db_triggers = []\<rparr>"

text \<open>The tables have the columns, and the columns without NULL, that the model of the store gives them.\<close>

lemma fresh_upgraded:
  "case sfold (run_step e m) upgrade_script fresh of
     Inl x \<Rightarrow> False
   | Inr d \<Rightarrow> validate_sync_schema d = [] \<and> length (db_triggers d) = 12 \<and>
       list_all (\<lambda>t. (list_all (\<lambda>c. c \<in> set (all_columns t)) (map fst (columns_of (tbl_name t) d)) \<and>
           list_all (\<lambda>c. map_of (columns_of (tbl_name t) d) c \<noteq> None) (all_columns t)) \<and>
         sort_str (map fst (filter (\<lambda>(c, k). \<not> co_null k) (columns_of (tbl_name t) d))) = sort_str (not_null_columns t))
       SYNC_TABLE_ORDER"
  by code_simp

lemma fresh_database_is_the_modelled_one:
  "case init_db e m p fresh of
     Inl x \<Rightarrow> False
   | Inr d \<Rightarrow> length (db_triggers d) = 3 * length SYNC_TABLE_ORDER \<and>
       set (map fst (columns_of (tbl_name t) d)) = set (all_columns t) \<and>
       set (map fst (filter (\<lambda>(c, k). \<not> co_null k) (columns_of (tbl_name t) d))) = set (not_null_columns t)"
proof -
  obtain d where d: "sfold (run_step e m) upgrade_script fresh = Inr d" "validate_sync_schema d = []"
    "length (db_triggers d) = 12"
    "\<forall>t \<in> set SYNC_TABLE_ORDER. (list_all (\<lambda>c. c \<in> set (all_columns t)) (map fst (columns_of (tbl_name t) d)) \<and>
           list_all (\<lambda>c. map_of (columns_of (tbl_name t) d) c \<noteq> None) (all_columns t)) \<and>
         sort_str (map fst (filter (\<lambda>(c, k). \<not> co_null k) (columns_of (tbl_name t) d))) = sort_str (not_null_columns t)"
    using fresh_upgraded [of e m] by (auto simp: list_all_iff split: sum.splits)
  have t: "t \<in> set SYNC_TABLE_ORDER" by simp
  have cols: "set (map fst (columns_of (tbl_name t) d)) = set (all_columns t)"
    using d(4) t by (force simp: list_all_iff map_of_eq_None_iff)
  have nn: "set (map fst (filter (\<lambda>(c, k). \<not> co_null k) (columns_of (tbl_name t) d))) = set (not_null_columns t)"
    using d(4) t by (metis sort_str_set)
  obtain d' where d': "run_step e m ensure_session_table d = Inr d'"
    by (cases "run_step e m ensure_session_table d") (auto simp: ensure_session_table_def split: if_splits)
  have "set (all_columns t) \<noteq> {}" by (cases t) (simp_all add: all_columns_def)
  then have "columns_of (tbl_name t) d \<noteq> []" unfolding cols [symmetric] by auto
  then have "columns_of (tbl_name t) d' = columns_of (tbl_name t) d" "db_triggers d' = db_triggers d"
    using d' by (auto simp: ensure_session_table_def readers map_add_def split: if_splits option.splits)
  with d(1-3) d' cols nn show ?thesis by (simp add: init_db_def SYNC_TABLE_ORDER_def del: set_map)
qed

definition logs_changes :: "db \<Rightarrow> tbl \<Rightarrow> string \<times> string \<times> string \<Rightarrow> bool" where
  "logs_changes d t = (\<lambda>(o', suffix, alias). \<exists>b. map_of (db_triggers d) (trigger_name (tbl_name t) suffix) = Some b \<and>
     normalize_sql b = normalize_sql (trigger_body (tbl_name t) o' alias))"

text \<open>C40. Whatever database the upgrade succeeds on, afterwards every synchronised table has the
  columns that are synchronised, its clock is a required DATETIME(3), and its three triggers
  that write the change log have the body of this version, white space apart. A database that
  was empty has exactly the columns, and exactly the NOT NULL columns, that the model of the
  store gives its tables.\<close>

theorem upgraded_database_is_the_modelled_one:
  assumes "init_db e m p d = Inr d'" "apart e" "makes_ids e m"
  shows "set (table_columns t) \<subseteq> set (map fst (columns_of (tbl_name t) d')) \<and>
    col (tbl_name t) ''updated_at_utc'' d' = Some (required CLOCK_TYPE) \<and>
    list_all (logs_changes d' t) TRIGGER_OPS \<and>
    (d = fresh \<longrightarrow> set (map fst (columns_of (tbl_name t) d')) = set (all_columns t) \<and>
       set (map fst (filter (\<lambda>(c, k). \<not> co_null k) (columns_of (tbl_name t) d'))) = set (not_null_columns t))"
proof -
  have t: "t \<in> set SYNC_TABLE_ORDER" by simp
  have "col (tbl_name t) c d' \<noteq> None" if "c \<in> set (table_columns t)" for c
    using declared_column [OF upgraded_database(2) [OF assms] that] .
  then have "set (table_columns t) \<subseteq> set (map fst (columns_of (tbl_name t) d'))"
    by (auto simp: col_def map_of_eq_None_iff)
  moreover have "tbl_name t \<in> fst ` set UTC_BACKFILL_SOURCE"
    by (cases t) (simp_all add: UTC_BACKFILL_SOURCE_def)
  then obtain src where "(tbl_name t, src) \<in> set UTC_BACKFILL_SOURCE" by auto
  from upgraded_database(1) [OF assms upgrade_steps(1) [OF this]]
  have "col (tbl_name t) ''updated_at_utc'' d' = Some (required CLOCK_TYPE)" by simp
  moreover have "list_all (logs_changes d' t) TRIGGER_OPS"
    using upgraded_database(1) [OF assms upgrade_steps(4)] t
    by (fastforce simp: list_all_iff logs_changes_def triggers_def)
  moreover have "set (map fst (columns_of (tbl_name t) d')) = set (all_columns t) \<and>
      set (map fst (filter (\<lambda>(c, k). \<not> co_null k) (columns_of (tbl_name t) d'))) = set (not_null_columns t)"
    if "d = fresh"
    using fresh_database_is_the_modelled_one [where e = e and m = m and p = p and t = t] assms(1) that by simp
  ultimately show ?thesis by simp
qed

section \<open>A database of the time before\<close>

definition old_node :: db where
  "old_node = \<lparr>db_tables =
     [(''projects'', \<lparr>tb_columns = [(''id'', required Str50), (''name'', required Str255), (''icon'', required ''VARCHAR(10)''),
          (''is_secret'', defaulted ''BOOLEAN'' True (VInt 0)), (''created_at'', required ''DATETIME''),
          (''updated_at'', required ''DATETIME'')],
        tb_key = [''id''], tb_indexes = [], tb_foreign = [(''fk_owner'', ''users'')],
        tb_rows = [[(''id'', VStr ''p''), (''name'', VStr ''plan''), (''icon'', VStr ''Beer''), (''is_secret'', VInt 0),
          (''created_at'', VTime 0), (''updated_at'', VTime 32400000007)]]\<rparr>),
      (''project_members'', \<lparr>tb_columns = [(''id'', required Str50), (''project_id'', required Str50),
          (''user_id'', required Str50), (''role'', required ''VARCHAR(20)''), (''invited_at'', required ''DATETIME'')],
        tb_key = [''id''], tb_indexes = [], tb_foreign = [],
        tb_rows = [[(''id'', VStr ''x''), (''project_id'', VStr ''p''), (''user_id'', VStr ''ann''), (''role'', VStr ''admin''),
          (''invited_at'', VTime 32400000000)]]\<rparr>)],
     db_triggers = []\<rparr>"

definition some_day :: "int \<Rightarrow> moment" where
  "some_day t = \<lparr>mo_utc = t, mo_now = t + 32400000000, mo_uuid = (\<lambda>r. ''u''), mo_sha2 = (\<lambda>v. ''h'')\<rparr>"

lemma sample_names_apart: "apart sample_env"
  by (simp add: apart_def sample_env_def lax_env_def inj_on_def)

lemma sample_ids: "makes_ids sample_env (some_day t)"
  by (simp add: makes_ids_def some_day_def same_str_def sample_env_def lax_env_def)

lemma old_node_upgrades:
  "case init_db sample_env (some_day 1) False old_node of Inl x \<Rightarrow> False | Inr d \<Rightarrow> True"
  by code_simp

theorem upgrade_is_idempotent_witness:
  "\<exists>d. init_db sample_env (some_day 1) False old_node = Inr d \<and> init_db sample_env (some_day 2) False d = Inr d"
  using old_node_upgrades upgrade_is_idempotent [OF _ sample_names_apart sample_ids, of 1 False old_node _ "some_day 2"]
  by (auto split: sum.splits)

theorem upgrade_keeps_data_witness:
  "\<exists>d. init_db sample_env (some_day 1) False old_node = Inr d \<and> roles_renamed sample_env d \<and>
     list_all2 (keeps_values sample_env (some_day 1) old_node ''project_members'')
       (rows_of ''project_members'' old_node) (rows_of ''project_members'' d)"
  using old_node_upgrades upgrade_keeps_data [OF _ sample_names_apart sample_ids, of 1 False old_node _ "''project_members''"]
  by (auto split: sum.splits)

theorem upgraded_database_witness:
  "\<exists>d. init_db sample_env (some_day 1) False old_node = Inr d \<and> list_all (logs_changes d Memos) TRIGGER_OPS \<and>
     col ''memos'' ''updated_at_utc'' d = Some (required CLOCK_TYPE)"
  using old_node_upgrades upgraded_database_is_the_modelled_one [OF _ sample_names_apart sample_ids, of 1 False old_node _ Memos]
  by (auto split: sum.splits)

text \<open>
  The project keeps the instant of its last edit as its clock, but \<open>updated_at\<close>, which was that
  instant, is now the time of the upgrade.
\<close>

lemma upgrade_loses_updated_at:
  "case init_db sample_env (some_day 99) False old_node of
     Inl x \<Rightarrow> False
   | Inr d \<Rightarrow> map (\<lambda>r. (row_get r ''updated_at_utc'', row_get r ''updated_at'')) (rows_of ''projects'' d) =
       [(VTime 7, VTime 32400000099)]"
  by code_simp

end
