(* ===== verification/App.thy ===== *)
theory App
  imports Sync_Daemon Realtime Settings
begin

text \<open>
  \<^verbatim>\<open>src/__main__.py\<close> and \<^verbatim>\<open>src/sync_daemon.py\<close>: what the process does at its start, the notice after a
  request that wrote something, and the stand-alone daemon. The requests run side by side: each
  reads the end of the log in a thread and compares it with the last announced one afterwards.
\<close>

section \<open>The start\<close>

record process =
  pr_seen :: int
  pr_hub :: hub

text \<open>What \<open>lifespan\<close> does after \<open>init_db\<close>; \<open>daemon\<close> is the peer the daemon would have.\<close>

definition lifespan :: "config \<Rightarrow> peer_cfg \<Rightarrow> store \<Rightarrow> process \<Rightarrow> process" where
  "lifespan c daemon s p =
     (let h = (pr_hub p)\<lparr>hb_loop := True\<rparr>;
          seen = (if serves_sync_peer_api c then max_change_seq s else pr_seen p);
          rt = (if runs_sync_daemon c \<and> cf_autostart c
                then start_daemon (runs_sync_daemon c) daemon (hb_runtime h) else hb_runtime h)
      in p\<lparr>pr_seen := seen, pr_hub := h\<lparr>hb_runtime := rt\<rparr>\<rparr>)"

section \<open>The notice after a write\<close>

fun starts_with :: "string \<Rightarrow> string \<Rightarrow> bool" where
  "starts_with [] s = True"
| "starts_with (x # xs) [] = False"
| "starts_with (x # xs) (y # ys) = (x = y \<and> starts_with xs ys)"

definition announces :: "config \<Rightarrow> string \<Rightarrow> string \<Rightarrow> nat \<Rightarrow> bool" where
  "announces c verb path status =
     (serves_sync_peer_api c \<and> verb \<notin> {''GET'', ''HEAD'', ''OPTIONS''} \<and> \<not> starts_with ''/api/sync/'' path \<and>
      status < 400)"

definition read_seq_and_account :: "env \<Rightarrow> string \<Rightarrow> store \<Rightarrow> int \<times> string option" where
  "read_seq_and_account e account s =
     (max_change_seq s, case resolve_account_id e account s of Inl x \<Rightarrow> None | Inr a \<Rightarrow> Some a)"

text \<open>The rest of \<open>_emit_if_advanced\<close>, which nothing interrupts before the emission.\<close>

definition emit_if_advanced :: "int \<times> string option \<Rightarrow> process \<Rightarrow> process" where
  "emit_if_advanced = (\<lambda>(seq, account) p.
     (case account of
        None \<Rightarrow> p
      | Some a \<Rightarrow> if seq \<le> pr_seen p then p
                  else p\<lparr>pr_seen := seq, pr_hub := emit_sync_changed a seq (pr_hub p)\<rparr>))"

definition notify_sync_change ::
  "env \<Rightarrow> config \<Rightarrow> string \<Rightarrow> string \<Rightarrow> nat \<Rightarrow> store \<Rightarrow> process \<Rightarrow> process" where
  "notify_sync_change e c verb path status s p =
     (if announces c verb path status then emit_if_advanced (read_seq_and_account e (cf_account c) s) p else p)"

section \<open>The stand-alone daemon\<close>

text \<open>\<open>_run\<close>: the exit code, and the runtime of a daemon that was started and stopped again.\<close>

datatype daemon_exit = Code nat | Broken exn

definition daemon_main ::
  "env \<Rightarrow> (json \<Rightarrow> string) \<Rightarrow> bool \<Rightarrow> bool \<Rightarrow> peer_cfg \<Rightarrow> daemon_cfg \<Rightarrow> 'p peer_ops \<Rightarrow> int \<Rightarrow> int \<Rightarrow> 'p world
     \<Rightarrow> daemon_exit \<times> 'p world" where
  "daemon_main e shown once client peer cfg po started finished w =
     (if \<not> configured peer then (Code 2, w)
      else if once
      then case run_once e shown cfg po started finished w of
             (Ran rep, w1) \<Rightarrow> (Code 0, w1)
           | (Stopped k msg, w1) \<Rightarrow> (Code 1, w1)
           | (cycle_end.Raised x, w1) \<Rightarrow> (Broken x, w1)
      else (Code 0, set_runtime (stop_daemon \<circ> start_daemon client peer) w))"

section \<open>Requests side by side\<close>

text \<open>The end of the log, and the readings that have not been compared yet.\<close>

record server =
  sv_process :: process
  sv_end :: int
  sv_reads :: "(int \<times> string option) list"

definition ends_told :: "hub \<Rightarrow> int list" where
  "ends_told h = List.map_filter (\<lambda>f. case f of
     Emit ev fs to \<Rightarrow> if ev = ''syncChanged'' then (case map_of fs ''maxSeq'' of Some (JInt n) \<Rightarrow> Some n | _ \<Rightarrow> None)
       else None
   | _ \<Rightarrow> None) (hb_fx h)"

inductive serve :: "server \<Rightarrow> server \<Rightarrow> bool" where
  grow: "sv_end v \<le> n \<Longrightarrow> serve v (v\<lparr>sv_end := n\<rparr>)"
| look: "serve v (v\<lparr>sv_reads := (sv_end v, a) # sv_reads v\<rparr>)"
| settle: "r \<in> set (sv_reads v) \<Longrightarrow>
    serve v (v\<lparr>sv_process := emit_if_advanced r (sv_process v), sv_reads := remove1 r (sv_reads v)\<rparr>)"
| elsewhere: "ends_told h = ends_told (pr_hub (sv_process v)) \<Longrightarrow>
    serve v (v\<lparr>sv_process := (sv_process v)\<lparr>pr_hub := h\<rparr>\<rparr>)"

inductive served :: "server \<Rightarrow> server \<Rightarrow> bool" where
  stay: "served v v"
| step: "served v w \<Longrightarrow> serve w x \<Longrightarrow> served v x"

definition in_order :: "server \<Rightarrow> bool" where
  "in_order v =
     (let ns = ends_told (pr_hub (sv_process v)) in
      sorted_wrt (<) ns \<and> list_all (\<lambda>n. n \<le> pr_seen (sv_process v)) ns \<and> pr_seen (sv_process v) \<le> sv_end v \<and>
      list_all (\<lambda>(n, a). n \<le> sv_end v) (sv_reads v))"

lemma announced_emit:
  "ends_told (emit_sync_changed a n h) = (if hb_available h then ends_told h @ [n] else ends_told h)"
  by (simp add: ends_told_def emit_sync_changed_def emit_def map_filter_def)

lemma serve_in_order: "serve v w \<Longrightarrow> in_order v \<Longrightarrow> in_order w"
proof (induction rule: serve.induct)
  case (grow v n)
  then show ?case by (auto simp: in_order_def Let_def list_all_iff)
next
  case (settle r v)
  obtain n a where r: "r = (n, a)" by (cases r)
  with settle have "n \<le> sv_end v" by (fastforce simp: in_order_def Let_def list_all_iff)
  with settle r show ?case
    by (auto simp: in_order_def Let_def list_all_iff emit_if_advanced_def announced_emit sorted_wrt_append
        split: option.splits dest!: set_remove1_subset [THEN subsetD])
qed (auto simp: in_order_def Let_def list_all_iff)

text \<open>However the requests interleave, the announced ends of the log increase.\<close>

theorem notices_increase:
  assumes "served v w" "in_order v"
  shows "sorted_wrt (<) (ends_told (pr_hub (sv_process w)))"
proof -
  have "in_order w" using assms by (induction rule: served.induct) (auto intro: serve_in_order)
  then show ?thesis by (simp add: in_order_def Let_def)
qed

text \<open>A write that was announced, or came too late to be: the watermark has passed its reading.\<close>

lemma compared_is_seen: "fst r \<le> pr_seen (emit_if_advanced r p) \<or> snd r = None"
  by (auto simp: emit_if_advanced_def split: prod.splits option.splits)

end
