(* ===== verification/Spec2Isabelle.thy ===== *)
theory Spec2Isabelle
  imports Sync_Witnesses Merge_Laws Router_Witnesses Requests Lock_Spec Memo_Laws Project_Laws
    Article_Api Settings_Laws Cli_Laws
    Upgrade_Laws App
begin

text \<open>
  A model of the synchronisation core of the todo API: a server node and a client node keep
  the same projects, memos, memo versions and members in a MariaDB each, log their own
  writes, push and pull changes, and settle concurrent edits by the later clock.

  \<^bold>\<open>Layout\<close>

  \<^item> \<open>Prelude\<close>: values of a column or a JSON field, Python dictionaries as association lists,
    the exceptions, sequencing of fallible steps (\<open>sbind\<close>, \<open>sfold\<close> and its invariant rule).
  \<^item> \<open>Timeutil\<close> (\<^verbatim>\<open>src/timeutil.py\<close>): instants in microseconds, the calendar, writing and
    reading ISO 8601.
  \<^item> \<open>Sync_Schema\<close> (\<^verbatim>\<open>src/sync_schema.py\<close>): the four synchronised tables.
  \<^item> \<open>Store\<close> (\<^verbatim>\<open>src/connectors/__init__.py\<close>): the tables a connection sees, the SQL statements
    on them with their triggers, transactions, and the environment \<open>env\<close> of parameters.
  \<^item> \<open>Wire\<close>, \<open>Sync_Store\<close> (\<^verbatim>\<open>src/services/sync_store.py\<close>): the row codec, and the operations on
    the bookkeeping tables.
  \<^item> \<open>Sync_Apply\<close> (\<^verbatim>\<open>src/services/sync_apply.py\<close>): applying a batch.
  \<^item> \<open>Invariants\<close>: what the schema makes the engine refuse, and three locales, each on top of the
    one before, \<open>statement_invariant\<close>, \<open>change_invariant\<close> and \<open>store_invariant\<close>: a predicate kept by
    every statement the operations issue is kept by the operations. They are interpreted for the
    keys, the parent references, the order of the log, the survival of rows, the bookkeeping, the
    absence of echoes and the uniqueness of open issues.
  \<^item> \<open>Apply_Laws\<close>, \<open>Apply_Batch\<close>, \<open>Feed\<close>, \<open>Books\<close>: the properties of one change, of a batch with
    receipts (over the locale \<open>receipt_book\<close>), of the feed and of the bookkeeping tables.
  \<^item> \<open>Lock_Registry\<close> (\<^verbatim>\<open>src/services/lock_registry.py\<close>): edit leases, with runs as a step
    relation and invariants by rule induction.
  \<^item> \<open>Merge\<close>, \<open>Merge_Laws\<close> (\<^verbatim>\<open>src/services/merge.py\<close>): merging duplicates.
  \<^item> \<open>Access\<close> (\<^verbatim>\<open>src/utils.py\<close>, \<^verbatim>\<open>src/auth_utils.py\<close>, \<^verbatim>\<open>src/token_verifier.py\<close>,
    \<^verbatim>\<open>src/services/sync_auth.py\<close>): roles, permissions, the account of a peer.
  \<^item> \<open>Peer\<close> (\<^verbatim>\<open>src/services/http_json.py\<close>, \<^verbatim>\<open>src/services/sync_peer.py\<close>,
    \<^verbatim>\<open>src/services/sync_runtime.py\<close>, \<open>run_merge\<close>): the way to the other node.
  \<^item> \<open>Sync_Daemon\<close> (\<^verbatim>\<open>src/services/sync_daemon.py\<close>): the client's cycle against any peer.
    In \<open>Daemon_Laws\<close> the locale \<open>cycle_phases\<close> has the laws of a predicate that holds until a
    cycle pulls and of a weaker one that holds from then on, and \<open>cycle_invariant\<close> is the case where it is the same: what every step keeps, every
    cycle keeps. \<open>book_invariant\<close>, \<open>section_invariant\<close>, \<open>pull_invariant\<close> and \<open>daemon_invariant\<close> name the
    statements of the parts of a cycle. \<open>Outbox\<close> shows with them that no local change is lost and
    what is sent for it.
  \<^item> \<open>Sync_Auth\<close> (\<^verbatim>\<open>src/services/sync_auth.py\<close>): the credential of a peer and the cache of verdicts.
  \<^item> \<open>Sync_Router\<close> (\<^verbatim>\<open>src/routers/sync.py\<close>): every endpoint of the peer. \<open>Router_Laws\<close> shows that a
    push reaches no foreign project and is answered in full or undone.
  \<^item> \<open>Two_Nodes\<close>, \<open>Both_Ends\<close>, \<open>Requests\<close>: a daemon and a server over a network that loses
    requests and replies: no change is lost, both stores stay well formed (\<open>Rows\<close> says what a
    typed row is), a cycle sends a bounded number of requests. \<open>peer_contract\<close> is what a cycle
    asks of its peer; the server meets it.
  \<^item> \<open>Lock_Spec\<close>: call by call the lease registry answers as a partial map from memos to leases does.
  \<^item> \<open>Realtime\<close> (\<^verbatim>\<open>src/services/realtime.py\<close>): the hub of the browsers' sockets, with the tasks it
    schedules as a queue; \<open>Hub_Laws\<close> has its runs as a step relation and their invariant, and shows
    that a socket that closes leaves nothing behind.
  \<^item> \<open>Memo_Api\<close>, \<open>Project_Api\<close>, \<open>Article_Api\<close>, \<open>Daily_Tasks\<close> (\<^verbatim>\<open>src/routers\<close>): the browser's
    endpoints. \<open>Memo_Laws\<close> shows that a save is fenced by the lease and loses no text,
    \<open>Project_Laws\<close> what a deleted project leaves behind, \<open>Daily_Tasks\<close> what its board keeps.
  \<^item> \<open>Tokens\<close> (\<^verbatim>\<open>src/token_verifier.py\<close>): signing keys with their cache, and the users of tokens.
  \<^item> \<open>Sessions\<close>, \<open>Session_Api\<close> (\<^verbatim>\<open>src/services/session_auth.py\<close>, \<^verbatim>\<open>src/services/livekit.py\<close>):
    the browser's sessions and logins. What other requests do while one waits for a lock or the
    network is a parameter. \<open>Session_Laws\<close>: a login is finished once, an ended session stays
    ended, an offline session is honoured on a local connection only.
  \<^item> \<open>Preflight\<close>, \<open>Settings\<close> (\<^verbatim>\<open>src/preflight.py\<close>, \<^verbatim>\<open>src/config.py\<close>): the settings of a
    process and the checks before its start. \<open>Settings_Laws\<close>: a node that starts in a mode plays
    its role, blank variables count as none, and clean secrets are enough to start.
  \<^item> \<open>Mirror\<close> (\<^verbatim>\<open>scripts/migrate_legacy_todo.py\<close>), \<open>Sync_Cli\<close> (\<^verbatim>\<open>src/sync_cli.py\<close>): loading a
    database from another node or from the old application, and the commands. \<open>Cli_Laws\<close>: a
    bootstrap makes the server a copy of the node or leaves both alone, whatever others write
    meanwhile, and linking the identity gives every project to one account.
  \<^item> \<open>Upgrade\<close> (\<^verbatim>\<open>init_db\<close> of \<^verbatim>\<open>src/connectors/__init__.py\<close>,
    \<^verbatim>\<open>scripts/backfill_updated_at_utc.py\<close>): the schema as a list of statements on a database of any
    age. \<open>Upgrade_Laws\<close>: a second upgrade changes nothing, no value is lost, and an upgraded
    database has the columns, clocks and triggers that \<open>Store\<close> assumes.
  \<^item> \<open>App\<close> (\<^verbatim>\<open>src/__main__.py\<close>, \<^verbatim>\<open>src/sync_daemon.py\<close>): the start of the process, the notice after
    a write, whose announced ends of the log increase however requests interleave, and the
    stand-alone daemon.
  \<^item> \<open>Samples\<close> and the theories named \<open>_Witnesses\<close>: concrete inputs and the properties at them.

  \<^bold>\<open>How the model reads\<close>

  An operation takes the environment and the store and returns the store; an exception is a
  value of \<open>exn\<close> on the left of a sum. A transaction is \<open>with_connection\<close>, a savepoint is the
  store kept by the caller. SHA-256 of a payload, Unicode NFC, the generated UUIDs, the clock
  readings, the collation key and the refusals of the engine are parameters in \<open>env\<close>; what a
  property needs of them is a hypothesis (\<open>enforces_ddl\<close>) that \<open>sample_env\<close> satisfies.

  \<^bold>\<open>Limits\<close>

  Strings are UTF-8 byte strings; a JSON row holds scalars only; a SELECT without ORDER BY
  returns rows in insertion order; \<open>ON UPDATE CURRENT_TIMESTAMP\<close> fires on every update that
  does not set the column; DATETIME rounding and VARCHAR coercion by the engine are not
  modelled; basic and week forms of ISO 8601 are read as errors; a column compared with a value
  of another type is unequal. Lock operations are atomic, as the re-entrant lock of the source
  makes them; a handler of the hub is atomic too, although the source may switch at an
  \<^verbatim>\<open>await\<close>, and what it schedules runs later, in order. The exception is
  \<open>start_screen_share\<close>, where a parameter says what other handlers do while it waits for the
  database; lemma \<open>share_outlives_its_socket\<close> shows what may come of it. Likewise a refresh of a
  session waits, and what other requests do meanwhile is a parameter. What the program compares
  with \<^verbatim>\<open>=\<close> in SQL is equal up to the collation: \<open>text_kept\<close> says so of the text of a conflict.

  \<^bold>\<open>Not modelled\<close>

  What a failed upgrade leaves of a database; the output and the argument parsing of the commands;
  logging, CORS and the mounting of the routers; the export of tables that are no longer used.
\<close>

end
